(* ===== verification/Rust_Str.thy ===== *)
theory Rust_Str
  imports "HOL-Library.Word" "HOL-Library.Char_ord" "HOL-Library.List_Lexorder"
    "HOL-Library.Product_Lexorder" "HOL-Library.Option_ord" "HOL-Library.Sublist" "HOL-Library.Code_Target_Numeral"
begin

text \<open>
  Prelude, part one: what the Rust standard library gives the program on
  \<open>str\<close>, \<open>Result\<close> and machine integers. A Rust \<open>str\<close> is its UTF-8 byte
  sequence, here a \<^typ>\<open>string\<close> (a \<^typ>\<open>char\<close> is one byte); methods that look
  at Unicode scalar values go through \<open>char_groups\<close>, which cuts the bytes into
  the encodings of single scalar values. A \<open>Result\<close> is a sum with the error on
  the left.
\<close>

named_theorems rust_str \<open>unfolding rules for the string library\<close>
named_theorems result_simps \<open>inversion rules for chained results\<close>

type_synonym u64 = "64 word"
type_synonym u32 = "32 word"
type_synonym ('e, 'a) result = "'e + 'a"

section \<open>Results\<close>

definition and_then :: "('e, 'a) result \<Rightarrow> ('a \<Rightarrow> ('e, 'b) result) \<Rightarrow> ('e, 'b) result" where
  "and_then r f = (case r of Inl e \<Rightarrow> Inl e | Inr x \<Rightarrow> f x)"

text \<open>Evaluation unfolds sequencing, so that a continuation is only evaluated on a value.\<close>

declare and_then_def [code_unfold]

definition map_err :: "('e \<Rightarrow> 'f) \<Rightarrow> ('e, 'a) result \<Rightarrow> ('f, 'a) result" where
  "map_err g r = (case r of Inl e \<Rightarrow> Inl (g e) | Inr x \<Rightarrow> Inr x)"

definition ok_or :: "'e \<Rightarrow> 'a option \<Rightarrow> ('e, 'a) result" where
  "ok_or e m = (case m of None \<Rightarrow> Inl e | Some x \<Rightarrow> Inr x)"

definition ensure :: "bool \<Rightarrow> 'e \<Rightarrow> ('e, unit) result" where
  "ensure b e = (if b then Inr () else Inl e)"

fun for_each :: "('a \<Rightarrow> ('e, unit) result) \<Rightarrow> 'a list \<Rightarrow> ('e, unit) result" where
  "for_each f [] = Inr ()"
| "for_each f (x # xs) = and_then (f x) (\<lambda>_. for_each f xs)"

definition ok_result :: "('e, 'a) result \<Rightarrow> bool" where
  "ok_result r = (case r of Inr _ \<Rightarrow> True | Inl _ \<Rightarrow> False)"

lemma ok_result_iff: "ok_result r \<longleftrightarrow> (\<exists>x. r = Inr x)"
  by (auto simp: ok_result_def split: sum.splits)

lemma and_then_simps [simp]:
  "and_then (Inl e) f = Inl e" "and_then (Inr x) f = f x"
  by (simp_all add: and_then_def)

lemma map_err_simps [simp]:
  "map_err g (Inl e) = Inl (g e)" "map_err g (Inr x) = Inr x"
  by (simp_all add: map_err_def)

lemma ok_or_simps [simp]: "ok_or e None = Inl e" "ok_or e (Some x) = Inr x"
  by (simp_all add: ok_or_def)

lemma ensure_simps [simp]: "ensure True e = Inr ()" "ensure False e = Inl e"
  by (simp_all add: ensure_def)

lemma if_Inl_Inr: "(if b then Inl e else r) = Inr x \<longleftrightarrow> \<not> b \<and> r = Inr x"
  by simp

lemma and_then_Inr [result_simps]:
  "and_then r f = Inr y \<longleftrightarrow> (\<exists>x. r = Inr x \<and> f x = Inr y)"
  by (cases r) auto

lemma and_then_Inl: "and_then r f = Inl e \<longleftrightarrow> r = Inl e \<or> (\<exists>x. r = Inr x \<and> f x = Inl e)"
  by (cases r) auto

lemma map_err_Inr [result_simps]: "map_err g r = Inr y \<longleftrightarrow> r = Inr y"
  by (cases r) auto

lemma ok_or_Inr [result_simps]: "ok_or e m = Inr y \<longleftrightarrow> m = Some y"
  by (cases m) auto

lemma ensure_Inr [result_simps]: "ensure b e = Inr u \<longleftrightarrow> b"
  by (cases b) auto

lemma for_each_same_error:
  assumes "\<And>x. x \<in> set xs \<Longrightarrow> f x = (if P x then Inl e else Inr ())"
  shows "for_each f xs = (if list_ex P xs then Inl e else Inr ())"
  using assms by (induction xs) simp_all

lemma for_each_map: "for_each f (map g xs) = for_each (f \<circ> g) xs"
  by (induction xs) simp_all

lemma for_each_Inr [result_simps]:
  "for_each f xs = Inr u \<longleftrightarrow> (\<forall>x\<in>set xs. f x = Inr ())"
  by (induction xs) (auto simp: result_simps)

lemma and_then_cong [fundef_cong]:
  "r = r' \<Longrightarrow> (\<And>x. r' = Inr x \<Longrightarrow> f x = g x) \<Longrightarrow> and_then r f = and_then r' g"
  by (cases r') auto

section \<open>Bytes\<close>

definition byte :: "char \<Rightarrow> nat" where
  "byte c = of_char c"

definition is_ascii :: "char \<Rightarrow> bool" where
  "is_ascii c \<longleftrightarrow> byte c < 128"

definition is_ascii_digit :: "char \<Rightarrow> bool" where
  "is_ascii_digit c \<longleftrightarrow> 48 \<le> byte c \<and> byte c \<le> 57"

definition is_ascii_lowercase :: "char \<Rightarrow> bool" where
  "is_ascii_lowercase c \<longleftrightarrow> 97 \<le> byte c \<and> byte c \<le> 122"

definition is_ascii_uppercase :: "char \<Rightarrow> bool" where
  "is_ascii_uppercase c \<longleftrightarrow> 65 \<le> byte c \<and> byte c \<le> 90"

definition is_ascii_alphabetic :: "char \<Rightarrow> bool" where
  "is_ascii_alphabetic c \<longleftrightarrow> is_ascii_lowercase c \<or> is_ascii_uppercase c"

definition is_ascii_alphanumeric :: "char \<Rightarrow> bool" where
  "is_ascii_alphanumeric c \<longleftrightarrow> is_ascii_alphabetic c \<or> is_ascii_digit c"

definition is_ascii_hexdigit :: "char \<Rightarrow> bool" where
  "is_ascii_hexdigit c \<longleftrightarrow> is_ascii_digit c \<or> (97 \<le> byte c \<and> byte c \<le> 102) \<or> (65 \<le> byte c \<and> byte c \<le> 70)"

definition is_ascii_control :: "char \<Rightarrow> bool" where
  "is_ascii_control c \<longleftrightarrow> byte c < 32 \<or> byte c = 127"

text \<open>A decimal digit or one of the letters \<open>a\<close> to \<open>f\<close>: the lower-case hexadecimal digits.\<close>

definition is_lower_hex :: "char \<Rightarrow> bool" where
  "is_lower_hex c \<longleftrightarrow> is_ascii_digit c \<or> (97 \<le> byte c \<and> byte c \<le> 102)"

lemmas ascii_class_defs = is_ascii_def is_ascii_digit_def is_ascii_lowercase_def
  is_ascii_uppercase_def is_ascii_alphabetic_def is_ascii_alphanumeric_def
  is_ascii_hexdigit_def is_ascii_control_def is_lower_hex_def

definition ascii_lower :: "char \<Rightarrow> char" where
  "ascii_lower c = (if is_ascii_uppercase c then char_of (byte c + 32) else c)"

definition to_ascii_lowercase :: "string \<Rightarrow> string" where
  "to_ascii_lowercase s = map ascii_lower s"

lemma byte_less [simp]: "byte c < 256"
  by (simp add: byte_def)

lemma byte_char_of [simp]: "byte (char_of n) = n mod 256"
  by (simp add: byte_def)

lemma char_of_byte [simp]: "char_of (byte c) = c"
  by (simp add: byte_def)

lemma byte_inject [simp]: "byte c = byte d \<longleftrightarrow> c = d"
  by (metis char_of_byte)

lemma byte_ascii_lower: "byte (ascii_lower c) = (if is_ascii_uppercase c then byte c + 32 else byte c)"
  by (auto simp: ascii_lower_def ascii_class_defs)

lemma ascii_lower_idem [simp]: "ascii_lower (ascii_lower c) = ascii_lower c"
  by (rule byte_inject [THEN iffD1]) (auto simp: byte_ascii_lower is_ascii_uppercase_def)

lemma to_ascii_lowercase_idem [simp]:
  "to_ascii_lowercase (to_ascii_lowercase s) = to_ascii_lowercase s"
  by (simp add: to_ascii_lowercase_def)

lemma length_to_ascii_lowercase [simp]: "length (to_ascii_lowercase s) = length s"
  by (simp add: to_ascii_lowercase_def)

lemma is_ascii_hexdigit_lower [simp]: "is_ascii_hexdigit (ascii_lower c) \<longleftrightarrow> is_ascii_hexdigit c"
  by (auto simp: is_ascii_hexdigit_def is_ascii_digit_def is_ascii_uppercase_def byte_ascii_lower)

lemma lower_hex_of_lower: "is_ascii_hexdigit c \<Longrightarrow> is_lower_hex (ascii_lower c)"
  by (auto simp: is_ascii_hexdigit_def is_lower_hex_def is_ascii_digit_def is_ascii_uppercase_def byte_ascii_lower)

section \<open>UTF-8\<close>

text \<open>The width of a scalar value's encoding, from its first byte.\<close>

definition utf8_width :: "char \<Rightarrow> nat" where
  "utf8_width c = (let n = byte c in
     if n < 192 then 1 else if n < 224 then 2 else if n < 240 then 3 else 4)"

text \<open>The encodings of the scalar values of a string, in order: what \<open>str::chars\<close> walks over.\<close>

fun char_groups :: "string \<Rightarrow> string list" where
  "char_groups [] = []"
| "char_groups (c # cs) =
     (c # take (utf8_width c - 1) cs) # char_groups (drop (utf8_width c - 1) cs)"

text \<open>The scalar value an encoding stands for.\<close>

fun code_point :: "string \<Rightarrow> nat" where
  "code_point [a] = byte a"
| "code_point [a, b] = (byte a mod 32) * 64 + byte b mod 64"
| "code_point [a, b, c] = (byte a mod 16) * 4096 + (byte b mod 64) * 64 + byte c mod 64"
| "code_point [a, b, c, d] =
     (byte a mod 8) * 262144 + (byte b mod 64) * 4096 + (byte c mod 64) * 64 + byte d mod 64"
| "code_point _ = 0"

definition chars :: "string \<Rightarrow> nat list" where
  "chars s = map code_point (char_groups s)"

text \<open>\<open>char::is_whitespace\<close>: the Unicode property \<open>White_Space\<close>.\<close>

definition is_whitespace :: "nat \<Rightarrow> bool" where
  "is_whitespace n \<longleftrightarrow> (9 \<le> n \<and> n \<le> 13) \<or> n = 32 \<or> n = 133 \<or> n = 160 \<or> n = 5760 \<or>
     (8192 \<le> n \<and> n \<le> 8202) \<or> n = 8232 \<or> n = 8233 \<or> n = 8239 \<or> n = 8287 \<or> n = 12288"

text \<open>\<open>char::is_control\<close>: the Unicode category \<open>Cc\<close>.\<close>

definition is_control :: "nat \<Rightarrow> bool" where
  "is_control n \<longleftrightarrow> n < 32 \<or> (127 \<le> n \<and> n < 160)"

definition any_whitespace :: "string \<Rightarrow> bool" where
  "any_whitespace s \<longleftrightarrow> list_ex is_whitespace (chars s)"

definition any_control :: "string \<Rightarrow> bool" where
  "any_control s \<longleftrightarrow> list_ex is_control (chars s)"

definition utf8_cont :: "nat \<Rightarrow> nat \<Rightarrow> char \<Rightarrow> bool" where
  "utf8_cont lo hi c \<longleftrightarrow> lo \<le> byte c \<and> byte c \<le> hi"

text \<open>Well-formed UTF-8: the test of \<open>String::from_utf8\<close> (no overlong form, no surrogate).\<close>

fun utf8_valid :: "string \<Rightarrow> bool" where
  "utf8_valid [] = True"
| "utf8_valid (a # cs) =
     (if byte a < 128 then utf8_valid cs
      else (case cs of
        [] \<Rightarrow> False
      | b # cs2 \<Rightarrow>
          if 194 \<le> byte a \<and> byte a \<le> 223 then utf8_cont 128 191 b \<and> utf8_valid cs2
          else (case cs2 of
            [] \<Rightarrow> False
          | c # cs3 \<Rightarrow>
              if byte a = 224 then utf8_cont 160 191 b \<and> utf8_cont 128 191 c \<and> utf8_valid cs3
              else if byte a = 237 then utf8_cont 128 159 b \<and> utf8_cont 128 191 c \<and> utf8_valid cs3
              else if 225 \<le> byte a \<and> byte a \<le> 239 then
                utf8_cont 128 191 b \<and> utf8_cont 128 191 c \<and> utf8_valid cs3
              else (case cs3 of
                [] \<Rightarrow> False
              | d # cs4 \<Rightarrow>
                  utf8_cont 128 191 c \<and> utf8_cont 128 191 d \<and> utf8_valid cs4 \<and>
                  (byte a = 240 \<and> utf8_cont 144 191 b \<or>
                   241 \<le> byte a \<and> byte a \<le> 243 \<and> utf8_cont 128 191 b \<or>
                   byte a = 244 \<and> utf8_cont 128 143 b)))))"

text \<open>
  \<open>to_string_lossy\<close>: every maximal piece that is not well formed becomes the replacement character
  U+FFFD. After a first byte, a piece goes on as long as its bytes may follow; the second one is
  restricted by the first, so that neither overlong forms nor surrogates come out.
\<close>

definition utf8_second :: "char \<Rightarrow> char \<Rightarrow> bool" where
  "utf8_second a b \<longleftrightarrow>
     (if byte a = 224 then utf8_cont 160 191 b else if byte a = 237 then utf8_cont 128 159 b
      else if byte a = 240 then utf8_cont 144 191 b else if byte a = 244 then utf8_cont 128 143 b
      else utf8_cont 128 191 b)"

definition utf8_more :: "char \<Rightarrow> nat" where
  "utf8_more a =
     (if 194 \<le> byte a \<and> byte a \<le> 223 then 1 else if 224 \<le> byte a \<and> byte a \<le> 239 then 2
      else if 240 \<le> byte a \<and> byte a \<le> 244 then 3 else 0)"

definition utf8_run :: "char \<Rightarrow> string \<Rightarrow> nat" where
  "utf8_run a cs =
     (case take (utf8_more a) cs of
        [] \<Rightarrow> 0
      | b # more \<Rightarrow> if utf8_second a b then Suc (length (takeWhile (utf8_cont 128 191) more)) else 0)"

definition replacement_character :: string where
  "replacement_character = [CHR 0xEF, CHR 0xBF, CHR 0xBD]"

fun to_string_lossy :: "string \<Rightarrow> string" where
  "to_string_lossy [] = []"
| "to_string_lossy (a # cs) =
     (if byte a < 128 then a # to_string_lossy cs
      else (let n = utf8_run a cs in
        (if 0 < n \<and> n = utf8_more a then a # take n cs else replacement_character) @ to_string_lossy (drop n cs)))"

lemma char_groups_ascii: "list_all is_ascii s \<Longrightarrow> char_groups s = map (\<lambda>c. [c]) s"
  by (induction s rule: char_groups.induct) (auto simp: utf8_width_def is_ascii_def Let_def)

lemma chars_ascii: "list_all is_ascii s \<Longrightarrow> chars s = map byte s"
  by (simp add: chars_def char_groups_ascii)

lemma utf8_valid_ascii: "list_all is_ascii s \<Longrightarrow> utf8_valid s"
  by (induction s) (auto simp: is_ascii_def)

text \<open>One step of the check, by the bytes that follow the first.\<close>

lemma utf8_valid_step:
  "utf8_valid (a # cs) \<longleftrightarrow>
     (if byte a < 128 then utf8_valid cs
      else 0 < utf8_more a \<and> utf8_run a cs = utf8_more a \<and> utf8_valid (drop (utf8_more a) cs))"
proof -
  have one: "utf8_more a = 1" if "194 \<le> byte a" "byte a \<le> 223" using that by (simp add: utf8_more_def)
  have two: "utf8_more a = 2" if "224 \<le> byte a" "byte a \<le> 239" using that by (simp add: utf8_more_def)
  have three: "utf8_more a = 3" if "240 \<le> byte a" "byte a \<le> 244" using that by (simp add: utf8_more_def)
  consider "byte a < 128" | "194 \<le> byte a" "byte a \<le> 223" | "224 \<le> byte a" "byte a \<le> 239"
    | "240 \<le> byte a" "byte a \<le> 244" | "128 \<le> byte a" "byte a < 194 \<or> 244 < byte a" by linarith
  then show ?thesis
  proof cases
    case 1
    then show ?thesis by (simp add: utf8_valid.simps(2) [of a cs])
  next
    case 2
    then show ?thesis
      unfolding utf8_valid.simps(2) [of a cs] utf8_run_def one [OF 2] utf8_second_def
      by (cases cs) (simp_all del: utf8_valid.simps)
  next
    case 3
    then show ?thesis
      unfolding utf8_valid.simps(2) [of a cs] utf8_run_def two [OF 3] utf8_second_def
      by (cases cs; cases "tl cs") (simp_all add: numeral_2_eq_2 del: utf8_valid.simps)
  next
    case 4
    then show ?thesis
      unfolding utf8_valid.simps(2) [of a cs] utf8_run_def three [OF 4] utf8_second_def
      by (cases cs; cases "tl cs"; cases "tl (tl cs)") (auto simp: numeral_3_eq_3 simp del: utf8_valid.simps)
  next
    case 5
    then have "utf8_more a = 0" by (auto simp: utf8_more_def)
    with 5 show ?thesis
      unfolding utf8_valid.simps(2) [of a cs]
      by (cases cs; cases "tl cs"; cases "tl (tl cs)") (auto simp del: utf8_valid.simps)
  qed
qed

lemma utf8_run_full:
  assumes "utf8_run a cs = utf8_more a" "0 < utf8_more a"
  shows "utf8_more a \<le> length cs" and "c \<in> set (take (utf8_more a) cs) \<Longrightarrow> 128 \<le> byte c"
proof -
  obtain b more where t: "take (utf8_more a) cs = b # more"
    using assms by (cases "take (utf8_more a) cs") (auto simp: utf8_run_def)
  have second: "utf8_second a b" using assms t by (simp add: utf8_run_def split: if_splits)
  then have run: "Suc (length (takeWhile (utf8_cont 128 191) more)) = utf8_more a" using assms(1) t by (simp add: utf8_run_def)
  have len: "length (take (utf8_more a) cs) \<le> utf8_more a" by simp
  have "length more = length (takeWhile (utf8_cont 128 191) more)"
    using run len length_takeWhile_le [of "utf8_cont 128 191" more] unfolding t by simp
  then have all: "takeWhile (utf8_cont 128 191) more = more"
    by (metis takeWhile_eq_take take_all_iff order_refl)
  have "length (take (utf8_more a) cs) = utf8_more a" unfolding t using run all by simp
  then show "utf8_more a \<le> length cs" by simp
  have "128 \<le> byte b" using second by (auto simp: utf8_second_def utf8_cont_def split: if_splits)
  moreover have "128 \<le> byte c" if "c \<in> set more" for c
    using all that set_takeWhileD [of c "utf8_cont 128 191" more] by (simp add: utf8_cont_def)
  ultimately show "c \<in> set (take (utf8_more a) cs) \<Longrightarrow> 128 \<le> byte c" unfolding t by auto
qed

lemma utf8_run_cong: "take (utf8_more a) cs = take (utf8_more a) ds \<Longrightarrow> utf8_run a cs = utf8_run a ds"
  by (simp add: utf8_run_def)

lemma to_string_lossy_id: "utf8_valid s \<Longrightarrow> to_string_lossy s = s"
proof (induction s rule: to_string_lossy.induct)
  case (2 a cs)
  then show ?case unfolding utf8_valid_step by (auto simp: Let_def split: if_splits)
qed simp

lemma utf8_append: "utf8_valid s \<Longrightarrow> utf8_valid r \<Longrightarrow> utf8_valid (s @ r)"
proof (induction s rule: to_string_lossy.induct)
  case (2 a cs)
  show ?case
  proof (cases "byte a < 128")
    case False
    then have v: "0 < utf8_more a" "utf8_run a cs = utf8_more a" "utf8_valid (drop (utf8_more a) cs)"
      using 2(3) by (simp_all add: utf8_valid_step del: utf8_valid.simps)
    have len: "utf8_more a \<le> length cs" using utf8_run_full(1) [OF v(2,1)] .
    have "utf8_run a (cs @ r) = utf8_more a" using v(2) len utf8_run_cong [of a "cs @ r" cs] by simp
    moreover have "utf8_valid (drop (utf8_more a) cs @ r)" using 2(2) [OF False] v 2(4) by simp
    ultimately show ?thesis using False v(1) len by (simp add: utf8_valid_step [of a "cs @ r"] del: utf8_valid.simps)
  qed (use 2 in \<open>simp add: utf8_valid_step del: utf8_valid.simps\<close>)
qed simp

lemma utf8_split: "utf8_valid (s @ c # r) \<Longrightarrow> byte c < 128 \<Longrightarrow> utf8_valid s \<and> utf8_valid r"
proof (induction s rule: to_string_lossy.induct)
  case (2 a cs)
  show ?case
  proof (cases "byte a < 128")
    case False
    then have v: "0 < utf8_more a" "utf8_run a (cs @ c # r) = utf8_more a" "utf8_valid (drop (utf8_more a) (cs @ c # r))"
      using 2(3) by (simp_all add: utf8_valid_step del: utf8_valid.simps)
    have "c \<notin> set (take (utf8_more a) (cs @ c # r))" using utf8_run_full(2) [OF v(2,1), of c] 2(4) by auto
    then have len: "utf8_more a \<le> length cs" by (cases "utf8_more a - length cs") (auto simp del: utf8_valid.simps)
    have run: "utf8_run a cs = utf8_more a" using v(2) len utf8_run_cong [of a cs "cs @ c # r"] by simp
    have "utf8_valid (drop (utf8_more a) cs) \<and> utf8_valid r" using 2(2) [OF False] run v(3) len 2(4) by simp
    then show ?thesis using False v(1) run by (simp add: utf8_valid_step [of a cs] del: utf8_valid.simps)
  qed (use 2 in \<open>simp add: utf8_valid_step del: utf8_valid.simps\<close>)
qed (simp add: utf8_valid_step del: utf8_valid.simps(2))

lemma to_string_lossy_valid: "utf8_valid (to_string_lossy s)"
proof (induction s rule: to_string_lossy.induct)
  case (2 a cs)
  let ?n = "utf8_run a cs"
  show ?case
  proof (cases "byte a < 128")
    case True
    then show ?thesis using 2(1) by (simp add: utf8_valid_step del: utf8_valid.simps(2))
  next
    case False
    note rest = 2(2) [OF False refl]
    show ?thesis
    proof (cases "0 < ?n \<and> ?n = utf8_more a")
      case True
      then have full: "utf8_more a \<le> length cs" using utf8_run_full(1) [of a cs] by simp
      then have "utf8_run a (take ?n cs @ to_string_lossy (drop ?n cs)) = ?n"
        using True utf8_run_cong [of a "take ?n cs @ to_string_lossy (drop ?n cs)" cs] by simp
      then show ?thesis using False True full rest by (simp add: utf8_valid_step Let_def del: utf8_valid.simps(2))
    next
      case bad: False
      have "utf8_valid replacement_character" by code_simp
      then show ?thesis using False bad utf8_append [OF _ rest] by (auto simp: Let_def)
    qed
  qed
qed simp

lemma concat_char_groups [simp]: "concat (char_groups s) = s"
  by (induction s rule: char_groups.induct) auto

lemma any_whitespace_ascii:
  "list_all is_ascii s \<Longrightarrow> any_whitespace s \<longleftrightarrow> list_ex (\<lambda>c. is_whitespace (byte c)) s"
  by (simp add: any_whitespace_def chars_ascii list_ex_iff)

lemma any_control_ascii:
  "list_all is_ascii s \<Longrightarrow> any_control s \<longleftrightarrow> list_ex (\<lambda>c. is_control (byte c)) s"
  by (simp add: any_control_def chars_ascii list_ex_iff)

section \<open>Searching and splitting\<close>

definition strip_prefix :: "string \<Rightarrow> string \<Rightarrow> string option" where
  "strip_prefix p s = (if prefix p s then Some (drop (length p) s) else None)"

definition ends_with :: "string \<Rightarrow> string \<Rightarrow> bool" where
  "ends_with q s \<longleftrightarrow> suffix q s"

text \<open>\<open>str::split\<close> with a one-byte pattern: never an empty list.\<close>

fun split_char :: "char \<Rightarrow> string \<Rightarrow> string list" where
  "split_char d [] = [[]]"
| "split_char d (c # cs) =
     (if c = d then [] # split_char d cs
      else (case split_char d cs of [] \<Rightarrow> [[c]] | x # xs \<Rightarrow> (c # x) # xs))"

text \<open>\<open>str::split_once\<close> at the first occurrence of a non-empty pattern.\<close>

fun split_once :: "string \<Rightarrow> string \<Rightarrow> (string \<times> string) option" where
  "split_once p [] = None"
| "split_once p (c # cs) =
     (if prefix p (c # cs) then Some ([], drop (length p) (c # cs))
      else map_option (\<lambda>(a, b). (c # a, b)) (split_once p cs))"

lemma split_once_length: "split_once p s = Some (a, b) \<Longrightarrow> p \<noteq> [] \<Longrightarrow> length b < length s"
proof (induction s arbitrary: a)
  case (Cons c cs)
  show ?case
  proof (cases "prefix p (c # cs)")
    case True
    with Cons.prems have "c # cs = p @ b" by (auto simp: prefix_def)
    then have "length (c # cs) = length (p @ b)" by (rule arg_cong)
    with Cons.prems(2) show ?thesis by (cases p) auto
  next
    case False
    with Cons show ?thesis by (fastforce split: if_splits)
  qed
qed simp

text \<open>\<open>str::split\<close> with a non-empty string pattern.\<close>

function split_str :: "string \<Rightarrow> string \<Rightarrow> string list" where
  "split_str p s =
     (if p = [] then [s]
      else (case split_once p s of None \<Rightarrow> [s] | Some (a, b) \<Rightarrow> a # split_str p b))"
  by pat_completeness auto
termination
  by (relation "measure (\<lambda>(p, s). length s)") (auto dest: split_once_length)

declare split_str.simps [simp del]

text \<open>\<open>str::rsplit_once\<close> at the last occurrence of a byte.\<close>

fun rsplit_once :: "char \<Rightarrow> string \<Rightarrow> (string \<times> string) option" where
  "rsplit_once d [] = None"
| "rsplit_once d (c # cs) =
     (case rsplit_once d cs of
        Some (a, b) \<Rightarrow> Some (c # a, b)
      | None \<Rightarrow> if c = d then Some ([], cs) else None)"

text \<open>The index \<open>str::rfind\<close> returns for a byte.\<close>

definition rfind :: "char \<Rightarrow> string \<Rightarrow> nat option" where
  "rfind d s = map_option (\<lambda>(a, b). length a) (rsplit_once d s)"

definition whitespace_group :: "string \<Rightarrow> bool" where
  "whitespace_group g \<longleftrightarrow> is_whitespace (code_point g)"

definition trim :: "string \<Rightarrow> string" where
  "trim s = concat (rev (dropWhile whitespace_group (rev (dropWhile whitespace_group (char_groups s)))))"

text \<open>\<open>str::split_whitespace\<close>: the maximal runs of non-white-space characters.\<close>

function split_groups :: "string list \<Rightarrow> string list" where
  "split_groups gs =
     (case dropWhile whitespace_group gs of
        [] \<Rightarrow> []
      | g # rest \<Rightarrow>
          concat (g # takeWhile (\<lambda>x. \<not> whitespace_group x) rest) #
          split_groups (dropWhile (\<lambda>x. \<not> whitespace_group x) rest))"
  by pat_completeness auto
termination
proof (relation "measure length", goal_cases)
  case 1
  show ?case by simp
next
  case (2 gs g rest)
  have "length (dropWhile (\<lambda>x. \<not> whitespace_group x) rest) \<le> length rest"
    by (rule length_dropWhile_le)
  moreover have "length (dropWhile whitespace_group gs) \<le> length gs"
    by (rule length_dropWhile_le)
  ultimately show ?case using 2 by simp
qed

declare split_groups.simps [simp del]

definition split_whitespace :: "string \<Rightarrow> string list" where
  "split_whitespace s = split_groups (char_groups s)"

fun join :: "string \<Rightarrow> string list \<Rightarrow> string" where
  "join sep [] = []"
| "join sep [x] = x"
| "join sep (x # y # ys) = x @ sep @ join sep (y # ys)"

section \<open>Numbers\<close>

definition u64_max :: nat where
  "u64_max = 18446744073709551615"

definition checked_add :: "u64 \<Rightarrow> u64 \<Rightarrow> u64 option" where
  "checked_add a b = (if unat a + unat b \<le> u64_max then Some (a + b) else None)"

definition saturating_add :: "nat \<Rightarrow> nat \<Rightarrow> nat" where
  "saturating_add a b = min (a + b) u64_max"

definition saturating_mul :: "nat \<Rightarrow> nat \<Rightarrow> nat" where
  "saturating_mul a b = min (a * b) u64_max"

definition digit_value :: "char \<Rightarrow> nat" where
  "digit_value c = byte c - 48"

fun dec_value :: "nat \<Rightarrow> string \<Rightarrow> nat" where
  "dec_value acc [] = acc"
| "dec_value acc (c # cs) = dec_value (acc * 10 + digit_value c) cs"

text \<open>\<open>u64::from_str\<close>: an optional plus sign, at least one digit, and no overflow.\<close>

definition parse_u64 :: "string \<Rightarrow> u64 option" where
  "parse_u64 s =
     (let ds = (case s of c # cs \<Rightarrow> if c = CHR ''+'' then cs else s | [] \<Rightarrow> s) in
      if ds = [] \<or> \<not> list_all is_ascii_digit ds \<or> u64_max < dec_value 0 ds then None
      else Some (word_of_nat (dec_value 0 ds)))"

text \<open>Decimal rendering, as \<open>Display\<close> for unsigned integers prints it.\<close>

fun dec_string :: "nat \<Rightarrow> string" where
  "dec_string n = (if n < 10 then [char_of (48 + n)]
     else dec_string (n div 10) @ [char_of (48 + n mod 10)])"

declare dec_string.simps [simp del]

text \<open>\<open>char::to_digit(16)\<close>.\<close>

definition to_digit16 :: "char \<Rightarrow> nat option" where
  "to_digit16 c =
     (if is_ascii_digit c then Some (byte c - 48)
      else if 97 \<le> byte c \<and> byte c \<le> 102 then Some (byte c - 87)
      else if 65 \<le> byte c \<and> byte c \<le> 70 then Some (byte c - 55)
      else None)"

text \<open>One upper-case hexadecimal digit, as the format directive \<open>02X\<close> prints it.\<close>

definition hex_upper :: "nat \<Rightarrow> char" where
  "hex_upper n = (if n < 10 then char_of (48 + n) else char_of (55 + n))"

section \<open>Lemmas on searching and splitting\<close>

lemma strip_prefix_Some: "strip_prefix p s = Some r \<longleftrightarrow> s = p @ r"
  by (auto simp: strip_prefix_def prefix_def)

lemma strip_prefix_append [simp]: "strip_prefix p (p @ r) = Some r"
  by (simp add: strip_prefix_Some)

lemma strip_prefix_simps [simp]:
  "strip_prefix [] s = Some s"
  "strip_prefix (c # p) [] = None"
  "strip_prefix (c # p) (d # s) = (if c = d then strip_prefix p s else None)"
  by (simp_all add: strip_prefix_def)

lemma prefix_single: "prefix [c] s \<longleftrightarrow> s \<noteq> [] \<and> hd s = c"
  by (cases s) auto

lemma ends_with_single: "ends_with [c] s \<longleftrightarrow> s \<noteq> [] \<and> last s = c"
  by (cases s rule: rev_cases) (auto simp: ends_with_def)

lemma split_char_not_Nil [simp]: "split_char d s \<noteq> []"
  by (cases s) (auto split: list.splits)

lemma split_char_no_sep: "d \<notin> set s \<Longrightarrow> split_char d s = [s]"
  by (induction s) auto

lemma split_char_append_sep:
  "d \<notin> set a \<Longrightarrow> split_char d (a @ d # b) = a # split_char d b"
  by (induction a) auto

lemma utf8_pieces: "utf8_valid s \<Longrightarrow> byte d < 128 \<Longrightarrow> x \<in> set (split_char d s) \<Longrightarrow> utf8_valid x"
proof (induction "length s" arbitrary: s rule: less_induct)
  case less
  show ?case
  proof (cases "d \<in> set s")
    case True
    then obtain a b where s: "s = a @ d # b" "d \<notin> set a" using split_list_first by metis
    have ab: "utf8_valid a \<and> utf8_valid b" using less.prems(1,2) utf8_split unfolding s(1) by blast
    have "x = a \<or> x \<in> set (split_char d b)" using less.prems(3) split_char_append_sep [OF s(2)] by (simp add: s(1))
    then show ?thesis using ab less.hyps [of b] less.prems(2) s(1) by auto
  qed (use less.prems in \<open>simp add: split_char_no_sep\<close>)
qed

lemma split_char_parts_no_sep: "x \<in> set (split_char d s) \<Longrightarrow> d \<notin> set x"
  by (induction s arbitrary: x) (auto split: list.splits if_splits)

lemma set_split_char: "x \<in> set (split_char d s) \<Longrightarrow> set x \<subseteq> set s"
  by (induction s arbitrary: x) (fastforce split: list.splits if_splits)+

lemma join_split_char: "join [d] (split_char d s) = s"
proof (induction s)
  case (Cons c cs)
  show ?case
  proof (cases "split_char d cs")
    case (Cons x xs)
    then show ?thesis using Cons.IH by (cases xs) auto
  qed simp
qed simp

lemma split_char_two: "split_char d v = [a, b] \<Longrightarrow> v = a @ d # b"
  using join_split_char [of d v] by simp

lemma split_char_join:
  "xs \<noteq> [] \<Longrightarrow> (\<And>x. x \<in> set xs \<Longrightarrow> d \<notin> set x) \<Longrightarrow> split_char d (join [d] xs) = xs"
proof (induction xs)
  case (Cons x xs)
  then show ?case
    by (cases xs) (auto simp: split_char_no_sep split_char_append_sep)
qed simp

lemma rsplit_once_no_sep: "d \<notin> set s \<Longrightarrow> rsplit_once d s = None"
  by (induction s) auto

lemma rsplit_once_append: "d \<notin> set b \<Longrightarrow> rsplit_once d (a @ d # b) = Some (a, b)"
  by (induction a) (auto simp: rsplit_once_no_sep)

lemma rsplit_once_Some: "rsplit_once d s = Some (a, b) \<Longrightarrow> s = a @ d # b \<and> d \<notin> set b"
proof (induction s arbitrary: a)
  case (Cons c cs)
  show ?case
  proof (cases "rsplit_once d cs")
    case None
    have "d \<notin> set cs" using None by (induction cs) (auto split: option.splits if_splits)
    with None Cons.prems show ?thesis by (auto split: if_splits)
  next
    case (Some r)
    with Cons show ?thesis by (auto split: prod.splits)
  qed
qed simp

lemma split_once_Some: "split_once p s = Some (a, b) \<Longrightarrow> s = a @ p @ b"
  by (induction s arbitrary: a) (auto split: if_splits simp: prefix_def)

text \<open>A pattern whose first byte does not occur in the left part is found where it was put.\<close>

lemma split_once_append:
  "p = h # t \<Longrightarrow> h \<notin> set a \<Longrightarrow> split_once p (a @ p @ b) = Some (a, b)"
  by (induction a) auto

lemma join_Cons: "xs \<noteq> [] \<Longrightarrow> join sep (x # xs) = x @ sep @ join sep xs"
  by (cases xs) auto

lemma set_join: "set (join sep xs) \<subseteq> set sep \<union> \<Union> (set ` set xs)"
  by (induction sep xs rule: join.induct) auto

lemma join_eq_Nil: "(\<And>x. x \<in> set xs \<Longrightarrow> x \<noteq> []) \<Longrightarrow> join sep xs = [] \<longleftrightarrow> xs = []"
  by (induction sep xs rule: join.induct) auto

lemma hex_upper_digits:
  "n < 16 \<Longrightarrow> to_digit16 (hex_upper n) = Some n"
  by (auto simp: hex_upper_def to_digit16_def is_ascii_digit_def)

lemma checked_add_Some: "checked_add a b = Some c \<longleftrightarrow> unat a + unat b \<le> u64_max \<and> c = a + b"
  by (auto simp: checked_add_def)

lemma unat_u64_le_max: "unat (a :: u64) \<le> u64_max"
  using unsigned_less [of a, where 'a = nat] by (simp add: u64_max_def)

lemma unat_add_u64: "unat a + unat b \<le> u64_max \<Longrightarrow> unat (a + b :: u64) = unat a + unat b"
  by (simp add: u64_max_def unat_word_ariths)

lemma saturating_add_le_max: "saturating_add a b \<le> u64_max"
  by (simp add: saturating_add_def)

lemma saturating_add_small: "a + b \<le> u64_max \<Longrightarrow> saturating_add a b = a + b"
  by (simp add: saturating_add_def)

lemma dec_string_not_Nil [simp]: "dec_string n \<noteq> []"
  by (subst dec_string.simps) simp

lemma dec_string_digits: "c \<in> set (dec_string n) \<Longrightarrow> is_ascii_digit c"
proof (induction n rule: dec_string.induct)
  case (1 n)
  then show ?case
    by (subst (asm) dec_string.simps) (auto simp: is_ascii_digit_def split: if_splits)
qed

section \<open>Decimal text\<close>

lemma dec_value_snoc: "dec_value acc (s @ [c]) = dec_value acc s * 10 + digit_value c"
  by (induction s arbitrary: acc) auto

lemma dec_value_dec_string [simp]: "dec_value 0 (dec_string n) = n"
proof (induction n rule: dec_string.induct)
  case (1 n)
  then show ?case
    by (subst dec_string.simps) (auto simp: dec_value_snoc digit_value_def)
qed

lemma dec_string_inject [simp]: "dec_string a = dec_string b \<longleftrightarrow> a = b"
  by (metis dec_value_dec_string)

lemma dec_string_all_digits: "list_all is_ascii_digit (dec_string n)"
  by (simp add: list_all_iff dec_string_digits)

lemma dec_string_no: "\<not> is_ascii_digit c \<Longrightarrow> c \<notin> set (dec_string n)"
  using dec_string_digits by blast

lemma not_digit [simp]:
  "\<not> is_ascii_digit (CHR ''.'')" "\<not> is_ascii_digit (CHR ''-'')" "\<not> is_ascii_digit (CHR ''+'')"
  by code_simp+

lemma parse_u64_dec_string [simp]: "parse_u64 (dec_string (unat w)) = Some w"
proof -
  have "(case dec_string (unat w) of c # cs \<Rightarrow> if c = CHR ''+'' then cs else dec_string (unat w) | [] \<Rightarrow> dec_string (unat w)) = dec_string (unat w)"
    using dec_string_no [of "CHR ''+''" "unat w"] by (auto split: list.splits)
  moreover have "\<not> u64_max < unat w"
    using unat_u64_le_max [of w] by simp
  ultimately show ?thesis
    by (simp add: parse_u64_def dec_string_all_digits)
qed

lemma split_once_single_None: "c \<notin> set s \<Longrightarrow> split_once [c] s = None"
  by (induction s) auto

section \<open>Trimming\<close>

text \<open>Lists of encodings that \<open>char_groups\<close> reproduces: every group but the last is complete.\<close>

fun groups_ok :: "string list \<Rightarrow> bool" where
  "groups_ok [] = True"
| "groups_ok (g # gs) \<longleftrightarrow> g \<noteq> [] \<and>
     (if gs = [] then length g \<le> utf8_width (hd g) else length g = utf8_width (hd g)) \<and> groups_ok gs"

lemma utf8_width_pos: "0 < utf8_width c"
  by (simp add: utf8_width_def Let_def)

lemma groups_ok_char_groups: "groups_ok (char_groups s)"
proof (induction s rule: char_groups.induct)
  case (2 c cs)
  have "char_groups (drop (utf8_width c - 1) cs) = [] \<longleftrightarrow> length cs \<le> utf8_width c - 1"
    by (metis char_groups.simps drop_eq_Nil list.distinct(1) neq_Nil_conv)
  then show ?case using 2 utf8_width_pos [of c] by auto
qed simp

lemma char_groups_concat: "groups_ok gs \<Longrightarrow> char_groups (concat gs) = gs"
proof (induction gs)
  case (Cons g gs)
  then obtain c r where g: "g = c # r" by (cases g) auto
  show ?case
  proof (cases "gs = []")
    case True
    with Cons g show ?thesis by simp
  next
    case False
    with Cons g have "length r = utf8_width c - 1" by (simp del: One_nat_def) linarith
    with Cons g False show ?thesis by simp
  qed
qed simp

lemma groups_ok_append: "groups_ok (gs @ hs) \<Longrightarrow> groups_ok gs \<and> groups_ok hs"
  by (induction gs) (auto split: if_splits)

definition trim_list :: "('a \<Rightarrow> bool) \<Rightarrow> 'a list \<Rightarrow> 'a list" where
  "trim_list P xs = rev (dropWhile P (rev (dropWhile P xs)))"

lemma trim_list_split: "\<exists>l r. xs = l @ trim_list P xs @ r"
proof -
  have "dropWhile P xs = trim_list P xs @ rev (takeWhile P (rev (dropWhile P xs)))"
    unfolding trim_list_def by (metis rev_append rev_rev_ident takeWhile_dropWhile_id)
  then show ?thesis by (metis takeWhile_dropWhile_id)
qed

lemma trim_list_idem: "trim_list P (trim_list P xs) = trim_list P xs"
proof (cases "trim_list P xs")
  case Nil
  then show ?thesis unfolding Nil by (simp add: trim_list_def)
next
  case (Cons y ys)
  let ?d = "dropWhile P xs"
  have d: "?d = (y # ys) @ rev (takeWhile P (rev ?d))"
    unfolding Cons [symmetric] trim_list_def by (metis rev_append rev_rev_ident takeWhile_dropWhile_id)
  then have "\<not> P y" using hd_dropWhile [of P xs] by (metis append_Cons list.distinct(1) list.sel(1))
  then have 1: "dropWhile P (y # ys) = y # ys" by simp
  have "dropWhile P (rev (y # ys)) = rev (y # ys)"
    by (metis Cons dropWhile_idem rev_rev_ident trim_list_def)
  then have "trim_list P (y # ys) = y # ys" by (simp only: trim_list_def 1 rev_rev_ident)
  with Cons show ?thesis by simp
qed

lemma trim_trim [simp]: "trim (trim s) = trim s"
proof -
  let ?t = "trim_list whitespace_group (char_groups s)"
  have t: "trim s = concat ?t" by (simp add: trim_def trim_list_def)
  have "groups_ok ?t"
    by (metis groups_ok_append groups_ok_char_groups trim_list_split)
  then have "char_groups (trim s) = ?t" by (simp add: t char_groups_concat)
  moreover have "trim (trim s) = concat (trim_list whitespace_group (char_groups (trim s)))"
    by (simp add: trim_def trim_list_def)
  ultimately show ?thesis by (simp add: trim_list_idem t)
qed

definition plain_char :: "char \<Rightarrow> bool" where
  "plain_char c \<longleftrightarrow> is_ascii c \<and> \<not> is_whitespace (byte c)"

lemma plain_groups:
  "list_all plain_char s \<Longrightarrow> char_groups s = map (\<lambda>c. [c]) s \<and> (\<forall>g\<in>set (char_groups s). \<not> whitespace_group g)"
  by (subst char_groups_ascii) (auto simp: plain_char_def list_all_iff whitespace_group_def char_groups_ascii)

lemma trim_plain: "list_all plain_char s \<Longrightarrow> trim s = s"
proof -
  assume s: "list_all plain_char s"
  then have "dropWhile whitespace_group (char_groups s) = char_groups s"
    "dropWhile whitespace_group (rev (char_groups s)) = rev (char_groups s)"
    using plain_groups [OF s] by (metis dropWhile_eq_self_iff hd_in_set, metis dropWhile_eq_self_iff hd_in_set set_rev)
  then show ?thesis by (simp add: trim_def)
qed

lemma split_whitespace_plain: "list_all plain_char s \<Longrightarrow> s \<noteq> [] \<Longrightarrow> split_whitespace s = [s]"
proof -
  assume s: "list_all plain_char s" "s \<noteq> []"
  then obtain g gs where g: "char_groups s = g # gs" by (cases s) auto
  with plain_groups [OF s(1)] have n: "\<not> whitespace_group g" "\<forall>x\<in>set gs. \<not> whitespace_group x" by auto
  then have "takeWhile (\<lambda>x. \<not> whitespace_group x) gs = gs" "dropWhile (\<lambda>x. \<not> whitespace_group x) gs = []"
    by (simp_all add: takeWhile_eq_all_conv)
  then have "split_groups (g # gs) = [concat (g # gs)]"
    using n(1) split_groups.simps [of "[]"] by (subst split_groups.simps) (simp only: dropWhile.simps if_False list.case)
  then show ?thesis by (metis concat_char_groups g split_whitespace_def)
qed

lemma split_char_prefix:
  "d \<notin> set a \<Longrightarrow> split_char d (a @ b) = (a @ hd (split_char d b)) # tl (split_char d b)"
  by (induction a) (auto split: list.splits)

lemma split_once_absent: "p = h # t \<Longrightarrow> h \<notin> set s \<Longrightarrow> split_once p s = None"
  by (induction s) auto

lemma split_str_not_Nil: "split_str p s \<noteq> []"
  by (subst split_str.simps) (auto split: option.splits)

end
