(* ===== verification/Rust_Collections.thy ===== *)
theory Rust_Collections
  imports Rust_Str
begin

text \<open>
  Prelude, part two: the ordered collections. \<open>BTreeMap\<close> is a finite map, as a type of its
  own; iteration is \<open>bm_entries\<close>, the list of its entries with strictly increasing keys,
  which determines the map and on which its operations are executed. \<open>BTreeSet\<close> is a map to
  \<^typ>\<open>unit\<close>. The contract a client relies on is the locale \<open>ordered_map\<close>,
  interpreted on these operations.
\<close>

section \<open>Sorted association lists\<close>

fun al_insert :: "'k::linorder \<Rightarrow> 'v \<Rightarrow> ('k \<times> 'v) list \<Rightarrow> ('k \<times> 'v) list" where
  "al_insert k v [] = [(k, v)]"
| "al_insert k v (e # es) =
     (if fst e < k then e # al_insert k v es
      else if fst e = k then (k, v) # es
      else (k, v) # e # es)"

definition al_remove :: "'k \<Rightarrow> ('k \<times> 'v) list \<Rightarrow> ('k \<times> 'v) list" where
  "al_remove k es = filter (\<lambda>e. fst e \<noteq> k) es"

definition al_sorted :: "('k::linorder \<times> 'v) list \<Rightarrow> bool" where
  "al_sorted es \<longleftrightarrow> sorted_wrt (<) (map fst es)"

lemma al_sorted_simps [simp]:
  "al_sorted []" "al_sorted (e # es) \<longleftrightarrow> (\<forall>x\<in>set es. fst e < fst x) \<and> al_sorted es"
  by (auto simp: al_sorted_def)

lemma fst_set_al_insert: "fst ` set (al_insert k v es) = insert k (fst ` set es)"
  by (induction es) auto

lemma al_insert_bound:
  "x \<in> set (al_insert k v es) \<Longrightarrow> fst x = k \<or> x \<in> set es"
  by (induction es) (auto split: if_splits)

lemma al_insert_sorted [simp]: "al_sorted es \<Longrightarrow> al_sorted (al_insert k v es)"
proof (induction es)
  case (Cons e es)
  then show ?case by (auto dest: al_insert_bound)
qed simp

lemma al_remove_sorted [simp]: "al_sorted es \<Longrightarrow> al_sorted (al_remove k es)"
  by (induction es) (auto simp: al_remove_def)

lemma map_of_al_insert: "al_sorted es \<Longrightarrow> map_of (al_insert k v es) = (map_of es)(k \<mapsto> v)"
  by (induction es) (auto simp: fun_eq_iff)

lemma map_of_al_remove: "map_of (al_remove k es) = (map_of es)(k := None)"
  by (induction es) (auto simp: al_remove_def fun_eq_iff)

lemma al_sorted_distinct: "al_sorted es \<Longrightarrow> distinct (map fst es)"
  unfolding al_sorted_def by (simp add: strict_sorted_iff)

lemma al_rebuild:
  "al_sorted es \<Longrightarrow> map (\<lambda>k. (k, the (map_of es k))) (map fst es) = es"
  by (auto intro!: map_idI dest: al_sorted_distinct)

lemma al_sorted_unique:
  assumes "al_sorted xs" and "al_sorted ys" and eq: "map_of xs = map_of ys"
  shows "xs = ys"
proof -
  have "set (map fst xs) = set (map fst ys)"
    using eq by (metis dom_map_of_conv_image_fst list.set_map)
  then have "map fst xs = map fst ys"
    using assms(1,2) unfolding al_sorted_def by (metis strict_sorted_equal)
  then show ?thesis
    by (metis al_rebuild assms(1,2) eq)
qed

section \<open>Maps\<close>

typedef ('k, 'v) btree_map = "{m :: 'k \<rightharpoonup> 'v. finite (dom m)}"
  morphisms bm_get Finite_Map
  by (rule exI [of _ Map.empty]) simp

setup_lifting type_definition_btree_map

lift_definition bm_empty :: "('k, 'v) btree_map" is Map.empty
  by simp

lift_definition bm_insert :: "'k \<Rightarrow> 'v \<Rightarrow> ('k, 'v) btree_map \<Rightarrow> ('k, 'v) btree_map"
  is "\<lambda>k v m. m(k \<mapsto> v)" by simp

lift_definition bm_remove :: "'k \<Rightarrow> ('k, 'v) btree_map \<Rightarrow> ('k, 'v) btree_map"
  is "\<lambda>k m. m(k := None)" by simp

lift_definition Btree_Map :: "('k::linorder \<times> 'v) list \<Rightarrow> ('k, 'v) btree_map" is map_of
  by (simp add: finite_dom_map_of)

definition bm_entries :: "('k::linorder, 'v) btree_map \<Rightarrow> ('k \<times> 'v) list" where
  "bm_entries m = map (\<lambda>k. (k, the (bm_get m k))) (sorted_list_of_set (dom (bm_get m)))"

lemma finite_dom_bm_get [simp]: "finite (dom (bm_get m))"
  using bm_get [of m] by simp

lemma bm_entries_sorted: "al_sorted (bm_entries m)"
  by (simp add: al_sorted_def bm_entries_def comp_def)

lemma bm_get_entries: "bm_get m = map_of (bm_entries m)"
proof
  fix k
  show "bm_get m k = map_of (bm_entries m) k"
    by (cases "bm_get m k") (auto simp: bm_entries_def map_of_map_restrict [unfolded comp_def] restrict_map_def)
qed

lemma Btree_Map_entries [code abstype]: "Btree_Map (bm_entries m) = m"
  by (simp add: bm_get_inject [symmetric] Btree_Map.rep_eq bm_get_entries [symmetric])

lemma bm_eqI: "bm_get m = bm_get n \<Longrightarrow> m = n"
  by (simp add: bm_get_inject)

lemma bm_entries_inject: "bm_entries m = bm_entries n \<longleftrightarrow> m = n"
  by (metis Btree_Map_entries)

lemma bm_entries_eqI: "al_sorted es \<Longrightarrow> bm_get m = map_of es \<Longrightarrow> bm_entries m = es"
  by (metis al_sorted_unique bm_entries_sorted bm_get_entries)

lemma bm_get_empty [simp]: "bm_get bm_empty = Map.empty"
  by (rule bm_empty.rep_eq)

lemma bm_get_insert [simp]: "bm_get (bm_insert k v m) = (bm_get m)(k \<mapsto> v)"
  by (rule bm_insert.rep_eq)

lemma bm_get_remove [simp]: "bm_get (bm_remove k m) = (bm_get m)(k := None)"
  by (rule bm_remove.rep_eq)

text \<open>The operations on the sorted entries, by which they are evaluated.\<close>

declare bm_get_entries [code]

lemma bm_entries_empty [simp, code]: "bm_entries bm_empty = []"
  by (rule bm_entries_eqI) simp_all

lemma bm_entries_insert [simp, code]: "bm_entries (bm_insert k v m) = al_insert k v (bm_entries m)"
  by (rule bm_entries_eqI) (simp_all add: bm_entries_sorted map_of_al_insert bm_get_entries [symmetric])

lemma bm_entries_remove [code]: "bm_entries (bm_remove k m) = al_remove k (bm_entries m)"
  by (rule bm_entries_eqI) (simp_all add: bm_entries_sorted map_of_al_remove bm_get_entries [symmetric])

definition bm_contains_key :: "('k::linorder, 'v) btree_map \<Rightarrow> 'k \<Rightarrow> bool" where
  "bm_contains_key m k \<longleftrightarrow> bm_get m k \<noteq> None"

definition bm_keys :: "('k::linorder, 'v) btree_map \<Rightarrow> 'k list" where
  "bm_keys m = map fst (bm_entries m)"

definition bm_values :: "('k::linorder, 'v) btree_map \<Rightarrow> 'v list" where
  "bm_values m = map snd (bm_entries m)"

definition bm_is_empty :: "('k::linorder, 'v) btree_map \<Rightarrow> bool" where
  "bm_is_empty m \<longleftrightarrow> bm_entries m = []"

definition bm_len :: "('k::linorder, 'v) btree_map \<Rightarrow> nat" where
  "bm_len m = length (bm_entries m)"

text \<open>\<open>BTreeMap::extend\<close>, and collecting an iterator of pairs: later entries replace earlier ones.\<close>

fun bm_extend :: "('k::linorder, 'v) btree_map \<Rightarrow> ('k \<times> 'v) list \<Rightarrow> ('k, 'v) btree_map" where
  "bm_extend m [] = m"
| "bm_extend m (e # es) = bm_extend (bm_insert (fst e) (snd e) m) es"

definition bm_of_list :: "('k::linorder \<times> 'v) list \<Rightarrow> ('k, 'v) btree_map" where
  "bm_of_list es = bm_extend bm_empty es"

text \<open>Replacing every value in place, as a loop over \<open>values_mut\<close> does.\<close>

lift_definition bm_map_values :: "('v \<Rightarrow> 'w) \<Rightarrow> ('k, 'v) btree_map \<Rightarrow> ('k, 'w) btree_map"
  is "\<lambda>f m k. map_option f (m k)"
  by (simp add: dom_def)

lemma bm_get_map_values: "bm_get (bm_map_values f m) k = map_option f (bm_get m k)"
  by (simp add: bm_map_values.rep_eq)

lemma map_of_map_snd: "map_of (map (\<lambda>e. (fst e, f (snd e))) es) k = map_option f (map_of es k)"
  by (induction es) auto

lemma bm_entries_map_values [code]:
  "bm_entries (bm_map_values f m) = map (\<lambda>e. (fst e, f (snd e))) (bm_entries m)"
proof (rule bm_entries_eqI)
  show "al_sorted (map (\<lambda>e. (fst e, f (snd e))) (bm_entries m))"
    using bm_entries_sorted [of m] by (simp add: al_sorted_def comp_def)
qed (simp add: fun_eq_iff bm_get_map_values map_of_map_snd bm_get_entries [symmetric])

instantiation btree_map :: (linorder, equal) equal
begin

definition equal_btree_map :: "('a, 'b) btree_map \<Rightarrow> ('a, 'b) btree_map \<Rightarrow> bool" where
  "equal_btree_map m n \<longleftrightarrow> HOL.equal (bm_entries m) (bm_entries n)"

instance
  by standard (simp add: equal_btree_map_def equal_eq bm_entries_inject)

end

instantiation btree_map :: (linorder, linorder) linorder
begin

definition less_eq_btree_map :: "('a, 'b) btree_map \<Rightarrow> ('a, 'b) btree_map \<Rightarrow> bool" where
  "less_eq_btree_map m n \<longleftrightarrow> bm_entries m \<le> bm_entries n"

definition less_btree_map :: "('a, 'b) btree_map \<Rightarrow> ('a, 'b) btree_map \<Rightarrow> bool" where
  "less_btree_map m n \<longleftrightarrow> bm_entries m < bm_entries n"

instance
  by standard
    (auto simp: less_eq_btree_map_def less_btree_map_def bm_entries_inject [symmetric])

end

lemma bm_get_in_entries: "bm_get m k = Some v \<longleftrightarrow> (k, v) \<in> set (bm_entries m)"
  using al_sorted_distinct [OF bm_entries_sorted, of m] by (simp add: bm_get_entries)

lemma set_bm_keys: "set (bm_keys m) = dom (bm_get m)"
  by (simp add: bm_keys_def bm_get_entries dom_map_of_conv_image_fst)

lemma set_bm_values: "set (bm_values m) = ran (bm_get m)"
  by (force simp: bm_values_def ran_def bm_get_in_entries)

lemma bm_keys_sorted: "sorted_wrt (<) (bm_keys m)"
  using bm_entries_sorted by (simp add: bm_keys_def al_sorted_def)

lemma bm_contains_key_iff: "bm_contains_key m k \<longleftrightarrow> k \<in> dom (bm_get m)"
  by (auto simp: bm_contains_key_def)

lemma bm_is_empty_iff: "bm_is_empty m \<longleftrightarrow> m = bm_empty"
  by (metis bm_entries_empty bm_entries_inject bm_is_empty_def)

lemma finite_ran_bm_get [simp]: "finite (ran (bm_get m))"
  by (simp add: finite_ran)

section \<open>The contract of an ordered map\<close>

text \<open>
  What a client of \<open>BTreeMap\<close> relies on: lookups after an update, and iteration in
  strictly increasing key order over exactly the stored entries. Bulk loading from a list
  is verified once against this contract.
\<close>

locale ordered_map =
  fixes empty :: "'m"
    and get :: "'m \<Rightarrow> 'k::linorder \<Rightarrow> 'v option"
    and put :: "'k \<Rightarrow> 'v \<Rightarrow> 'm \<Rightarrow> 'm"
    and entries :: "'m \<Rightarrow> ('k \<times> 'v) list"
  assumes get_empty: "get empty k = None"
    and get_put: "get (put k v m) = (get m)(k \<mapsto> v)"
    and entries_sorted: "sorted_wrt (<) (map fst (entries m))"
    and entries_get: "map_of (entries m) = get m"
begin

fun load :: "'m \<Rightarrow> ('k \<times> 'v) list \<Rightarrow> 'm" where
  "load m [] = m"
| "load m (e # es) = load (put (fst e) (snd e) m) es"

lemma get_load: "get (load m es) = get m ++ map_of (rev es)"
proof (induction es arbitrary: m)
  case (Cons e es)
  show ?case
    by (simp add: Cons.IH get_put) (simp add: map_add_def fun_eq_iff split: option.splits)
qed simp

lemma dom_load: "dom (get (load m es)) = dom (get m) \<union> fst ` set es"
  by (simp add: get_load dom_map_of_conv_image_fst Un_commute)

lemma entries_unique:
  "get m = get n \<Longrightarrow> entries m = entries n"
  by (metis al_sorted_def al_sorted_unique entries_get entries_sorted)

lemma load_distinct:
  "distinct (map fst es) \<Longrightarrow> (k, v) \<in> set es \<Longrightarrow> get (load m es) k = Some v"
  by (simp add: get_load map_add_def rev_map [symmetric])

end

interpretation btree: ordered_map bm_empty bm_get bm_insert bm_entries
  rewrites "btree.load = bm_extend"
proof -
  show om: "ordered_map bm_empty bm_get bm_insert bm_entries"
    by unfold_locales
      (simp_all add: bm_entries_sorted [unfolded al_sorted_def] bm_get_entries [symmetric])
  show "ordered_map.load bm_insert = bm_extend"
  proof (intro ext)
    fix m :: "('k::linorder, 'v) btree_map" and es
    show "ordered_map.load bm_insert m es = bm_extend m es"
      by (induction es arbitrary: m) (simp_all add: ordered_map.load.simps [OF om])
  qed
qed

lemmas bm_extend_facts = btree.get_load btree.dom_load btree.load_distinct

lemma bm_extend_entries: "bm_extend bm_empty (bm_entries m) = m"
proof (rule bm_eqI)
  have "map_of (rev (bm_entries m)) = map_of (bm_entries m)"
    using al_sorted_distinct [OF bm_entries_sorted, of m] by (simp add: map_of_inject_set rev_map [symmetric])
  then show "bm_get (bm_extend bm_empty (bm_entries m)) = bm_get m"
    unfolding bm_extend_facts(1) by (simp add: bm_get_entries)
qed

lemma bm_get_extend_entries: "bm_get (bm_extend m (bm_entries b)) = bm_get m ++ bm_get b"
proof -
  have "map_of (rev (bm_entries b)) = map_of (bm_entries b)"
    using al_sorted_distinct [OF bm_entries_sorted, of b] by (simp add: map_of_inject_set rev_map [symmetric])
  then show ?thesis unfolding bm_extend_facts(1) by (simp add: bm_get_entries)
qed

lemma extend_Some:
  "bm_get (bm_extend m (bm_entries b)) k = Some p \<longleftrightarrow> bm_get b k = Some p \<or> bm_get b k = None \<and> bm_get m k = Some p"
  by (auto simp: bm_get_extend_entries map_add_def split: option.splits)

section \<open>Sets\<close>

type_synonym 'k btree_set = "('k, unit) btree_map"

abbreviation bs_empty :: "'k::linorder btree_set" where
  "bs_empty \<equiv> bm_empty"

definition bs_insert :: "'k::linorder \<Rightarrow> 'k btree_set \<Rightarrow> 'k btree_set" where
  "bs_insert k s = bm_insert k () s"

definition bs_contains :: "'k::linorder btree_set \<Rightarrow> 'k \<Rightarrow> bool" where
  "bs_contains s k \<longleftrightarrow> bm_contains_key s k"

definition bs_elems :: "'k::linorder btree_set \<Rightarrow> 'k list" where
  "bs_elems s = bm_keys s"

definition bs_set :: "'k::linorder btree_set \<Rightarrow> 'k set" where
  "bs_set s = set (bs_elems s)"

fun bs_extend :: "'k::linorder btree_set \<Rightarrow> 'k list \<Rightarrow> 'k btree_set" where
  "bs_extend s [] = s"
| "bs_extend s (x # xs) = bs_extend (bs_insert x s) xs"

definition bs_of_list :: "'k::linorder list \<Rightarrow> 'k btree_set" where
  "bs_of_list xs = bs_extend bs_empty xs"

lemma bs_set_dom: "bs_set s = dom (bm_get s)"
  by (simp add: bs_set_def bs_elems_def set_bm_keys)

lemma bs_set_empty [simp]: "bs_set bs_empty = {}"
  by (simp add: bs_set_dom)

lemma bs_set_insert [simp]: "bs_set (bs_insert k s) = insert k (bs_set s)"
  by (simp add: bs_set_dom bs_insert_def)

lemma bs_contains_iff [simp]: "bs_contains s k \<longleftrightarrow> k \<in> bs_set s"
  by (simp add: bs_contains_def bs_set_dom bm_contains_key_iff)

lemma set_bs_elems [simp]: "set (bs_elems s) = bs_set s"
  by (simp add: bs_set_def)

lemma bs_set_extend [simp]: "bs_set (bs_extend s xs) = bs_set s \<union> set xs"
  by (induction xs arbitrary: s) auto

lemma bs_set_of_list [simp]: "bs_set (bs_of_list xs) = set xs"
  by (simp add: bs_of_list_def)

lemma bs_elems_sorted: "sorted_wrt (<) (bs_elems s)"
  by (simp add: bs_elems_def bm_keys_sorted)

lemma finite_bs_set [simp]: "finite (bs_set s)"
  unfolding bs_set_def by (rule finite_set)

lemma bs_eqI: "bs_set s = bs_set t \<Longrightarrow> s = t"
proof (rule bm_eqI)
  assume "bs_set s = bs_set t"
  then have "dom (bm_get s) = dom (bm_get t)" by (simp add: bs_set_dom)
  then have "bm_get s k = None \<longleftrightarrow> bm_get t k = None" for k by (metis domIff)
  then show "bm_get s = bm_get t"
    by (intro ext) (metis (full_types) not_None_eq old.unit.exhaust)
qed

section \<open>Sorting and removing repetitions\<close>

lemma find_SomeD: "find P xs = Some x \<Longrightarrow> P x \<and> x \<in> set xs"
  by (auto simp: find_Some_iff)

text \<open>\<open>Vec::dedup\<close> removes consecutive repeated elements; after \<open>sort\<close> that removes all of them.\<close>

fun dedup :: "'a list \<Rightarrow> 'a list" where
  "dedup (x # y # ys) = (if x = y then dedup (y # ys) else x # dedup (y # ys))"
| "dedup xs = xs"

lemma set_dedup [simp]: "set (dedup xs) = set xs"
  by (induction xs rule: dedup.induct) auto

lemma dedup_Cons_hd: "xs \<noteq> [] \<Longrightarrow> dedup xs \<noteq> [] \<and> hd (dedup xs) = hd xs"
  by (induction xs rule: dedup.induct) auto

lemma dedup_sorted_strict: "sorted xs \<Longrightarrow> sorted_wrt (<) (dedup xs)"
  by (induction xs rule: dedup.induct) (auto simp: order.strict_iff_order)

lemma sort_dedup_canonical: "dedup (sort xs) = sorted_list_of_set (set xs)"
proof -
  have "sorted_wrt (<) (dedup (sort xs))" by (simp add: dedup_sorted_strict)
  then show ?thesis
    by (metis finite_set set_dedup set_sort sorted_list_of_set.idem_if_sorted_distinct
        strict_sorted_iff sorted_list_of_set.set_sorted_key_list_of_set)
qed

lemma dedup_strict: "sorted_wrt (<) (xs :: 'a::linorder list) \<Longrightarrow> dedup xs = xs"
  by (induction xs rule: dedup.induct) auto

lemma map_sort_key: "map f (sort_key f xs) = sort (map f xs)"
proof -
  have "map f (insort_key f x ys) = insort (f x) (map f ys)" for x ys by (induction ys) auto
  then show ?thesis by (induction xs) simp_all
qed

text \<open>\<open>slice::sort_by\<close>: a stable sort, by a comparison \<open>le\<close> that puts its first argument first.\<close>

fun insort_by :: "('a \<Rightarrow> 'a \<Rightarrow> bool) \<Rightarrow> 'a \<Rightarrow> 'a list \<Rightarrow> 'a list" where
  "insort_by le x [] = [x]"
| "insort_by le x (y # ys) = (if le x y then x # y # ys else y # insort_by le x ys)"

definition sort_by :: "('a \<Rightarrow> 'a \<Rightarrow> bool) \<Rightarrow> 'a list \<Rightarrow> 'a list" where
  "sort_by le xs = foldr (insort_by le) xs []"

lemma set_insort_by [simp]: "set (insort_by le x xs) = insert x (set xs)"
  by (induction xs) auto

lemma set_sort_by [simp]: "set (sort_by le xs) = set xs"
  by (induction xs) (auto simp: sort_by_def)

lemma length_insort_by [simp]: "length (insort_by le x xs) = Suc (length xs)"
  by (induction xs) auto

lemma length_sort_by [simp]: "length (sort_by le xs) = length xs"
  by (induction xs) (auto simp: sort_by_def)

lemma distinct_insort_by: "distinct (insort_by le x xs) \<longleftrightarrow> x \<notin> set xs \<and> distinct xs"
  by (induction xs) auto

lemma distinct_sort_by: "distinct (sort_by le xs) \<longleftrightarrow> distinct xs"
  by (induction xs) (auto simp: sort_by_def distinct_insort_by set_sort_by [unfolded sort_by_def])

lemma sorted_insort_by:
  assumes "\<And>a b. le a b \<or> le b a" "\<And>a b c. le a b \<Longrightarrow> le b c \<Longrightarrow> le a c"
  shows "sorted_wrt le xs \<Longrightarrow> sorted_wrt le (insort_by le x xs)"
proof (induction xs)
  case (Cons y ys)
  then show ?case using assms by auto
qed simp

lemma sorted_sort_by:
  assumes "\<And>a b. le a b \<or> le b a" "\<And>a b c. le a b \<Longrightarrow> le b c \<Longrightarrow> le a c"
  shows "sorted_wrt le (sort_by le xs)"
  by (induction xs) (simp_all add: sort_by_def sorted_insort_by [of le, OF assms])

text \<open>\<open>Iterator::max_by_key\<close>: the last of the elements with the greatest key.\<close>

fun max_by_key_from :: "('a \<Rightarrow> 'k::linorder) \<Rightarrow> 'a \<Rightarrow> 'a list \<Rightarrow> 'a" where
  "max_by_key_from key best [] = best"
| "max_by_key_from key best (x # xs) =
     (if key x < key best then max_by_key_from key best xs else max_by_key_from key x xs)"

definition max_by_key :: "('a \<Rightarrow> 'k::linorder) \<Rightarrow> 'a list \<Rightarrow> 'a option" where
  "max_by_key key xs = (case xs of [] \<Rightarrow> None | x # rest \<Rightarrow> Some (max_by_key_from key x rest))"

lemma max_by_key_from_max:
  "max_by_key_from key b xs \<in> insert b (set xs) \<and>
   (\<forall>x\<in>insert b (set xs). key x \<le> key (max_by_key_from key b xs))"
proof (induction xs arbitrary: b)
  case (Cons x xs)
  show ?case
  proof (cases "key x < key b")
    case True
    with Cons.IH [of b] show ?thesis by auto
  next
    case False
    with Cons.IH [of x] show ?thesis by auto
  qed
qed simp

lemma max_by_key_None [simp]: "max_by_key key xs = None \<longleftrightarrow> xs = []"
  by (simp add: max_by_key_def split: list.splits)

lemma max_by_key_Some:
  "max_by_key key xs = Some m \<Longrightarrow> m \<in> set xs \<and> (\<forall>x\<in>set xs. key x \<le> key m)"
  using max_by_key_from_max [of key] by (auto simp: max_by_key_def split: list.splits)

lemma bm_of_list_entries: "bm_of_list (bm_entries m) = m"
  by (simp add: bm_of_list_def bm_extend_entries)

end
