(* ===== verification/Crates.thy ===== *)
theory Crates
  imports Rust_Collections
begin

text \<open>
  The third-party crates the program calls (\<open>semver\<close>, \<open>url\<close>, \<open>base64\<close>,
  \<open>serde_json\<close>) are not part of its sources. They are one record of functions, a
  parameter of every definition that calls them; the type of a parsed \<open>semver::Version\<close>
  is a type variable with a linear order (its \<open>Ord\<close>). What the program relies on is
  documented behaviour of those crates, stated as named contracts. The record also carries
  the two \<open>size_of\<close> constants of the resolver's byte accounting, which the compiler chooses. The theory
  \<open>Reference_Crates\<close> gives concrete functions that satisfy them.
\<close>

section \<open>The functions\<close>

record url =
  url_scheme :: string
  url_username :: string
  url_password :: "string option"
  url_host_str :: "string option"
  url_port :: "nat option"
  url_path :: string
  url_query :: "string option"
  url_fragment :: "string option"
  url_as_str :: string

record 'v crates =
  sv_parse :: "string \<Rightarrow> 'v option"
  sv_to_string :: "'v \<Rightarrow> string"
  sv_new :: "u64 \<Rightarrow> u64 \<Rightarrow> u64 \<Rightarrow> 'v"
  sv_major :: "'v \<Rightarrow> u64"
  sv_minor :: "'v \<Rightarrow> u64"
  sv_patch :: "'v \<Rightarrow> u64"
  sv_pre :: "'v \<Rightarrow> string"
  sv_build :: "'v \<Rightarrow> string"
  sv_clear_build :: "'v \<Rightarrow> 'v"
  sv_build_metadata_ok :: "string \<Rightarrow> bool"
  url_parse :: "string \<Rightarrow> url option"
  b64_decode_no_pad :: "string \<Rightarrow> string option"
  b64_decode :: "string \<Rightarrow> string option"
  b64_encode :: "string \<Rightarrow> string"
  size_of_clause :: nat
  size_of_comparator :: nat

section \<open>Contracts\<close>

definition sv_triple :: "'v crates \<Rightarrow> 'v \<Rightarrow> u64 \<times> u64 \<times> u64" where
  "sv_triple C v = (sv_major C v, sv_minor C v, sv_patch C v)"

text \<open>
  \<open>semver\<close>: a version is its five fields; \<open>Version::new\<close> has the given numbers and no
  pre-release or build part; assigning \<open>BuildMetadata::EMPTY\<close> clears that field only.
\<close>

definition semver_fields :: "'v crates \<Rightarrow> bool" where
  "semver_fields C \<longleftrightarrow>
     (\<forall>u v. sv_triple C u = sv_triple C v \<and> sv_pre C u = sv_pre C v \<and> sv_build C u = sv_build C v
        \<longrightarrow> u = v) \<and>
     (\<forall>a b c. sv_triple C (sv_new C a b c) = (a, b, c) \<and> sv_pre C (sv_new C a b c) = [] \<and>
        sv_build C (sv_new C a b c) = []) \<and>
     (\<forall>v. sv_triple C (sv_clear_build C v) = sv_triple C v \<and>
        sv_pre C (sv_clear_build C v) = sv_pre C v \<and> sv_build C (sv_clear_build C v) = [])"

text \<open>Precedence compares the three numbers first and puts a pre-release before its release.\<close>

definition semver_precedence :: "('v::linorder) crates \<Rightarrow> bool" where
  "semver_precedence C \<longleftrightarrow>
     (\<forall>u v. sv_triple C u < sv_triple C v \<longrightarrow> u < v) \<and>
     (\<forall>u v. sv_triple C u = sv_triple C v \<and> sv_pre C u \<noteq> [] \<and> sv_pre C v = [] \<longrightarrow> u < v)"

text \<open>
  A version prints as its numbers in decimal, then \<open>-\<close> and the pre-release identifiers,
  then \<open>+\<close> and the build identifiers; printing and parsing back is the identity;
  identifiers are dot-separated ASCII letters, digits and hyphens.
\<close>

definition identifier_char :: "char \<Rightarrow> bool" where
  "identifier_char c \<longleftrightarrow> is_ascii_alphanumeric c \<or> c = CHR ''.'' \<or> c = CHR ''-''"

definition version_text :: "'v crates \<Rightarrow> 'v \<Rightarrow> string" where
  "version_text C v =
     dec_string (unat (sv_major C v)) @ ''.'' @ dec_string (unat (sv_minor C v)) @ ''.'' @
     dec_string (unat (sv_patch C v)) @
     (if sv_pre C v = [] then [] else ''-'' @ sv_pre C v) @
     (if sv_build C v = [] then [] else ''+'' @ sv_build C v)"

definition semver_text :: "'v crates \<Rightarrow> bool" where
  "semver_text C \<longleftrightarrow>
     (\<forall>v. sv_to_string C v = version_text C v \<and> sv_parse C (sv_to_string C v) = Some v \<and>
        list_all identifier_char (sv_pre C v) \<and> list_all identifier_char (sv_build C v))"

definition semver_contract :: "('v::linorder) crates \<Rightarrow> bool" where
  "semver_contract C \<longleftrightarrow> semver_fields C \<and> semver_precedence C \<and> semver_text C"

text \<open>
  \<open>url\<close>: for every parsed \<open>https\<close> URL with a host, the origin written from its host and
  explicit port parses again to the same scheme, host and port, with path \<open>/\<close> and no
  user, query or fragment; a serialized URL parses to itself; host strings of special
  schemes are printable ASCII without the delimiters that end an authority.
\<close>

definition authority :: "string \<Rightarrow> nat option \<Rightarrow> string" where
  "authority host port = (case port of None \<Rightarrow> host | Some p \<Rightarrow> host @ '':'' @ dec_string p)"

definition origin_url :: "string \<Rightarrow> nat option \<Rightarrow> string \<Rightarrow> url" where
  "origin_url host port s =
     \<lparr>url_scheme = ''https'', url_username = [], url_password = None, url_host_str = Some host,
      url_port = port, url_path = ''/'', url_query = None, url_fragment = None, url_as_str = s\<rparr>"

definition host_char :: "char \<Rightarrow> bool" where
  "host_char c \<longleftrightarrow> 33 \<le> byte c \<and> byte c \<le> 126 \<and> \<not> is_ascii_uppercase c \<and>
     c \<notin> {CHR ''@'', CHR ''|'', CHR ''#'', CHR ''?'', CHR ''/'', CHR 0x5C}"

definition url_contract :: "'v crates \<Rightarrow> bool" where
  "url_contract C \<longleftrightarrow>
     (\<forall>s u host. url_parse C s = Some u \<and> url_scheme u = ''https'' \<and> url_host_str u = Some host \<longrightarrow>
        host \<noteq> [] \<and> list_all host_char host \<and>
        (CHR '':'' \<in> set host \<longrightarrow> prefix ''['' host) \<and> url_port u \<noteq> Some 443 \<and>
        (\<exists>a. url_parse C (''https://'' @ authority host (url_port u)) =
           Some (origin_url host (url_port u) a))) \<and>
     (\<forall>s u. url_parse C s = Some u \<longrightarrow>
        url_parse C (url_as_str u) = Some u)"

text \<open>
  \<open>base64\<close>: the padded encoding of 64 bytes has 88 characters, ends in two padding signs,
  and decodes to those bytes.
\<close>

definition base64_contract :: "'v crates \<Rightarrow> bool" where
  "base64_contract C \<longleftrightarrow>
     (\<forall>d. length d = 64 \<longrightarrow> length (b64_encode C d) = 88 \<and> ends_with ''=='' (b64_encode C d) \<and>
        b64_decode C (b64_encode C d) = Some d)"

end
