(* ===== verification/Core_Types.thy ===== *)
theory Core_Types
  imports Crates
begin

text \<open>
  The crate \<open>tapid-core\<close>: package names, versions, digests, registry origins, package
  sources, integrity strings, peer and platform contexts, platform constraints and artifact
  URLs. A newtype over \<open>String\<close> is its string; a struct that derives \<open>Ord\<close> is a
  datatype with the derived lexicographic order.
\<close>

section \<open>Errors\<close>

datatype domain_error =
    InvalidPackageName string
  | InvalidPackageVersion string
  | InvalidArtifactDigest string
  | InvalidRegistryOrigin string
  | InvalidPackageIntegrity string
  | InvalidPlatformContext
  | InvalidPackageSource
  | InvalidArtifactUrl

fun domain_error_to_string :: "domain_error \<Rightarrow> string" where
  "domain_error_to_string (InvalidPackageName v) = ''invalid package name: '' @ v"
| "domain_error_to_string (InvalidPackageVersion v) = ''invalid package version: '' @ v"
| "domain_error_to_string (InvalidArtifactDigest v) = ''invalid artifact digest: '' @ v"
| "domain_error_to_string (InvalidRegistryOrigin v) = ''invalid registry origin: '' @ v"
| "domain_error_to_string (InvalidPackageIntegrity v) = ''invalid package integrity: '' @ v"
| "domain_error_to_string InvalidArtifactUrl = ''invalid artifact URL''"
| "domain_error_to_string InvalidPackageSource = ''invalid copied package source''"
| "domain_error_to_string InvalidPlatformContext = ''invalid platform context''"

section \<open>Package names\<close>

definition is_name_character :: "char \<Rightarrow> bool" where
  "is_name_character c \<longleftrightarrow> is_ascii_alphanumeric c \<or> c \<in> {CHR ''-'', CHR ''_'', CHR ''.''}"

definition package_name_from_str :: "string \<Rightarrow> (domain_error, string) result" where
  "package_name_from_str value =
     (if value = [] \<or> 214 < length value \<or> prefix ''.'' value \<or> prefix ''_'' value \<or>
         ends_with ''.'' value \<or> ends_with ''_'' value \<or> any_whitespace value
      then Inl (InvalidPackageName value)
      else if prefix ''@'' value then
        (let parts = split_char (CHR ''/'') value;
             scope = hd parts;
             name = (case tl parts of [] \<Rightarrow> [] | n # _ \<Rightarrow> n)
         in if 2 < length parts \<or> length scope < 2 \<or> name = [] \<or>
               list_ex (\<lambda>c. \<not> is_name_character c) (drop 1 scope) \<or>
               list_ex (\<lambda>c. \<not> is_name_character c) name
            then Inl (InvalidPackageName value) else Inr value)
      else if list_ex (\<lambda>c. \<not> is_name_character c) value then Inl (InvalidPackageName value)
      else Inr value)"

section \<open>Versions\<close>

definition version_stable :: "'v crates \<Rightarrow> u64 \<Rightarrow> u64 \<Rightarrow> u64 \<Rightarrow> 'v" where
  "version_stable C major minor patch = sv_new C major minor patch"

definition prerelease :: "'v crates \<Rightarrow> 'v \<Rightarrow> string option" where
  "prerelease C v = (if sv_pre C v = [] then None else Some (sv_pre C v))"

definition package_version_from_str :: "'v crates \<Rightarrow> string \<Rightarrow> (domain_error, 'v) result" where
  "package_version_from_str C value =
     (case sv_parse C value of
        None \<Rightarrow> Inl (InvalidPackageVersion value)
      | Some version \<Rightarrow>
          if sv_build C version \<noteq> [] then Inl (InvalidPackageVersion value) else Inr version)"

section \<open>Artifact digests\<close>

definition artifact_digest_from_str :: "string \<Rightarrow> (domain_error, string) result" where
  "artifact_digest_from_str value =
     (case strip_prefix ''sha256-'' value of
        None \<Rightarrow> Inl (InvalidArtifactDigest value)
      | Some hex \<Rightarrow>
          if length hex \<noteq> 64 \<or> list_ex (\<lambda>c. \<not> is_ascii_hexdigit c) hex
          then Inl (InvalidArtifactDigest value)
          else Inr (to_ascii_lowercase value))"

section \<open>Registry origins\<close>

definition registry_origin_from_str :: "'v crates \<Rightarrow> string \<Rightarrow> (domain_error, string) result" where
  "registry_origin_from_str C value =
     (case url_parse C value of
        None \<Rightarrow> Inl (InvalidRegistryOrigin value)
      | Some parsed \<Rightarrow>
          if url_scheme parsed \<noteq> ''https'' \<or> url_username parsed \<noteq> [] \<or>
             CHR ''@'' \<in> set value \<or> url_password parsed \<noteq> None \<or> url_query parsed \<noteq> None \<or>
             url_fragment parsed \<noteq> None \<or> url_host_str parsed = None \<or>
             \<not> list_all (\<lambda>c. c = CHR ''/'') (url_path parsed)
          then Inl (InvalidRegistryOrigin value)
          else
            (let host = to_ascii_lowercase (case url_host_str parsed of None \<Rightarrow> [] | Some h \<Rightarrow> h);
                 host = (if CHR '':'' \<in> set host \<and> \<not> prefix ''['' host then ''['' @ host @ '']'' else host);
                 auth = (case url_port parsed of
                     Some port \<Rightarrow> if port \<noteq> 443 then host @ '':'' @ dec_string port else host
                   | None \<Rightarrow> host)
             in Inr (''https://'' @ auth)))"

section \<open>Package integrity\<close>

definition package_integrity_from_str :: "'v crates \<Rightarrow> string \<Rightarrow> (domain_error, string) result" where
  "package_integrity_from_str C value =
     (case strip_prefix ''sha512-'' value of
        None \<Rightarrow> Inl (InvalidPackageIntegrity value)
      | Some encoded \<Rightarrow>
          (if length encoded = 86 \<and> CHR ''='' \<notin> set encoded then
             (case b64_decode_no_pad C encoded of
                None \<Rightarrow> Inl (InvalidPackageIntegrity value)
              | Some digest \<Rightarrow>
                  if length digest \<noteq> 64 then Inl (InvalidPackageIntegrity value)
                  else Inr (''sha512-'' @ b64_encode C digest))
           else if length encoded = 88 \<and> ends_with ''=='' encoded then
             (case b64_decode C encoded of
                None \<Rightarrow> Inl (InvalidPackageIntegrity value)
              | Some digest \<Rightarrow>
                  if length digest \<noteq> 64 then Inl (InvalidPackageIntegrity value)
                  else Inr (''sha512-'' @ b64_encode C digest))
           else Inl (InvalidPackageIntegrity value)))"

section \<open>Package sources\<close>

datatype package_source = PackageSource (identity: string) (registry: "string option")

instantiation package_source :: linorder
begin

definition less_eq_package_source :: "package_source \<Rightarrow> package_source \<Rightarrow> bool" where
  "less_eq_package_source a b \<longleftrightarrow> (identity a, registry a) \<le> (identity b, registry b)"

definition less_package_source :: "package_source \<Rightarrow> package_source \<Rightarrow> bool" where
  "less_package_source a b \<longleftrightarrow> (identity a, registry a) < (identity b, registry b)"

instance
  by standard
    (auto simp: less_eq_package_source_def less_package_source_def intro: package_source.expand)

end

definition source_of_registry :: "string \<Rightarrow> package_source" where
  "source_of_registry origin = PackageSource origin (Some origin)"

text \<open>The credential-free canonical address of a Git repository.\<close>

definition git_repository_from_str :: "'v crates \<Rightarrow> string \<Rightarrow> (domain_error, string) result" where
  "git_repository_from_str C value =
     (case url_parse C value of
        None \<Rightarrow> Inl InvalidPackageSource
      | Some url \<Rightarrow>
          (let auth = (case split_once ''://'' value of
                 None \<Rightarrow> []
               | Some (_, rest) \<Rightarrow> hd (split_char (CHR ''/'') rest))
           in if url_scheme url \<noteq> ''https'' \<or> url_host_str url = None \<or> url_path url = ''/'' \<or>
                 url_username url \<noteq> [] \<or> url_password url \<noteq> None \<or> CHR ''@'' \<in> set auth \<or>
                 url_query url \<noteq> None \<or> url_fragment url \<noteq> None \<or>
                 list_ex (\<lambda>c. c \<in> {CHR ''|'', CHR ''#'', CHR ''!''}) value \<or> any_control value
              then Inl InvalidPackageSource else Inr (url_as_str url)))"

definition commit_ok :: "string \<Rightarrow> bool" where
  "commit_ok commit \<longleftrightarrow> (length commit = 40 \<or> length commit = 64) \<and> list_all is_lower_hex commit"

definition package_source_from_str :: "'v crates \<Rightarrow> string \<Rightarrow> (domain_error, package_source) result" where
  "package_source_from_str C value =
     (case strip_prefix ''file:'' value of
        Some rest \<Rightarrow>
          (case rsplit_once (CHR ''#'') rest of
             None \<Rightarrow> Inl InvalidPackageSource
           | Some (path, digest) \<Rightarrow>
               if path = [] \<or> prefix ''/'' path \<or>
                  list_ex (\<lambda>c. c \<in> {CHR 0x5C, CHR '':'', CHR ''|'', CHR ''#''}) path \<or>
                  any_control path \<or>
                  list_ex (\<lambda>part. part = [] \<or> part = ''.'' \<or> part = ''..'') (split_char (CHR ''/'') path)
               then Inl InvalidPackageSource
               else
                 (case artifact_digest_from_str digest of
                    Inl _ \<Rightarrow> Inl InvalidPackageSource
                  | Inr parsed \<Rightarrow>
                      if parsed \<noteq> digest then Inl InvalidPackageSource
                      else Inr (PackageSource value None)))
      | None \<Rightarrow>
          (case strip_prefix ''git+'' value of
             Some rest \<Rightarrow>
               (case rsplit_once (CHR ''#'') rest of
                  None \<Rightarrow> Inl InvalidPackageSource
                | Some (repository, pin) \<Rightarrow>
                    (case split_once ''!'' pin of
                       None \<Rightarrow> Inl InvalidPackageSource
                     | Some (commit, digest) \<Rightarrow>
                         (case git_repository_from_str C repository of
                            Inl _ \<Rightarrow> Inl InvalidPackageSource
                          | Inr parsed_repository \<Rightarrow>
                              if parsed_repository \<noteq> repository \<or> \<not> commit_ok commit
                              then Inl InvalidPackageSource
                              else
                                (case artifact_digest_from_str digest of
                                   Inl _ \<Rightarrow> Inl InvalidPackageSource
                                 | Inr parsed \<Rightarrow>
                                     if parsed \<noteq> digest then Inl InvalidPackageSource
                                     else Inr (PackageSource value None)))))
           | None \<Rightarrow>
               (case registry_origin_from_str C value of
                  Inl e \<Rightarrow> Inl e
                | Inr origin \<Rightarrow> Inr (source_of_registry origin))))"

definition package_source_file :: "'v crates \<Rightarrow> string \<Rightarrow> string \<Rightarrow> (domain_error, package_source) result" where
  "package_source_file C path digest = package_source_from_str C (''file:'' @ path @ ''#'' @ digest)"

definition package_source_git ::
  "'v crates \<Rightarrow> string \<Rightarrow> string \<Rightarrow> string \<Rightarrow> (domain_error, package_source) result" where
  "package_source_git C repository commit digest =
     package_source_from_str C (''git+'' @ repository @ ''#'' @ commit @ ''!'' @ digest)"

definition file_parts :: "package_source \<Rightarrow> (string \<times> string) option" where
  "file_parts s = (case strip_prefix ''file:'' (identity s) of
     None \<Rightarrow> None | Some rest \<Rightarrow> rsplit_once (CHR ''#'') rest)"

definition git_parts :: "package_source \<Rightarrow> (string \<times> string \<times> string) option" where
  "git_parts s = (case strip_prefix ''git+'' (identity s) of
     None \<Rightarrow> None
   | Some rest \<Rightarrow>
       (case rsplit_once (CHR ''#'') rest of
          None \<Rightarrow> None
        | Some (repository, pin) \<Rightarrow>
            (case split_once ''!'' pin of
               None \<Rightarrow> None
             | Some (commit, digest) \<Rightarrow> Some (repository, commit, digest))))"

definition artifact_digest :: "package_source \<Rightarrow> string option" where
  "artifact_digest s = (case file_parts s of
     Some (_, digest) \<Rightarrow> Some digest
   | None \<Rightarrow> (case git_parts s of Some (_, _, digest) \<Rightarrow> Some digest | None \<Rightarrow> None))"

section \<open>Package instances\<close>

datatype 'v package_id = PackageId (id_registry: package_source) (id_name: string) (id_version: 'v)

instantiation package_id :: (linorder) linorder
begin

definition less_eq_package_id :: "'a package_id \<Rightarrow> 'a package_id \<Rightarrow> bool" where
  "less_eq_package_id a b \<longleftrightarrow>
     (id_registry a, id_name a, id_version a) \<le> (id_registry b, id_name b, id_version b)"

definition less_package_id :: "'a package_id \<Rightarrow> 'a package_id \<Rightarrow> bool" where
  "less_package_id a b \<longleftrightarrow>
     (id_registry a, id_name a, id_version a) < (id_registry b, id_name b, id_version b)"

instance
  by standard (auto simp: less_eq_package_id_def less_package_id_def intro: package_id.expand)

end

definition package_id_to_string :: "'v crates \<Rightarrow> 'v package_id \<Rightarrow> string" where
  "package_id_to_string C i =
     identity (id_registry i) @ '':'' @ id_name i @ ''@'' @ sv_to_string C (id_version i)"

section \<open>Peer and platform contexts\<close>

type_synonym 'v peer_context = "(string, 'v) btree_map"

definition peer_context_with :: "('v::linorder) peer_context \<Rightarrow> string \<Rightarrow> 'v \<Rightarrow> 'v peer_context" where
  "peer_context_with ctx name version = bm_insert name version ctx"

definition peer_context_to_string :: "'v crates \<Rightarrow> 'v peer_context \<Rightarrow> string" where
  "peer_context_to_string C ctx =
     join '','' (map (\<lambda>(name, version). name @ ''@'' @ sv_to_string C version) (bm_entries ctx))"

datatype platform_context =
  PlatformContext (ctx_os: "string option") (ctx_cpu: "string option") (ctx_libc: "string option")

instantiation platform_context :: linorder
begin

definition less_eq_platform_context :: "platform_context \<Rightarrow> platform_context \<Rightarrow> bool" where
  "less_eq_platform_context a b \<longleftrightarrow> (ctx_os a, ctx_cpu a, ctx_libc a) \<le> (ctx_os b, ctx_cpu b, ctx_libc b)"

definition less_platform_context :: "platform_context \<Rightarrow> platform_context \<Rightarrow> bool" where
  "less_platform_context a b \<longleftrightarrow> (ctx_os a, ctx_cpu a, ctx_libc a) < (ctx_os b, ctx_cpu b, ctx_libc b)"

instance
  by standard
    (auto simp: less_eq_platform_context_def less_platform_context_def intro: platform_context.expand)

end

definition platform_value_bad :: "string \<Rightarrow> bool" where
  "platform_value_bad v \<longleftrightarrow>
     v = [] \<or> any_whitespace v \<or> any_control v \<or> v = ''-'' \<or> CHR ''|'' \<in> set v"

definition platform_context_new ::
  "string option \<Rightarrow> string option \<Rightarrow> string option \<Rightarrow> (domain_error, platform_context) result" where
  "platform_context_new os cpu libc =
     (if list_ex (\<lambda>f. case f of None \<Rightarrow> False | Some v \<Rightarrow> platform_value_bad v) [os, cpu, libc]
      then Inl InvalidPlatformContext else Inr (PlatformContext os cpu libc))"

definition platform_context_to_string :: "platform_context \<Rightarrow> string" where
  "platform_context_to_string p =
     (if ctx_os p = None \<and> ctx_cpu p = None \<and> ctx_libc p = None then []
      else join ''-'' (map (\<lambda>f. case f of None \<Rightarrow> [] | Some v \<Rightarrow> v) [ctx_os p, ctx_cpu p, ctx_libc p]))"

section \<open>Platform constraints\<close>

record package_platform =
  pp_os :: "string list"
  pp_cpu :: "string list"
  pp_libc :: "string list"

definition unrestricted :: package_platform where
  "unrestricted = \<lparr>pp_os = [], pp_cpu = [], pp_libc = []\<rparr>"

definition npm_os :: "string \<Rightarrow> string" where
  "npm_os value = (if value = ''macos'' then ''darwin'' else if value = ''windows'' then ''win32'' else value)"

definition npm_cpu :: "string \<Rightarrow> string" where
  "npm_cpu value = (if value = ''aarch64'' then ''arm64'' else if value = ''x86_64'' then ''x64''
     else if value = ''x86'' then ''ia32'' else value)"

definition negated :: "string \<Rightarrow> bool" where
  "negated value \<longleftrightarrow> prefix ''!'' value"

definition selected_context ::
  "package_platform \<Rightarrow> string \<Rightarrow> string \<Rightarrow> string option \<Rightarrow> (string, platform_context) result" where
  "selected_context p os cpu libc =
     and_then
       (if pp_libc p = [] \<or> npm_os os \<noteq> ''linux'' \<or> (list_all negated (pp_libc p) \<and> libc = None)
        then Inr None
        else (case libc of
            None \<Rightarrow> Inl ''selected package requires a libc platform context''
          | Some l \<Rightarrow> Inr (Some l)))
       (\<lambda>libc_context. map_err domain_error_to_string
          (platform_context_new
             (if pp_os p \<noteq> [] then Some (npm_os os) else None)
             (if pp_cpu p \<noteq> [] then Some (npm_cpu cpu) else None)
             libc_context))"

text \<open>
  The loop of \<open>value_matches\<close>, with its two flags: an exclusion of the current value
  returns at once.
\<close>

fun value_loop :: "string \<Rightarrow> string list \<Rightarrow> bool \<Rightarrow> bool \<Rightarrow> bool" where
  "value_loop current [] has_positive positive_match \<longleftrightarrow> \<not> has_positive \<or> positive_match"
| "value_loop current (value # values) has_positive positive_match \<longleftrightarrow>
     (case strip_prefix ''!'' value of
        Some excluded \<Rightarrow>
          if excluded = current then False else value_loop current values has_positive positive_match
      | None \<Rightarrow> value_loop current values True (positive_match \<or> value = current))"

definition value_matches :: "string list \<Rightarrow> string option \<Rightarrow> bool" where
  "value_matches values current \<longleftrightarrow>
     (if values = [] then True
      else (case current of None \<Rightarrow> False | Some c \<Rightarrow> value_loop c values False False))"

definition platform_matches :: "package_platform \<Rightarrow> string \<Rightarrow> string \<Rightarrow> string option \<Rightarrow> bool" where
  "platform_matches p os cpu libc \<longleftrightarrow>
     (let os = npm_os os; cpu = npm_cpu cpu;
          libc_matches =
            (if os \<noteq> ''linux'' \<or> (libc = None \<and> list_all negated (pp_libc p)) then True
             else value_matches (pp_libc p) libc)
      in value_matches (pp_os p) (Some os) \<and> value_matches (pp_cpu p) (Some cpu) \<and> libc_matches)"

section \<open>Artifact URLs\<close>

text \<open>\<open>u8::from_str_radix(_, 16)\<close> on two bytes, which takes a leading plus sign.\<close>

definition radix16_pair :: "char \<Rightarrow> char \<Rightarrow> nat option" where
  "radix16_pair a b =
     (if a = CHR ''+'' then to_digit16 b
      else (case (to_digit16 a, to_digit16 b) of (Some h, Some l) \<Rightarrow> Some (h * 16 + l) | _ \<Rightarrow> None))"

definition lower_hex_letter :: "char \<Rightarrow> bool" where
  "lower_hex_letter c \<longleftrightarrow> 97 \<le> byte c \<and> byte c \<le> 102"

fun path_has_noncanonical_percent_encoding :: "string \<Rightarrow> bool" where
  "path_has_noncanonical_percent_encoding [] = False"
| "path_has_noncanonical_percent_encoding (c # cs) =
     (if c \<noteq> CHR ''%'' then path_has_noncanonical_percent_encoding cs
      else (case cs of
        a # b # rest \<Rightarrow>
          if lower_hex_letter a \<or> lower_hex_letter b then True
          else if \<not> utf8_valid [a, b] then True
          else (case radix16_pair a b of
              None \<Rightarrow> True
            | Some decoded \<Rightarrow>
                (let d = char_of decoded in
                 if is_ascii_control d \<or> is_ascii_alphanumeric d \<or>
                    d \<in> {CHR ''-'', CHR ''.'', CHR ''_'', CHR ''~''}
                 then True
                 else path_has_noncanonical_percent_encoding rest))
      | _ \<Rightarrow> True))"

definition canonical_url :: "string \<Rightarrow> url \<Rightarrow> bool" where
  "canonical_url raw url \<longleftrightarrow>
     list_all is_ascii raw \<and>
     (case strip_prefix ''https://'' raw of
        None \<Rightarrow> False
      | Some remainder \<Rightarrow>
          (let auth = takeWhile (\<lambda>c. c \<notin> {CHR ''/'', CHR ''?'', CHR ''#''}) remainder
           in auth \<noteq> [] \<and> \<not> prefix ''/'' auth \<and> CHR ''@'' \<notin> set auth \<and>
              url_as_str url = raw \<and>
              \<not> list_ex (\<lambda>c. is_ascii_control c \<or> c = CHR '' '') raw \<and>
              CHR 0x5C \<notin> set raw \<and>
              \<not> path_has_noncanonical_percent_encoding (url_path url) \<and>
              url_scheme url = ''https'' \<and> url_host_str url \<noteq> None \<and> url_username url = [] \<and>
              url_password url = None \<and> url_query url = None \<and> url_fragment url = None))"

definition artifact_url_from_str :: "'v crates \<Rightarrow> string \<Rightarrow> (domain_error, string) result" where
  "artifact_url_from_str C value =
     (case url_parse C value of
        None \<Rightarrow> Inl InvalidArtifactUrl
      | Some url \<Rightarrow> if canonical_url value url then Inr value else Inl InvalidArtifactUrl)"

end
