(* ===== verification/Core_Facts.thy ===== *)
theory Core_Facts
  imports Core_Types
begin

text \<open>
  Facts about the value objects of \<open>tapid-core\<close>: declarative grammars for the accepted
  texts, that parsing a printed value gives the value back, and what an accepted value can
  never contain. The lockfile and the resolver build on these.
\<close>

section \<open>What the parsers are meant to accept\<close>

text \<open>npm names: one run of name characters, or a scope and a name.\<close>

definition valid_package_name :: "string \<Rightarrow> bool" where
  "valid_package_name v \<longleftrightarrow>
     length v \<le> 214 \<and> v \<noteq> [] \<and> hd v \<notin> {CHR ''.'', CHR ''_''} \<and> last v \<notin> {CHR ''.'', CHR ''_''} \<and>
     (list_all is_name_character v \<or>
      (\<exists>scope name. v = ''@'' @ scope @ ''/'' @ name \<and> scope \<noteq> [] \<and> name \<noteq> [] \<and>
         list_all is_name_character scope \<and> list_all is_name_character name))"

text \<open>A canonical digest: the prefix and 64 lower-case hexadecimal digits.\<close>

definition canonical_digest :: "string \<Rightarrow> bool" where
  "canonical_digest d \<longleftrightarrow> (\<exists>hex. d = ''sha256-'' @ hex \<and> length hex = 64 \<and> list_all is_lower_hex hex)"

text \<open>
  A constraint list admits a value: no entry excludes it, and if there is any positive entry,
  one of them is the value.
\<close>

definition admits :: "string list \<Rightarrow> string \<Rightarrow> bool" where
  "admits values c \<longleftrightarrow>
     ''!'' @ c \<notin> set values \<and> ((\<forall>v\<in>set values. negated v) \<or> (\<exists>v\<in>set values. \<not> negated v \<and> v = c))"

section \<open>Lemmas\<close>

lemma name_character_ascii: "is_name_character c \<Longrightarrow> is_ascii c \<and> \<not> is_whitespace (byte c) \<and> \<not> is_control (byte c)"
  by (auto simp: is_name_character_def ascii_class_defs is_whitespace_def is_control_def byte_def)

lemma name_character_excludes:
  "is_name_character c \<Longrightarrow> c \<notin> {CHR ''/'', CHR ''@'', CHR ''|'', CHR '':'', CHR ''#'', CHR ''!'', CHR '','', CHR '';'', CHR ''=''}"
  by (auto simp: is_name_character_def ascii_class_defs byte_def)

lemma valid_package_name_ascii:
  "valid_package_name v \<Longrightarrow> list_all is_ascii v \<and> \<not> any_whitespace v \<and> \<not> any_control v"
proof -
  assume "valid_package_name v"
  then have "\<forall>c\<in>set v. is_name_character c \<or> c = CHR ''@'' \<or> c = CHR ''/''"
    by (auto simp: valid_package_name_def list_all_iff)
  then have *: "\<forall>c\<in>set v. is_ascii c \<and> \<not> is_whitespace (byte c) \<and> \<not> is_control (byte c)"
    by (auto dest!: name_character_ascii simp: is_ascii_def is_whitespace_def is_control_def byte_def)
  then have "list_all is_ascii v" by (simp add: list_all_iff)
  with * show ?thesis
    by (auto simp: any_whitespace_ascii any_control_ascii list_ex_iff)
qed

lemma scoped_split:
  assumes "list_all is_name_character scope" "list_all is_name_character name"
  shows "split_char (CHR ''/'') (''@'' @ scope @ ''/'' @ name) = [''@'' @ scope, name]"
proof -
  have "CHR ''/'' \<notin> set (''@'' @ scope)" "CHR ''/'' \<notin> set name"
    using assms by (auto simp: list_all_iff dest: name_character_excludes)
  then show ?thesis
    using split_char_append_sep [of "CHR ''/''" "''@'' @ scope" name] by (simp add: split_char_no_sep)
qed

lemma package_name_shape:
  "package_name_from_str v = Inl (InvalidPackageName v) \<or> package_name_from_str v = Inr v"
  by (auto simp: package_name_from_str_def Let_def)

lemma package_name_accepts: "valid_package_name v \<Longrightarrow> package_name_from_str v = Inr v"
proof -
  assume v: "valid_package_name v"
  have ws: "\<not> any_whitespace v" using valid_package_name_ascii [OF v] by simp
  show ?thesis
  proof (cases "list_all is_name_character v")
    case True
    then have "\<not> prefix ''@'' v"
      by (cases v) (auto dest: name_character_excludes)
    with True v ws show ?thesis
      by (auto simp: package_name_from_str_def valid_package_name_def prefix_single ends_with_single
          list_ex_iff list_all_iff)
  next
    case False
    then obtain scope name where eq: "v = ''@'' @ scope @ ''/'' @ name" "scope \<noteq> []" "name \<noteq> []"
        "list_all is_name_character scope" "list_all is_name_character name"
      using v by (auto simp: valid_package_name_def)
    have split: "split_char (CHR ''/'') v = [''@'' @ scope, name]"
      using eq scoped_split by simp
    have "scope \<noteq> [] \<Longrightarrow> 0 < length scope" by simp
    with v ws eq split show ?thesis
      by (simp add: package_name_from_str_def valid_package_name_def prefix_single ends_with_single
          list_ex_iff list_all_iff Suc_le_eq)
  qed
qed

lemma package_name_rejects: "package_name_from_str v = Inr w \<Longrightarrow> valid_package_name v"
proof (cases "prefix ''@'' v")
  case False
  assume "package_name_from_str v = Inr w"
  with False show ?thesis
    by (auto simp: package_name_from_str_def valid_package_name_def prefix_single ends_with_single
        list_ex_iff list_all_iff split: if_splits)
next
  case True
  assume ok: "package_name_from_str v = Inr w"
  define parts where "parts = split_char (CHR ''/'') v"
  have p: "length parts \<le> 2" "2 \<le> length (hd parts)" "(case tl parts of [] \<Rightarrow> [] | n # _ \<Rightarrow> n) \<noteq> []"
      "list_all is_name_character (drop 1 (hd parts))"
      "list_all is_name_character (case tl parts of [] \<Rightarrow> [] | n # _ \<Rightarrow> n)"
    and g: "v \<noteq> []" "length v \<le> 214" "last v \<notin> {CHR ''.'', CHR ''_''}"
    using ok True
    by (auto simp: package_name_from_str_def Let_def parts_def [symmetric] ends_with_single
        list_ex_iff list_all_iff not_less split: if_splits)
  obtain a b where ab: "parts = [a, b]"
    using p by (cases parts rule: remdups_adj.cases) (auto split: list.splits)
  then have v: "v = a @ CHR ''/'' # b"
    by (simp add: parts_def split_char_two)
  with p ab True obtain a' where "a = CHR ''@'' # a'"
    by (cases a) auto
  with p ab v g show ?thesis
    unfolding valid_package_name_def
    by (intro conjI disjI2 exI [of _ a'] exI [of _ b]) auto
qed

lemma package_name_from_str_iff:
  "package_name_from_str v = (if valid_package_name v then Inr v else Inl (InvalidPackageName v))"
  using package_name_shape package_name_accepts package_name_rejects by metis

lemma package_name_Inr [result_simps]:
  "package_name_from_str v = Inr n \<longleftrightarrow> valid_package_name v \<and> n = v"
  by (auto simp: package_name_from_str_iff)

lemma version_from_str_Inr [result_simps]:
  "package_version_from_str C s = Inr v \<longleftrightarrow> sv_parse C s = Some v \<and> sv_build C v = []"
  by (auto simp: package_version_from_str_def split: option.splits)

lemma lower_hex_lower: "is_lower_hex c \<Longrightarrow> ascii_lower c = c \<and> is_ascii_hexdigit c"
  by (auto simp: is_lower_hex_def ascii_lower_def ascii_class_defs)

lemma to_lower_append [simp]: "to_ascii_lowercase (a @ b) = to_ascii_lowercase a @ to_ascii_lowercase b"
  by (simp add: to_ascii_lowercase_def)

lemma to_lower_sha256: "to_ascii_lowercase (''sha256-'' @ hex) = ''sha256-'' @ to_ascii_lowercase hex"
proof -
  have "to_ascii_lowercase ''sha256-'' = ''sha256-''" by code_simp
  then show ?thesis by (simp only: to_lower_append)
qed

lemma to_lower_id: "(\<And>c. c \<in> set s \<Longrightarrow> ascii_lower c = c) \<Longrightarrow> to_ascii_lowercase s = s"
  by (simp add: to_ascii_lowercase_def map_idI)

lemma digest_Inr: "artifact_digest_from_str v = Inr d \<Longrightarrow> d = to_ascii_lowercase v \<and> canonical_digest d"
proof -
  assume "artifact_digest_from_str v = Inr d"
  then obtain hex where hex: "v = ''sha256-'' @ hex" "length hex = 64" "list_all is_ascii_hexdigit hex"
      and d: "d = to_ascii_lowercase v"
    by (simp add: artifact_digest_from_str_def strip_prefix_Some list_all_iff list_ex_iff
        split: option.splits if_splits)
  have "list_all is_lower_hex (to_ascii_lowercase hex)"
    using hex(3) by (simp add: to_ascii_lowercase_def list_all_iff lower_hex_of_lower)
  with hex d show ?thesis
    unfolding canonical_digest_def by (simp only: to_lower_sha256) auto
qed

lemma digest_canonical [simp]: "canonical_digest d \<Longrightarrow> artifact_digest_from_str d = Inr d"
proof -
  assume "canonical_digest d"
  then obtain hex where hex: "d = ''sha256-'' @ hex" "length hex = 64" "list_all is_lower_hex hex"
    unfolding canonical_digest_def by blast
  have "to_ascii_lowercase d = d"
    unfolding hex(1) to_lower_sha256 using hex(3)
    by (simp add: to_lower_id list_all_iff lower_hex_lower)
  moreover have "strip_prefix ''sha256-'' d = Some hex" by (simp only: hex(1) strip_prefix_append)
  ultimately show ?thesis
    using hex(2,3) by (simp add: artifact_digest_from_str_def list_all_iff list_ex_iff lower_hex_lower)
qed

lemma digest_fixpoint_iff:
  "artifact_digest_from_str d = Inr d \<longleftrightarrow> canonical_digest d"
  using digest_Inr digest_canonical by blast

lemma digest_idem: "artifact_digest_from_str v = Inr d \<Longrightarrow> artifact_digest_from_str d = Inr d"
  by (simp add: digest_Inr)

lemma canonical_digest_chars:
  "canonical_digest d \<Longrightarrow> c \<in> set d \<Longrightarrow> is_lower_hex c \<or> c \<in> set ''sha256-''"
  by (auto simp: canonical_digest_def list_all_iff)

lemma integrity_idem:
  assumes "base64_contract C" "package_integrity_from_str C v = Inr i"
  shows "package_integrity_from_str C i = Inr i"
proof -
  obtain d where d: "length d = 64" "i = ''sha512-'' @ b64_encode C d"
    using assms(2) by (auto simp: package_integrity_from_str_def split: option.splits if_splits)
  with assms(1) have "length (b64_encode C d) = 88" "ends_with ''=='' (b64_encode C d)"
      "b64_decode C (b64_encode C d) = Some d"
    by (simp_all add: base64_contract_def)
  with d show ?thesis by (simp add: package_integrity_from_str_def)
qed

lemma host_char_facts:
  "host_char c \<Longrightarrow> ascii_lower c = c \<and> is_ascii c \<and> \<not> is_whitespace (byte c) \<and> \<not> is_control (byte c) \<and>
     c \<notin> {CHR ''@'', CHR ''|'', CHR ''#'', CHR ''?'', CHR ''/''}"
  by (auto simp: host_char_def ascii_lower_def is_ascii_def is_whitespace_def is_control_def)

lemma origin_Inr:
  assumes "url_contract C" "registry_origin_from_str C v = Inr r"
  obtains host port a where "r = ''https://'' @ authority host port" "host \<noteq> []"
    "list_all host_char host" "CHR '':'' \<in> set host \<longrightarrow> prefix ''['' host" "port \<noteq> Some 443"
    "url_parse C r = Some (origin_url host port a)"
proof -
  obtain u host where u: "url_parse C v = Some u" "url_scheme u = ''https''" "url_host_str u = Some host"
    using assms(2) by (auto simp: registry_origin_from_str_def split: option.splits if_splits)
  have h: "host \<noteq> []" "list_all host_char host" "CHR '':'' \<in> set host \<longrightarrow> prefix ''['' host"
      "url_port u \<noteq> Some 443"
    and ex: "\<exists>a. url_parse C (''https://'' @ authority host (url_port u)) =
           Some (origin_url host (url_port u) a)"
    using assms(1) u unfolding url_contract_def by blast+
  have low: "to_ascii_lowercase host = host"
    using h(2) by (simp add: to_ascii_lowercase_def list_all_iff map_idI host_char_facts)
  have "r = ''https://'' @ authority host (url_port u)"
    using assms(2) u h low
    by (auto simp: registry_origin_from_str_def authority_def split: option.splits if_splits)
  with h ex that show thesis by blast
qed

lemma origin_chars:
  assumes "r = ''https://'' @ authority host port" "list_all host_char host" "c \<in> set r"
  shows "host_char c \<or> c = CHR ''/''"
proof -
  have lit: "list_all (\<lambda>c. host_char c \<or> c = CHR ''/'') ''https://''" by code_simp
  have colon: "host_char (CHR '':'')" by code_simp
  have "c \<in> set (dec_string p) \<Longrightarrow> host_char c" for p
    using dec_string_digits [of c p]
    by (auto simp: host_char_def is_ascii_digit_def is_ascii_uppercase_def byte_def)
  with assms(2) colon have "c \<in> set (authority host port) \<Longrightarrow> host_char c"
    by (cases port) (auto simp: authority_def list_all_iff)
  then show ?thesis
    using assms(1,3) lit unfolding list_all_iff by (metis Un_iff set_append)
qed

lemma origin_idem:
  assumes "url_contract C" "registry_origin_from_str C v = Inr r"
  shows "registry_origin_from_str C r = Inr r"
proof -
  obtain host port a where o: "r = ''https://'' @ authority host port" "host \<noteq> []"
    "list_all host_char host" "CHR '':'' \<in> set host \<longrightarrow> prefix ''['' host" "port \<noteq> Some 443"
    "url_parse C r = Some (origin_url host port a)"
    using origin_Inr [OF assms] .
  have "CHR ''@'' \<notin> set r"
    using origin_chars [OF o(1) o(3)] host_char_facts by blast
  moreover have "to_ascii_lowercase host = host"
    using o(3) by (simp add: to_ascii_lowercase_def list_all_iff map_idI host_char_facts)
  ultimately show ?thesis
    using o(2,4,5,6) unfolding o(1)
    by (auto simp: registry_origin_from_str_def origin_url_def authority_def split: option.splits)
qed

lemma source_cases:
  assumes "package_source_from_str C v = Inr s"
  obtains
    (copied_file) path digest where "v = ''file:'' @ path @ ''#'' @ digest" "s = PackageSource v None"
      "CHR ''#'' \<notin> set digest" "canonical_digest digest" "path \<noteq> []" "\<not> prefix ''/'' path"
      "list_all (\<lambda>c. c \<notin> {CHR 0x5C, CHR '':'', CHR ''|'', CHR ''#''}) path" "\<not> any_control path"
      "list_all (\<lambda>part. part \<noteq> [] \<and> part \<noteq> ''.'' \<and> part \<noteq> ''..'') (split_char (CHR ''/'') path)"
  | (copied_git) repository commit digest where "v = ''git+'' @ repository @ ''#'' @ commit @ ''!'' @ digest"
      "s = PackageSource v None" "git_repository_from_str C repository = Inr repository"
      "commit_ok commit" "canonical_digest digest" "CHR ''#'' \<notin> set (commit @ ''!'' @ digest)"
  | (reg) origin where "registry_origin_from_str C v = Inr origin" "s = source_of_registry origin"
      "strip_prefix ''file:'' v = None" "strip_prefix ''git+'' v = None"
proof (cases "strip_prefix ''file:'' v")
  case (Some rest)
  note file_rest = Some
  show thesis
  proof (cases "rsplit_once (CHR ''#'') rest")
    case (Some pd)
    obtain path digest where pd: "pd = (path, digest)" by (cases pd)
    from Some pd have rest: "rest = path @ CHR ''#'' # digest" "CHR ''#'' \<notin> set digest"
      using rsplit_once_Some by blast+
    from assms file_rest Some pd show thesis
      by (intro copied_file [of path digest])
        (simp_all add: package_source_from_str_def strip_prefix_Some rest digest_fixpoint_iff [symmetric]
          list_all_iff list_ex_iff split: if_splits sum.splits)
  qed (use assms Some in \<open>simp add: package_source_from_str_def\<close>)
next
  case None
  note no_file = None
  show thesis
  proof (cases "strip_prefix ''git+'' v")
    case (Some rest)
    note git_rest = Some
    show thesis
    proof (cases "rsplit_once (CHR ''#'') rest")
      case (Some pd)
      obtain repository pin where pd: "pd = (repository, pin)" by (cases pd)
      from Some pd have rest: "rest = repository @ CHR ''#'' # pin" "CHR ''#'' \<notin> set pin"
        using rsplit_once_Some by blast+
      from assms no_file git_rest Some pd obtain commit digest where pin: "split_once ''!'' pin = Some (commit, digest)"
        by (auto simp: package_source_from_str_def split: option.splits)
      then have "pin = commit @ ''!'' @ digest" by (rule split_once_Some)
      with assms no_file git_rest Some pd pin rest show thesis
        by (intro copied_git [of repository commit digest])
          (simp_all add: package_source_from_str_def strip_prefix_Some digest_fixpoint_iff [symmetric]
            split: if_splits sum.splits)
    qed (use assms no_file Some in \<open>simp add: package_source_from_str_def\<close>)
  next
    case None
    with assms no_file obtain origin where "registry_origin_from_str C v = Inr origin" "s = source_of_registry origin"
      by (auto simp: package_source_from_str_def split: sum.splits)
    with None no_file show thesis by (intro reg)
  qed
qed

lemma origin_https: "registry_origin_from_str C v = Inr r \<Longrightarrow> \<exists>a. r = ''https://'' @ a"
  by (auto simp: registry_origin_from_str_def Let_def split: option.splits if_splits)

lemma source_roundtrip:
  assumes "url_contract C" "package_source_from_str C v = Inr s"
  shows "package_source_from_str C (identity s) = Inr s"
  using assms(2)
proof (cases rule: source_cases)
  case (reg origin)
  obtain host port a where "origin = ''https://'' @ authority host port"
    using origin_Inr [OF assms(1) reg(1)] .
  then have "strip_prefix ''file:'' origin = None" "strip_prefix ''git+'' origin = None" by simp_all
  with reg origin_idem [OF assms(1) reg(1)] show ?thesis
    by (simp add: package_source_from_str_def source_of_registry_def)
qed (use assms in simp_all)

lemma lower_hex_clean: "is_lower_hex c \<Longrightarrow> c \<notin> {CHR ''|'', CHR ''#'', CHR ''!'', CHR '' '', CHR ''@'', CHR '':''}"
  by (auto simp: is_lower_hex_def is_ascii_digit_def byte_def)

lemma canonical_digest_clean: "canonical_digest d \<Longrightarrow> c \<in> set d \<Longrightarrow> c \<notin> {CHR ''|'', CHR ''#'', CHR ''!'', CHR '' '', CHR ''@''}"
  using canonical_digest_chars [of d c] lower_hex_clean [of c] by auto

lemma source_no_pipe:
  assumes "url_contract C" "package_source_from_str C v = Inr s"
  shows "CHR ''|'' \<notin> set (identity s)"
  using assms(2)
proof (cases rule: source_cases)
  case (copied_file path digest)
  have "CHR ''|'' \<notin> set path" using copied_file(7) by (auto simp: list_all_iff)
  moreover have "CHR ''|'' \<notin> set digest" using canonical_digest_clean [OF copied_file(4)] by blast
  ultimately show ?thesis using copied_file(1,2) by simp
next
  case (copied_git repository commit digest)
  have "CHR ''|'' \<notin> set repository"
    using copied_git(3) by (auto simp: git_repository_from_str_def list_ex_iff split: option.splits if_splits)
  moreover have "CHR ''|'' \<notin> set commit"
    using copied_git(4) lower_hex_clean by (auto simp: commit_ok_def list_all_iff)
  moreover have "CHR ''|'' \<notin> set digest" using canonical_digest_clean [OF copied_git(5)] by blast
  ultimately show ?thesis using copied_git(1,2) by simp
next
  case (reg origin)
  obtain host port a where o: "origin = ''https://'' @ authority host port" "list_all host_char host"
    using origin_Inr [OF assms(1) reg(1)] .
  have "CHR ''|'' \<notin> set origin" using origin_chars [OF o] host_char_facts by blast
  with reg show ?thesis by (simp add: source_of_registry_def)
qed

lemma source_copied_pinned:
  assumes "package_source_from_str C v = Inr s" "registry s = None"
  shows "\<exists>d. artifact_digest s = Some d \<and> canonical_digest d"
  using assms(1)
proof (cases rule: source_cases)
  case (copied_file path digest)
  then have "file_parts s = Some (path, digest)"
    by (simp add: file_parts_def rsplit_once_append)
  with copied_file show ?thesis by (simp add: artifact_digest_def)
next
  case (copied_git repository commit digest)
  have bang: "CHR ''!'' \<notin> set commit"
    using copied_git(4) lower_hex_clean by (auto simp: commit_ok_def list_all_iff)
  have "file_parts s = None" using copied_git by (simp add: file_parts_def)
  moreover have "git_parts s = Some (repository, commit, digest)"
    using copied_git bang split_once_append [of "''!''" "CHR ''!''" "[]" commit digest]
      rsplit_once_append [of "CHR ''#''" "commit @ ''!'' @ digest" repository]
    by (simp add: git_parts_def)
  ultimately show ?thesis using copied_git by (simp add: artifact_digest_def)
next
  case (reg origin)
  with assms(2) show ?thesis by (simp add: source_of_registry_def)
qed

lemma source_file_contained:
  assumes "package_source_from_str C v = Inr s" "file_parts s = Some (path, digest)"
  shows "path \<noteq> [] \<and> \<not> prefix ''/'' path \<and>
    (\<forall>part\<in>set (split_char (CHR ''/'') path). part \<noteq> [] \<and> part \<noteq> ''.'' \<and> part \<noteq> ''..'')"
  using assms(1)
proof (cases rule: source_cases)
  case (copied_file p d)
  then have "file_parts s = Some (p, d)"
    by (simp add: file_parts_def rsplit_once_append)
  with assms(2) copied_file show ?thesis by (simp add: list_all_iff)
next
  case (reg origin)
  with assms(2) origin_https [OF reg(1)] show ?thesis
    by (auto simp: file_parts_def source_of_registry_def)
qed (use assms in \<open>auto simp: file_parts_def\<close>)

lemma value_loop_iff:
  "value_loop c vs hp pm \<longleftrightarrow>
     ''!'' @ c \<notin> set vs \<and> (\<not> hp \<and> (\<forall>v\<in>set vs. negated v) \<or> pm \<or> (\<exists>v\<in>set vs. \<not> negated v \<and> v = c))"
proof (induction vs arbitrary: hp pm)
  case (Cons v vs)
  show ?case
  proof (cases v)
    case (Cons x xs)
    with Cons.IH show ?thesis by (auto simp: negated_def)
  qed (use Cons.IH in \<open>auto simp: negated_def\<close>)
qed auto

lemma value_matches_iff:
  "value_matches vs (Some c) \<longleftrightarrow> admits vs c" "value_matches vs None \<longleftrightarrow> vs = []"
  by (auto simp: value_matches_def value_loop_iff admits_def)

lemma platform_matches_iff:
  "platform_matches p os cpu libc \<longleftrightarrow>
     admits (pp_os p) (npm_os os) \<and> admits (pp_cpu p) (npm_cpu cpu) \<and>
     (npm_os os = ''linux'' \<longrightarrow>
       (case libc of None \<Rightarrow> \<forall>v\<in>set (pp_libc p). negated v | Some l \<Rightarrow> admits (pp_libc p) l))"
  by (cases libc) (auto simp: platform_matches_def Let_def value_matches_iff list_all_iff)

lemma matches_selects:
  assumes "platform_matches p os cpu libc"
    and "\<not> platform_value_bad (npm_os os)" "\<not> platform_value_bad (npm_cpu cpu)"
    and "\<And>l. libc = Some l \<Longrightarrow> \<not> platform_value_bad l"
  shows "selected_context p os cpu libc = Inr (PlatformContext
     (if pp_os p = [] then None else Some (npm_os os))
     (if pp_cpu p = [] then None else Some (npm_cpu cpu))
     (if pp_libc p = [] \<or> npm_os os \<noteq> ''linux'' then None else libc))"
  using assms by (cases libc)
    (auto simp: platform_matches_iff selected_context_def platform_context_new_def list_all_iff
      split: option.splits)

lemma valid_name_parts:
  assumes "valid_package_name n"
  shows "split_char (CHR ''/'') n = [n] \<or>
    (\<exists>scope name. split_char (CHR ''/'') n = [''@'' @ scope, name] \<and> scope \<noteq> [] \<and> name \<noteq> [] \<and>
       last name \<notin> {CHR ''.'', CHR ''_''})"
proof (cases "list_all is_name_character n")
  case True
  then have "CHR ''/'' \<notin> set n" by (auto simp: list_all_iff dest: name_character_excludes)
  then show ?thesis by (simp add: split_char_no_sep)
next
  case False
  with assms obtain scope name where "n = ''@'' @ scope @ ''/'' @ name" "scope \<noteq> []" "name \<noteq> []"
      "list_all is_name_character scope" "list_all is_name_character name" "last n \<notin> {CHR ''.'', CHR ''_''}"
    by (auto simp: valid_package_name_def)
  then show ?thesis using scoped_split [of scope name] by auto
qed

lemma valid_name_path_safe:
  assumes "valid_package_name n" "part \<in> set (split_char (CHR ''/'') n)"
  shows "part \<noteq> [] \<and> part \<noteq> ''.'' \<and> part \<noteq> ''..''"
  using valid_name_parts [OF assms(1)] assms by (auto simp: valid_package_name_def)

section \<open>Properties of the value objects\<close>

text \<open>
  C39. A package name is accepted exactly when it follows the npm grammar (at most 214 bytes, one
  run of name characters or a scope and a name, not starting or ending in a dot or underscore),
  and an accepted name is safe to join to a path: it has one or two components and none of them is
  empty, a dot or two dots.
\<close>

theorem package_name_accepted_iff_safe_grammar:
  "package_name_from_str v = (if valid_package_name v then Inr v else Inl (InvalidPackageName v)) \<and>
   (valid_package_name v \<longrightarrow>
     length (split_char (CHR ''/'') v) \<le> 2 \<and>
     (\<forall>part\<in>set (split_char (CHR ''/'') v). part \<noteq> [] \<and> part \<noteq> ''.'' \<and> part \<noteq> ''..''))"
  using package_name_from_str_iff valid_name_path_safe valid_name_parts by fastforce

theorem package_name_accepted_iff_safe_grammar_witness:
  "valid_package_name ''@tapid/core'' \<and> package_name_from_str ''@tapid/core'' = Inr ''@tapid/core'' \<and>
   length (split_char (CHR ''/'') ''@tapid/core'') \<le> 2 \<and> ''..'' \<notin> set (split_char (CHR ''/'') ''@tapid/core'')"
proof -
  have ok: "package_name_from_str ''@tapid/core'' = Inr ''@tapid/core''" by code_simp
  with package_name_accepted_iff_safe_grammar [of "''@tapid/core''"]
  have "valid_package_name ''@tapid/core''" by (metis Inl_Inr_False)
  with ok package_name_accepted_iff_safe_grammar [of "''@tapid/core''"] show ?thesis by blast
qed

end
