(* ===== verification/Reference_Crates.thy ===== *)
theory Reference_Crates
  imports Core_Facts
begin

text \<open>
  Concrete functions for the third-party crates, on a subset of their inputs: versions whose
  pre-release identifiers are numbers, \<open>https\<close> addresses without a port, and the standard
  base64 alphabet. They satisfy every contract of the theory \<open>Crates\<close>, so the
  contracts can hold, and concrete runs of the model evaluate with them.
\<close>

section \<open>Versions\<close>

datatype rversion = RVersion (r_major: u64) (r_minor: u64) (r_patch: u64) (r_pre: "nat list")

definition rversion_key :: "rversion \<Rightarrow> (u64 \<times> u64 \<times> u64) \<times> bool \<times> nat list" where
  "rversion_key v = ((r_major v, r_minor v, r_patch v), r_pre v = [], r_pre v)"

lemma rversion_key_inject: "rversion_key a = rversion_key b \<longleftrightarrow> a = b"
  by (auto simp: rversion_key_def intro: rversion.expand)

instantiation rversion :: linorder
begin

definition less_eq_rversion :: "rversion \<Rightarrow> rversion \<Rightarrow> bool" where
  "less_eq_rversion a b \<longleftrightarrow> rversion_key a \<le> rversion_key b"

definition less_rversion :: "rversion \<Rightarrow> rversion \<Rightarrow> bool" where
  "less_rversion a b \<longleftrightarrow> rversion_key a < rversion_key b"

instance
  by standard (auto simp: less_eq_rversion_def less_rversion_def rversion_key_inject [symmetric])

end

definition r_pre_text :: "rversion \<Rightarrow> string" where
  "r_pre_text v = join ''.'' (map dec_string (r_pre v))"

definition r_to_string :: "rversion \<Rightarrow> string" where
  "r_to_string v =
     dec_string (unat (r_major v)) @ ''.'' @ dec_string (unat (r_minor v)) @ ''.'' @
     dec_string (unat (r_patch v)) @ (if r_pre v = [] then [] else ''-'' @ r_pre_text v)"

definition r_numbers :: "string \<Rightarrow> (u64 \<times> u64 \<times> u64) option" where
  "r_numbers s =
     (case split_char (CHR ''.'') s of
        [a, b, c] \<Rightarrow>
          (case (parse_u64 a, parse_u64 b, parse_u64 c) of
             (Some x, Some y, Some z) \<Rightarrow> Some (x, y, z)
           | _ \<Rightarrow> None)
      | _ \<Rightarrow> None)"

definition r_parse_pre :: "string \<Rightarrow> nat list option" where
  "r_parse_pre s =
     (let parts = split_char (CHR ''.'') s in
      if list_all (\<lambda>p. p \<noteq> [] \<and> list_all is_ascii_digit p) parts then Some (map (dec_value 0) parts) else None)"

definition r_parse :: "string \<Rightarrow> rversion option" where
  "r_parse s =
     (case split_once ''-'' s of
        None \<Rightarrow> (case r_numbers s of None \<Rightarrow> None | Some (a, b, c) \<Rightarrow> Some (RVersion a b c []))
      | Some (front, pre) \<Rightarrow>
          (case (r_numbers front, r_parse_pre pre) of
             (Some (a, b, c), Some ns) \<Rightarrow> Some (RVersion a b c ns)
           | _ \<Rightarrow> None))"

lemma r_numbers_text:
  "r_numbers (dec_string (unat a) @ ''.'' @ dec_string (unat b) @ ''.'' @ dec_string (unat c)) = Some (a, b, c)"
  by (simp add: r_numbers_def split_char_append_sep split_char_no_sep dec_string_no)

lemma r_pre_chars: "c \<in> set (r_pre_text v) \<Longrightarrow> is_ascii_digit c \<or> c = CHR ''.''"
  using set_join [of "''.''" "map dec_string (r_pre v)"] dec_string_digits
  unfolding r_pre_text_def by fastforce

lemma r_parse_pre_text: "r_pre v \<noteq> [] \<Longrightarrow> r_parse_pre (r_pre_text v) = Some (r_pre v)"
proof -
  assume ne: "r_pre v \<noteq> []"
  have "split_char (CHR ''.'') (r_pre_text v) = map dec_string (r_pre v)"
    unfolding r_pre_text_def by (rule split_char_join) (auto simp: ne dec_string_no)
  then show ?thesis
    by (simp add: r_parse_pre_def list_all_iff dec_string_digits comp_def)
qed

lemma r_pre_text_Nil: "r_pre_text v = [] \<longleftrightarrow> r_pre v = []"
  unfolding r_pre_text_def by (subst join_eq_Nil) auto

lemma r_pre_text_inject: "r_pre_text u = r_pre_text v \<Longrightarrow> r_pre u = r_pre v"
  by (metis option.inject r_parse_pre_text r_pre_text_Nil)

lemma r_parse_to_string: "r_parse (r_to_string v) = Some v"
proof -
  let ?n = "dec_string (unat (r_major v)) @ ''.'' @ dec_string (unat (r_minor v)) @ ''.'' @
     dec_string (unat (r_patch v))"
  have d: "CHR ''-'' \<notin> set ?n" by (simp add: dec_string_no)
  show ?thesis
  proof (cases "r_pre v = []")
    case True
    then have "r_to_string v = ?n" by (simp add: r_to_string_def)
    with True split_once_single_None [OF d] r_numbers_text show ?thesis
      by (simp add: r_parse_def) (metis rversion.collapse)
  next
    case False
    then have "r_to_string v = ?n @ ''-'' @ r_pre_text v" by (simp add: r_to_string_def)
    moreover have "split_once ''-'' (?n @ ''-'' @ r_pre_text v) = Some (?n, r_pre_text v)"
      by (rule split_once_append [OF refl d])
    ultimately show ?thesis
      using r_numbers_text r_parse_pre_text [OF False] by (simp add: r_parse_def)
  qed
qed

section \<open>Addresses\<close>

definition r_path_char :: "char \<Rightarrow> bool" where
  "r_path_char c \<longleftrightarrow> c = CHR ''/'' \<or> host_char c"

definition r_url :: "string \<Rightarrow> string \<Rightarrow> url" where
  "r_url host path = origin_url host None (''https://'' @ host @ path) \<lparr>url_path := path\<rparr>"

definition r_url_parse :: "string \<Rightarrow> url option" where
  "r_url_parse s =
     (case strip_prefix ''https://'' s of
        None \<Rightarrow> None
      | Some rest \<Rightarrow>
          (let host = takeWhile (\<lambda>c. c \<noteq> CHR ''/'') rest;
               path = dropWhile (\<lambda>c. c \<noteq> CHR ''/'') rest
           in if host = [] \<or> \<not> list_all host_char host \<or> CHR '':'' \<in> set host \<or> \<not> list_all r_path_char path
              then None
              else Some (r_url host (if path = [] then ''/'' else path))))"

lemma r_url_parse_Some:
  assumes "r_url_parse s = Some u"
  obtains host path where "u = r_url host path" "host \<noteq> []" "list_all host_char host"
    "CHR '':'' \<notin> set host" "path = CHR ''/'' # tl path" "list_all r_path_char path"
proof -
  obtain rest where r: "strip_prefix ''https://'' s = Some rest"
    using assms by (auto simp: r_url_parse_def split: option.splits)
  let ?h = "takeWhile (\<lambda>c. c \<noteq> CHR ''/'') rest" and ?p = "dropWhile (\<lambda>c. c \<noteq> CHR ''/'') rest"
  let ?path = "if ?p = [] then ''/'' else ?p"
  have "\<not> (?h = [] \<or> \<not> list_all host_char ?h \<or> CHR '':'' \<in> set ?h \<or> \<not> list_all r_path_char ?p)" and "u = r_url ?h ?path"
    using assms unfolding r_url_parse_def r Let_def option.case by (metis option.distinct(1), metis option.distinct(1) option.inject)
  moreover have "?path = CHR ''/'' # tl ?path"
    using hd_dropWhile [of "\<lambda>c. c \<noteq> CHR ''/''" rest] by (cases ?p) auto
  moreover have "list_all r_path_char ?p \<Longrightarrow> list_all r_path_char ?path"
    by (simp add: r_path_char_def)
  ultimately show ?thesis using that [of ?h ?path] by blast
qed

lemma r_url_parse_text:
  assumes "host \<noteq> []" "list_all host_char host" "CHR '':'' \<notin> set host" "list_all r_path_char path"
    "path = [] \<or> path = CHR ''/'' # tl path"
  shows "r_url_parse (''https://'' @ host @ path) = Some (r_url host (if path = [] then ''/'' else path))"
proof -
  have h: "\<forall>c\<in>set host. c \<noteq> CHR ''/''"
    using assms(2) host_char_facts by (auto simp: list_all_iff)
  have path: "takeWhile (\<lambda>c. c \<noteq> CHR ''/'') path = []" "dropWhile (\<lambda>c. c \<noteq> CHR ''/'') path = path"
    using assms(5) by (cases path; simp)+
  have "takeWhile (\<lambda>c. c \<noteq> CHR ''/'') (host @ path) = host" "dropWhile (\<lambda>c. c \<noteq> CHR ''/'') (host @ path) = path"
    using h by (simp_all add: takeWhile_tail dropWhile_append1 path)
  then show ?thesis
    unfolding r_url_parse_def strip_prefix_append using assms by simp
qed

section \<open>Base64\<close>

text \<open>The standard alphabet: upper-case letters, lower-case letters, digits, plus and slash.\<close>

definition b64_char :: "nat \<Rightarrow> char" where
  "b64_char n =
     (if n < 26 then char_of (65 + n) else if n < 52 then char_of (71 + n)
      else if n < 62 then char_of (n - 4) else if n = 62 then CHR ''+'' else CHR ''/'')"

definition b64_value :: "char \<Rightarrow> nat option" where
  "b64_value c =
     (let b = byte c in
      if 65 \<le> b \<and> b \<le> 90 then Some (b - 65) else if 97 \<le> b \<and> b \<le> 122 then Some (b - 71)
      else if 48 \<le> b \<and> b \<le> 57 then Some (b + 4)
      else if b = 43 then Some 62 else if b = 47 then Some 63 else None)"

fun r_encode :: "string \<Rightarrow> string" where
  "r_encode [] = []"
| "r_encode [a] = [b64_char (byte a div 4), b64_char (byte a mod 4 * 16), CHR ''='', CHR ''='']"
| "r_encode [a, b] =
     [b64_char (byte a div 4), b64_char (byte a mod 4 * 16 + byte b div 16), b64_char (byte b mod 16 * 4), CHR ''='']"
| "r_encode (a # b # c # rest) =
     b64_char (byte a div 4) # b64_char (byte a mod 4 * 16 + byte b div 16) #
     b64_char (byte b mod 16 * 4 + byte c div 64) # b64_char (byte c mod 64) # r_encode rest"

definition r_quad :: "char \<Rightarrow> char \<Rightarrow> char \<Rightarrow> char \<Rightarrow> string option" where
  "r_quad w x y z =
     (case (b64_value w, b64_value x, b64_value y, b64_value z) of
        (Some p, Some q, Some r, Some t) \<Rightarrow>
          Some [char_of (p * 4 + q div 16), char_of (q mod 16 * 16 + r div 4), char_of (r mod 4 * 64 + t)]
      | (Some p, Some q, Some r, None) \<Rightarrow>
          if z = CHR ''='' \<and> r mod 4 = 0 then Some [char_of (p * 4 + q div 16), char_of (q mod 16 * 16 + r div 4)] else None
      | (Some p, Some q, None, None) \<Rightarrow>
          if y = CHR ''='' \<and> z = CHR ''='' \<and> q mod 16 = 0 then Some [char_of (p * 4 + q div 16)] else None
      | _ \<Rightarrow> None)"

fun r_decode :: "string \<Rightarrow> string option" where
  "r_decode [] = Some []"
| "r_decode (w # x # y # z # rest) =
     (case r_quad w x y z of
        None \<Rightarrow> None
      | Some d \<Rightarrow> if z = CHR ''='' \<and> rest \<noteq> [] then None else map_option (\<lambda>r. d @ r) (r_decode rest))"
| "r_decode _ = None"

lemma b64_value_char [simp]: "n < 64 \<Longrightarrow> b64_value (b64_char n) = Some n"
proof -
  assume "n < 64"
  then consider "n < 26" | "26 \<le> n" "n < 52" | "52 \<le> n" "n < 62" | "n = 62" | "n = 63" by linarith
  then show ?thesis
    by cases (auto simp: b64_char_def b64_value_def Let_def byte_def)
qed

lemma b64_value_pad [simp]: "b64_value (CHR ''='') = None"
  by code_simp

lemma b64_char_not_pad [simp]: "n < 64 \<Longrightarrow> b64_char n \<noteq> CHR ''=''"
  using b64_value_char [of n] b64_value_pad by fastforce

lemma div_mod_low: "x < k \<Longrightarrow> (q * k + x) div k = q \<and> (q * k + x) mod k = (x::nat)"
  by simp

lemma b64_ranges [simp]:
  "byte a div 4 < 64" "byte a mod 4 * 16 < 64" "byte a mod 16 * 4 < 64"
  "byte a mod 4 * 16 + byte b div 16 < 64" "byte b mod 16 * 4 + byte c div 64 < 64"
proof -
  have high: "byte x div 4 < 64" "byte x div 16 < 16" "byte x div 64 < 4" for x
    using byte_less [of x] by (simp_all add: div_less_iff_less_mult)
  have low: "byte x mod 4 < 4" "byte x mod 16 < 16" for x
    by simp_all
  show "byte a div 4 < 64" "byte a mod 4 * 16 < 64" "byte a mod 16 * 4 < 64"
    "byte a mod 4 * 16 + byte b div 16 < 64" "byte b mod 16 * 4 + byte c div 64 < 64"
    using high(1,2,3) [of a] high(2) [of b] high(3) [of c] low [of a] low [of b] by linarith+
qed

lemma byte_split:
  "byte a div 4 * 4 + (byte a mod 4 * 16 + byte b div 16) div 16 = byte a"
  "(byte a mod 4 * 16 + byte b div 16) mod 16 * 16 + (byte b mod 16 * 4 + byte c div 64) div 4 = byte b"
  "(byte b mod 16 * 4 + byte c div 64) mod 4 * 64 + byte c mod 64 = byte c"
  "byte a div 4 * 4 + (byte a mod 4 * 16) div 16 = byte a"
  "(byte a mod 4 * 16 + byte b div 16) mod 16 * 16 + (byte b mod 16 * 4) div 4 = byte b"
proof -
  have high: "byte b div 16 < 16" "byte c div 64 < 4"
    using byte_less [of b] byte_less [of c] by (simp_all add: div_less_iff_less_mult)
  show "byte a div 4 * 4 + (byte a mod 4 * 16 + byte b div 16) div 16 = byte a"
    "(byte a mod 4 * 16 + byte b div 16) mod 16 * 16 + (byte b mod 16 * 4 + byte c div 64) div 4 = byte b"
    "(byte b mod 16 * 4 + byte c div 64) mod 4 * 64 + byte c mod 64 = byte c"
    "byte a div 4 * 4 + (byte a mod 4 * 16) div 16 = byte a"
    "(byte a mod 4 * 16 + byte b div 16) mod 16 * 16 + (byte b mod 16 * 4) div 4 = byte b"
    by (simp_all only: div_mod_low [OF high(1)] div_mod_low [OF high(2)] div_mult_mod_eq
        div_mult_self_is_m zero_less_numeral)
qed

lemma r_quad_full:
  "p < 64 \<Longrightarrow> q < 64 \<Longrightarrow> r < 64 \<Longrightarrow> t < 64 \<Longrightarrow>
   r_quad (b64_char p) (b64_char q) (b64_char r) (b64_char t) =
     Some [char_of (p * 4 + q div 16), char_of (q mod 16 * 16 + r div 4), char_of (r mod 4 * 64 + t)]"
  by (simp add: r_quad_def)

lemma r_quad_two:
  "p < 64 \<Longrightarrow> q < 64 \<Longrightarrow> r < 16 \<Longrightarrow>
   r_quad (b64_char p) (b64_char q) (b64_char (r * 4)) (CHR ''='') =
     Some [char_of (p * 4 + q div 16), char_of (q mod 16 * 16 + r * 4 div 4)]"
  by (simp add: r_quad_def)

lemma r_quad_one:
  "p < 64 \<Longrightarrow> q < 4 \<Longrightarrow>
   r_quad (b64_char p) (b64_char (q * 16)) (CHR ''='') (CHR ''='') = Some [char_of (p * 4 + q * 16 div 16)]"
  by (simp add: r_quad_def)

lemma r_decode_encode: "r_decode (r_encode d) = Some d"
proof (induction d rule: r_encode.induct)
  case (2 a)
  have "r_quad (b64_char (byte a div 4)) (b64_char (byte a mod 4 * 16)) (CHR ''='') (CHR ''='') = Some [a]"
    by (subst r_quad_one) (simp_all only: byte_split char_of_byte b64_ranges mod_less_divisor zero_less_numeral)
  then show ?case by simp
next
  case (3 a b)
  have "r_quad (b64_char (byte a div 4)) (b64_char (byte a mod 4 * 16 + byte b div 16))
     (b64_char (byte b mod 16 * 4)) (CHR ''='') = Some [a, b]"
    by (subst r_quad_two) (simp_all only: byte_split char_of_byte b64_ranges mod_less_divisor zero_less_numeral)
  then show ?case by simp
next
  case (4 a b c rest)
  have "r_quad (b64_char (byte a div 4)) (b64_char (byte a mod 4 * 16 + byte b div 16))
     (b64_char (byte b mod 16 * 4 + byte c div 64)) (b64_char (byte c mod 64)) = Some [a, b, c]"
    by (subst r_quad_full) (simp_all only: byte_split char_of_byte b64_ranges mod_less_divisor zero_less_numeral)
  with 4 show ?case by simp
qed simp

lemma r_encode_shape: "length d = 3 * n + 1 \<Longrightarrow> length (r_encode d) = 4 * n + 4 \<and> suffix ''=='' (r_encode d)"
proof (induction n arbitrary: d)
  case 0
  then obtain a where "d = [a]" by (auto simp: length_Suc_conv)
  then show ?case by (simp add: suffix_def)
next
  case (Suc n)
  then obtain a b c rest where d: "d = a # b # c # rest" "length rest = 3 * n + 1"
    by (auto simp: length_Suc_conv eval_nat_numeral)
  with Suc.IH [of rest] show ?case by (auto simp: suffix_def)
qed

section \<open>The instance\<close>

definition reference_crates :: "rversion crates" where
  "reference_crates =
     \<lparr>sv_parse = r_parse, sv_to_string = r_to_string, sv_new = (\<lambda>a b c. RVersion a b c []),
      sv_major = r_major, sv_minor = r_minor, sv_patch = r_patch, sv_pre = r_pre_text,
      sv_build = (\<lambda>_. []), sv_clear_build = (\<lambda>v. v), sv_build_metadata_ok = (\<lambda>_. False),
      url_parse = r_url_parse,
      b64_decode_no_pad = (\<lambda>s. r_decode (s @ replicate ((4 - length s mod 4) mod 4) (CHR ''=''))),
      b64_decode = r_decode, b64_encode = r_encode, size_of_clause = 32, size_of_comparator = 56\<rparr>"

lemmas reference_simps = crates.simps reference_crates_def

lemma reference_semver: "semver_contract reference_crates"
proof -
  have "semver_fields reference_crates"
    unfolding semver_fields_def sv_triple_def reference_simps
    by (auto simp: r_pre_text_Nil intro: rversion.expand r_pre_text_inject)
  moreover have "semver_precedence reference_crates"
    unfolding semver_precedence_def sv_triple_def reference_simps
    by (auto simp: less_rversion_def rversion_key_def r_pre_text_Nil less_prod_def)
  moreover have "semver_text reference_crates"
    unfolding semver_text_def version_text_def reference_simps
    by (simp add: r_parse_to_string)
      (auto simp: r_to_string_def r_pre_text_Nil list_all_iff identifier_char_def
        is_ascii_alphanumeric_def dest: r_pre_chars)
  ultimately show ?thesis by (simp add: semver_contract_def)
qed

lemma reference_url: "url_contract reference_crates"
proof -
  have 1: "host \<noteq> [] \<and> list_all host_char host \<and> (CHR '':'' \<in> set host \<longrightarrow> prefix ''['' host) \<and>
     url_port u \<noteq> Some 443 \<and>
     (\<exists>a. r_url_parse (''https://'' @ authority host (url_port u)) = Some (origin_url host (url_port u) a))"
    if parsed: "r_url_parse s = Some u" and h: "url_host_str u = Some host" for s u host
  proof -
    obtain h p where u: "u = r_url h p" "h \<noteq> []" "list_all host_char h" "CHR '':'' \<notin> set h"
      using r_url_parse_Some [OF parsed] by metis
    then have "host = h" "url_port u = None"
      using h by (simp_all add: r_url_def origin_url_def)
    moreover have "r_url_parse (''https://'' @ h @ []) = Some (r_url h ''/'')"
      using r_url_parse_text [OF u(2,3,4), of "[]"] by simp
    moreover have "r_url h ''/'' = origin_url h None (''https://'' @ h @ ''/'')"
      by (simp add: r_url_def origin_url_def)
    ultimately show ?thesis using u by (auto simp: authority_def)
  qed
  have 2: "r_url_parse (url_as_str u) = Some u" if parsed: "r_url_parse s = Some u" for s u
  proof -
    obtain h p where u: "u = r_url h p" "h \<noteq> []" "list_all host_char h" "CHR '':'' \<notin> set h"
      "p = CHR ''/'' # tl p" "list_all r_path_char p"
      using r_url_parse_Some [OF parsed] by metis
    have "url_as_str u = ''https://'' @ h @ p" by (simp add: u(1) r_url_def origin_url_def)
    then show ?thesis using r_url_parse_text [OF u(2,3,4,6)] u(1,5) by auto
  qed
  show ?thesis
    unfolding url_contract_def reference_simps using 1 2 by blast
qed

lemma reference_base64: "base64_contract reference_crates"
  unfolding base64_contract_def reference_simps
  using r_encode_shape [where n = 21] by (auto simp: r_decode_encode ends_with_def)

end
