(* ===== verification/Registry_Models.thy ===== *)
theory Registry_Models
  imports Core_Facts
begin

text \<open>
  The data model of \<open>tapid-registry-client\<close> (\<open>models.rs\<close>): the raw snapshot a registry
  adapter supplies and its normalization into validated, sorted, duplicate-free candidates.
\<close>

section \<open>Data\<close>

datatype metadata_error =
    InvalidRegistry string
  | MInvalidPackageName string
  | InvalidVersion string
  | InvalidIntegrity string
  | InvalidArtifact string
  | InvalidDependency string
  | UnsupportedIntegrity string
  | InvalidJson string
  | MissingField string
  | ConflictingField string
  | DuplicateVersion string
  | HttpStatus nat
  | UnsupportedContentType string

datatype registry_kind = Npm | Jsr

record raw_package_metadata =
  rp_name :: string
  rp_version :: string
  rp_integrity :: "string option"
  rp_artifact :: "string option"
  rp_dependencies :: "(string, string) btree_map"

record raw_registry_snapshot =
  rs_registry :: string
  rs_packages :: "raw_package_metadata list"

record 'v package_metadata =
  pm_identity :: "'v package_id"
  pm_integrity :: "string option"
  pm_artifact :: "string option"
  pm_dependencies :: "(string, string) btree_map"
  pm_registry_kind :: registry_kind

record 'v registry_snapshot =
  snap_registry :: string
  snap_packages :: "(string, 'v package_metadata list) btree_map"

section \<open>Normalization\<close>

fun collect_dependencies ::
  "(string \<times> string) list \<Rightarrow> (string, string) btree_map \<Rightarrow> (metadata_error, (string, string) btree_map) result" where
  "collect_dependencies [] acc = Inr acc"
| "collect_dependencies ((name, requirement) # rest) acc =
     and_then (map_err (\<lambda>_. InvalidDependency name) (package_name_from_str name)) (\<lambda>package.
       if trim requirement = [] then Inl (InvalidDependency name)
       else collect_dependencies rest (bm_insert package requirement acc))"

definition artifact_text :: "string option \<Rightarrow> string option" where
  "artifact_text artifact =
     (case artifact of None \<Rightarrow> None | Some v \<Rightarrow> if trim v = [] then None else Some (trim v))"

text \<open>One pass of the loop over the raw entries.\<close>

definition normalize_entry ::
  "('v::linorder) crates \<Rightarrow> string \<Rightarrow> registry_kind \<Rightarrow> raw_package_metadata \<Rightarrow>
   (string, 'v package_metadata list) btree_map \<Rightarrow>
   (metadata_error, (string, 'v package_metadata list) btree_map) result" where
  "normalize_entry C origin kind entry packages =
     and_then (map_err (\<lambda>_. MInvalidPackageName (rp_name entry)) (package_name_from_str (trim (rp_name entry)))) (\<lambda>name.
     and_then (map_err (\<lambda>_. InvalidVersion (rp_version entry)) (package_version_from_str C (trim (rp_version entry)))) (\<lambda>version.
     and_then
       (case rp_integrity entry of
          None \<Rightarrow> Inr None
        | Some v \<Rightarrow> map_err (\<lambda>_. InvalidIntegrity v) (map_sum id Some (package_integrity_from_str C v))) (\<lambda>integrity.
     let id = PackageId (source_of_registry origin) name version;
         candidates = (case bm_get packages name of None \<Rightarrow> [] | Some cs \<Rightarrow> cs);
         artifact = artifact_text (rp_artifact entry)
     in
     if list_ex (\<lambda>p. id_version (pm_identity p) = version) candidates
     then Inl (DuplicateVersion (package_id_to_string C id))
     else if (case artifact of None \<Rightarrow> False | Some v \<Rightarrow> url_parse C v = None)
     then Inl (InvalidArtifact (package_id_to_string C id))
     else and_then (collect_dependencies (bm_entries (rp_dependencies entry)) bm_empty) (\<lambda>dependencies.
       Inr (bm_insert name
         (candidates @ [\<lparr>pm_identity = id, pm_integrity = integrity, pm_artifact = artifact,
            pm_dependencies = dependencies, pm_registry_kind = kind\<rparr>]) packages)))))"

fun normalize_entries ::
  "('v::linorder) crates \<Rightarrow> string \<Rightarrow> registry_kind \<Rightarrow> raw_package_metadata list \<Rightarrow>
   (string, 'v package_metadata list) btree_map \<Rightarrow>
   (metadata_error, (string, 'v package_metadata list) btree_map) result" where
  "normalize_entries C origin kind [] packages = Inr packages"
| "normalize_entries C origin kind (e # es) packages =
     and_then (normalize_entry C origin kind e packages) (normalize_entries C origin kind es)"

text \<open>The order of the final sort: descending version.\<close>

definition newer_first :: "('v::linorder) package_metadata \<Rightarrow> 'v package_metadata \<Rightarrow> bool" where
  "newer_first a b \<longleftrightarrow> id_version (pm_identity b) \<le> id_version (pm_identity a)"

definition snapshot_normalize ::
  "('v::linorder) crates \<Rightarrow> raw_registry_snapshot \<Rightarrow> (metadata_error, 'v registry_snapshot) result" where
  "snapshot_normalize C raw =
     and_then (map_err (\<lambda>_. InvalidRegistry (rs_registry raw)) (registry_origin_from_str C (rs_registry raw))) (\<lambda>origin.
     let kind = (if origin = ''https://jsr.io'' then Jsr else Npm) in
     and_then (normalize_entries C origin kind (rs_packages raw) bm_empty) (\<lambda>packages.
     Inr \<lparr>snap_registry = origin, snap_packages = bm_map_values (sort_by newer_first) packages\<rparr>))"

definition snapshot_candidates :: "('v::linorder) registry_snapshot \<Rightarrow> string \<Rightarrow> 'v package_metadata list" where
  "snapshot_candidates s name = (case bm_get (snap_packages s) name of None \<Rightarrow> [] | Some cs \<Rightarrow> cs)"

section \<open>What a normalized snapshot satisfies\<close>

text \<open>
  Every candidate list belongs to a valid name, holds candidates of that name from the
  snapshot's registry, and has no version twice.
\<close>

definition candidates_ok :: "string \<Rightarrow> string \<Rightarrow> ('v::linorder) package_metadata list \<Rightarrow> bool" where
  "candidates_ok origin name cs \<longleftrightarrow>
     valid_package_name name \<and> cs \<noteq> [] \<and> distinct (map (\<lambda>p. id_version (pm_identity p)) cs) \<and>
     (\<forall>p\<in>set cs. id_registry (pm_identity p) = source_of_registry origin \<and> id_name (pm_identity p) = name)"

definition packages_ok :: "string \<Rightarrow> (string, ('v::linorder) package_metadata list) btree_map \<Rightarrow> bool" where
  "packages_ok origin m \<longleftrightarrow> (\<forall>name cs. bm_get m name = Some cs \<longrightarrow> candidates_ok origin name cs)"

lemma normalize_entry_ok:
  assumes "normalize_entry C origin kind e m = Inr m'" "packages_ok origin m"
  shows "packages_ok origin m'"
proof -
  define old where "old n = (case bm_get m n of None \<Rightarrow> [] | Some cs \<Rightarrow> cs)" for n
  obtain name version integrity deps where name: "valid_package_name name"
    and new: "\<not> list_ex (\<lambda>p. id_version (pm_identity p) = version) (old name)"
    and m': "m' = bm_insert name (old name @ [\<lparr>pm_identity = PackageId (source_of_registry origin) name version,
       pm_integrity = integrity, pm_artifact = artifact_text (rp_artifact e), pm_dependencies = deps,
       pm_registry_kind = kind\<rparr>]) m"
    using assms(1) unfolding normalize_entry_def Let_def old_def [symmetric]
    by (auto simp: result_simps split: if_splits)
  have "candidates_ok origin name (old name @ [\<lparr>pm_identity = PackageId (source_of_registry origin) name version,
       pm_integrity = integrity, pm_artifact = artifact_text (rp_artifact e), pm_dependencies = deps,
       pm_registry_kind = kind\<rparr>])"
    using assms(2) name new
    by (auto simp: packages_ok_def candidates_ok_def old_def list_ex_iff split: option.splits)
  with assms(2) m' show ?thesis by (simp add: packages_ok_def)
qed

lemma normalize_entries_ok:
  "normalize_entries C origin kind es m = Inr m' \<Longrightarrow> packages_ok origin m \<Longrightarrow> packages_ok origin m'"
proof (induction es arbitrary: m)
  case (Cons e es)
  then obtain m1 where "normalize_entry C origin kind e m = Inr m1"
    "normalize_entries C origin kind es m1 = Inr m'"
    by (auto simp: result_simps)
  with Cons normalize_entry_ok show ?case by blast
qed simp

lemma newer_first_sorts: "sorted_wrt newer_first (sort_by newer_first cs)"
  by (rule sorted_sort_by) (auto simp: newer_first_def)

lemma distinct_map_sort_by: "distinct (map f cs) \<Longrightarrow> distinct (map f (sort_by le cs))"
  by (simp add: distinct_map distinct_sort_by)

lemma newer_first_strict:
  assumes "sorted_wrt newer_first cs" "distinct (map (\<lambda>p. id_version (pm_identity p)) cs)"
  shows "sorted_wrt (\<lambda>a b. id_version (pm_identity b) < id_version (pm_identity a)) cs"
  using assms
proof (induction cs)
  case (Cons p cs)
  then show ?case by (auto simp: newer_first_def order.strict_iff_order image_iff)
qed simp

lemma snapshot_normalize_ok:
  assumes "snapshot_normalize C raw = Inr s" "bm_get (snap_packages s) name = Some cs"
  shows "candidates_ok (snap_registry s) name cs \<and>
    sorted_wrt (\<lambda>a b. id_version (pm_identity b) < id_version (pm_identity a)) cs"
proof -
  obtain kind packages where n: "normalize_entries C (snap_registry s) kind (rs_packages raw) bm_empty = Inr packages"
    and s: "snap_packages s = bm_map_values (sort_by newer_first) packages"
    using assms(1) by (auto simp: snapshot_normalize_def Let_def result_simps)
  have "packages_ok (snap_registry s) packages"
    by (rule normalize_entries_ok [OF n]) (simp add: packages_ok_def)
  with assms(2) s obtain us where us: "cs = sort_by newer_first us" "candidates_ok (snap_registry s) name us"
    by (auto simp: bm_get_map_values packages_ok_def)
  then have "candidates_ok (snap_registry s) name cs"
    unfolding candidates_ok_def us(1) set_sort_by
    by (metis distinct_map_sort_by length_0_conv length_sort_by)
  then show ?thesis
    using us(1) newer_first_sorts newer_first_strict unfolding candidates_ok_def by metis
qed

end
