(* ===== verification/Core_Properties.thy ===== *)
theory Core_Properties
  imports Reference_Crates Registry_Models
begin

text \<open>
  The properties of the value objects of \<open>tapid-core\<close> and of the registry snapshots, each
  with a concrete value that satisfies its hypotheses.
\<close>

lemma hexdigit_of_lower: "is_lower_hex (ascii_lower c) \<Longrightarrow> is_ascii_hexdigit c"
  by (cases "is_ascii_uppercase c")
    (auto simp: is_lower_hex_def is_ascii_hexdigit_def ascii_lower_def byte_def is_ascii_digit_def is_ascii_uppercase_def)

text \<open>
  Digests. A text is accepted as a digest exactly when it is the prefix \<open>sha256-\<close> and 64
  hexadecimal digits of either case; the value is the text in lower case, which is canonical;
  and the canonical digests are exactly the values that parse to themselves.
\<close>

lemma digest_text_canonical:
  "(artifact_digest_from_str v = Inr d \<longleftrightarrow>
     prefix ''sha256-'' v \<and> d = to_ascii_lowercase v \<and> canonical_digest d) \<and>
   (canonical_digest d \<longleftrightarrow> artifact_digest_from_str d = Inr d)"
proof -
  have "artifact_digest_from_str v = Inr d"
    if p: "prefix ''sha256-'' v" and d: "d = to_ascii_lowercase v" "canonical_digest d"
  proof -
    obtain hex where v: "v = ''sha256-'' @ hex" using p by (auto simp: prefix_def)
    obtain low where low: "d = ''sha256-'' @ low" "length low = 64" "list_all is_lower_hex low"
      using d(2) unfolding canonical_digest_def by blast
    have "low = to_ascii_lowercase hex"
      using d(1) low(1) unfolding v to_lower_sha256 by simp
    with low have "length hex = 64" "list_all is_ascii_hexdigit hex"
      by (auto simp: to_ascii_lowercase_def list_all_iff intro: hexdigit_of_lower)
    with d(1) show ?thesis
      by (simp add: artifact_digest_from_str_def v strip_prefix_append [of "''sha256-''", simplified] list_ex_iff list_all_iff)
  qed
  moreover have "prefix ''sha256-'' v" if "artifact_digest_from_str v = Inr d"
    using that by (auto simp: artifact_digest_from_str_def strip_prefix_Some split: option.splits)
  ultimately show ?thesis using digest_Inr digest_fixpoint_iff by blast
qed

text \<open>
  Registry origins and integrities. A parsed registry origin is an https URL made only of
  a lower-case host and a port other than 443, without user, path, query or fragment, and parsing it
  again gives the same origin; a parsed integrity is canonical in the same sense.
\<close>

theorem origin_and_integrity_canonical:
  assumes "url_contract C" and "base64_contract C"
    and "registry_origin_from_str C v = Inr r" and "package_integrity_from_str C w = Inr i"
  shows "registry_origin_from_str C r = Inr r \<and> package_integrity_from_str C i = Inr i \<and>
    (\<exists>host port. r = ''https://'' @ authority host port \<and> host \<noteq> [] \<and> port \<noteq> Some 443 \<and>
       to_ascii_lowercase host = host \<and> set host \<inter> {CHR ''/'', CHR ''@'', CHR ''?'', CHR ''#'', CHR ''|''} = {})"
proof -
  obtain host port a where o: "r = ''https://'' @ authority host port" "host \<noteq> []" "list_all host_char host"
    "port \<noteq> Some 443"
    using origin_Inr [OF assms(1,3)] .
  have "to_ascii_lowercase host = host"
    using o(3) by (intro to_lower_id) (simp add: list_all_iff host_char_facts)
  moreover have "set host \<inter> {CHR ''/'', CHR ''@'', CHR ''?'', CHR ''#'', CHR ''|''} = {}"
    using o(3) host_char_facts unfolding list_all_iff by blast
  ultimately show ?thesis
    using o origin_idem [OF assms(1,3)] integrity_idem [OF assms(2,4)] by blast
qed

theorem origin_and_integrity_canonical_witness:
  "let i = ''sha512-'' @ r_encode (replicate 64 (CHR 0x07)) in
   registry_origin_from_str reference_crates ''https://registry.npmjs.org/'' = Inr ''https://registry.npmjs.org'' \<and>
   registry_origin_from_str reference_crates ''https://registry.npmjs.org'' = Inr ''https://registry.npmjs.org'' \<and>
   package_integrity_from_str reference_crates i = Inr i"
proof -
  have o: "registry_origin_from_str reference_crates ''https://registry.npmjs.org/'' = Inr ''https://registry.npmjs.org''"
    by code_simp
  have i: "package_integrity_from_str reference_crates (''sha512-'' @ r_encode (replicate 64 (CHR 0x07))) =
      Inr (''sha512-'' @ r_encode (replicate 64 (CHR 0x07)))"
    by code_simp
  show ?thesis
    unfolding Let_def using o i origin_and_integrity_canonical [OF reference_url reference_base64 o i] by blast
qed

text \<open>
  Package sources. The identity of a parsed source parses to that source; a source that is
  not a registry carries a canonical digest of its content; and the path of a file source stays
  below the project: it is relative and no component is empty, a dot or two dots.
\<close>

lemma package_source_roundtrip_pinned_contained:
  assumes "url_contract C" and "package_source_from_str C v = Inr s"
  shows "package_source_from_str C (identity s) = Inr s \<and>
    (registry s = None \<longrightarrow> (\<exists>d. artifact_digest s = Some d \<and> canonical_digest d)) \<and>
    (\<forall>path digest. file_parts s = Some (path, digest) \<longrightarrow> path \<noteq> [] \<and> \<not> prefix ''/'' path \<and>
       (\<forall>part\<in>set (split_char (CHR ''/'') path). part \<noteq> [] \<and> part \<noteq> ''.'' \<and> part \<noteq> ''..''))"
  using source_roundtrip [OF assms] source_copied_pinned [OF assms(2)] source_file_contained [OF assms(2)] by blast

definition sample_file_source :: string where
  "sample_file_source = ''file:vendor/left#'' @ ''sha256-'' @ replicate 64 (CHR ''a'')"

lemma package_source_roundtrip_pinned_contained_witness:
  "\<exists>s. package_source_from_str reference_crates sample_file_source = Inr s \<and>
     package_source_from_str reference_crates (identity s) = Inr s \<and> registry s = None \<and> artifact_digest s \<noteq> None"
proof -
  have "case package_source_from_str reference_crates sample_file_source of Inl _ \<Rightarrow> False | Inr s \<Rightarrow> registry s = None"
    by code_simp
  then obtain s where s: "package_source_from_str reference_crates sample_file_source = Inr s" "registry s = None"
    by (auto split: sum.splits)
  with package_source_roundtrip_pinned_contained [OF reference_url s(1)] show ?thesis by blast
qed

text \<open>
  Platforms. A package with constraints is installed on a host exactly when each
  constraint list admits the host's value: nothing in it excludes the value, and if it names any
  value positively it names this one; the C library counts only on Linux, and an unknown one is
  admitted only by lists of exclusions. For a package that is installed, the recorded context
  has exactly the values the package constrains, and computing it cannot fail on valid values.
\<close>

theorem platform_matches_specification:
  "(platform_matches p os cpu libc \<longleftrightarrow>
     admits (pp_os p) (npm_os os) \<and> admits (pp_cpu p) (npm_cpu cpu) \<and>
     (npm_os os = ''linux'' \<longrightarrow>
       (case libc of None \<Rightarrow> \<forall>v\<in>set (pp_libc p). negated v | Some l \<Rightarrow> admits (pp_libc p) l))) \<and>
   (platform_matches p os cpu libc \<and> \<not> platform_value_bad (npm_os os) \<and> \<not> platform_value_bad (npm_cpu cpu) \<and>
      (\<forall>l. libc = Some l \<longrightarrow> \<not> platform_value_bad l) \<longrightarrow>
    selected_context p os cpu libc = Inr (PlatformContext
     (if pp_os p = [] then None else Some (npm_os os))
     (if pp_cpu p = [] then None else Some (npm_cpu cpu))
     (if pp_libc p = [] \<or> npm_os os \<noteq> ''linux'' then None else libc)))"
proof
  show "platform_matches p os cpu libc \<longleftrightarrow>
     admits (pp_os p) (npm_os os) \<and> admits (pp_cpu p) (npm_cpu cpu) \<and>
     (npm_os os = ''linux'' \<longrightarrow>
       (case libc of None \<Rightarrow> \<forall>v\<in>set (pp_libc p). negated v | Some l \<Rightarrow> admits (pp_libc p) l))"
    by (rule platform_matches_iff)
qed (intro impI matches_selects, auto)

theorem platform_matches_specification_witness:
  "let p = \<lparr>pp_os = [''!win32''], pp_cpu = [''x64'', ''arm64''], pp_libc = [''glibc'']\<rparr> in
   platform_matches p ''linux'' ''x86_64'' (Some ''glibc'') \<and>
   selected_context p ''linux'' ''x86_64'' (Some ''glibc'') =
     Inr (PlatformContext (Some ''linux'') (Some ''x64'') (Some ''glibc''))"
proof -
  define p where "p = \<lparr>pp_os = [''!win32''], pp_cpu = [''x64'', ''arm64''], pp_libc = [''glibc'']\<rparr>"
  have m: "platform_matches p ''linux'' ''x86_64'' (Some ''glibc'')" unfolding p_def by code_simp
  have n: "npm_os ''linux'' = ''linux''" "npm_cpu ''x86_64'' = ''x64''" by code_simp+
  have v: "\<not> platform_value_bad ''linux''" "\<not> platform_value_bad ''x64''" "\<not> platform_value_bad ''glibc''" by code_simp+
  have "selected_context p ''linux'' ''x86_64'' (Some ''glibc'') =
     Inr (PlatformContext (Some ''linux'') (Some ''x64'') (Some ''glibc''))"
    using platform_matches_specification [of p "''linux''" "''x86_64''" "Some ''glibc''"] m v unfolding n
    by (simp add: p_def)
  with m show ?thesis unfolding p_def Let_def by blast
qed

text \<open>
  Registry snapshots. In a normalized snapshot every package name is valid and has at least
  one candidate; the candidates of a name carry that name and the snapshot's registry, and are
  listed by strictly decreasing version, so no version occurs twice.
\<close>

theorem normalized_snapshot_canonical:
  assumes "snapshot_normalize C raw = Inr s"
  shows "\<forall>name cs. bm_get (snap_packages s) name = Some cs \<longrightarrow>
    valid_package_name name \<and> cs \<noteq> [] \<and> snapshot_candidates s name = cs \<and>
    (\<forall>p\<in>set cs. id_registry (pm_identity p) = source_of_registry (snap_registry s) \<and> id_name (pm_identity p) = name) \<and>
    sorted_wrt (\<lambda>a b. id_version (pm_identity b) < id_version (pm_identity a)) cs"
  using snapshot_normalize_ok [OF assms] by (simp add: candidates_ok_def snapshot_candidates_def)

definition sample_snapshot :: raw_registry_snapshot where
  "sample_snapshot = \<lparr>rs_registry = ''https://jsr.io'', rs_packages =
     [\<lparr>rp_name = '' a '', rp_version = ''1.0.0'', rp_integrity = None, rp_artifact = Some '' '', rp_dependencies = bm_empty\<rparr>,
      \<lparr>rp_name = ''a'', rp_version = ''2.0.0'', rp_integrity = None, rp_artifact = None, rp_dependencies = bm_empty\<rparr>]\<rparr>"

theorem normalized_snapshot_canonical_witness:
  "\<exists>s p q. snapshot_normalize reference_crates sample_snapshot = Inr s \<and> snapshot_candidates s ''a'' = [p, q] \<and>
     id_version (pm_identity q) < id_version (pm_identity p)"
proof -
  have "case snapshot_normalize reference_crates sample_snapshot of Inl _ \<Rightarrow> False
    | Inr s \<Rightarrow> map_option length (bm_get (snap_packages s) ''a'') = Some 2"
    by code_simp
  then obtain s cs where s: "snapshot_normalize reference_crates sample_snapshot = Inr s"
      "bm_get (snap_packages s) ''a'' = Some cs" "length cs = 2"
    by (auto split: sum.splits)
  then obtain p q where "cs = [p, q]" by (auto simp: length_Suc_conv numeral_2_eq_2)
  with normalized_snapshot_canonical [OF s(1), rule_format, OF s(2)] s(1) show ?thesis by auto
qed

end
