(* ===== verification/Requirement.thy ===== *)
theory Requirement
  imports Core_Facts
begin

text \<open>
  The first half of \<open>tapid-resolver\<close>: npm version requirements, how a requirement text is
  parsed (aliases, dist-tags, unions, hyphen ranges, wildcard ranges, operators) and which
  versions a parsed requirement matches.
\<close>

section \<open>Data\<close>

datatype requirement_operator = Exact | Caret | Tilde | Greater | GreaterEqual | Less | LessEqual

datatype requirement_precision = Full | Major | Minor

datatype 'v requirement_base = RequirementBase (base_version: 'v) (base_precision: requirement_precision)

datatype 'v requirement_comparator =
  RequirementComparator (comparator_op: requirement_operator) (comparator_base: "'v requirement_base")

datatype 'v requirement_clause = AnyStable | Comparators "'v requirement_comparator list"

datatype 'v requirement = Requirement
  (req_raw: string) (req_alias: "string option") (req_tag: "string option") (req_clauses: "'v requirement_clause list")

text \<open>The derived order: constructors in their order, fields lexicographically.\<close>

primrec operator_index :: "requirement_operator \<Rightarrow> nat" where
  "operator_index Exact = 0" | "operator_index Caret = 1" | "operator_index Tilde = 2"
| "operator_index Greater = 3" | "operator_index GreaterEqual = 4" | "operator_index Less = 5"
| "operator_index LessEqual = 6"

primrec precision_index :: "requirement_precision \<Rightarrow> nat" where
  "precision_index Full = 0" | "precision_index Major = 1" | "precision_index Minor = 2"

fun comparator_key :: "'v requirement_comparator \<Rightarrow> nat \<times> 'v \<times> nat" where
  "comparator_key (RequirementComparator op (RequirementBase v p)) =
     (operator_index op, v, precision_index p)"

fun clause_key :: "'v requirement_clause \<Rightarrow> nat \<times> (nat \<times> 'v \<times> nat) list" where
  "clause_key AnyStable = (0, [])"
| "clause_key (Comparators cs) = (1, map comparator_key cs)"

definition requirement_key :: "'v requirement \<Rightarrow>
    string \<times> string option \<times> string option \<times> (nat \<times> (nat \<times> 'v \<times> nat) list) list" where
  "requirement_key r = (req_raw r, req_alias r, req_tag r, map clause_key (req_clauses r))"

lemma operator_index_inject: "operator_index a = operator_index b \<longleftrightarrow> a = b"
  by (cases a; cases b) simp_all

lemma precision_index_inject: "precision_index a = precision_index b \<longleftrightarrow> a = b"
  by (cases a; cases b) simp_all

lemma comparator_key_inject: "comparator_key a = comparator_key b \<longleftrightarrow> a = b"
  by (cases a rule: comparator_key.cases; cases b rule: comparator_key.cases)
    (simp add: operator_index_inject precision_index_inject)

lemma clause_key_inject: "clause_key a = clause_key b \<longleftrightarrow> a = b"
  by (cases a; cases b) (auto simp: inj_map_eq_map inj_def comparator_key_inject)

lemma requirement_key_inject: "requirement_key a = requirement_key b \<longleftrightarrow> a = b"
  by (cases a; cases b) (auto simp: requirement_key_def inj_map_eq_map inj_def clause_key_inject)

instantiation requirement :: (linorder) linorder
begin

definition less_eq_requirement :: "'a requirement \<Rightarrow> 'a requirement \<Rightarrow> bool" where
  "less_eq_requirement a b \<longleftrightarrow> requirement_key a \<le> requirement_key b"

definition less_requirement :: "'a requirement \<Rightarrow> 'a requirement \<Rightarrow> bool" where
  "less_requirement a b \<longleftrightarrow> requirement_key a < requirement_key b"

instance
  by standard
    (auto simp: less_eq_requirement_def less_requirement_def requirement_key_inject [symmetric])

end

section \<open>Errors\<close>

text \<open>The declaration whose requirements failed; no package for a root requirement.\<close>

datatype 'v requirement_origin = RequirementOrigin (origin_name: string) (origin_package: "'v package_id option")

text \<open>
  The resolver's errors. \<open>Panicked\<close> is not one of the source: it stands for a failed
  \<open>expect\<close>, so that a panic would show as a result.
\<close>

datatype 'v resolve_error =
    MetadataLimitExceeded
  | InvalidRequirement string
  | UnsupportedRange string
  | UnsupportedMode string
  | RegistryRouting string
  | DuplicateMetadata string
  | MissingMetadata "(string \<times> string) list"
  | MissingCandidate "'v requirement_origin" string string string "string list"
  | Conflict "'v requirement_origin" string string "string list" "string list"
  | PeerDependency "'v package_id" string string "'v package_id option"
  | Panicked string

section \<open>Parsing\<close>

definition separated_operator :: "string \<Rightarrow> requirement_operator option" where
  "separated_operator token =
     (if token = ''~'' then Some Tilde
      else if token = ''>'' then Some Greater
      else if token = ''>='' then Some GreaterEqual
      else if token = ''<'' then Some Less
      else if token = ''<='' then Some LessEqual
      else if token = ''='' then Some Exact
      else None)"

fun first_prefix :: "(string \<times> requirement_operator) list \<Rightarrow> string \<Rightarrow> requirement_operator \<times> string" where
  "first_prefix [] token = (Exact, token)"
| "first_prefix ((p, op) # rest) token =
     (case strip_prefix p token of Some value \<Rightarrow> (op, value) | None \<Rightarrow> first_prefix rest token)"

definition requirement_token :: "string \<Rightarrow> requirement_operator \<times> string" where
  "requirement_token token = first_prefix
     [(''>='', GreaterEqual), (''<='', LessEqual), (''>'', Greater), (''<'', Less),
      (''^'', Caret), (''~'', Tilde), (''='', Exact)] token"

definition strip_v :: "string \<Rightarrow> string" where
  "strip_v value = (case strip_prefix ''v'' value of Some r \<Rightarrow> r | None \<Rightarrow> value)"

text \<open>A numeric component that must not be written as one: empty, not all digits, or with a leading zero.\<close>

definition bad_number :: "string \<Rightarrow> bool" where
  "bad_number part \<longleftrightarrow>
     part = [] \<or> \<not> list_all is_ascii_digit part \<or> (1 < length part \<and> prefix ''0'' part)"

definition parse_requirement_base ::
  "'v crates \<Rightarrow> requirement_operator \<Rightarrow> string \<Rightarrow> 'v requirement_base option" where
  "parse_requirement_base C op value0 =
     (let value = strip_v value0 in
      case sv_parse C value of
        Some version \<Rightarrow>
          (case package_version_from_str C (sv_to_string C (sv_clear_build C version)) of
             Inl _ \<Rightarrow> None
           | Inr v \<Rightarrow> Some (RequirementBase v Full))
      | None \<Rightarrow>
          (let components = split_char (CHR ''.'') value in
           if \<not> (length components = 1 \<or> length components = 2) \<or> list_ex bad_number components \<or>
              \<not> (op \<in> {Exact, Tilde, Greater, GreaterEqual, Less, LessEqual} \<or>
                 op = Caret \<and> (length components = 1 \<or> length components = 2))
           then None
           else (case parse_u64 (hd components) of
               None \<Rightarrow> None
             | Some major \<Rightarrow>
                 (case (case tl components of [] \<Rightarrow> Some 0 | m # _ \<Rightarrow> parse_u64 m) of
                    None \<Rightarrow> None
                  | Some minor \<Rightarrow>
                      Some (RequirementBase (version_stable C major minor 0)
                        (if length components = 1 then Major else Minor))))))"

definition partial_upper_bound :: "'v crates \<Rightarrow> 'v \<Rightarrow> requirement_precision \<Rightarrow> 'v option" where
  "partial_upper_bound C base prec =
     (case prec of
        Full \<Rightarrow> None
      | Major \<Rightarrow> map_option (\<lambda>major. version_stable C major 0 0) (checked_add (sv_major C base) 1)
      | Minor \<Rightarrow>
          (case map_option (\<lambda>minor. version_stable C (sv_major C base) minor 0) (checked_add (sv_minor C base) 1) of
             Some v \<Rightarrow> Some v
           | None \<Rightarrow> map_option (\<lambda>major. version_stable C major 0 0) (checked_add (sv_major C base) 1)))"

definition caret_upper_bound :: "'v crates \<Rightarrow> 'v requirement_base \<Rightarrow> 'v option" where
  "caret_upper_bound C base =
     (let v = base_version base in
      if base_precision base = Major \<or> 0 < sv_major C v then
        map_option (\<lambda>major. version_stable C major 0 0) (checked_add (sv_major C v) 1)
      else if base_precision base = Minor \<or> 0 < sv_minor C v then
        map_option (\<lambda>minor. version_stable C 0 minor 0) (checked_add (sv_minor C v) 1)
      else map_option (\<lambda>patch. version_stable C 0 0 patch) (checked_add (sv_patch C v) 1))"

definition wildcard_part :: "string \<Rightarrow> bool" where
  "wildcard_part part \<longleftrightarrow> to_ascii_lowercase part = ''x'' \<or> to_ascii_lowercase part = ''*''"

definition less_than :: "'v requirement_base \<Rightarrow> 'v requirement_comparator" where
  "less_than base = RequirementComparator Less base"

text \<open>The comparators a wildcard range stands for, given its operator and its numeric prefix.\<close>

definition wildcard_comparators ::
  "'v crates \<Rightarrow> requirement_operator \<Rightarrow> string \<Rightarrow> 'v requirement_comparator list option" where
  "wildcard_comparators C op pre =
     (case parse_requirement_base C GreaterEqual pre of
        None \<Rightarrow> None
      | Some lower \<Rightarrow>
          (let lower_comparator = RequirementComparator GreaterEqual lower in
           case partial_upper_bound C (base_version lower) (base_precision lower) of
             None \<Rightarrow> None
           | Some upper \<Rightarrow>
               (let partial_upper = RequirementBase upper Full in
                case op of
                  Greater \<Rightarrow> Some [RequirementComparator GreaterEqual partial_upper]
                | GreaterEqual \<Rightarrow> Some [lower_comparator]
                | Less \<Rightarrow> Some [less_than lower]
                | LessEqual \<Rightarrow> Some [less_than partial_upper]
                | Caret \<Rightarrow>
                    (case caret_upper_bound C lower of
                       None \<Rightarrow> None
                     | Some u \<Rightarrow> Some [lower_comparator, less_than (RequirementBase u Full)])
                | _ \<Rightarrow> Some [lower_comparator, less_than partial_upper])))"

definition parse_x_range :: "'v crates \<Rightarrow> string \<Rightarrow> 'v requirement_comparator list option" where
  "parse_x_range C clause =
     (let (op, value0) = requirement_token clause;
          value1 = strip_v value0
      in
      case (case split_once ''+'' value1 of
              Some (version, build) \<Rightarrow> if sv_build_metadata_ok C build then Some version else None
            | None \<Rightarrow> Some value1) of
        None \<Rightarrow> None
      | Some value \<Rightarrow>
          (let parts = split_char (CHR ''.'') value;
               numbers = takeWhile (\<lambda>p. \<not> wildcard_part p) parts;
               rest = dropWhile (\<lambda>p. \<not> wildcard_part p) parts
           in
           if rest = [] then None
           else if list_ex (\<lambda>p. \<not> wildcard_part p) rest then None
           else if list_ex bad_number numbers then None
           else if numbers = [] then
             Some (if op = Greater \<or> op = Less
                   then [RequirementComparator Less (RequirementBase (version_stable C 0 0 0) Full)]
                   else [])
           else wildcard_comparators C op (join ''.'' numbers)))"

fun parse_tokens :: "'v crates \<Rightarrow> string list \<Rightarrow> 'v requirement_comparator list option" where
  "parse_tokens C [] = Some []"
| "parse_tokens C (token # rest) =
     (case (case (separated_operator token, rest) of
              (Some _, value # _) \<Rightarrow> parse_x_range C (token @ value)
            | _ \<Rightarrow> None) of
        Some wildcard \<Rightarrow> map_option (\<lambda>cs. wildcard @ cs) (parse_tokens C (tl rest))
      | None \<Rightarrow>
          (case parse_x_range C token of
             Some wildcard \<Rightarrow> map_option (\<lambda>cs. wildcard @ cs) (parse_tokens C rest)
           | None \<Rightarrow>
               (case separated_operator token of
                  Some op \<Rightarrow>
                    (case rest of
                       [] \<Rightarrow> None
                     | value # rest' \<Rightarrow>
                         (case parse_requirement_base C op value of
                            None \<Rightarrow> None
                          | Some base \<Rightarrow>
                              map_option (\<lambda>cs. RequirementComparator op base # cs) (parse_tokens C rest')))
                | None \<Rightarrow>
                    (let (op, value) = requirement_token token in
                     case parse_requirement_base C op value of
                       None \<Rightarrow> None
                     | Some base \<Rightarrow>
                         map_option (\<lambda>cs. RequirementComparator op base # cs) (parse_tokens C rest)))))"

definition parse_clause :: "'v crates \<Rightarrow> string \<Rightarrow> 'v requirement_clause option" where
  "parse_clause C clause0 =
     (let clause = trim clause0 in
      if clause = [] then None
      else if clause = ''*'' \<or> to_ascii_lowercase clause = ''x'' then Some AnyStable
      else (case parse_x_range C clause of
          Some cs \<Rightarrow> Some (if cs = [] then AnyStable else Comparators cs)
        | None \<Rightarrow>
            (case split_whitespace clause of
               [lower, mid, upper] \<Rightarrow>
                 if mid = ''-'' then
                   (case (parse_requirement_base C GreaterEqual lower, parse_requirement_base C LessEqual upper) of
                      (Some l, Some u) \<Rightarrow>
                        Some (Comparators [RequirementComparator GreaterEqual l, RequirementComparator LessEqual u])
                    | _ \<Rightarrow> None)
                 else map_option Comparators (parse_tokens C [lower, mid, upper])
             | tokens \<Rightarrow> map_option Comparators (parse_tokens C tokens))))"

fun parse_clauses :: "'v crates \<Rightarrow> string list \<Rightarrow> 'v requirement_clause list option" where
  "parse_clauses C [] = Some []"
| "parse_clauses C (c # cs) =
     (case parse_clause C c of
        None \<Rightarrow> None
      | Some clause \<Rightarrow> map_option (\<lambda>r. clause # r) (parse_clauses C cs))"

definition tag_byte :: "char \<Rightarrow> bool" where
  "tag_byte c \<longleftrightarrow> is_ascii_alphanumeric c \<or> c \<in> {CHR ''-'', CHR ''_'', CHR ''.''}"

definition is_dist_tag :: "'v crates \<Rightarrow> string \<Rightarrow> bool" where
  "is_dist_tag C text \<longleftrightarrow>
     text \<noteq> ''x'' \<and> text \<noteq> ''X'' \<and> is_ascii_alphabetic (hd text) \<and> list_all tag_byte text \<and>
     parse_x_range C text = None \<and> parse_requirement_base C Exact text = None"

text \<open>A requirement without the \<open>npm:\<close> prefix, already trimmed.\<close>

definition requirement_plain :: "'v crates \<Rightarrow> string \<Rightarrow> ('v resolve_error, 'v requirement) result" where
  "requirement_plain C text =
     (if text = [] then Inr (Requirement text None None [AnyStable])
      else if is_dist_tag C text then Inr (Requirement text None (Some text) [])
      else (case parse_clauses C (split_str ''||'' text) of
          None \<Rightarrow> Inl (UnsupportedRange text)
        | Some cs \<Rightarrow> Inr (Requirement text None None cs)))"

definition requirement_from_str :: "'v crates \<Rightarrow> string \<Rightarrow> ('v resolve_error, 'v requirement) result" where
  "requirement_from_str C s =
     (let text = trim s in
      case strip_prefix ''npm:'' text of
        None \<Rightarrow> requirement_plain C text
      | Some spec \<Rightarrow>
          (let (name, range) =
             (case rfind (CHR ''@'') spec of
                Some index \<Rightarrow>
                  if 0 < index then (take index spec, drop (index + 1) spec) else (spec, ''*'')
              | None \<Rightarrow> (spec, ''*''))
           in
           case package_name_from_str name of
             Inl _ \<Rightarrow> Inl (UnsupportedRange text)
           | Inr name \<Rightarrow>
               (let range = trim range in
                if range = [] \<or> prefix ''npm:'' range then Inl (UnsupportedRange text)
                else (case requirement_plain C (trim range) of
                    Inl _ \<Rightarrow> Inl (UnsupportedRange text)
                  | Inr requirement \<Rightarrow>
                      Inr (Requirement text (Some name) (req_tag requirement) (req_clauses requirement))))))"

section \<open>Matching\<close>

definition package_name_of :: "'v requirement \<Rightarrow> string \<Rightarrow> string" where
  "package_name_of r declared = (case req_alias r of Some a \<Rightarrow> a | None \<Rightarrow> declared)"

definition is_alias :: "'v requirement \<Rightarrow> bool" where
  "is_alias r \<longleftrightarrow> req_alias r \<noteq> None"

definition prerelease_is_eligible :: "'v crates \<Rightarrow> 'v requirement_comparator list \<Rightarrow> 'v \<Rightarrow> bool" where
  "prerelease_is_eligible C cs version \<longleftrightarrow>
     prerelease C version = None \<or>
     list_ex (\<lambda>c. let base = base_version (comparator_base c) in
        prerelease C base \<noteq> None \<and> sv_major C version = sv_major C base \<and>
        sv_minor C version = sv_minor C base \<and> sv_patch C version = sv_patch C base) cs"

definition caret_matches :: "('v::linorder) crates \<Rightarrow> 'v requirement_base \<Rightarrow> 'v \<Rightarrow> bool" where
  "caret_matches C b version \<longleftrightarrow>
     (let base = base_version b in
      case caret_upper_bound C b of
        Some upper \<Rightarrow> base \<le> version \<and> version < upper
      | None \<Rightarrow>
          if base_precision b = Major \<or> 0 < sv_major C base then
            base \<le> version \<and> sv_major C version = sv_major C base
          else if base_precision b = Minor \<or> 0 < sv_minor C base then
            base \<le> version \<and> sv_major C version = sv_major C base \<and> sv_minor C version = sv_minor C base
          else version = base)"

fun comparator_matches :: "('v::linorder) crates \<Rightarrow> 'v requirement_comparator \<Rightarrow> 'v \<Rightarrow> bool" where
  "comparator_matches C (RequirementComparator op b) version =
     (let base = base_version b in
      case op of
        Exact \<Rightarrow>
          (case base_precision b of
             Full \<Rightarrow> version = base
           | Major \<Rightarrow> base \<le> version \<and> sv_major C version = sv_major C base
           | Minor \<Rightarrow> base \<le> version \<and> sv_major C version = sv_major C base \<and>
               sv_minor C version = sv_minor C base)
      | Caret \<Rightarrow> caret_matches C b version
      | Tilde \<Rightarrow> base \<le> version \<and> sv_major C version = sv_major C base \<and>
          (base_precision b = Major \<or> sv_minor C version = sv_minor C base)
      | Greater \<Rightarrow>
          if base_precision b = Full then base < version
          else (case partial_upper_bound C base (base_precision b) of
              None \<Rightarrow> False
            | Some upper \<Rightarrow> upper \<le> version)
      | GreaterEqual \<Rightarrow> base \<le> version
      | Less \<Rightarrow>
          (case base_precision b of
             Full \<Rightarrow> version < base
           | Major \<Rightarrow> sv_major C version < sv_major C base
           | Minor \<Rightarrow> (sv_major C version, sv_minor C version) < (sv_major C base, sv_minor C base))
      | LessEqual \<Rightarrow>
          (case base_precision b of
             Full \<Rightarrow> version \<le> base
           | Major \<Rightarrow> sv_major C version \<le> sv_major C base
           | Minor \<Rightarrow> (sv_major C version, sv_minor C version) \<le> (sv_major C base, sv_minor C base)))"

fun clause_matches :: "('v::linorder) crates \<Rightarrow> 'v requirement_clause \<Rightarrow> 'v \<Rightarrow> bool" where
  "clause_matches C AnyStable version \<longleftrightarrow> prerelease C version = None"
| "clause_matches C (Comparators cs) version \<longleftrightarrow>
     prerelease_is_eligible C cs version \<and> list_all (\<lambda>c. comparator_matches C c version) cs"

definition matches_requirement :: "('v::linorder) crates \<Rightarrow> 'v \<Rightarrow> 'v requirement \<Rightarrow> bool" where
  "matches_requirement C version r \<longleftrightarrow> list_ex (\<lambda>c. clause_matches C c version) (req_clauses r)"

definition matches_tagged_version ::
  "('v::linorder) crates \<Rightarrow> 'v requirement \<Rightarrow> 'v \<Rightarrow> string btree_set \<Rightarrow> bool" where
  "matches_tagged_version C r version tags \<longleftrightarrow>
     (case req_tag r of None \<Rightarrow> matches_requirement C version r | Some t \<Rightarrow> bs_contains tags t)"

definition matches_locked_version :: "('v::linorder) crates \<Rightarrow> 'v requirement \<Rightarrow> 'v \<Rightarrow> bool" where
  "matches_locked_version C r version \<longleftrightarrow> req_tag r \<noteq> None \<or> matches_requirement C version r"

text \<open>The byte accounting of a retained requirement, with saturating arithmetic.\<close>

fun clause_bytes :: "'v crates \<Rightarrow> nat \<Rightarrow> 'v requirement_clause \<Rightarrow> nat" where
  "clause_bytes C bytes AnyStable = bytes"
| "clause_bytes C bytes (Comparators cs) =
     foldl (\<lambda>b c. saturating_add b
         (case prerelease C (base_version (comparator_base c)) of None \<Rightarrow> 0 | Some p \<Rightarrow> length p))
       (saturating_add bytes (saturating_mul (length cs) (size_of_comparator C))) cs"

definition retained_bytes :: "'v crates \<Rightarrow> 'v requirement \<Rightarrow> nat" where
  "retained_bytes C r =
     foldl (clause_bytes C)
       (saturating_add
         (saturating_add
           (saturating_add (length (req_raw r)) (case req_tag r of None \<Rightarrow> 0 | Some t \<Rightarrow> length t))
           (case req_alias r of None \<Rightarrow> 0 | Some n \<Rightarrow> length n))
         (saturating_mul (length (req_clauses r)) (size_of_clause C)))
       (req_clauses r)"

end
