(* ===== verification/Requirement_Facts.thy ===== *)
theory Requirement_Facts
  imports Requirement Reference_Crates
begin

text \<open>
  What the parsed ranges mean: precedence facts that follow from the contract of
  \<open>semver\<close>, caret ranges against the rule npm documents, wildcard ranges against the
  partial version they abbreviate, exact versions, pre-releases, and the text of a
  requirement as its canonical form.
\<close>

section \<open>Precedence\<close>

lemma triple_less: "semver_contract C \<Longrightarrow> sv_triple C u < sv_triple C v \<Longrightarrow> u < v"
  by (simp add: semver_contract_def semver_precedence_def)

lemma le_triple: "semver_contract C \<Longrightarrow> u \<le> v \<Longrightarrow> sv_triple C u \<le> sv_triple C v"
  by (meson leD leI triple_less)

lemma version_eqI:
  "semver_contract C \<Longrightarrow> sv_triple C u = sv_triple C v \<Longrightarrow> sv_pre C u = sv_pre C v \<Longrightarrow>
   sv_build C u = sv_build C v \<Longrightarrow> u = v"
  by (simp add: semver_contract_def semver_fields_def)

lemma less_stable:
  assumes "semver_contract C" "sv_build C v = []" "sv_build C w = []" "sv_pre C w = []"
  shows "v < w \<longleftrightarrow> sv_triple C v < sv_triple C w \<or> sv_triple C v = sv_triple C w \<and> sv_pre C v \<noteq> []"
proof
  assume "v < w"
  then have "sv_triple C v \<le> sv_triple C w" using le_triple [OF assms(1)] by simp
  moreover have "sv_triple C v = sv_triple C w \<Longrightarrow> sv_pre C v \<noteq> []"
    using version_eqI [OF assms(1)] assms \<open>v < w\<close> by fastforce
  ultimately show "sv_triple C v < sv_triple C w \<or> sv_triple C v = sv_triple C w \<and> sv_pre C v \<noteq> []"
    by auto
next
  assume "sv_triple C v < sv_triple C w \<or> sv_triple C v = sv_triple C w \<and> sv_pre C v \<noteq> []"
  then show "v < w"
    using assms unfolding semver_contract_def semver_precedence_def by blast
qed

lemma stable_le:
  assumes "semver_contract C" "sv_build C v = []" "sv_build C w = []" "sv_pre C w = []"
  shows "w \<le> v \<longleftrightarrow> sv_triple C w < sv_triple C v \<or> sv_triple C w = sv_triple C v \<and> sv_pre C v = []"
  using less_stable [OF assms] by auto

lemma stable_new [simp]:
  assumes "semver_contract C"
  shows "sv_triple C (version_stable C a b c) = (a, b, c)" "sv_pre C (version_stable C a b c) = []"
    "sv_build C (version_stable C a b c) = []" "sv_major C (version_stable C a b c) = a"
    "sv_minor C (version_stable C a b c) = b" "sv_patch C (version_stable C a b c) = c"
  using assms by (auto simp: semver_contract_def semver_fields_def version_stable_def sv_triple_def)

lemma less_version_stable:
  assumes "semver_contract C" "sv_build C v = []"
  shows "v < version_stable C a b c \<longleftrightarrow>
    sv_triple C v < (a, b, c) \<or> sv_triple C v = (a, b, c) \<and> sv_pre C v \<noteq> []"
  using less_stable [OF assms, of "version_stable C a b c"] assms(1) by simp

lemma version_stable_le:
  assumes "semver_contract C" "sv_build C v = []"
  shows "version_stable C a b c \<le> v \<longleftrightarrow>
    (a, b, c) < sv_triple C v \<or> sv_triple C v = (a, b, c) \<and> sv_pre C v = []"
  using stable_le [OF assms, of "version_stable C a b c"] assms(1) by auto

lemma checked_succ_less: "checked_add a 1 = Some c \<Longrightarrow> x < c \<longleftrightarrow> x \<le> a"
  by (auto simp: checked_add_def word_less_nat_alt word_le_nat_alt unat_add_u64 split: if_splits)

lemma checked_succ_None: "checked_add a 1 = None \<Longrightarrow> x \<le> a"
  using unat_u64_le_max [of x] unat_u64_le_max [of a]
  by (auto simp: checked_add_def word_le_nat_alt split: if_splits)

lemma checked_succ_overflow: "checked_add a 1 = None \<longleftrightarrow> unat a = u64_max"
  using unat_u64_le_max [of a] by (auto simp: checked_add_def)

lemma triple_less_first: "(a, b, c) < (d, 0, 0 :: u64) \<longleftrightarrow> a < (d :: u64)" for b :: u64
  by (auto simp: less_prod_def)

lemma triple_less_second: "(a, b, c) < (d, e, 0 :: u64) \<longleftrightarrow> (a, b) < (d, e)" for b :: u64
  by (auto simp: less_prod_def)

lemma eligible_iff:
  "prerelease_is_eligible C cs v \<longleftrightarrow>
     sv_pre C v = [] \<or>
     (\<exists>c\<in>set cs. sv_pre C (base_version (comparator_base c)) \<noteq> [] \<and>
        sv_triple C v = sv_triple C (base_version (comparator_base c)))"
  by (auto simp: prerelease_is_eligible_def prerelease_def list_ex_iff sv_triple_def Let_def)

section \<open>Caret ranges\<close>

text \<open>A partial base such as \<open>0\<close> or \<open>0.1\<close> leaves the components open that it does not name.\<close>

definition same_leftmost_nonzero :: "'v crates \<Rightarrow> 'v requirement_base \<Rightarrow> 'v \<Rightarrow> bool" where
  "same_leftmost_nonzero C base v \<longleftrightarrow>
     (let b = base_version base in
      if base_precision base = Major \<or> 0 < sv_major C b then sv_major C v = sv_major C b
      else if base_precision base = Minor \<or> 0 < sv_minor C b then sv_major C v = sv_major C b \<and> sv_minor C v = sv_minor C b
      else sv_triple C v = sv_triple C b)"

lemma checked_succ_neq: "checked_add a 1 = Some m \<Longrightarrow> a \<noteq> m"
  using checked_succ_less [of a m m] checked_succ_less [of a m a] by auto

lemmas caret_defs = caret_matches_def caret_upper_bound_def same_leftmost_nonzero_def sv_triple_def less_eq_prod_def Let_def

text \<open>The three cases of a caret range, by the leftmost non-zero component of its base.\<close>

lemma caret_major:
  assumes C: "semver_contract C" "sv_build C v = []" and "b \<le> v" "prec = Major \<or> 0 < sv_major C b"
    and el: "sv_pre C v = [] \<or> sv_triple C v = sv_triple C b"
  shows "caret_matches C (RequirementBase b prec) v \<longleftrightarrow> same_leftmost_nonzero C (RequirementBase b prec) v"
proof (cases "checked_add (sv_major C b) 1")
  case None
  with assms show ?thesis by (auto simp: caret_defs)
next
  case (Some m)
  have "v < version_stable C m 0 0 \<longleftrightarrow> sv_major C v \<le> sv_major C b"
    using el checked_succ_neq [OF Some]
    by (auto simp: less_version_stable [OF C] sv_triple_def triple_less_first checked_succ_less [OF Some])
  then show ?thesis
    using assms(3,4) Some le_triple [OF C(1) assms(3)] by (auto simp: caret_defs)
qed

lemma caret_minor:
  assumes C: "semver_contract C" "sv_build C v = []" and "b \<le> v" "prec \<noteq> Major" "sv_major C b = 0"
    and "prec = Minor \<or> 0 < sv_minor C b" and el: "sv_pre C v = [] \<or> sv_triple C v = sv_triple C b"
  shows "caret_matches C (RequirementBase b prec) v \<longleftrightarrow> same_leftmost_nonzero C (RequirementBase b prec) v"
proof (cases "checked_add (sv_minor C b) 1")
  case None
  with assms show ?thesis by (auto simp: caret_defs)
next
  case (Some m)
  have "v < version_stable C 0 m 0 \<longleftrightarrow> sv_major C v = 0 \<and> sv_minor C v \<le> sv_minor C b"
    using el checked_succ_neq [OF Some] assms(5)
    by (auto simp: less_version_stable [OF C] sv_triple_def triple_less_second less_prod_def checked_succ_less [OF Some])
  then show ?thesis
    using assms(3-6) Some le_triple [OF C(1) assms(3)] by (auto simp: caret_defs)
qed

text \<open>With \<open>0.0.p\<close> the upper bound may overflow; then only the base itself matches.\<close>

lemma caret_patch:
  assumes C: "semver_contract C" "sv_build C v = []" and "b \<le> v" "sv_major C b = 0" "sv_minor C b = 0"
    and el: "sv_pre C v = [] \<or> sv_triple C v = sv_triple C b"
  shows "caret_matches C (RequirementBase b Full) v \<longleftrightarrow> same_leftmost_nonzero C (RequirementBase b Full) v \<and>
    (checked_add (sv_patch C b) 1 = None \<longrightarrow> v = b)"
proof (cases "checked_add (sv_patch C b) 1")
  case None
  with assms show ?thesis by (auto simp: caret_defs)
next
  case (Some m)
  have "v < version_stable C 0 0 m \<longleftrightarrow>
     sv_major C v = 0 \<and> sv_minor C v = 0 \<and> sv_patch C v \<le> sv_patch C b"
    using el checked_succ_neq [OF Some] assms(4,5)
    by (auto simp: less_version_stable [OF C] sv_triple_def less_prod_def checked_succ_less [OF Some])
  then show ?thesis
    using assms(3-5) Some le_triple [OF C(1) assms(3)] by (auto simp: caret_defs)
qed

lemma caret_exact:
  assumes C: "semver_contract C" "sv_build C v = []"
    and el: "sv_pre C v = [] \<or> sv_triple C v = sv_triple C b"
  shows "caret_matches C (RequirementBase b prec) v \<longleftrightarrow> b \<le> v \<and> same_leftmost_nonzero C (RequirementBase b prec) v \<and>
    (prec = Full \<and> sv_major C b = 0 \<and> sv_minor C b = 0 \<and> checked_add (sv_patch C b) 1 = None \<longrightarrow> v = b)"
proof (cases "b \<le> v")
  case False
  then have "b \<noteq> v" by auto
  with False show ?thesis
    by (auto simp: caret_matches_def Let_def caret_upper_bound_def split: option.splits)
next
  case True
  consider "prec = Major \<or> 0 < sv_major C b" | "prec \<noteq> Major" "sv_major C b = 0" "prec = Minor \<or> 0 < sv_minor C b"
    | "prec = Full" "sv_major C b = 0" "sv_minor C b = 0"
    by (cases prec) (auto simp: word_gt_0)
  then show ?thesis
  proof cases
    case 1
    then show ?thesis using caret_major [OF C True _ el, of prec] True by auto
  next
    case 2
    then show ?thesis using caret_minor [OF C True _ _ _ el, of prec] True by auto
  next
    case 3
    then show ?thesis using caret_patch [OF C True _ _ el] True by simp
  qed
qed

section \<open>Wildcard ranges\<close>

lemma parse_base_op_irrelevant: "parse_requirement_base C op v = parse_requirement_base C op' v"
  by (cases op; cases op') (auto simp: parse_requirement_base_def Let_def split: option.splits sum.splits)

lemma parse_base_partial:
  assumes "parse_requirement_base C op s = Some b" "base_precision b \<noteq> Full"
  obtains a c where "b = RequirementBase (version_stable C a c 0) (base_precision b)"
    "base_precision b = Major \<longrightarrow> c = 0"
proof -
  let ?cs = "split_char (CHR ''.'') (strip_v s)"
  obtain a c where b: "b = RequirementBase (version_stable C a c 0) (if length ?cs = 1 then Major else Minor)"
    and c: "(case tl ?cs of [] \<Rightarrow> Some 0 | m # _ \<Rightarrow> parse_u64 m) = Some c"
    using assms by (auto simp: parse_requirement_base_def Let_def split: option.splits sum.splits if_splits)
  have "length ?cs = 1 \<longrightarrow> c = 0"
    using c by (cases ?cs) auto
  with b that show ?thesis by (metis requirement_base.sel(2) requirement_precision.distinct(5))
qed

lemma partial_upper_cases:
  assumes "partial_upper_bound C base p = Some upper"
  obtains (major) m where "p = Major" "checked_add (sv_major C base) 1 = Some m" "upper = version_stable C m 0 0"
  | (minor) m where "p = Minor" "checked_add (sv_minor C base) 1 = Some m"
      "upper = version_stable C (sv_major C base) m 0"
  | (carry) m where "p = Minor" "checked_add (sv_minor C base) 1 = None"
      "checked_add (sv_major C base) 1 = Some m" "upper = version_stable C m 0 0"
  using assms by (auto simp: partial_upper_bound_def split: requirement_precision.splits option.splits)

text \<open>Below the partial upper bound: the constrained components are at most the base's.\<close>

lemma below_partial_upper:
  assumes C: "semver_contract C" "sv_build C v = []" "sv_pre C v = []"
    and up: "partial_upper_bound C base p = Some upper"
  shows "v < upper \<longleftrightarrow>
    (if p = Major then sv_major C v \<le> sv_major C base
     else (sv_major C v, sv_minor C v) \<le> (sv_major C base, sv_minor C base))"
  using up
proof (cases rule: partial_upper_cases)
  case (major m)
  then show ?thesis
    by (simp add: less_version_stable [OF C(1,2)] C(3) sv_triple_def triple_less_first checked_succ_less)
next
  case (minor m)
  then show ?thesis
    by (auto simp: less_version_stable [OF C(1,2)] C(3) sv_triple_def triple_less_second
        less_prod_def less_eq_prod_def checked_succ_less)
next
  case (carry m)
  then show ?thesis
    by (auto simp: less_version_stable [OF C(1,2)] C(3) sv_triple_def triple_less_first
        less_eq_prod_def checked_succ_less checked_succ_None)
qed

lemma wildcard_clause:
  assumes C: "semver_contract C" "sv_build C v = []"
    and cs: "wildcard_comparators C op pre = Some cs"
    and b: "parse_requirement_base C op pre = Some b"
  shows "clause_matches C (Comparators cs) v \<longleftrightarrow>
    clause_matches C (Comparators [RequirementComparator op b]) v"
proof -
  have b': "parse_requirement_base C GreaterEqual pre = Some b"
    using b by (metis parse_base_op_irrelevant)
  obtain upper where up: "partial_upper_bound C (base_version b) (base_precision b) = Some upper"
    using cs b' by (auto simp: Let_def wildcard_comparators_def split: option.splits)
  have part: "base_precision b \<noteq> Full"
    using up by (auto simp: partial_upper_bound_def)
  obtain a c where base: "b = RequirementBase (version_stable C a c 0) (base_precision b)"
    and c: "base_precision b = Major \<longrightarrow> c = 0"
    using parse_base_partial [OF b part] .
  have stable: "sv_pre C (base_version b) = []" "sv_pre C upper = []"
    "\<And>u. caret_upper_bound C b = Some u \<Longrightarrow> sv_pre C u = []"
    using up base C(1) stable_new(2) [OF C(1)]
    by (metis requirement_base.sel(1), metis partial_upper_cases, auto simp: caret_upper_bound_def Let_def split: if_splits)
  show ?thesis
  proof (cases "sv_pre C v = []")
    case False
    have "\<not> prerelease_is_eligible C cs v"
      using False cs b' up stable
      by (cases op) (auto simp: eligible_iff Let_def wildcard_comparators_def less_than_def split: option.splits)
    moreover have "\<not> prerelease_is_eligible C [RequirementComparator op b] v"
      using False stable by (simp add: eligible_iff)
    ultimately show ?thesis by simp
  next
    case True
    have below: "v < upper \<longleftrightarrow> (if base_precision b = Major then sv_major C v \<le> sv_major C (base_version b)
       else (sv_major C v, sv_minor C v) \<le> (sv_major C (base_version b), sv_minor C (base_version b)))"
      by (rule below_partial_upper [OF C True up])
    have above: "base_version b \<le> v \<Longrightarrow> sv_triple C (base_version b) \<le> sv_triple C v"
      by (rule le_triple [OF C(1)])
    show ?thesis
      using cs b' up part below above True
      by (cases op; cases "base_precision b")
        (auto simp: Let_def wildcard_comparators_def less_than_def eligible_iff caret_matches_def sv_triple_def
          less_eq_prod_def split: option.splits)
  qed
qed

section \<open>The text of a requirement\<close>

lemma requirement_plain_raw: "requirement_plain C t = Inr r \<Longrightarrow> req_raw r = t \<and> req_alias r = None"
  by (auto simp: requirement_plain_def split: if_splits option.splits)

lemma requirement_raw: "requirement_from_str C s = Inr r \<Longrightarrow> req_raw r = trim s"
  by (auto simp: requirement_from_str_def Let_def requirement_plain_raw split: option.splits sum.splits if_splits)

lemma requirement_from_str_trim: "requirement_from_str C (trim s) = requirement_from_str C s"
  by (simp add: requirement_from_str_def)

lemma requirement_roundtrip: "requirement_from_str C s = Inr r \<Longrightarrow> requirement_from_str C (req_raw r) = Inr r"
  by (simp add: requirement_raw requirement_from_str_trim)

lemma parse_clauses_length: "parse_clauses C ts = Some cs \<Longrightarrow> length cs = length ts"
  by (induction ts arbitrary: cs) (auto split: option.splits)

lemma requirement_plain_shape: "requirement_plain C t = Inr r \<Longrightarrow> req_tag r = None \<longleftrightarrow> req_clauses r \<noteq> []"
  by (auto simp: requirement_plain_def split_str_not_Nil dest!: parse_clauses_length split: if_splits option.splits)

lemma requirement_shape: "requirement_from_str C s = Inr r \<Longrightarrow> req_tag r = None \<longleftrightarrow> req_clauses r \<noteq> []"
  by (auto simp: requirement_from_str_def Let_def requirement_plain_shape split: option.splits sum.splits if_splits)

lemma requirement_alias_valid: "requirement_from_str C s = Inr r \<Longrightarrow> req_alias r = Some a \<Longrightarrow> valid_package_name a"
  by (auto simp: requirement_from_str_def Let_def package_name_Inr dest: requirement_plain_raw split: option.splits sum.splits if_splits)

section \<open>Exact versions\<close>

lemma semver_text_D:
  assumes "semver_contract C"
  shows "sv_to_string C v = version_text C v" "sv_parse C (version_text C v) = Some v"
    "list_all identifier_char (sv_pre C v)"
  using assms by (auto simp: semver_contract_def semver_text_def) metis

lemma clear_build_id: "semver_contract C \<Longrightarrow> sv_build C v = [] \<Longrightarrow> sv_clear_build C v = v"
  by (auto simp: semver_contract_def semver_fields_def)

lemma identifier_char_cases: "identifier_char c \<Longrightarrow> is_ascii_alphanumeric c \<or> c = CHR ''.'' \<or> c = CHR ''-''"
  by (simp add: identifier_char_def)

lemma version_chars:
  assumes "semver_contract C" "sv_build C v = []" "c \<in> set (version_text C v)"
  shows "identifier_char c"
  using assms semver_text_D(3) [OF assms(1), of v]
  by (auto simp: version_text_def identifier_char_def list_all_iff is_ascii_alphanumeric_def dec_string_digits split: if_splits)

lemma identifier_char_plain:
  "identifier_char c \<Longrightarrow> plain_char c \<and> c \<notin> {CHR ''+'', CHR ''|'', CHR ''*'', CHR ''<'', CHR ''>'', CHR ''^'', CHR ''~'', CHR ''='', CHR '':''}"
  by (auto simp: identifier_char_def plain_char_def ascii_class_defs is_whitespace_def byte_def)

lemma version_head: "\<exists>d t. version_text C v = d # t \<and> is_ascii_digit d"
proof -
  obtain d t where "dec_string (unat (sv_major C v)) = d # t" by (metis dec_string_not_Nil list.exhaust)
  then show ?thesis using dec_string_digits [of d "unat (sv_major C v)"] by (simp add: version_text_def)
qed

lemma digit_not: "is_ascii_digit d \<Longrightarrow> d \<notin> {CHR ''v'', CHR ''n'', CHR ''x'', CHR ''X'', CHR ''*'', CHR ''<'', CHR ''>'', CHR ''^'', CHR ''~'', CHR ''=''} \<and> \<not> is_ascii_alphabetic d"
  by (auto simp: ascii_class_defs byte_def)


lemma digit_first_not_wildcard: "is_ascii_digit c \<Longrightarrow> \<not> wildcard_part (c # r)"
proof -
  assume "is_ascii_digit c"
  then have "ascii_lower c = c" "c \<noteq> CHR ''x''" "c \<noteq> CHR ''*''"
    by (auto simp: ascii_lower_def ascii_class_defs byte_def)
  then show ?thesis by (simp add: wildcard_part_def to_ascii_lowercase_def)
qed

lemma dec_first_not_wildcard: "\<not> wildcard_part (dec_string n @ r)"
  using dec_string_digits [of _ n] digit_first_not_wildcard by (cases "dec_string n") auto

text \<open>The dot-separated parts of a version text: two numbers, and a third that starts with a number.\<close>

lemma version_parts:
  assumes "sv_build C v = []"
  obtains q more where "split_char (CHR ''.'') (version_text C v) =
      dec_string (unat (sv_major C v)) # dec_string (unat (sv_minor C v)) # (dec_string (unat (sv_patch C v)) @ q) # more"
    "if sv_pre C v = [] then more = [] else q \<noteq> [] \<and> hd q = CHR ''-''"
proof (cases "sv_pre C v = []")
  case True
  then show ?thesis
    using that [of "[]" "[]"] assms
    by (simp add: version_text_def split_char_append_sep split_char_no_sep dec_string_no)
next
  case False
  have "hd (split_char (CHR ''.'') (CHR ''-'' # sv_pre C v)) \<noteq> []"
    "hd (hd (split_char (CHR ''.'') (CHR ''-'' # sv_pre C v))) = CHR ''-''"
    by (simp_all split: list.splits)
  moreover have "split_char (CHR ''.'') (version_text C v) =
      dec_string (unat (sv_major C v)) # dec_string (unat (sv_minor C v)) #
      split_char (CHR ''.'') (dec_string (unat (sv_patch C v)) @ CHR ''-'' # sv_pre C v)"
    using assms False by (simp add: version_text_def split_char_append_sep dec_string_no)
  moreover note split_char_prefix [of "CHR ''.''" "dec_string (unat (sv_patch C v))" "CHR ''-'' # sv_pre C v"]
  ultimately show ?thesis
    using that False dec_string_no not_digit(1) by metis
qed

lemma version_not_wildcard_range:
  assumes C: "semver_contract C" "sv_build C v = []"
  shows "parse_x_range C (version_text C v) = None"
proof -
  let ?t = "version_text C v"
  obtain d t where h: "?t = d # t" "is_ascii_digit d" using version_head [of C v] by auto
  have tok: "requirement_token ?t = (Exact, ?t)" "strip_v ?t = ?t"
    using digit_not [OF h(2)] by (auto simp: requirement_token_def h(1) strip_v_def)
  have "CHR ''+'' \<notin> set ?t"
    using version_chars [OF C] identifier_char_plain by blast
  then have plus: "split_once ''+'' ?t = None" by (rule split_once_single_None)
  obtain q more where parts: "split_char (CHR ''.'') ?t =
      dec_string (unat (sv_major C v)) # dec_string (unat (sv_minor C v)) # (dec_string (unat (sv_patch C v)) @ q) # more"
    and q: "if sv_pre C v = [] then more = [] else q \<noteq> [] \<and> hd q = CHR ''-''"
    using version_parts [OF C(2)] .
  have dw: "\<not> wildcard_part (dec_string n)" for n
    using dec_first_not_wildcard [of n "[]"] by simp
  have "q \<noteq> [] \<Longrightarrow> hd q = CHR ''-'' \<Longrightarrow> bad_number (dec_string (unat (sv_patch C v)) @ q)"
    by (cases q) (auto simp: bad_number_def)
  with q show ?thesis
    by (auto simp: parse_x_range_def Let_def tok plus parts dw dec_first_not_wildcard split: if_splits)
qed

lemma version_base:
  assumes C: "semver_contract C" "sv_build C v = []"
  shows "parse_requirement_base C op (version_text C v) = Some (RequirementBase v Full)"
proof -
  obtain d t where h: "version_text C v = d # t" "is_ascii_digit d" using version_head [of C v] by auto
  have "strip_v (version_text C v) = version_text C v"
    using digit_not [OF h(2)] by (auto simp: h(1) strip_v_def)
  then show ?thesis
    by (simp add: parse_requirement_base_def semver_text_D [OF C(1)] clear_build_id [OF C] package_version_from_str_def C(2))
qed

lemma separated_operator_chars: "separated_operator s = Some op \<Longrightarrow> s \<noteq> [] \<and> hd s \<in> {CHR ''~'', CHR ''>'', CHR ''<'', CHR ''=''}"
  by (auto simp: separated_operator_def split: if_splits)

lemma version_clause:
  assumes C: "semver_contract C" "sv_build C v = []"
  shows "parse_clause C (version_text C v) = Some (Comparators [RequirementComparator Exact (RequirementBase v Full)])"
proof -
  let ?t = "version_text C v"
  obtain d t where h: "?t = d # t" "is_ascii_digit d" using version_head [of C v] by auto
  have plain: "list_all plain_char ?t"
    using version_chars [OF C] identifier_char_plain by (simp add: list_all_iff)
  have tk: "requirement_token ?t = (Exact, ?t)"
    using digit_not [OF h(2)] by (auto simp: requirement_token_def h(1))
  have "separated_operator ?t = None"
    using separated_operator_chars [of ?t] digit_not [OF h(2)] h(1) by (cases "separated_operator ?t") auto
  then have tok: "parse_tokens C [?t] = Some [RequirementComparator Exact (RequirementBase v Full)]"
    by (simp add: version_not_wildcard_range [OF C] tk version_base [OF C])
  have "\<not> wildcard_part ?t" using digit_first_not_wildcard [OF h(2)] h(1) by simp
  then have "?t \<noteq> ''*''" "to_ascii_lowercase ?t \<noteq> ''x''"
    using digit_not [OF h(2)] h(1) by (auto simp: wildcard_part_def)
  moreover have "?t \<noteq> []" using h(1) by simp
  ultimately show ?thesis
    using tok split_whitespace_plain [OF plain] trim_plain [OF plain] version_not_wildcard_range [OF C]
    by (simp add: parse_clause_def)
qed

lemma version_requirement:
  assumes C: "semver_contract C" "sv_build C v = []"
  shows "requirement_from_str C (sv_to_string C v) =
     Inr (Requirement (version_text C v) None None [Comparators [RequirementComparator Exact (RequirementBase v Full)]])"
proof -
  let ?t = "version_text C v"
  obtain d t where h: "?t = d # t" "is_ascii_digit d" using version_head [of C v] by auto
  have plain: "list_all plain_char ?t" and bar: "CHR ''|'' \<notin> set ?t"
    using version_chars [OF C] identifier_char_plain by (auto simp: list_all_iff)
  have "strip_prefix ''npm:'' ?t = None" "\<not> is_dist_tag C ?t"
    using digit_not [OF h(2)] by (auto simp: h(1) is_dist_tag_def)
  moreover have "split_str ''||'' ?t = [?t]"
    by (subst split_str.simps) (simp add: split_once_absent [OF refl bar])
  moreover have "?t \<noteq> []" using h(1) by simp
  ultimately have "requirement_from_str C ?t =
     Inr (Requirement ?t None None [Comparators [RequirementComparator Exact (RequirementBase v Full)]])"
    by (simp add: requirement_from_str_def trim_plain [OF plain] requirement_plain_def version_clause [OF C])
  then show ?thesis by (simp add: semver_text_D(1) [OF C(1)])
qed

section \<open>Properties\<close>

text \<open>
  C37. Caret ranges. A clause that is one caret comparator, \<open>^b\<close>, matches exactly the versions
  that are not below \<open>b\<close>, agree with \<open>b\<close> up to and including its leftmost non-zero
  component, and are not a pre-release of any other version triple. With a partial base the
  agreement goes no further than the components it names: \<open>^0\<close> only fixes the major and \<open>^0.0\<close> the
  minor number. With the base \<open>0.0.u64::MAX\<close> there is no upper bound and only the base matches.
\<close>

theorem caret_clause_matches_same_leftmost_nonzero:
  assumes "semver_contract C" and "sv_build C v = []"
  shows "clause_matches C (Comparators [RequirementComparator Caret (RequirementBase b prec)]) v \<longleftrightarrow>
    b \<le> v \<and>
    (if prec = Major \<or> 0 < sv_major C b then sv_major C v = sv_major C b
     else if prec = Minor \<or> 0 < sv_minor C b then sv_major C v = sv_major C b \<and> sv_minor C v = sv_minor C b
     else sv_triple C v = sv_triple C b \<and> (unat (sv_patch C b) = u64_max \<longrightarrow> v = b)) \<and>
    (prerelease C v = None \<or> prerelease C b \<noteq> None \<and> sv_triple C v = sv_triple C b)"
proof -
  have "checked_add (sv_patch C b) 1 = None \<longleftrightarrow> unat (sv_patch C b) = u64_max" by (rule checked_succ_overflow)
  then have "clause_matches C (Comparators [RequirementComparator Caret (RequirementBase b prec)]) v \<longleftrightarrow>
      (b \<le> v \<and> same_leftmost_nonzero C (RequirementBase b prec) v \<and>
       (prec = Full \<and> sv_major C b = 0 \<and> sv_minor C b = 0 \<and> unat (sv_patch C b) = u64_max \<longrightarrow> v = b)) \<and>
      (prerelease C v = None \<or> prerelease C b \<noteq> None \<and> sv_triple C v = sv_triple C b)"
    using caret_exact [OF assms, of b prec] by (auto simp: eligible_iff prerelease_def)
  then show ?thesis by (cases prec) (auto simp: same_leftmost_nonzero_def word_gt_0)
qed

theorem caret_clause_matches_same_leftmost_nonzero_witness:
  "clause_matches reference_crates
     (Comparators [RequirementComparator Caret (RequirementBase (RVersion 0 2 3 []) Full)]) (RVersion 0 2 9 []) \<and>
   \<not> clause_matches reference_crates
     (Comparators [RequirementComparator Caret (RequirementBase (RVersion 0 2 3 []) Full)]) (RVersion 0 3 0 []) \<and>
   clause_matches reference_crates
     (Comparators [RequirementComparator Caret (RequirementBase (RVersion 0 0 0 []) Major)]) (RVersion 0 3 0 [])"
proof -
  have "sv_build reference_crates v = []" for v by (simp add: reference_crates_def)
  note matches = caret_clause_matches_same_leftmost_nonzero [OF reference_semver this]
  show ?thesis unfolding matches by code_simp
qed

text \<open>
  Wildcard ranges. A range such as \<open><=1.2.x\<close> or \<open>^1.x\<close> is expanded to comparators
  on its numeric part; for each of the seven operators the expansion matches exactly the
  versions that the same operator matches on the partial version without the wildcard.
\<close>

lemma wildcard_range_equals_partial_version:
  assumes "semver_contract C" and "sv_build C v = []"
    and "wildcard_comparators C op pre = Some cs" and "parse_requirement_base C op pre = Some b"
  shows "clause_matches C (Comparators cs) v \<longleftrightarrow>
    clause_matches C (Comparators [RequirementComparator op b]) v"
  using assms by (rule wildcard_clause)

lemma wildcard_range_equals_partial_version_witness:
  "\<exists>cs b. wildcard_comparators reference_crates LessEqual ''1.2'' = Some cs \<and>
     parse_requirement_base reference_crates LessEqual ''1.2'' = Some b \<and>
     clause_matches reference_crates (Comparators cs) (RVersion 1 2 7 []) =
       clause_matches reference_crates (Comparators [RequirementComparator LessEqual b]) (RVersion 1 2 7 [])"
proof -
  have 1: "wildcard_comparators reference_crates LessEqual ''1.2'' =
      Some [RequirementComparator Less (RequirementBase (RVersion 1 3 0 []) Full)]"
    and 2: "parse_requirement_base reference_crates LessEqual ''1.2'' = Some (RequirementBase (RVersion 1 2 0 []) Minor)"
    and 3: "sv_build reference_crates (RVersion 1 2 7 []) = []"
    by code_simp+
  show ?thesis
    using wildcard_range_equals_partial_version [OF reference_semver 3 1 2] 1 2 by blast
qed

text \<open>
  Exact versions. The printed form of a version, used as a requirement, is accepted and
  matches that version and no other, whether or not it is a pre-release.
\<close>

theorem exact_version_requirement_pins:
  assumes "semver_contract C" and "sv_build C v = []"
  shows "\<exists>r. requirement_from_str C (sv_to_string C v) = Inr r \<and> req_tag r = None \<and> req_alias r = None \<and>
    (\<forall>w. matches_requirement C w r \<longleftrightarrow> w = v)"
  using version_requirement [OF assms]
  by (auto simp: matches_requirement_def eligible_iff prerelease_is_eligible_def prerelease_def)

theorem exact_version_requirement_pins_witness:
  "\<exists>r. requirement_from_str reference_crates ''1.4.0-2'' = Inr r \<and>
     matches_requirement reference_crates (RVersion 1 4 0 [2]) r \<and>
     \<not> matches_requirement reference_crates (RVersion 1 4 0 []) r"
proof -
  have 1: "sv_build reference_crates (RVersion 1 4 0 [2]) = []"
    and 2: "sv_to_string reference_crates (RVersion 1 4 0 [2]) = ''1.4.0-2''"
    by code_simp+
  show ?thesis
    using exact_version_requirement_pins [OF reference_semver 1] unfolding 2 by auto
qed

text \<open>
  Pre-releases. Whatever its text, a requirement matches a pre-release only through a
  clause that names a pre-release of the same major, minor and patch numbers; in
  particular a requirement written without pre-releases never selects one.
\<close>

lemma prerelease_needs_opt_in:
  assumes "matches_requirement C v r" and "prerelease C v \<noteq> None"
  shows "\<exists>cs c. Comparators cs \<in> set (req_clauses r) \<and> c \<in> set cs \<and>
    prerelease C (base_version (comparator_base c)) \<noteq> None \<and>
    sv_triple C (base_version (comparator_base c)) = sv_triple C v"
proof -
  obtain c where c: "c \<in> set (req_clauses r)" "clause_matches C c v"
    using assms(1) by (auto simp: matches_requirement_def list_ex_iff)
  then obtain cs where "c = Comparators cs" "prerelease_is_eligible C cs v"
    using assms(2) by (cases c rule: requirement_clause.exhaust) auto
  with c assms(2) show ?thesis
    by (auto simp: eligible_iff prerelease_def split: if_splits) metis
qed

lemma prerelease_needs_opt_in_witness:
  "\<exists>r. requirement_from_str reference_crates ''>=1.2.3-1'' = Inr r \<and>
     matches_requirement reference_crates (RVersion 1 2 3 [4]) r \<and>
     (\<exists>cs c. Comparators cs \<in> set (req_clauses r) \<and> c \<in> set cs \<and>
        prerelease reference_crates (base_version (comparator_base c)) \<noteq> None \<and>
        sv_triple reference_crates (base_version (comparator_base c)) = (1, 2, 3))"
proof -
  let ?r = "Requirement ''>=1.2.3-1'' None None
    [Comparators [RequirementComparator GreaterEqual (RequirementBase (RVersion 1 2 3 [1]) Full)]]"
  have 1: "requirement_from_str reference_crates ''>=1.2.3-1'' = Inr ?r"
    and 2: "matches_requirement reference_crates (RVersion 1 2 3 [4]) ?r"
    and 3: "prerelease reference_crates (RVersion 1 2 3 [4]) \<noteq> None"
    and 4: "sv_triple reference_crates (RVersion 1 2 3 [4]) = (1, 2, 3)"
    by code_simp+
  show ?thesis
    using prerelease_needs_opt_in [OF 2 3] 1 2 unfolding 4 by blast
qed

text \<open>
  The text of a requirement. A parsed requirement keeps the trimmed text it was read
  from, and reading that text again gives the same requirement; it is either a dist-tag with
  no clauses or has at least one clause; and the target of an \<open>npm:\<close> alias is a valid
  package name.
\<close>

theorem requirement_text_roundtrip:
  assumes "requirement_from_str C s = Inr r"
  shows "req_raw r = trim s \<and> requirement_from_str C (req_raw r) = Inr r \<and>
    (req_tag r = None \<longleftrightarrow> req_clauses r \<noteq> []) \<and>
    (\<forall>a. req_alias r = Some a \<longrightarrow> package_name_from_str a = Inr a)"
  using requirement_raw [OF assms] requirement_roundtrip [OF assms] requirement_shape [OF assms]
    requirement_alias_valid [OF assms] by (simp add: package_name_Inr)

theorem requirement_text_roundtrip_witness:
  "\<exists>r. requirement_from_str reference_crates '' npm:@s/p@~1.2 || 3.x '' = Inr r \<and>
     requirement_from_str reference_crates ''npm:@s/p@~1.2 || 3.x'' = Inr r \<and> req_alias r = Some ''@s/p''"
proof -
  let ?r = "Requirement ''npm:@s/p@~1.2 || 3.x'' (Some ''@s/p'') None
    [Comparators [RequirementComparator Tilde (RequirementBase (RVersion 1 2 0 []) Minor)],
     Comparators [RequirementComparator GreaterEqual (RequirementBase (RVersion 3 0 0 []) Major),
       RequirementComparator Less (RequirementBase (RVersion 4 0 0 []) Full)]]"
  have 1: "requirement_from_str reference_crates '' npm:@s/p@~1.2 || 3.x '' = Inr ?r" by code_simp
  show ?thesis
    using requirement_text_roundtrip [OF 1] 1 by auto
qed

end
