(* ===== verification/Resolver.thy ===== *)
theory Resolver
  imports Requirement Registry_Models
begin

text \<open>
  The second half of \<open>tapid-resolver\<close>: registry metadata and its normalization, the
  resource limits, candidate selection, and the construction of the dependency graph with
  its roots, edges and peer contexts.
\<close>

section \<open>Data\<close>

record 'v dependency =
  dep_registry :: package_source
  dep_name :: string
  dep_requirement :: "'v requirement"

record 'v package_version_metadata =
  pv_name :: string
  pv_version :: 'v
  pv_dist_tags :: "string btree_set"
  pv_dependencies :: "(string, 'v requirement) btree_map"
  pv_peer_dependencies :: "(string, 'v requirement) btree_map"
  pv_optional_peer_dependencies :: "string btree_set"

record 'v registry_metadata =
  rm_registry :: package_source
  rm_packages :: "'v package_version_metadata list"

record resolution_options =
  opt_offline :: bool
  opt_frozen :: bool

record 'v resolution_preferences =
  prf_versions :: "(package_source \<times> string \<times> 'v) btree_set"
  prf_refresh_roots :: "(package_source \<times> string \<times> string) btree_set"
  prf_roots :: "(package_source \<times> string \<times> string, 'v) btree_map"

definition no_preferences :: "('v::linorder) resolution_preferences" where
  "no_preferences = \<lparr>prf_versions = bs_empty, prf_refresh_roots = bs_empty, prf_roots = bm_empty\<rparr>"

datatype 'v resolved_dependency =
  ResolvedDependency (rd_parent: "'v package_id") (rd_dependency: string) (rd_child: "'v package_id")

instantiation resolved_dependency :: (linorder) linorder
begin

definition less_eq_resolved_dependency :: "'a resolved_dependency \<Rightarrow> 'a resolved_dependency \<Rightarrow> bool" where
  "less_eq_resolved_dependency a b \<longleftrightarrow>
     (rd_parent a, rd_dependency a, rd_child a) \<le> (rd_parent b, rd_dependency b, rd_child b)"

definition less_resolved_dependency :: "'a resolved_dependency \<Rightarrow> 'a resolved_dependency \<Rightarrow> bool" where
  "less_resolved_dependency a b \<longleftrightarrow>
     (rd_parent a, rd_dependency a, rd_child a) < (rd_parent b, rd_dependency b, rd_child b)"

instance
  by standard
    (auto simp: less_eq_resolved_dependency_def less_resolved_dependency_def intro: resolved_dependency.expand)

end

record 'v resolution =
  res_selected :: "'v package_id list"
  res_roots :: "'v package_id list"
  res_root_bindings :: "(package_source \<times> string, 'v package_id) btree_map"
  res_dependencies :: "'v resolved_dependency list"
  res_peer_contexts :: "('v package_id, 'v peer_context) btree_map"

section \<open>Resource limits\<close>

definition max_packages :: nat where "max_packages = 100000"

definition max_relationships :: nat where "max_relationships = 1000000"

definition max_bytes :: nat where "max_bytes = 64 * 1024 * 1024"

definition record_relationships :: "('v::linorder) package_version_metadata \<Rightarrow> nat \<Rightarrow> nat" where
  "record_relationships p n =
     saturating_add (saturating_add (saturating_add (saturating_add n
       (bm_len (pv_dependencies p))) (bm_len (pv_peer_dependencies p)))
       (bm_len (pv_optional_peer_dependencies p))) (bm_len (pv_dist_tags p))"

definition record_bytes :: "('v::linorder) crates \<Rightarrow> 'v package_version_metadata \<Rightarrow> nat \<Rightarrow> nat" where
  "record_bytes C p n =
     (let b1 = saturating_add (saturating_add n (length (pv_name p)))
                 (case prerelease C (pv_version p) of None \<Rightarrow> 0 | Some t \<Rightarrow> length t);
          b2 = foldl (\<lambda>b (name, r). saturating_add (saturating_add b (length name)) (retained_bytes C r)) b1
                 (bm_entries (pv_dependencies p) @ bm_entries (pv_peer_dependencies p));
          b3 = foldl (\<lambda>b name. saturating_add b (length name)) b2 (bs_elems (pv_optional_peer_dependencies p))
      in foldl (\<lambda>b tag. saturating_add b (length tag)) b3 (bs_elems (pv_dist_tags p)))"

fun validate_records ::
  "('v::linorder) crates \<Rightarrow> 'v package_version_metadata list \<Rightarrow> nat \<Rightarrow> nat \<Rightarrow> ('v resolve_error, nat \<times> nat) result" where
  "validate_records C [] relationships bytes = Inr (relationships, bytes)"
| "validate_records C (p # ps) relationships bytes =
     (let relationships = record_relationships p relationships in
      if max_relationships < relationships then Inl MetadataLimitExceeded
      else (let bytes = record_bytes C p bytes in
            if max_bytes < bytes then Inl MetadataLimitExceeded
            else validate_records C ps relationships bytes))"

fun validate_registries ::
  "('v::linorder) crates \<Rightarrow> (package_source \<times> 'v package_version_metadata list) list \<Rightarrow>
   nat \<Rightarrow> nat \<Rightarrow> nat \<Rightarrow> ('v resolve_error, nat) result" where
  "validate_registries C [] packages relationships bytes = Inr bytes"
| "validate_registries C ((reg, records) # rest) packages relationships bytes =
     (let packages = saturating_add packages (length records);
          bytes = saturating_add bytes (length (identity reg))
      in if max_packages < packages \<or> max_bytes < bytes then Inl MetadataLimitExceeded
         else and_then (validate_records C records relationships bytes) (\<lambda>(relationships, bytes).
           validate_registries C rest packages relationships bytes))"

definition validate_metadata ::
  "('v::linorder) crates \<Rightarrow> (package_source \<times> 'v package_version_metadata list) list \<Rightarrow> ('v resolve_error, nat) result" where
  "validate_metadata C metadata = validate_registries C metadata 0 0 0"

section \<open>Normalization of metadata\<close>

definition record_order :: "('v::linorder) package_version_metadata \<Rightarrow> 'v package_version_metadata \<Rightarrow> bool" where
  "record_order a b \<longleftrightarrow> pv_name a < pv_name b \<or> pv_name a = pv_name b \<and> pv_version b \<le> pv_version a"

fun insert_tags ::
  "package_source \<Rightarrow> string \<Rightarrow> string list \<Rightarrow> (string \<times> string) btree_set \<Rightarrow>
   ('v resolve_error, (string \<times> string) btree_set) result" where
  "insert_tags reg name [] tags = Inr tags"
| "insert_tags reg name (tag # rest) tags =
     (if bs_contains tags (name, tag)
      then Inl (DuplicateMetadata (identity reg @ '':'' @ name @ ''@'' @ tag))
      else insert_tags reg name rest (bs_insert (name, tag) tags))"

fun check_tags ::
  "package_source \<Rightarrow> ('v::linorder) package_version_metadata list \<Rightarrow> (string \<times> string) btree_set \<Rightarrow>
   ('v resolve_error, (string \<times> string) btree_set) result" where
  "check_tags reg [] tags = Inr tags"
| "check_tags reg (p # ps) tags =
     and_then (insert_tags reg (pv_name p) (bs_elems (pv_dist_tags p)) tags) (check_tags reg ps)"

fun check_adjacent ::
  "('v::linorder) crates \<Rightarrow> package_source \<Rightarrow> 'v package_version_metadata list \<Rightarrow> ('v resolve_error, unit) result" where
  "check_adjacent C reg (a # b # rest) =
     (if pv_name a = pv_name b \<and> pv_version a = pv_version b
      then Inl (DuplicateMetadata
        (identity reg @ '':'' @ pv_name a @ ''@'' @ sv_to_string C (pv_version a)))
      else check_adjacent C reg (b # rest))"
| "check_adjacent C reg _ = Inr ()"

definition metadata_normalize ::
  "('v::linorder) crates \<Rightarrow> package_source \<Rightarrow> 'v package_version_metadata list \<Rightarrow>
   ('v resolve_error, 'v registry_metadata) result" where
  "metadata_normalize C reg packages0 =
     and_then (validate_metadata C [(reg, packages0)]) (\<lambda>_.
     let packages = sort_by record_order packages0 in
     and_then (check_tags reg packages bs_empty) (\<lambda>_.
     and_then (check_adjacent C reg packages) (\<lambda>_.
     Inr \<lparr>rm_registry = reg, rm_packages = packages\<rparr>)))"

section \<open>Candidate selection\<close>

type_synonym 'v candidate_index = "(package_source \<times> string, 'v package_version_metadata list) btree_map"

definition index_push ::
  "package_source \<Rightarrow> ('v::linorder) package_version_metadata \<Rightarrow> 'v candidate_index \<Rightarrow> 'v candidate_index" where
  "index_push reg p idx =
     (let key = (reg, pv_name p) in
      bm_insert key ((case bm_get idx key of None \<Rightarrow> [] | Some ps \<Rightarrow> ps) @ [p]) idx)"

definition candidate_index :: "('v::linorder) registry_metadata list \<Rightarrow> 'v candidate_index" where
  "candidate_index metadata =
     foldl (\<lambda>idx r. foldl (\<lambda>idx p. index_push (rm_registry r) p idx) idx (rm_packages r)) bm_empty metadata"

definition available :: "('v::linorder) crates \<Rightarrow> 'v package_version_metadata list \<Rightarrow> string list" where
  "available C ps = map (sv_to_string C) (dedup (sort (map pv_version ps)))"

definition candidates_of :: "('v::linorder) candidate_index \<Rightarrow> package_source \<Rightarrow> string \<Rightarrow> 'v package_version_metadata list" where
  "candidates_of idx reg name = (case bm_get idx (reg, name) of None \<Rightarrow> [] | Some ps \<Rightarrow> ps)"

definition satisfies_all ::
  "('v::linorder) crates \<Rightarrow> 'v requirement btree_set \<Rightarrow> 'v package_version_metadata \<Rightarrow> bool" where
  "satisfies_all C requirements p \<longleftrightarrow>
     list_all (\<lambda>r. matches_tagged_version C r (pv_version p) (pv_dist_tags p)) (bs_elems requirements)"

definition preference_key ::
  "('v::linorder) resolution_preferences \<Rightarrow> 'v option \<Rightarrow> package_source \<Rightarrow> string \<Rightarrow>
   'v package_version_metadata \<Rightarrow> bool \<times> bool \<times> 'v" where
  "preference_key pref preferred_root reg name p =
     (preferred_root = Some (pv_version p),
      bs_contains (prf_versions pref) (reg, name, pv_version p),
      pv_version p)"

definition select_package ::
  "('v::linorder) crates \<Rightarrow> package_source \<Rightarrow> string \<Rightarrow> 'v requirement btree_set \<Rightarrow> 'v candidate_index \<Rightarrow>
   'v resolution_preferences \<Rightarrow> 'v option \<Rightarrow> 'v requirement_origin \<Rightarrow>
   ('v resolve_error, 'v package_version_metadata) result" where
  "select_package C reg name requirements idx pref preferred_root origin =
     (let matching = candidates_of idx reg name in
      case max_by_key (preference_key pref preferred_root reg name)
             (filter (satisfies_all C requirements) matching) of
        Some p \<Rightarrow> Inr p
      | None \<Rightarrow>
          (let raws = map req_raw (bs_elems requirements) in
           if 1 < length raws
           then Inl (Conflict origin (identity reg) name raws (available C matching))
           else Inl (MissingCandidate origin (identity reg) name
             (case raws of [] \<Rightarrow> [] | r # _ \<Rightarrow> r) (available C matching))))"

text \<open>
  How both loops treat a failed selection: a package whose metadata was never supplied is
  only recorded as missing, every other failure is final.
\<close>

definition missing_only ::
  "('v::linorder) candidate_index \<Rightarrow> package_source \<Rightarrow> string \<Rightarrow> 'v resolve_error \<Rightarrow> bool" where
  "missing_only idx reg name e \<longleftrightarrow>
     (case e of MissingCandidate _ _ _ _ _ \<Rightarrow> \<not> bm_contains_key idx (reg, name) | _ \<Rightarrow> False)"

section \<open>Root selection\<close>

text \<open>The mutable variables of the resolver; the head of \<open>w_queue\<close> is the top of the stack.\<close>

record 'v work =
  w_selected :: "'v package_id btree_set"
  w_packages :: "('v package_id, 'v package_version_metadata) btree_map"
  w_roots :: "'v package_id list"
  w_root_bindings :: "(package_source \<times> string, 'v package_id) btree_map"
  w_queue :: "'v package_id list"
  w_missing :: "(string \<times> string) btree_set"
  w_dependencies :: "'v resolved_dependency btree_set"
  w_expanded :: "'v package_id btree_set"

definition work_start :: "('v::linorder) work" where
  "work_start = \<lparr>w_selected = bs_empty, w_packages = bm_empty, w_roots = [], w_root_bindings = bm_empty,
     w_queue = [], w_missing = bs_empty, w_dependencies = bs_empty, w_expanded = bs_empty\<rparr>"

fun dependency_bytes ::
  "('v::linorder) crates \<Rightarrow> 'v dependency list \<Rightarrow> nat \<Rightarrow> ('v resolve_error, unit) result" where
  "dependency_bytes C [] bytes = Inr ()"
| "dependency_bytes C (d # ds) bytes =
     (let bytes = saturating_add (saturating_add (saturating_add bytes (length (identity (dep_registry d))))
            (length (dep_name d))) (retained_bytes C (dep_requirement d))
      in if max_bytes < bytes then Inl MetadataLimitExceeded else dependency_bytes C ds bytes)"

type_synonym 'v root_constraints = "(package_source \<times> string \<times> string, 'v requirement btree_set) btree_map"

definition constraint_key :: "('v::linorder) dependency \<Rightarrow> package_source \<times> string \<times> string" where
  "constraint_key d = (dep_registry d, dep_name d, package_name_of (dep_requirement d) (dep_name d))"

definition add_constraint :: "('v::linorder) root_constraints \<Rightarrow> 'v dependency \<Rightarrow> 'v root_constraints" where
  "add_constraint m d =
     (let key = constraint_key d in
      bm_insert key (bs_insert (dep_requirement d)
        (case bm_get m key of None \<Rightarrow> bs_empty | Some s \<Rightarrow> s)) m)"

definition root_constraints_of :: "('v::linorder) dependency list \<Rightarrow> 'v root_constraints" where
  "root_constraints_of ds = foldl add_constraint bm_empty ds"

definition root_preferences ::
  "('v::linorder) resolution_preferences \<Rightarrow> package_source \<times> string \<times> string \<Rightarrow> 'v resolution_preferences" where
  "root_preferences pref key = (if bs_contains (prf_refresh_roots pref) key then no_preferences else pref)"

text \<open>One pass of the loop over the root constraints.\<close>

definition select_root ::
  "('v::linorder) crates \<Rightarrow> 'v candidate_index \<Rightarrow> 'v resolution_preferences \<Rightarrow>
   (package_source \<times> string \<times> string) \<times> 'v requirement btree_set \<Rightarrow> 'v work \<Rightarrow>
   ('v resolve_error, 'v work) result" where
  "select_root C idx pref0 entry w =
     (let ((reg, local_name, name), requirements) = entry;
          pref = root_preferences pref0 (reg, local_name, name)
      in case select_package C reg name requirements idx pref
                (bm_get (prf_roots pref) (reg, local_name, name))
                (RequirementOrigin local_name None) of
           Inl e \<Rightarrow>
             if missing_only idx reg name e
             then Inr (w\<lparr>w_missing := bs_insert (identity reg, name) (w_missing w)\<rparr>)
             else Inl e
         | Inr p \<Rightarrow>
             (let id = PackageId reg name (pv_version p);
                  previous = bm_get (w_root_bindings w) (reg, local_name)
              in if previous \<noteq> None \<and> previous \<noteq> Some id
                 then Inl (RegistryRouting (''conflicting root binding for '' @ local_name))
                 else Inr (w\<lparr>w_selected := bs_insert id (w_selected w),
                             w_packages := bm_insert id p (w_packages w),
                             w_roots := w_roots w @ [id],
                             w_root_bindings := bm_insert (reg, local_name) id (w_root_bindings w),
                             w_queue := id # w_queue w\<rparr>)))"

fun select_roots ::
  "('v::linorder) crates \<Rightarrow> 'v candidate_index \<Rightarrow> 'v resolution_preferences \<Rightarrow>
   ((package_source \<times> string \<times> string) \<times> 'v requirement btree_set) list \<Rightarrow> 'v work \<Rightarrow>
   ('v resolve_error, 'v work) result" where
  "select_roots C idx pref [] w = Inr w"
| "select_roots C idx pref (e # es) w = and_then (select_root C idx pref e w) (select_roots C idx pref es)"

section \<open>Expansion of the graph\<close>

text \<open>
  The caller's routing function: the registry of a dependency from its parent's registry and
  its package name, or a message.
\<close>

type_synonym routing = "package_source \<Rightarrow> string \<Rightarrow> (string, package_source) result"

text \<open>One pass of the inner loop: one declared dependency of one parent.\<close>

definition expand_dependency ::
  "('v::linorder) crates \<Rightarrow> routing \<Rightarrow> 'v candidate_index \<Rightarrow> 'v resolution_preferences \<Rightarrow>
   'v package_id \<Rightarrow> string \<times> 'v requirement \<Rightarrow> 'v work \<Rightarrow> ('v resolve_error, 'v work) result" where
  "expand_dependency C route idx pref parent entry w =
     (let (dependency, requirement) = entry;
          actual_name = package_name_of requirement dependency
      in and_then (map_err RegistryRouting (route (id_registry parent) actual_name)) (\<lambda>reg.
         case select_package C reg actual_name (bs_insert requirement bs_empty) idx pref None
                (RequirementOrigin dependency (Some parent)) of
           Inl e \<Rightarrow>
             if missing_only idx reg actual_name e
             then Inr (w\<lparr>w_missing := bs_insert (identity reg, actual_name) (w_missing w)\<rparr>)
             else Inl e
         | Inr p \<Rightarrow>
             (let child = PackageId reg actual_name (pv_version p);
                  w1 = w\<lparr>w_dependencies := bs_insert (ResolvedDependency parent dependency child) (w_dependencies w)\<rparr>
              in if bs_contains (w_selected w) child then Inr w1
                 else Inr (w1\<lparr>w_selected := bs_insert child (w_selected w),
                              w_packages := bm_insert child p (w_packages w),
                              w_queue := child # w_queue w\<rparr>))))"

fun expand_dependencies ::
  "('v::linorder) crates \<Rightarrow> routing \<Rightarrow> 'v candidate_index \<Rightarrow> 'v resolution_preferences \<Rightarrow>
   'v package_id \<Rightarrow> (string \<times> 'v requirement) list \<Rightarrow> 'v work \<Rightarrow> ('v resolve_error, 'v work) result" where
  "expand_dependencies C route idx pref parent [] w = Inr w"
| "expand_dependencies C route idx pref parent (e # es) w =
     and_then (expand_dependency C route idx pref parent e w)
       (expand_dependencies C route idx pref parent es)"

text \<open>Every identity the index can produce; finitely many, which bounds the worklist loop.\<close>

definition index_ids :: "('v::linorder) candidate_index \<Rightarrow> 'v package_id set" where
  "index_ids idx =
     (\<Union>((reg, name), ps) \<in> set (bm_entries idx). (\<lambda>p. PackageId reg name (pv_version p)) ` set ps)"

lemma finite_index_ids [simp]: "finite (index_ids idx)"
  by (auto simp: index_ids_def)

lemma select_package_candidate:
  "select_package C reg name rs idx pref root origin = Inr p \<Longrightarrow>
   p \<in> set (candidates_of idx reg name) \<and> satisfies_all C rs p"
  by (auto simp: select_package_def Let_def split: option.splits if_splits dest!: max_by_key_Some)

lemma candidates_of_index_ids:
  assumes "p \<in> set (candidates_of idx reg name)"
  shows "PackageId reg name (pv_version p) \<in> index_ids idx"
proof -
  obtain ps where "((reg, name), ps) \<in> set (bm_entries idx)" "p \<in> set ps"
    using assms by (cases "bm_get idx (reg, name)") (auto simp: candidates_of_def bm_get_in_entries)
  then show ?thesis unfolding index_ids_def by (intro UN_I [of "((reg, name), ps)"]) auto
qed

lemma expand_dependency_cases:
  assumes "expand_dependency C route idx pref parent (d, r) w = Inr w'"
  obtains
    (missing) reg e where "route (id_registry parent) (package_name_of r d) = Inr reg"
      "missing_only idx reg (package_name_of r d) e"
      "w' = w\<lparr>w_missing := bs_insert (identity reg, package_name_of r d) (w_missing w)\<rparr>"
  | (known) reg p child where "route (id_registry parent) (package_name_of r d) = Inr reg"
      "select_package C reg (package_name_of r d) (bs_insert r bs_empty) idx pref None
         (RequirementOrigin d (Some parent)) = Inr p"
      "child = PackageId reg (package_name_of r d) (pv_version p)" "child \<in> bs_set (w_selected w)"
      "w' = w\<lparr>w_dependencies := bs_insert (ResolvedDependency parent d child) (w_dependencies w)\<rparr>"
  | (fresh) reg p child where "route (id_registry parent) (package_name_of r d) = Inr reg"
      "select_package C reg (package_name_of r d) (bs_insert r bs_empty) idx pref None
         (RequirementOrigin d (Some parent)) = Inr p"
      "child = PackageId reg (package_name_of r d) (pv_version p)" "child \<notin> bs_set (w_selected w)"
      "w' = w\<lparr>w_dependencies := bs_insert (ResolvedDependency parent d child) (w_dependencies w),
         w_selected := bs_insert child (w_selected w), w_packages := bm_insert child p (w_packages w),
         w_queue := child # w_queue w\<rparr>"
proof -
  obtain reg where route: "route (id_registry parent) (package_name_of r d) = Inr reg"
    using assms by (auto simp: expand_dependency_def Let_def result_simps)
  show ?thesis
  proof (cases "select_package C reg (package_name_of r d) (bs_insert r bs_empty) idx pref None
         (RequirementOrigin d (Some parent))")
    case (Inl e)
    with assms route show ?thesis
      by (auto simp: expand_dependency_def Let_def intro: missing [OF route] split: if_splits)
  next
    case (Inr p)
    with assms route show ?thesis
      by (auto simp: expand_dependency_def Let_def intro: known [OF route Inr refl] fresh [OF route Inr refl] split: if_splits)
  qed
qed

lemma expand_dependency_queue:
  assumes "expand_dependency C route idx pref parent e w = Inr w'"
  shows "set (w_queue w') \<subseteq> set (w_queue w) \<union> index_ids idx \<and> w_expanded w' = w_expanded w"
proof (cases e)
  case (Pair d r)
  show ?thesis
    using assms unfolding Pair
    by (cases rule: expand_dependency_cases)
      (auto dest!: select_package_candidate intro: candidates_of_index_ids)
qed

lemma expand_dependencies_queue:
  "expand_dependencies C route idx pref parent es w = Inr w' \<Longrightarrow>
   set (w_queue w') \<subseteq> set (w_queue w) \<union> index_ids idx \<and> w_expanded w' = w_expanded w"
proof (induction es arbitrary: w)
  case (Cons e es)
  then obtain w1 where "expand_dependency C route idx pref parent e w = Inr w1"
    "expand_dependencies C route idx pref parent es w1 = Inr w'"
    by (auto simp: result_simps)
  with Cons.IH [of w1] expand_dependency_queue [of C route idx pref parent e w w1] show ?case by auto
qed simp

text \<open>The identities that may still be expanded: the termination measure.\<close>

definition pending :: "('v::linorder) candidate_index \<Rightarrow> 'v work \<Rightarrow> 'v package_id set" where
  "pending idx w = (index_ids idx \<union> set (w_queue w)) - bs_set (w_expanded w)"

lemma finite_pending [simp]: "finite (pending idx w)"
  by (simp add: pending_def)

lemma pending_skip:
  "w_queue w = parent # rest \<Longrightarrow> parent \<in> bs_set (w_expanded w) \<Longrightarrow> pending idx (w\<lparr>w_queue := rest\<rparr>) = pending idx w"
  by (auto simp: pending_def)

lemma pending_expand:
  assumes "w_queue w = parent # rest" "parent \<notin> bs_set (w_expanded w)"
    "expand_dependencies C route idx pref parent es
       (w\<lparr>w_queue := rest, w_expanded := bs_insert parent (w_expanded w)\<rparr>) = Inr w'"
  shows "pending idx w' \<subset> pending idx w"
proof -
  have "set (w_queue w') \<subseteq> set rest \<union> index_ids idx" "w_expanded w' = bs_insert parent (w_expanded w)"
    using expand_dependencies_queue [OF assms(3)] by auto
  with assms(1,2) show ?thesis by (auto simp: pending_def)
qed

function expand_graph ::
  "('v::linorder) crates \<Rightarrow> routing \<Rightarrow> 'v candidate_index \<Rightarrow> 'v resolution_preferences \<Rightarrow>
   'v work \<Rightarrow> ('v resolve_error, 'v work) result" where
  "expand_graph C route idx pref w =
     (case w_queue w of
        [] \<Rightarrow> Inr w
      | parent # rest \<Rightarrow>
          if bs_contains (w_expanded w) parent then expand_graph C route idx pref (w\<lparr>w_queue := rest\<rparr>)
          else (case bm_get (w_packages w) parent of
              None \<Rightarrow> Inl (Panicked ''selected package metadata'')
            | Some p \<Rightarrow>
                and_then (expand_dependencies C route idx pref parent (bm_entries (pv_dependencies p))
                    (w\<lparr>w_queue := rest, w_expanded := bs_insert parent (w_expanded w)\<rparr>))
                  (expand_graph C route idx pref)))"
  by pat_completeness auto
termination
proof (relation "measures [\<lambda>(C, route, idx, pref, w). card (pending idx w), \<lambda>(C, route, idx, pref, w). length (w_queue w)]",
    goal_cases)
  case 1
  show ?case by simp
next
  case (2 C route idx pref w parent rest)
  then show ?case using pending_skip [of w parent rest idx] by simp
next
  case (3 C route idx pref w parent rest p w')
  then have "pending idx w' \<subset> pending idx w" by (intro pending_expand) auto
  then show ?case by (simp add: psubset_card_mono)
qed

declare expand_graph.simps [simp del]

section \<open>Peer contexts\<close>

type_synonym 'v root_providers = "(string, 'v package_id list) btree_map"

definition add_provider ::
  "('v::linorder) root_providers \<Rightarrow> (package_source \<times> string) \<times> 'v package_id \<Rightarrow> 'v root_providers" where
  "add_provider m entry =
     (let ((_, local_name), root) = entry in
      bm_insert local_name ((case bm_get m local_name of None \<Rightarrow> [] | Some ids \<Rightarrow> ids) @ [root]) m)"

definition root_providers :: "(package_source \<times> string, 'v::linorder package_id) btree_map \<Rightarrow> 'v root_providers" where
  "root_providers bindings = foldl add_provider bm_empty (bm_entries bindings)"

text \<open>The loop over the root bindings of one peer name, with the provider found so far.\<close>

fun find_provider ::
  "routing \<Rightarrow> ('v::linorder) package_id \<Rightarrow> string \<Rightarrow> 'v requirement \<Rightarrow> 'v package_id list \<Rightarrow>
   'v package_id option \<Rightarrow> ('v resolve_error, 'v package_id option) result" where
  "find_provider route pid peer requirement [] provider = Inr provider"
| "find_provider route pid peer requirement (candidate # rest) provider =
     (let actual_name = (if is_alias requirement then package_name_of requirement peer else id_name candidate) in
      and_then (map_err RegistryRouting (route (id_registry pid) actual_name)) (\<lambda>peer_registry.
      if id_registry candidate \<noteq> peer_registry then find_provider route pid peer requirement rest provider
      else if provider \<noteq> None
      then Inl (RegistryRouting (''ambiguous root peer binding for '' @ peer))
      else find_provider route pid peer requirement rest (Some candidate)))"

definition provider_ok ::
  "('v::linorder) crates \<Rightarrow> ('v package_id, 'v package_version_metadata) btree_map \<Rightarrow>
   string \<Rightarrow> 'v requirement \<Rightarrow> 'v package_id \<Rightarrow> bool" where
  "provider_ok C packages peer requirement provider \<longleftrightarrow>
     (case bm_get packages provider of
        None \<Rightarrow> False
      | Some metadata \<Rightarrow> matches_tagged_version C requirement (id_version provider) (pv_dist_tags metadata)) \<and>
     (\<not> is_alias requirement \<or> package_name_of requirement peer = id_name provider)"

text \<open>One pass of the loop over the peer requirements of one selected package.\<close>

definition bind_peer ::
  "('v::linorder) crates \<Rightarrow> routing \<Rightarrow> ('v package_id, 'v package_version_metadata) btree_map \<Rightarrow>
   'v root_providers \<Rightarrow> 'v package_id \<Rightarrow> 'v package_version_metadata \<Rightarrow> string \<times> 'v requirement \<Rightarrow>
   'v peer_context \<Rightarrow> ('v resolve_error, 'v peer_context) result" where
  "bind_peer C route packages providers pid package entry context =
     (let (peer, requirement) = entry;
          candidates = bm_get providers peer
      in and_then (find_provider route pid peer requirement
             (case candidates of None \<Rightarrow> [] | Some ids \<Rightarrow> ids) None) (\<lambda>provider.
         and_then
           (if candidates = None
            then map_err RegistryRouting (map_sum (\<lambda>e. e) (\<lambda>_. ())
                   (route (id_registry pid) (package_name_of requirement peer)))
            else Inr ()) (\<lambda>_.
         if provider = None \<and> bs_contains (pv_optional_peer_dependencies package) peer then Inr context
         else (case provider of
             None \<Rightarrow> Inl (PeerDependency pid peer (req_raw requirement) None)
           | Some pr \<Rightarrow>
               if \<not> provider_ok C packages peer requirement pr
               then Inl (PeerDependency pid peer (req_raw requirement) (Some pr))
               else Inr (peer_context_with context peer (id_version pr))))))"

fun bind_peers ::
  "('v::linorder) crates \<Rightarrow> routing \<Rightarrow> ('v package_id, 'v package_version_metadata) btree_map \<Rightarrow>
   'v root_providers \<Rightarrow> 'v package_id \<Rightarrow> 'v package_version_metadata \<Rightarrow> (string \<times> 'v requirement) list \<Rightarrow>
   'v peer_context \<Rightarrow> ('v resolve_error, 'v peer_context) result" where
  "bind_peers C route packages providers pid package [] context = Inr context"
| "bind_peers C route packages providers pid package (e # es) context =
     and_then (bind_peer C route packages providers pid package e context)
       (bind_peers C route packages providers pid package es)"

fun peer_contexts ::
  "('v::linorder) crates \<Rightarrow> routing \<Rightarrow> ('v package_id, 'v package_version_metadata) btree_map \<Rightarrow>
   'v root_providers \<Rightarrow> ('v package_id \<times> 'v package_version_metadata) list \<Rightarrow>
   ('v package_id, 'v peer_context) btree_map \<Rightarrow>
   ('v resolve_error, ('v package_id, 'v peer_context) btree_map) result" where
  "peer_contexts C route packages providers [] contexts = Inr contexts"
| "peer_contexts C route packages providers ((pid, package) # rest) contexts =
     and_then (bind_peers C route packages providers pid package
         (bm_entries (pv_peer_dependencies package)) bm_empty) (\<lambda>context.
       peer_contexts C route packages providers rest (bm_insert pid context contexts))"

section \<open>Resolution\<close>

text \<open>After the worklist is empty: missing metadata, roots, peer contexts, and the result.\<close>

definition finish_resolution ::
  "('v::linorder) crates \<Rightarrow> routing \<Rightarrow> 'v work \<Rightarrow> ('v resolve_error, 'v resolution) result" where
  "finish_resolution C route w =
     (if \<not> bm_is_empty (w_missing w) then Inl (MissingMetadata (bs_elems (w_missing w)))
      else and_then
        (peer_contexts C route (w_packages w) (root_providers (w_root_bindings w))
          (bm_entries (w_packages w)) bm_empty) (\<lambda>contexts.
        Inr \<lparr>res_selected = bs_elems (w_selected w), res_roots = dedup (sort (w_roots w)),
             res_root_bindings = w_root_bindings w, res_dependencies = bs_elems (w_dependencies w),
             res_peer_contexts = contexts\<rparr>))"

definition resolve_graph_with_preferences ::
  "('v::linorder) crates \<Rightarrow> 'v dependency list \<Rightarrow> 'v registry_metadata list \<Rightarrow> resolution_options \<Rightarrow>
   routing \<Rightarrow> 'v resolution_preferences \<Rightarrow> ('v resolve_error, 'v resolution) result" where
  "resolve_graph_with_preferences C ds metadata options route pref =
     (if opt_frozen options then Inl (UnsupportedMode ''frozen resolution requires a lockfile replay input'')
      else if opt_offline options \<and> metadata = []
      then Inl (UnsupportedMode ''offline resolution requires a cached snapshot'')
      else and_then (validate_metadata C (map (\<lambda>m. (rm_registry m, rm_packages m)) metadata)) (\<lambda>bytes.
        if max_packages < length ds then Inl MetadataLimitExceeded
        else and_then (dependency_bytes C ds bytes) (\<lambda>_.
          let idx = candidate_index metadata in
          and_then (select_roots C idx pref (bm_entries (root_constraints_of ds)) work_start) (\<lambda>w.
          and_then (expand_graph C route idx pref w) (finish_resolution C route)))))"

definition resolve_graph_with_routing ::
  "('v::linorder) crates \<Rightarrow> 'v dependency list \<Rightarrow> 'v registry_metadata list \<Rightarrow> resolution_options \<Rightarrow>
   routing \<Rightarrow> ('v resolve_error, 'v resolution) result" where
  "resolve_graph_with_routing C ds metadata options route =
     resolve_graph_with_preferences C ds metadata options route no_preferences"

definition resolve_graph ::
  "('v::linorder) crates \<Rightarrow> 'v dependency list \<Rightarrow> 'v registry_metadata list \<Rightarrow> resolution_options \<Rightarrow>
   ('v resolve_error, 'v resolution) result" where
  "resolve_graph C ds metadata options =
     resolve_graph_with_routing C ds metadata options (\<lambda>parent _. Inr parent)"

text \<open>The entry point for snapshots without dependency maps.\<close>

definition snapshot_metadata :: "('v::linorder) registry_snapshot \<Rightarrow> 'v registry_metadata" where
  "snapshot_metadata s =
     \<lparr>rm_registry = source_of_registry (snap_registry s),
      rm_packages = map (\<lambda>p. \<lparr>pv_name = id_name (pm_identity p), pv_version = id_version (pm_identity p),
        pv_dist_tags = bs_empty, pv_dependencies = bm_empty, pv_peer_dependencies = bm_empty,
        pv_optional_peer_dependencies = bs_empty\<rparr>) (concat (bm_values (snap_packages s)))\<rparr>"

definition resolve ::
  "('v::linorder) crates \<Rightarrow> 'v dependency list \<Rightarrow> 'v registry_snapshot list \<Rightarrow> resolution_options \<Rightarrow>
   ('v resolve_error, 'v resolution) result" where
  "resolve C ds snapshots options = resolve_graph C ds (map snapshot_metadata snapshots) options"

end
