(* ===== verification/Resolver_Facts.thy ===== *)
theory Resolver_Facts
  imports Resolver Requirement_Facts "HOL-Library.Multiset"
begin

text \<open>
  Lemmas on the resolver: the candidate index, candidate selection, the invariants of the
  worklist loop (a locale of predicates the loop keeps, interpreted for the shape of the
  graph, for reachability and for the missing packages), the roots, the peers, where
  errors come from, the limits and the order of the inputs.
\<close>

section \<open>The candidate index\<close>

lemma candidates_of_push:
  "candidates_of (index_push reg p idx) reg' name =
     candidates_of idx reg' name @ (if reg' = reg \<and> name = pv_name p then [p] else [])"
  by (simp add: candidates_of_def index_push_def Let_def split: option.splits)

lemma candidates_of_pushes:
  "candidates_of (foldl (\<lambda>idx p. index_push reg p idx) idx ps) reg' name =
     candidates_of idx reg' name @ (if reg' = reg then filter (\<lambda>p. name = pv_name p) ps else [])"
  by (induction ps arbitrary: idx) (auto simp: candidates_of_push)

definition supplied :: "('v::linorder) registry_metadata list \<Rightarrow> package_source \<Rightarrow> string \<Rightarrow> 'v package_version_metadata list" where
  "supplied metadata reg name =
     concat (map (\<lambda>r. if rm_registry r = reg then filter (\<lambda>p. pv_name p = name) (rm_packages r) else []) metadata)"

lemma candidates_of_from:
  "candidates_of (foldl (\<lambda>idx r. foldl (\<lambda>idx p. index_push (rm_registry r) p idx) idx (rm_packages r)) idx metadata) reg name =
     candidates_of idx reg name @ supplied metadata reg name"
  by (induction metadata arbitrary: idx)
    (auto simp: supplied_def candidates_of_pushes cong: filter_cong intro: filter_cong)

lemma candidates_of_index: "candidates_of (candidate_index metadata) reg name = supplied metadata reg name"
  unfolding candidate_index_def candidates_of_from by (simp add: candidates_of_def)

lemma index_push_keys: "bm_get (index_push reg p idx) k = Some ps \<Longrightarrow> (\<forall>ps'. bm_get idx k = Some ps' \<longrightarrow> ps' \<noteq> []) \<Longrightarrow> ps \<noteq> []"
  by (auto simp: index_push_def Let_def split: if_splits)

lemma index_pushes_nonempty:
  "\<forall>k ps. bm_get idx k = Some ps \<longrightarrow> ps \<noteq> [] \<Longrightarrow>
   \<forall>k ps. bm_get (foldl (\<lambda>idx p. index_push reg p idx) idx qs) k = Some ps \<longrightarrow> ps \<noteq> []"
proof (induction qs arbitrary: idx)
  case (Cons q qs)
  show ?case
    unfolding foldl_Cons by (rule Cons.IH) (metis Cons.prems index_push_keys)
qed simp

lemma candidate_index_nonempty: "bm_get (candidate_index metadata) k = Some ps \<Longrightarrow> ps \<noteq> []"
proof -
  have "\<forall>k ps. bm_get idx k = Some ps \<longrightarrow> ps \<noteq> [] \<Longrightarrow>
    \<forall>k ps. bm_get (foldl (\<lambda>idx r. foldl (\<lambda>idx p. index_push (rm_registry r) p idx) idx (rm_packages r)) idx metadata) k = Some ps
      \<longrightarrow> ps \<noteq> []" for idx
  proof (induction metadata arbitrary: idx)
    case (Cons r rs)
    show ?case unfolding foldl_Cons by (rule Cons.IH, rule index_pushes_nonempty, rule Cons.prems)
  qed simp
  from this [of bm_empty] show "bm_get (candidate_index metadata) k = Some ps \<Longrightarrow> ps \<noteq> []"
    by (cases k) (auto simp: candidate_index_def)
qed

lemma contains_key_supplied:
  "bm_contains_key (candidate_index metadata) (reg, name) \<longleftrightarrow> supplied metadata reg name \<noteq> []"
  using candidate_index_nonempty [of metadata "(reg, name)"]
  by (auto simp: bm_contains_key_def candidates_of_index [symmetric] candidates_of_def split: option.splits)

section \<open>Selection\<close>

lemma satisfies_all_iff:
  "satisfies_all C rs p \<longleftrightarrow> (\<forall>r\<in>bs_set rs. matches_tagged_version C r (pv_version p) (pv_dist_tags p))"
  by (simp add: satisfies_all_def list_all_iff)

lemma select_package_Inr:
  assumes "select_package C reg name rs idx pref root origin = Inr p"
  shows "p \<in> set (candidates_of idx reg name)" "satisfies_all C rs p"
    "q \<in> set (candidates_of idx reg name) \<Longrightarrow> satisfies_all C rs q \<Longrightarrow>
       preference_key pref root reg name q \<le> preference_key pref root reg name p"
  using assms by (auto simp: select_package_def Let_def split: option.splits if_splits dest!: max_by_key_Some)

lemma select_package_Inl:
  "(\<exists>e. select_package C reg name rs idx pref root origin = Inl e) \<longleftrightarrow>
     (\<forall>p\<in>set (candidates_of idx reg name). \<not> satisfies_all C rs p)"
  by (auto simp: select_package_def Let_def filter_empty_conv split: option.splits if_splits)
    (metis (mono_tags, lifting) filter_empty_conv max_by_key_None option.distinct(1))+

text \<open>The order of the keys, and what an error reports.\<close>

lemma preference_key_le:
  "preference_key pref root reg name q \<le> preference_key pref root reg name p \<longleftrightarrow>
     (root = Some (pv_version q) \<longrightarrow> root = Some (pv_version p)) \<and>
     (root \<noteq> Some (pv_version p) \<and> (reg, name, pv_version q) \<in> bs_set (prf_versions pref) \<longrightarrow>
        (reg, name, pv_version p) \<in> bs_set (prf_versions pref)) \<and>
     (pv_version p < pv_version q \<longrightarrow> root = Some (pv_version p) \<or>
        (reg, name, pv_version p) \<in> bs_set (prf_versions pref) \<and> (reg, name, pv_version q) \<notin> bs_set (prf_versions pref))"
  by (auto simp: preference_key_def less_eq_prod_def not_less)

lemma select_package_error:
  assumes "select_package C reg name rs idx pref root origin = Inl e"
  shows "\<exists>raws versions. set versions = (\<lambda>q. sv_to_string C (pv_version q)) ` set (candidates_of idx reg name) \<and>
    e = (if 1 < card (bs_set rs) then Conflict origin (identity reg) name raws versions
         else MissingCandidate origin (identity reg) name (case raws of [] \<Rightarrow> [] | r # _ \<Rightarrow> r) versions) \<and>
    set raws = req_raw ` bs_set rs"
proof -
  have "card (bs_set rs) = length (bs_elems rs)"
    using distinct_card [of "bs_elems rs"] bs_elems_sorted [of rs] by (simp add: strict_sorted_iff)
  then show ?thesis
    using assms
    by (intro exI [of _ "map req_raw (bs_elems rs)"] exI [of _ "available C (candidates_of idx reg name)"])
      (auto simp: select_package_def Let_def available_def image_image split: option.splits if_splits)
qed

text \<open>The two errors only the end of a run may give: the report of missing metadata, and none at all.\<close>

fun late_error :: "'v resolve_error \<Rightarrow> bool" where
  "late_error (MissingMetadata _) = True"
| "late_error (Panicked _) = True"
| "late_error _ = False"

lemma select_package_early: "select_package C reg name rs idx pref root origin = Inl e \<Longrightarrow> \<not> late_error e"
  by (auto simp: select_package_def Let_def split: option.splits if_splits)

section \<open>Invariants of the worklist loop\<close>

text \<open>
  A predicate on the resolver's variables and the declared dependencies still to be
  processed, which popping an expanded parent, opening a parent and processing one of its
  dependencies keep, holds when the loop ends.
\<close>

definition declared :: "('v::linorder) work \<Rightarrow> 'v package_id \<Rightarrow> string \<Rightarrow> 'v requirement \<Rightarrow> bool" where
  "declared w parent d r \<longleftrightarrow> (\<exists>p. bm_get (w_packages w) parent = Some p \<and> bm_get (pv_dependencies p) d = Some r)"

lemma expand_graph_induct [case_names loop]:
  assumes "\<And>w. (\<And>parent rest. w_queue w = parent # rest \<Longrightarrow> parent \<in> bs_set (w_expanded w) \<Longrightarrow> P (w\<lparr>w_queue := rest\<rparr>)) \<Longrightarrow>
      (\<And>parent rest p w'. w_queue w = parent # rest \<Longrightarrow> parent \<notin> bs_set (w_expanded w) \<Longrightarrow>
         bm_get (w_packages w) parent = Some p \<Longrightarrow>
         expand_dependencies C route idx pref parent (bm_entries (pv_dependencies p))
           (w\<lparr>w_queue := rest, w_expanded := bs_insert parent (w_expanded w)\<rparr>) = Inr w' \<Longrightarrow> P w') \<Longrightarrow> P w"
  shows "P w"
proof -
  have "C' = C \<Longrightarrow> route' = route \<Longrightarrow> idx' = idx \<Longrightarrow> pref' = pref \<Longrightarrow> P w" for C' route' idx' pref'
    by (induction C' route' idx' pref' w rule: expand_graph.induct) (rule assms; simp)
  then show ?thesis by blast
qed

lemma expand_graph_Cons:
  "w_queue w = parent # rest \<Longrightarrow> expand_graph C route idx pref w =
     (if parent \<in> bs_set (w_expanded w) then expand_graph C route idx pref (w\<lparr>w_queue := rest\<rparr>)
      else (case bm_get (w_packages w) parent of
          None \<Rightarrow> Inl (Panicked ''selected package metadata'')
        | Some p \<Rightarrow>
            and_then (expand_dependencies C route idx pref parent (bm_entries (pv_dependencies p))
                (w\<lparr>w_queue := rest, w_expanded := bs_insert parent (w_expanded w)\<rparr>))
              (expand_graph C route idx pref)))"
  by (subst expand_graph.simps) simp

lemma expand_graph_Nil: "w_queue w = [] \<Longrightarrow> expand_graph C route idx pref w = Inr w"
  by (subst expand_graph.simps) simp

locale worklist_invariant =
  fixes C :: "('v::linorder) crates" and route :: routing and idx :: "'v candidate_index"
    and pref :: "'v resolution_preferences"
    and inv :: "'v work \<Rightarrow> ('v package_id \<times> string) set \<Rightarrow> bool"
  assumes pop: "inv w {} \<Longrightarrow> w_queue w = parent # rest \<Longrightarrow> parent \<in> bs_set (w_expanded w) \<Longrightarrow>
      inv (w\<lparr>w_queue := rest\<rparr>) {}"
    and enter: "inv w {} \<Longrightarrow> w_queue w = parent # rest \<Longrightarrow> parent \<notin> bs_set (w_expanded w) \<Longrightarrow>
      bm_get (w_packages w) parent = Some p \<Longrightarrow>
      inv (w\<lparr>w_queue := rest, w_expanded := bs_insert parent (w_expanded w)\<rparr>)
        (Pair parent ` set (bm_keys (pv_dependencies p)))"
    and step: "inv w (insert (parent, d) T) \<Longrightarrow> declared w parent d r \<Longrightarrow> parent \<in> bs_set (w_expanded w) \<Longrightarrow>
      expand_dependency C route idx pref parent (d, r) w = Inr w' \<Longrightarrow> inv w' T"
    and keeps: "inv w T \<Longrightarrow> bm_get (w_packages w) x = Some p \<Longrightarrow> x \<in> bs_set (w_selected w)"
begin

lemma declared_step:
  assumes "inv w T" "declared w parent d r"
    "expand_dependency C route idx pref parent e w = Inr w'"
  shows "declared w' parent d r \<and> w_expanded w' = w_expanded w"
proof (cases e)
  case (Pair d' r')
  have x: "parent \<in> bs_set (w_selected w)"
    using assms(1,2) keeps by (auto simp: declared_def)
  show ?thesis
    using assms(3) unfolding Pair
    by (cases rule: expand_dependency_cases) (use assms(2) x in \<open>auto simp: declared_def\<close>)
qed

lemma expand_dependencies_inv:
  assumes "inv w (Pair parent ` set (map fst es))" "\<forall>(d, r)\<in>set es. declared w parent d r"
    "parent \<in> bs_set (w_expanded w)"
    "expand_dependencies C route idx pref parent es w = Inr w'"
  shows "inv w' {}"
  using assms
proof (induction es arbitrary: w)
  case (Cons e es)
  obtain d r where e: "e = (d, r)" by (cases e)
  obtain w1 where w1: "expand_dependency C route idx pref parent (d, r) w = Inr w1"
    "expand_dependencies C route idx pref parent es w1 = Inr w'"
    using Cons.prems(4) e by (auto simp: result_simps)
  have "inv w1 (Pair parent ` set (map fst es))"
    using step [OF _ _ Cons.prems(3) w1(1)] Cons.prems(1,2) e by simp
  moreover have "\<forall>(d, r)\<in>set es. declared w1 parent d r" "parent \<in> bs_set (w_expanded w1)"
    using declared_step [OF Cons.prems(1) _ w1(1)] Cons.prems(2,3) e by (fastforce, metis (mono_tags, lifting) case_prodD e list.set_intros(1))
  ultimately show ?case using Cons.IH w1(2) by blast
qed simp

lemma expand_parent_inv:
  assumes "inv w {}" "w_queue w = parent # rest" "parent \<notin> bs_set (w_expanded w)"
    "bm_get (w_packages w) parent = Some p"
    "expand_dependencies C route idx pref parent (bm_entries (pv_dependencies p))
       (w\<lparr>w_queue := rest, w_expanded := bs_insert parent (w_expanded w)\<rparr>) = Inr w'"
  shows "inv w' {}"
proof (rule expand_dependencies_inv [OF _ _ _ assms(5)])
  show "inv (w\<lparr>w_queue := rest, w_expanded := bs_insert parent (w_expanded w)\<rparr>)
      (Pair parent ` set (map fst (bm_entries (pv_dependencies p))))"
    using enter [OF assms(1-4)] by (simp add: bm_keys_def)
  show "\<forall>(d, r)\<in>set (bm_entries (pv_dependencies p)).
      declared (w\<lparr>w_queue := rest, w_expanded := bs_insert parent (w_expanded w)\<rparr>) parent d r"
    using assms(4) by (auto simp: declared_def bm_get_in_entries)
qed simp

lemma expand_graph_inv:
  "inv w {} \<Longrightarrow> expand_graph C route idx pref w = Inr w' \<Longrightarrow> inv w' {} \<and> w_queue w' = []"
proof (induction w rule: expand_graph_induct [where C = C and route = route and idx = idx and pref = pref])
  case (loop w)
  show ?case
  proof (cases "w_queue w")
    case Nil
    with loop.prems show ?thesis by (simp add: expand_graph_Nil)
  next
    case (Cons parent rest)
    show ?thesis
    proof (cases "parent \<in> bs_set (w_expanded w)")
      case True
      with loop Cons pop [OF loop.prems(1) Cons True] show ?thesis by (simp add: expand_graph_Cons [OF Cons])
    next
      case False
      then obtain p w1 where p: "bm_get (w_packages w) parent = Some p"
        "expand_dependencies C route idx pref parent (bm_entries (pv_dependencies p))
           (w\<lparr>w_queue := rest, w_expanded := bs_insert parent (w_expanded w)\<rparr>) = Inr w1"
        "expand_graph C route idx pref w1 = Inr w'"
        using loop.prems(2) by (auto simp: expand_graph_Cons [OF Cons] result_simps split: option.splits)
      then show ?thesis
        using loop.IH(2) [OF Cons False p(1,2)] expand_parent_inv [OF loop.prems(1) Cons False p(1,2)] by blast
    qed
  qed
qed

end

text \<open>An invariant that also puts the metadata of every queued package at hand excludes the panic.\<close>

lemma expand_dependency_early:
  "expand_dependency C route idx pref parent e w = Inl err \<Longrightarrow> \<not> late_error err"
  by (auto simp: expand_dependency_def Let_def and_then_def map_err_def
      dest: select_package_early split: prod.splits sum.splits if_splits)

lemma expand_dependencies_early:
  "expand_dependencies C route idx pref parent es w = Inl err \<Longrightarrow> \<not> late_error err"
proof (induction es arbitrary: w)
  case (Cons e es)
  then show ?case
    using expand_dependency_early [of C route idx pref parent e w err]
    by (cases "expand_dependency C route idx pref parent e w") auto
qed simp

locale worklist_safe = worklist_invariant +
  assumes queued: "inv w {} \<Longrightarrow> x \<in> set (w_queue w) \<Longrightarrow> bm_get (w_packages w) x \<noteq> None"
begin

lemma expand_graph_early: "inv w {} \<Longrightarrow> expand_graph C route idx pref w = Inl err \<Longrightarrow> \<not> late_error err"
proof (induction w rule: expand_graph_induct [where C = C and route = route and idx = idx and pref = pref])
  case (loop w)
  show ?case
  proof (cases "w_queue w")
    case Nil
    with loop.prems show ?thesis by (simp add: expand_graph_Nil)
  next
    case (Cons parent rest)
    obtain p where p: "bm_get (w_packages w) parent = Some p"
      using queued [OF loop.prems(1), of parent] Cons by auto
    let ?x = "expand_dependencies C route idx pref parent (bm_entries (pv_dependencies p))
           (w\<lparr>w_queue := rest, w_expanded := bs_insert parent (w_expanded w)\<rparr>)"
    show ?thesis
    proof (cases "parent \<in> bs_set (w_expanded w)")
      case True
      with loop Cons pop [OF loop.prems(1) Cons True] show ?thesis by (simp add: expand_graph_Cons [OF Cons])
    next
      case False
      show ?thesis
      proof (cases ?x)
        case (Inl e)
        with False p loop.prems(2) expand_dependencies_early [OF Inl] show ?thesis
          by (simp add: expand_graph_Cons [OF Cons])
      next
        case (Inr w1)
        with False p loop.prems(2) loop.IH(2) [OF Cons False p Inr] expand_parent_inv [OF loop.prems(1) Cons False p Inr]
        show ?thesis by (simp add: expand_graph_Cons [OF Cons])
      qed
    qed
  qed
qed

end

section \<open>The graph\<close>

text \<open>The selected packages, their metadata and the worklist agree.\<close>

definition structure_inv :: "('v::linorder) candidate_index \<Rightarrow> 'v work \<Rightarrow> bool" where
  "structure_inv idx w \<longleftrightarrow>
     dom (bm_get (w_packages w)) = bs_set (w_selected w) \<and>
     (\<forall>x p. bm_get (w_packages w) x = Some p \<longrightarrow>
        p \<in> set (candidates_of idx (id_registry x) (id_name x)) \<and> pv_version p = id_version x) \<and>
     bs_set (w_selected w) = bs_set (w_expanded w) \<union> set (w_queue w) \<and>
     set (w_roots w) \<subseteq> bs_set (w_selected w) \<and> ran (bm_get (w_root_bindings w)) = set (w_roots w)"

text \<open>An edge is the selection made for a declared dependency, on the registry it is routed to.\<close>

definition edge_ok ::
  "('v::linorder) crates \<Rightarrow> routing \<Rightarrow> 'v candidate_index \<Rightarrow> 'v resolution_preferences \<Rightarrow> 'v work \<Rightarrow>
   'v package_id \<Rightarrow> string \<Rightarrow> 'v package_id \<Rightarrow> bool" where
  "edge_ok C route idx pref w parent d child \<longleftrightarrow>
     child \<in> bs_set (w_selected w) \<and>
     (\<exists>r q. declared w parent d r \<and> id_name child = package_name_of r d \<and>
        route (id_registry parent) (id_name child) = Inr (id_registry child) \<and>
        select_package C (id_registry child) (id_name child) (bs_insert r bs_empty) idx pref None
          (RequirementOrigin d (Some parent)) = Inr q \<and>
        pv_version q = id_version child)"

definition edges_inv ::
  "('v::linorder) crates \<Rightarrow> routing \<Rightarrow> 'v candidate_index \<Rightarrow> 'v resolution_preferences \<Rightarrow>
   'v work \<Rightarrow> ('v package_id \<times> string) set \<Rightarrow> bool" where
  "edges_inv C route idx pref w T \<longleftrightarrow>
     (\<forall>parent d child. ResolvedDependency parent d child \<in> bs_set (w_dependencies w) \<longrightarrow>
        edge_ok C route idx pref w parent d child) \<and>
     (\<forall>parent\<in>bs_set (w_expanded w). \<forall>d r. declared w parent d r \<and> (parent, d) \<notin> T \<longrightarrow>
        (\<exists>child. ResolvedDependency parent d child \<in> bs_set (w_dependencies w)) \<or> bs_set (w_missing w) \<noteq> {})"

definition graph_inv ::
  "('v::linorder) crates \<Rightarrow> routing \<Rightarrow> 'v candidate_index \<Rightarrow> 'v resolution_preferences \<Rightarrow>
   'v work \<Rightarrow> 'v work \<Rightarrow> ('v package_id \<times> string) set \<Rightarrow> bool" where
  "graph_inv C route idx pref w0 w T \<longleftrightarrow>
     structure_inv idx w \<and> edges_inv C route idx pref w T \<and>
     w_roots w = w_roots w0 \<and> w_root_bindings w = w_root_bindings w0 \<and>
     bs_set (w_missing w0) \<subseteq> bs_set (w_missing w)"

lemma declared_dom: "declared w parent d r \<Longrightarrow> parent \<in> dom (bm_get (w_packages w))"
  by (auto simp: declared_def)

lemma edge_ok_mono:
  "(\<And>d r. declared w parent d r \<Longrightarrow> declared w' parent d r) \<Longrightarrow> bs_set (w_selected w) \<subseteq> bs_set (w_selected w') \<Longrightarrow>
   edge_ok C route idx pref w parent d child \<Longrightarrow> edge_ok C route idx pref w' parent d child"
  unfolding edge_ok_def by blast

lemma structure_step:
  assumes "structure_inv idx w" "expand_dependency C route idx pref parent (d, r) w = Inr w'"
  shows "structure_inv idx w'"
  using assms(2)
proof (cases rule: expand_dependency_cases)
  case (fresh reg p child)
  with assms(1) select_package_Inr(1) [OF fresh(2)] show ?thesis
    by (auto simp: structure_inv_def)
qed (use assms(1) in \<open>auto simp: structure_inv_def\<close>)

lemma edges_add:
  assumes inv: "edges_inv C route idx pref w (insert (parent, d) T)"
    and edge: "edge_ok C route idx pref w' parent d child"
    and same: "bs_set (w_dependencies w') = insert (ResolvedDependency parent d child) (bs_set (w_dependencies w))"
      "w_expanded w' = w_expanded w" "w_missing w' = w_missing w"
    and declared: "\<And>x e r. x \<in> bs_set (w_expanded w) \<Longrightarrow> declared w' x e r \<Longrightarrow> declared w x e r"
    and mono: "\<And>x e y. edge_ok C route idx pref w x e y \<Longrightarrow> edge_ok C route idx pref w' x e y"
  shows "edges_inv C route idx pref w' T"
  unfolding edges_inv_def same
proof (intro conjI allI ballI impI)
  fix x e y
  assume "ResolvedDependency x e y \<in> insert (ResolvedDependency parent d child) (bs_set (w_dependencies w))"
  then show "edge_ok C route idx pref w' x e y"
    using edge mono inv unfolding edges_inv_def by blast
next
  fix x e r
  assume x: "x \<in> bs_set (w_expanded w)" "declared w' x e r \<and> (x, e) \<notin> T"
  show "(\<exists>y. ResolvedDependency x e y \<in> insert (ResolvedDependency parent d child) (bs_set (w_dependencies w))) \<or>
      bs_set (w_missing w) \<noteq> {}"
  proof (cases "(x, e) = (parent, d)")
    case False
    then show ?thesis using inv declared [OF x(1)] x unfolding edges_inv_def by blast
  qed auto
qed

lemma edges_step:
  assumes "structure_inv idx w" "edges_inv C route idx pref w (insert (parent, d) T)"
    "declared w parent d r" "parent \<in> bs_set (w_expanded w)"
    "expand_dependency C route idx pref parent (d, r) w = Inr w'"
  shows "edges_inv C route idx pref w' T"
  using assms(5)
proof (cases rule: expand_dependency_cases)
  case (missing reg e)
  with assms(2) show ?thesis
    by (auto simp: edges_inv_def edge_ok_def declared_def)
next
  case (known reg p child)
  have "edge_ok C route idx pref w' parent d child"
    unfolding edge_ok_def using known assms(3) by (auto simp: declared_def)
  with known(5) assms(2) show ?thesis
    by (intro edges_add [of C route idx pref w parent d T]) (auto simp: edge_ok_def declared_def)
next
  case (fresh reg p child)
  have new: "child \<notin> dom (bm_get (w_packages w))"
    using fresh(4) assms(1) by (simp add: structure_inv_def)
  have keep: "declared w' x d' r' \<longleftrightarrow> declared w x d' r'" if "x \<noteq> child" for x d' r'
    using that fresh(5) by (simp add: declared_def)
  have ne: "x \<noteq> child" if "x \<in> bs_set (w_expanded w)" for x
    using that fresh(4) assms(1) by (auto simp: structure_inv_def)
  have "edge_ok C route idx pref w' parent d child"
    unfolding edge_ok_def using fresh keep [OF ne [OF assms(4)]] assms(3) by auto
  moreover have "edge_ok C route idx pref w' x e y" if "edge_ok C route idx pref w x e y" for x e y
  proof (rule edge_ok_mono [OF _ _ that])
    show "declared w' x d' r'" if "declared w x d' r'" for d' r'
      using that declared_dom [OF that] keep [of x d' r'] new by metis
    show "bs_set (w_selected w) \<subseteq> bs_set (w_selected w')"
      using fresh(5) by auto
  qed
  ultimately show ?thesis
    using fresh(5) keep ne by (intro edges_add [OF assms(2)]) auto
qed

lemma graph_worklist: "worklist_safe C route idx pref (graph_inv C route idx pref w0)"
proof unfold_locales
  fix w parent rest p
  assume w: "graph_inv C route idx pref w0 w {}" "w_queue w = parent # rest"
  show "graph_inv C route idx pref w0 (w\<lparr>w_queue := rest\<rparr>) {}" if "parent \<in> bs_set (w_expanded w)"
    using w that by (auto simp: graph_inv_def structure_inv_def edges_inv_def edge_ok_def declared_def)
  show "graph_inv C route idx pref w0 (w\<lparr>w_queue := rest, w_expanded := bs_insert parent (w_expanded w)\<rparr>)
      (Pair parent ` set (bm_keys (pv_dependencies p)))"
    if "parent \<notin> bs_set (w_expanded w)" "bm_get (w_packages w) parent = Some p"
    using w that
    by (auto simp: graph_inv_def structure_inv_def edges_inv_def edge_ok_def declared_def set_bm_keys)
next
  fix w parent d T r w'
  assume w: "graph_inv C route idx pref w0 w (insert (parent, d) T)" "declared w parent d r"
    "parent \<in> bs_set (w_expanded w)" "expand_dependency C route idx pref parent (d, r) w = Inr w'"
  have "w_roots w' = w_roots w \<and> w_root_bindings w' = w_root_bindings w \<and> bs_set (w_missing w) \<subseteq> bs_set (w_missing w')"
    using w(4) by (cases rule: expand_dependency_cases) auto
  then show "graph_inv C route idx pref w0 w' T"
    using w structure_step [OF _ w(4)] edges_step [OF _ _ w(2-4)] by (auto simp: graph_inv_def)
qed (auto simp: graph_inv_def structure_inv_def)

interpretation graph: worklist_safe C route idx pref "graph_inv C route idx pref w0" for C route idx pref w0
  by (rule graph_worklist)

section \<open>Reachability\<close>

inductive reaches :: "'v package_id set \<Rightarrow> 'v resolved_dependency set \<Rightarrow> 'v package_id \<Rightarrow> bool" for roots edges where
  root: "x \<in> roots \<Longrightarrow> reaches roots edges x"
| edge: "reaches roots edges x \<Longrightarrow> ResolvedDependency x d y \<in> edges \<Longrightarrow> reaches roots edges y"

lemma reaches_mono: "reaches R E x \<Longrightarrow> E \<subseteq> F \<Longrightarrow> reaches R F x"
  by (induction rule: reaches.induct) (auto intro: reaches.intros)

definition reach_inv :: "('v::linorder) work \<Rightarrow> ('v package_id \<times> string) set \<Rightarrow> bool" where
  "reach_inv w T \<longleftrightarrow>
     dom (bm_get (w_packages w)) \<subseteq> bs_set (w_selected w) \<and> bs_set (w_expanded w) \<union> set (w_queue w) \<subseteq> bs_set (w_selected w) \<and>
     (\<forall>x\<in>bs_set (w_selected w). reaches (set (w_roots w)) (bs_set (w_dependencies w)) x)"

interpretation reach: worklist_invariant C route idx pref reach_inv for C route idx pref
proof unfold_locales
  fix w parent d T r w'
  assume w: "reach_inv w (insert (parent, d) T)" "parent \<in> bs_set (w_expanded w)"
    "expand_dependency C route idx pref parent (d, r) w = Inr w'"
  from w(3) show "reach_inv w' T"
  proof (cases rule: expand_dependency_cases)
    case (missing reg e)
    with w show ?thesis by (auto simp: reach_inv_def)
  next
    case (known reg p child)
    with w show ?thesis by (auto simp: reach_inv_def intro: reaches_mono)
  next
    case (fresh reg p child)
    have "reaches (set (w_roots w)) (insert (ResolvedDependency parent d child) (bs_set (w_dependencies w))) parent"
      using w by (auto simp: reach_inv_def intro: reaches_mono)
    then have "reaches (set (w_roots w)) (insert (ResolvedDependency parent d child) (bs_set (w_dependencies w))) child"
      by (rule reaches.edge [where d = d]) simp
    with fresh w show ?thesis by (auto simp: reach_inv_def intro: reaches_mono)
  qed
qed (auto simp: reach_inv_def)

section \<open>Missing metadata\<close>

definition missing_inv :: "('v::linorder) candidate_index \<Rightarrow> 'v work \<Rightarrow> ('v package_id \<times> string) set \<Rightarrow> bool" where
  "missing_inv idx w T \<longleftrightarrow>
     dom (bm_get (w_packages w)) \<subseteq> bs_set (w_selected w) \<and>
     (\<forall>(r, n)\<in>bs_set (w_missing w). \<exists>reg. identity reg = r \<and> \<not> bm_contains_key idx (reg, n))"

lemma missing_only_absent: "missing_only idx reg name e \<Longrightarrow> \<not> bm_contains_key idx (reg, name)"
  by (simp add: missing_only_def split: resolve_error.splits)

interpretation absent: worklist_invariant C route idx pref "missing_inv idx" for C route idx pref
proof unfold_locales
  fix w parent d T r w'
  assume w: "missing_inv idx w (insert (parent, d) T)"
    "expand_dependency C route idx pref parent (d, r) w = Inr w'"
  from w(2) show "missing_inv idx w' T"
    by (cases rule: expand_dependency_cases) (use w(1) in \<open>auto simp: missing_inv_def dest: missing_only_absent\<close>)
qed (auto simp: missing_inv_def)

section \<open>Roots\<close>

lemma select_root_cases:
  assumes "select_root C idx pref ((reg, local, name), rs) w = Inr w'"
  obtains
    (missing) e where "missing_only idx reg name e"
      "w' = w\<lparr>w_missing := bs_insert (identity reg, name) (w_missing w)\<rparr>"
  | (bound) p x where
      "select_package C reg name rs idx (root_preferences pref (reg, local, name))
         (bm_get (prf_roots (root_preferences pref (reg, local, name))) (reg, local, name))
         (RequirementOrigin local None) = Inr p"
      "x = PackageId reg name (pv_version p)"
      "\<And>y. bm_get (w_root_bindings w) (reg, local) = Some y \<Longrightarrow> y = x"
      "w' = w\<lparr>w_selected := bs_insert x (w_selected w), w_packages := bm_insert x p (w_packages w),
         w_roots := w_roots w @ [x], w_root_bindings := bm_insert (reg, local) x (w_root_bindings w),
         w_queue := x # w_queue w\<rparr>"
proof (cases "select_package C reg name rs idx (root_preferences pref (reg, local, name))
         (bm_get (prf_roots (root_preferences pref (reg, local, name))) (reg, local, name))
         (RequirementOrigin local None)")
  case (Inl e)
  with assms show ?thesis
    by (auto simp: select_root_def Let_def intro: missing split: if_splits)
next
  case (Inr p)
  with assms show ?thesis
    by (auto simp: select_root_def Let_def intro: bound [OF Inr refl] split: if_splits)
qed

text \<open>A root entry is bound to the selection made for it.\<close>

definition root_ok ::
  "('v::linorder) crates \<Rightarrow> 'v candidate_index \<Rightarrow> 'v resolution_preferences \<Rightarrow> 'v work \<Rightarrow>
   package_source \<Rightarrow> string \<Rightarrow> string \<Rightarrow> 'v requirement btree_set \<Rightarrow> bool" where
  "root_ok C idx pref w reg local name rs \<longleftrightarrow>
     (\<exists>p. select_package C reg name rs idx (root_preferences pref (reg, local, name))
         (bm_get (prf_roots (root_preferences pref (reg, local, name))) (reg, local, name))
         (RequirementOrigin local None) = Inr p \<and>
       bm_get (w_root_bindings w) (reg, local) = Some (PackageId reg name (pv_version p)))"

definition roots_inv ::
  "('v::linorder) crates \<Rightarrow> 'v candidate_index \<Rightarrow> 'v resolution_preferences \<Rightarrow>
   ((package_source \<times> string \<times> string) \<times> 'v requirement btree_set) set \<Rightarrow> 'v work \<Rightarrow> bool" where
  "roots_inv C idx pref settled w \<longleftrightarrow>
     structure_inv idx w \<and> missing_inv idx w {} \<and> bs_set (w_expanded w) = {} \<and> bs_set (w_dependencies w) = {} \<and>
     bs_set (w_selected w) = set (w_roots w) \<and>
     (\<forall>((reg, local, name), rs)\<in>settled. root_ok C idx pref w reg local name rs \<or> bs_set (w_missing w) \<noteq> {})"

lemma roots_inv_start: "roots_inv C idx pref {} work_start"
  by (simp add: roots_inv_def structure_inv_def missing_inv_def work_start_def)

lemma root_bindings_extend:
  assumes "\<And>y. m k = Some y \<Longrightarrow> y = x"
  shows "ran (m(k \<mapsto> x)) = insert x (ran m)"
proof (cases "m k")
  case (Some y)
  then have "m(k \<mapsto> x) = m" "x \<in> ran m" using assms by (auto simp: ran_def)
  then show ?thesis by (simp add: insert_absorb)
qed simp

lemma root_ok_insert:
  assumes "root_ok C idx pref w reg local name rs"
    "\<And>y. bm_get (w_root_bindings w) k = Some y \<Longrightarrow> y = x" "w_root_bindings w' = bm_insert k x (w_root_bindings w)"
  shows "root_ok C idx pref w' reg local name rs"
  using assms by (auto simp: root_ok_def)

lemma roots_step:
  assumes inv: "roots_inv C idx pref S w" and w': "select_root C idx pref ((reg, local, name), rs) w = Inr w'"
  shows "roots_inv C idx pref (insert ((reg, local, name), rs) S) w'"
  using w'
proof (cases rule: select_root_cases)
  case (missing e)
  with inv missing_only_absent [OF missing(1)] show ?thesis
    by (auto simp: roots_inv_def structure_inv_def missing_inv_def root_ok_def)
next
  case (bound p x)
  have ran: "ran (bm_get (w_root_bindings w')) = insert x (ran (bm_get (w_root_bindings w)))"
    using root_bindings_extend [of "bm_get (w_root_bindings w)" "(reg, local)" x, OF bound(3)] bound(4) by simp
  have "structure_inv idx w'"
    using inv bound(2,4) ran select_package_Inr(1) [OF bound(1)] unfolding roots_inv_def structure_inv_def by auto
  moreover have "root_ok C idx pref w' reg local name rs"
    using bound by (auto simp: root_ok_def)
  moreover have "root_ok C idx pref w' reg' local' name' rs'" if "root_ok C idx pref w reg' local' name' rs'" for reg' local' name' rs'
    using root_ok_insert [OF that bound(3)] bound(4) by simp
  ultimately show ?thesis
    using inv bound(4) unfolding roots_inv_def missing_inv_def by auto
qed

lemma select_roots_inv:
  "roots_inv C idx pref S w \<Longrightarrow> select_roots C idx pref es w = Inr w' \<Longrightarrow> roots_inv C idx pref (S \<union> set es) w'"
proof (induction es arbitrary: S w)
  case (Cons e es)
  obtain reg local name rs where e: "e = ((reg, local, name), rs)" by (metis prod.exhaust)
  obtain w1 where w1: "select_root C idx pref e w = Inr w1" "select_roots C idx pref es w1 = Inr w'"
    using Cons.prems by (auto simp: result_simps)
  from Cons.IH [OF roots_step [OF Cons.prems(1) w1(1) [unfolded e]] w1(2)] show ?case
    by (simp add: e)
qed simp

lemma roots_graph: "roots_inv C idx pref S w \<Longrightarrow> graph_inv C route idx pref w w {}"
  by (auto simp: roots_inv_def graph_inv_def edges_inv_def)

lemma roots_reach: "roots_inv C idx pref S w \<Longrightarrow> reach_inv w {}"
  by (auto simp: roots_inv_def reach_inv_def structure_inv_def intro: reaches.root)

text \<open>The requirements recorded for a root key are those of the dependencies with that key.\<close>

lemma root_constraints_get:
  "bm_get (foldl add_constraint m ds) k =
     (if \<exists>d\<in>set ds. constraint_key d = k
      then Some (bs_extend (case bm_get m k of None \<Rightarrow> bs_empty | Some s \<Rightarrow> s)
        (map dep_requirement (filter (\<lambda>d. constraint_key d = k) ds)))
      else bm_get m k)"
  by (induction ds arbitrary: m) (auto simp: add_constraint_def Let_def)

lemma root_constraint_of_dependency:
  assumes "d \<in> set ds"
  obtains rs where "(constraint_key d, rs) \<in> set (bm_entries (root_constraints_of ds))" "dep_requirement d \<in> bs_set rs"
proof -
  let ?rs = "bs_extend bs_empty (map dep_requirement (filter (\<lambda>e. constraint_key e = constraint_key d) ds))"
  have "bm_get (root_constraints_of ds) (constraint_key d) = Some ?rs"
    using assms by (auto simp: root_constraints_of_def root_constraints_get)
  then show ?thesis using assms that by (auto simp: bm_get_in_entries)
qed

section \<open>Peers\<close>

lemma root_providers_from:
  "(\<exists>ids. bm_get (foldl add_provider m es) local = Some ids \<and> c \<in> set ids) \<longleftrightarrow>
     (\<exists>ids. bm_get m local = Some ids \<and> c \<in> set ids) \<or> (\<exists>reg. ((reg, local), c) \<in> set es)"
proof (induction es arbitrary: m)
  case (Cons e es)
  obtain reg l x where e: "e = ((reg, l), x)" by (metis prod.exhaust)
  show ?case
    unfolding foldl_Cons Cons.IH
    by (auto simp: add_provider_def e split: option.splits if_splits)
qed simp

lemma root_providers_iff:
  "(\<exists>ids. bm_get (root_providers bindings) local = Some ids \<and> c \<in> set ids) \<longleftrightarrow>
     (\<exists>reg. bm_get bindings (reg, local) = Some c)"
  unfolding root_providers_def root_providers_from by (simp add: bm_get_in_entries)

definition peer_name :: "'v requirement \<Rightarrow> string \<Rightarrow> 'v package_id \<Rightarrow> string" where
  "peer_name r peer c = (if is_alias r then package_name_of r peer else id_name c)"

lemma find_provider_from:
  assumes "find_provider route x peer r cs (Some c0) = Inr res"
  shows "res = Some c0 \<and> (\<forall>c\<in>set cs. route (id_registry x) (peer_name r peer c) \<noteq> Inr (id_registry c))"
  using assms
proof (induction cs)
  case (Cons c cs)
  then show ?case by (auto simp: peer_name_def result_simps Let_def split: if_splits)
qed simp

lemma find_provider_spec:
  assumes "find_provider route x peer r cs None = Inr res"
  shows "case res of
      None \<Rightarrow> \<forall>c\<in>set cs. route (id_registry x) (peer_name r peer c) \<noteq> Inr (id_registry c)
    | Some c \<Rightarrow> c \<in> set cs \<and> route (id_registry x) (peer_name r peer c) = Inr (id_registry c)"
  using assms
proof (induction cs)
  case (Cons c cs)
  obtain reg where reg: "route (id_registry x) (peer_name r peer c) = Inr reg"
    using Cons.prems by (auto simp: peer_name_def result_simps Let_def)
  show ?case
  proof (cases "id_registry c = reg")
    case True
    then have "find_provider route x peer r cs (Some c) = Inr res"
      using Cons.prems reg by (simp add: peer_name_def Let_def split: if_splits)
    then show ?thesis using find_provider_from [of route x peer r cs c res] True reg by auto
  next
    case False
    then have "find_provider route x peer r cs None = Inr res"
      using Cons.prems reg by (simp add: peer_name_def Let_def split: if_splits)
    with Cons.IH False reg show ?thesis by (auto split: option.splits)
  qed
qed simp

text \<open>
  What the context of a package says of one peer requirement: it names the version of a root
  binding under the peer's name, on the registry the peer is routed to, that satisfies the
  requirement; or the peer is optional and no root binding provides it.
\<close>

definition peer_bound ::
  "('v::linorder) crates \<Rightarrow> routing \<Rightarrow> ('v package_id, 'v package_version_metadata) btree_map \<Rightarrow>
   (package_source \<times> string, 'v package_id) btree_map \<Rightarrow> 'v package_id \<Rightarrow> 'v package_version_metadata \<Rightarrow>
   string \<Rightarrow> 'v requirement \<Rightarrow> 'v option \<Rightarrow> bool" where
  "peer_bound C route packages bindings x p peer r bound \<longleftrightarrow>
     (case bound of
        Some v \<Rightarrow> \<exists>reg c. bm_get bindings (reg, peer) = Some c \<and> id_version c = v \<and>
          (\<exists>m. bm_get packages c = Some m \<and> matches_tagged_version C r v (pv_dist_tags m)) \<and>
          id_name c = peer_name r peer c \<and> route (id_registry x) (id_name c) = Inr (id_registry c)
      | None \<Rightarrow> peer \<in> bs_set (pv_optional_peer_dependencies p) \<and>
          (\<forall>reg c. bm_get bindings (reg, peer) = Some c \<longrightarrow>
             route (id_registry x) (peer_name r peer c) \<noteq> Inr (id_registry c)))"

lemma bind_peer_spec:
  assumes "bind_peer C route packages (root_providers bindings) x p (peer, r) ctx = Inr ctx'" "bm_get ctx peer = None"
  shows "peer_bound C route packages bindings x p peer r (bm_get ctx' peer) \<and> (\<forall>k. k \<noteq> peer \<longrightarrow> bm_get ctx' k = bm_get ctx k)"
proof -
  let ?cs = "case bm_get (root_providers bindings) peer of None \<Rightarrow> [] | Some ids \<Rightarrow> ids"
  have cs: "c \<in> set ?cs \<longleftrightarrow> (\<exists>reg. bm_get bindings (reg, peer) = Some c)" for c
    using root_providers_iff [of bindings peer c] by (cases "bm_get (root_providers bindings) peer") auto
  obtain provider where find: "find_provider route x peer r ?cs None = Inr provider"
    and rest: "(if provider = None \<and> bs_contains (pv_optional_peer_dependencies p) peer then Inr ctx
         else (case provider of
             None \<Rightarrow> Inl (PeerDependency x peer (req_raw r) None)
           | Some pr \<Rightarrow>
               if \<not> provider_ok C packages peer r pr
               then Inl (PeerDependency x peer (req_raw r) (Some pr))
               else Inr (peer_context_with ctx peer (id_version pr)))) = Inr ctx'"
    using assms(1) by (auto simp: bind_peer_def Let_def result_simps)
  show ?thesis
  proof (cases provider)
    case None
    with rest find_provider_spec [OF find] cs assms(2) show ?thesis
      by (auto simp: peer_bound_def split: if_splits)
  next
    case (Some c)
    with rest have c: "provider_ok C packages peer r c" "ctx' = bm_insert peer (id_version c) ctx"
      by (auto simp: peer_context_with_def split: if_splits)
    moreover have "c \<in> set ?cs" "route (id_registry x) (peer_name r peer c) = Inr (id_registry c)"
      using find_provider_spec [OF find] Some by auto
    moreover have "\<exists>m. bm_get packages c = Some m \<and> matches_tagged_version C r (id_version c) (pv_dist_tags m)"
      "id_name c = peer_name r peer c"
      using c(1) by (auto simp: provider_ok_def peer_name_def split: option.splits)
    moreover obtain reg where "bm_get bindings (reg, peer) = Some c" using cs calculation(3) by blast
    ultimately show ?thesis by (simp add: peer_bound_def) metis
  qed
qed

lemma bind_peers_spec:
  assumes "bind_peers C route packages (root_providers bindings) x p es ctx = Inr ctx'"
    "distinct (map fst es)" "fst ` set es \<inter> dom (bm_get ctx) = {}"
  shows "(\<forall>(peer, r)\<in>set es. peer_bound C route packages bindings x p peer r (bm_get ctx' peer)) \<and>
    (\<forall>k. k \<notin> fst ` set es \<longrightarrow> bm_get ctx' k = bm_get ctx k)"
  using assms
proof (induction es arbitrary: ctx)
  case (Cons e es)
  obtain peer r where e: "e = (peer, r)" by (cases e)
  obtain ctx1 where 1: "bind_peer C route packages (root_providers bindings) x p (peer, r) ctx = Inr ctx1"
    "bind_peers C route packages (root_providers bindings) x p es ctx1 = Inr ctx'"
    using Cons.prems(1) e by (auto simp: result_simps)
  have b: "peer_bound C route packages bindings x p peer r (bm_get ctx1 peer)" "\<forall>k. k \<noteq> peer \<longrightarrow> bm_get ctx1 k = bm_get ctx k"
    using bind_peer_spec [OF 1(1)] Cons.prems(3) e by auto
  have "fst ` set es \<inter> dom (bm_get ctx1) = {}"
  proof -
    have "k \<noteq> peer" if "k \<in> fst ` set es" for k
      using that Cons.prems(2) e by auto
    then show ?thesis using b(2) Cons.prems(3) by (fastforce simp: dom_def)
  qed
  with Cons.IH [OF 1(2)] Cons.prems(2) b e show ?case by auto
qed simp

lemma peer_contexts_spec:
  assumes "peer_contexts C route packages (root_providers bindings) es acc = Inr ctxs" "distinct (map fst es)"
  shows "dom (bm_get ctxs) = dom (bm_get acc) \<union> fst ` set es \<and>
    (\<forall>x. x \<notin> fst ` set es \<longrightarrow> bm_get ctxs x = bm_get acc x) \<and>
    (\<forall>(x, p)\<in>set es. \<exists>ctx. bm_get ctxs x = Some ctx \<and> dom (bm_get ctx) \<subseteq> dom (bm_get (pv_peer_dependencies p)) \<and>
       (\<forall>peer r. bm_get (pv_peer_dependencies p) peer = Some r \<longrightarrow>
          peer_bound C route packages bindings x p peer r (bm_get ctx peer)))"
  using assms
proof (induction es arbitrary: acc)
  case (Cons e es)
  obtain x p where e: "e = (x, p)" by (cases e)
  obtain ctx where 1: "bind_peers C route packages (root_providers bindings) x p (bm_entries (pv_peer_dependencies p)) bm_empty = Inr ctx"
    "peer_contexts C route packages (root_providers bindings) es (bm_insert x ctx acc) = Inr ctxs"
    using Cons.prems(1) e by (auto simp: result_simps)
  have ctx: "(\<forall>(peer, r)\<in>set (bm_entries (pv_peer_dependencies p)). peer_bound C route packages bindings x p peer r (bm_get ctx peer)) \<and>
    (\<forall>k. k \<notin> fst ` set (bm_entries (pv_peer_dependencies p)) \<longrightarrow> bm_get ctx k = None)"
    using bind_peers_spec [OF 1(1) al_sorted_distinct [OF bm_entries_sorted]] by simp
  have dom: "dom (bm_get ctx) \<subseteq> dom (bm_get (pv_peer_dependencies p))"
    using ctx set_bm_keys [of "pv_peer_dependencies p"] by (auto simp: bm_keys_def)
  have "\<forall>peer r. bm_get (pv_peer_dependencies p) peer = Some r \<longrightarrow> peer_bound C route packages bindings x p peer r (bm_get ctx peer)"
    using ctx by (auto simp: bm_get_in_entries)
  with dom Cons.IH [OF 1(2)] Cons.prems(2) e show ?case by auto
qed simp

section \<open>A successful resolution\<close>

lemma resolution_run:
  assumes "resolve_graph_with_preferences C ds metadata options route pref = Inr res"
  obtains w0 w where
    "roots_inv C (candidate_index metadata) pref (set (bm_entries (root_constraints_of ds))) w0"
    "graph_inv C route (candidate_index metadata) pref w0 w {}" "reach_inv w {}" "w_queue w = []"
    "bs_set (w_missing w) = {}"
    "res_selected res = bs_elems (w_selected w)" "res_roots res = dedup (sort (w_roots w))"
    "res_root_bindings res = w_root_bindings w" "res_dependencies res = bs_elems (w_dependencies w)"
    "peer_contexts C route (w_packages w) (root_providers (w_root_bindings w))
       (bm_entries (w_packages w)) bm_empty = Inr (res_peer_contexts res)"
proof -
  let ?idx = "candidate_index metadata"
  obtain w0 w where w0: "select_roots C ?idx pref (bm_entries (root_constraints_of ds)) work_start = Inr w0"
    and w: "expand_graph C route ?idx pref w0 = Inr w" and res: "finish_resolution C route w = Inr res"
    using assms by (auto simp: resolve_graph_with_preferences_def Let_def result_simps split: if_splits)
  have inv: "roots_inv C ?idx pref (set (bm_entries (root_constraints_of ds))) w0"
    using select_roots_inv [OF roots_inv_start w0] by simp
  have g: "graph_inv C route ?idx pref w0 w {}" "w_queue w = []"
    using graph.expand_graph_inv [OF roots_graph [OF inv] w] by simp_all
  have r: "reach_inv w {}"
    using reach.expand_graph_inv [OF roots_reach [OF inv] w] by simp
  have m: "bs_set (w_missing w) = {}"
    using res by (auto simp: finish_resolution_def bm_is_empty_iff split: if_splits)
  obtain ctxs where f: "res = \<lparr>res_selected = bs_elems (w_selected w), res_roots = dedup (sort (w_roots w)),
             res_root_bindings = w_root_bindings w, res_dependencies = bs_elems (w_dependencies w),
             res_peer_contexts = ctxs\<rparr>"
    "peer_contexts C route (w_packages w) (root_providers (w_root_bindings w)) (bm_entries (w_packages w)) bm_empty = Inr ctxs"
    using res by (auto simp: finish_resolution_def result_simps split: if_splits)
  show ?thesis
    by (rule that [OF inv g(1) r g(2) m]) (simp_all add: f)
qed

text \<open>
  The version of \<open>y\<close> is that of a supplied record that satisfies the requirement, and no
  satisfying record has a greater preference key.
\<close>

definition best_match ::
  "('v::linorder) crates \<Rightarrow> 'v registry_metadata list \<Rightarrow> 'v resolution_preferences \<Rightarrow> 'v requirement \<Rightarrow> 'v package_id \<Rightarrow> bool" where
  "best_match C metadata pref r y \<longleftrightarrow>
     (\<exists>q\<in>set (supplied metadata (id_registry y) (id_name y)).
       pv_version q = id_version y \<and> matches_tagged_version C r (pv_version q) (pv_dist_tags q) \<and>
       (\<forall>q'\<in>set (supplied metadata (id_registry y) (id_name y)).
          matches_tagged_version C r (pv_version q') (pv_dist_tags q') \<longrightarrow>
          preference_key pref None (id_registry y) (id_name y) q' \<le>
          preference_key pref None (id_registry y) (id_name y) q))"

text \<open>An edge carries the best candidate for the dependency it stands for.\<close>

lemma edge_ok_D:
  assumes "edge_ok C route (candidate_index metadata) pref w parent d child" "declared w parent d r"
  shows "child \<in> bs_set (w_selected w)" "id_name child = package_name_of r d"
    "route (id_registry parent) (id_name child) = Inr (id_registry child)"
    "best_match C metadata pref r child"
proof -
  obtain q where q: "child \<in> bs_set (w_selected w)" "id_name child = package_name_of r d"
    "route (id_registry parent) (id_name child) = Inr (id_registry child)" "pv_version q = id_version child"
    and sel: "select_package C (id_registry child) (id_name child) (bs_insert r bs_empty) (candidate_index metadata)
      pref None (RequirementOrigin d (Some parent)) = Inr q"
    using assms unfolding edge_ok_def declared_def by (metis option.inject)
  show "child \<in> bs_set (w_selected w)" "id_name child = package_name_of r d"
    "route (id_registry parent) (id_name child) = Inr (id_registry child)"
    using q by simp_all
  show "best_match C metadata pref r child"
    using select_package_Inr [OF sel] q(4) by (auto simp: best_match_def candidates_of_index satisfies_all_iff intro!: bexI [of _ q])
qed

section \<open>Where errors come from\<close>

lemma validate_records_early: "validate_records C ps n b = Inl e \<Longrightarrow> \<not> late_error e"
  by (induction ps arbitrary: n b) (auto simp: Let_def split: if_splits)

lemma validate_registries_early: "validate_registries C ms k n b = Inl e \<Longrightarrow> \<not> late_error e"
proof (induction ms arbitrary: k n b)
  case (Cons m ms)
  obtain reg ps where m: "m = (reg, ps)" by (cases m)
  show ?case
    using Cons validate_records_early
    by (auto simp: m Let_def and_then_def split: if_splits sum.splits) blast
qed simp

lemma dependency_bytes_early: "dependency_bytes C ds b = Inl e \<Longrightarrow> \<not> late_error e"
  by (induction ds arbitrary: b) (auto simp: Let_def split: if_splits)

lemma select_root_early: "select_root C idx pref entry w = Inl e \<Longrightarrow> \<not> late_error e"
  by (auto simp: select_root_def Let_def dest: select_package_early split: prod.splits sum.splits if_splits)

lemma select_roots_early: "select_roots C idx pref es w = Inl e \<Longrightarrow> \<not> late_error e"
proof (induction es arbitrary: w)
  case (Cons x es)
  then show ?case
    using select_root_early [of C idx pref x w e] by (cases "select_root C idx pref x w") auto
qed simp

lemma find_provider_early: "find_provider route x peer r cs pr = Inl e \<Longrightarrow> \<not> late_error e"
proof (induction cs arbitrary: pr)
  case (Cons c cs)
  then show ?case by (auto simp: Let_def and_then_def map_err_def split: sum.splits if_splits)
qed simp

lemma bind_peer_early: "bind_peer C route packages providers x p entry ctx = Inl e \<Longrightarrow> \<not> late_error e"
  by (auto simp: bind_peer_def Let_def and_then_def map_err_def dest: find_provider_early
      split: prod.splits sum.splits if_splits option.splits)

lemma bind_peers_early: "bind_peers C route packages providers x p es ctx = Inl e \<Longrightarrow> \<not> late_error e"
proof (induction es arbitrary: ctx)
  case (Cons y es)
  then show ?case
    using bind_peer_early [of C route packages providers x p y ctx e]
    by (cases "bind_peer C route packages providers x p y ctx") auto
qed simp

lemma peer_contexts_early: "peer_contexts C route packages providers es acc = Inl e \<Longrightarrow> \<not> late_error e"
proof (induction es arbitrary: acc)
  case (Cons y es)
  obtain x p where y: "y = (x, p)" by (cases y)
  show ?case
    using Cons bind_peers_early [of C route packages providers x p "bm_entries (pv_peer_dependencies p)" bm_empty e]
    by (cases "bind_peers C route packages providers x p (bm_entries (pv_peer_dependencies p)) bm_empty") (auto simp: y)
qed simp

lemma expand_from_roots_early:
  "expand_graph C route idx pref w = Inl e \<Longrightarrow> select_roots C idx pref es work_start = Inr w \<Longrightarrow> \<not> late_error e"
  by (rule graph.expand_graph_early [OF roots_graph [OF select_roots_inv [OF roots_inv_start]]])

lemma late_error_source:
  assumes "resolve_graph_with_preferences C ds metadata options route pref = Inl e" "late_error e"
  obtains w where "missing_inv (candidate_index metadata) w {}" "w_missing w \<noteq> bs_empty"
    "e = MissingMetadata (bs_elems (w_missing w))"
proof -
  let ?idx = "candidate_index metadata"
  let ?roots = "select_roots C ?idx pref (bm_entries (root_constraints_of ds)) work_start"
  have "and_then ?roots (\<lambda>w. and_then (expand_graph C route ?idx pref w) (finish_resolution C route)) = Inl e"
    using assms
    by (auto simp: resolve_graph_with_preferences_def Let_def validate_metadata_def and_then_Inl
        dest: validate_registries_early dependency_bytes_early split: if_splits)
  then obtain w0 w where w0: "?roots = Inr w0" and w: "expand_graph C route ?idx pref w0 = Inr w"
    and e: "finish_resolution C route w = Inl e"
    using assms(2) by (auto simp: and_then_Inl dest: select_roots_early expand_from_roots_early)
  have "missing_inv ?idx w0 {}"
    using select_roots_inv [OF roots_inv_start w0] by (simp add: roots_inv_def)
  then have "missing_inv ?idx w {}"
    using absent.expand_graph_inv w by blast
  moreover have "w_missing w \<noteq> bs_empty \<and> e = MissingMetadata (bs_elems (w_missing w))"
    using e assms(2)
    by (auto simp: finish_resolution_def bm_is_empty_iff and_then_Inl dest: peer_contexts_early split: if_splits)
  ultimately show ?thesis using that by blast
qed

section \<open>Limits\<close>

definition relationships_of :: "('v::linorder) package_version_metadata \<Rightarrow> nat" where
  "relationships_of p = bm_len (pv_dependencies p) + bm_len (pv_peer_dependencies p) +
     bm_len (pv_optional_peer_dependencies p) + bm_len (pv_dist_tags p)"

lemma record_relationships_sum: "record_relationships p n = min (n + relationships_of p) u64_max"
  by (auto simp: record_relationships_def relationships_of_def saturating_add_def)

lemma limits_below_max: "max_packages < u64_max" "max_relationships < u64_max" "max_bytes < u64_max"
  by (simp_all add: max_packages_def max_relationships_def max_bytes_def u64_max_def)

lemma validate_records_bounds:
  assumes "validate_records C ps n b = Inr (n', b')" "n \<le> max_relationships" "b \<le> max_bytes"
  shows "n' = n + (\<Sum>p\<leftarrow>ps. relationships_of p) \<and> n' \<le> max_relationships \<and> b' \<le> max_bytes"
  using assms
proof (induction ps arbitrary: n b)
  case (Cons p ps)
  then have "record_relationships p n \<le> max_relationships" "record_bytes C p b \<le> max_bytes"
    "validate_records C ps (record_relationships p n) (record_bytes C p b) = Inr (n', b')"
    by (auto simp: Let_def split: if_splits)
  moreover from this(1) have "record_relationships p n = n + relationships_of p"
    using limits_below_max by (simp add: record_relationships_sum)
  ultimately show ?case using Cons.IH [of "record_relationships p n" "record_bytes C p b"] by simp
qed simp

lemma validate_registries_bounds:
  assumes "validate_registries C ms k n b = Inr b'" "k \<le> max_packages" "n \<le> max_relationships" "b \<le> max_bytes"
  shows "b' \<le> max_bytes \<and> k + (\<Sum>m\<leftarrow>ms. length (snd m)) \<le> max_packages \<and>
    n + (\<Sum>m\<leftarrow>ms. \<Sum>p\<leftarrow>snd m. relationships_of p) \<le> max_relationships"
  using assms
proof (induction ms arbitrary: k n b)
  case (Cons m ms)
  obtain reg ps where m: "m = (reg, ps)" by (cases m)
  obtain n1 b1 where 1: "validate_records C ps n (saturating_add b (length (identity reg))) = Inr (n1, b1)"
    "validate_registries C ms (saturating_add k (length ps)) n1 b1 = Inr b'"
    and le: "saturating_add k (length ps) \<le> max_packages" "saturating_add b (length (identity reg)) \<le> max_bytes"
    using Cons.prems(1) by (auto simp: m Let_def result_simps split: if_splits)
  have k: "saturating_add k (length ps) = k + length ps"
    using le(1) limits_below_max by (simp add: saturating_add_def)
  show ?case
    using Cons.IH [OF 1(2) le(1)] validate_records_bounds [OF 1(1) Cons.prems(3) le(2)] k by (simp add: m)
qed simp

lemma retained_bytes_max: "saturating_add (saturating_add (saturating_add b x) y) z = min (b + (x + y + z)) u64_max"
  by (auto simp: saturating_add_def)

definition dependency_size :: "('v::linorder) crates \<Rightarrow> 'v dependency \<Rightarrow> nat" where
  "dependency_size C d = length (identity (dep_registry d)) + length (dep_name d) + retained_bytes C (dep_requirement d)"

lemma dependency_bytes_sum:
  "b \<le> max_bytes \<Longrightarrow> dependency_bytes C ds b =
     (if b + (\<Sum>d\<leftarrow>ds. dependency_size C d) \<le> max_bytes then Inr () else Inl MetadataLimitExceeded)"
proof (induction ds arbitrary: b)
  case (Cons d ds)
  show ?case
    using Cons.IH [of "b + dependency_size C d"] limits_below_max(3)
    by (auto simp: Let_def retained_bytes_max dependency_size_def)
qed simp

section \<open>Order of the inputs\<close>

lemma root_constraints_set: "set ds = set es \<Longrightarrow> root_constraints_of ds = root_constraints_of es"
proof (rule bm_eqI, rule ext)
  fix k
  assume s: "set ds = set es"
  have "bs_extend bs_empty (map dep_requirement (filter (\<lambda>d. constraint_key d = k) ds)) =
      bs_extend bs_empty (map dep_requirement (filter (\<lambda>d. constraint_key d = k) es))"
    by (rule bs_eqI) (simp add: s)
  with s show "bm_get (root_constraints_of ds) k = bm_get (root_constraints_of es) k"
    by (simp add: root_constraints_of_def root_constraints_get)
qed

lemma sum_list_mset: "mset xs = mset ys \<Longrightarrow> (\<Sum>x\<leftarrow>xs. f x) = (\<Sum>x\<leftarrow>ys. f x :: nat)"
  by (metis mset_map sum_mset_sum_list)

lemma resolution_permute:
  assumes "mset ds = mset es"
  shows "resolve_graph_with_preferences C ds metadata options route pref =
    resolve_graph_with_preferences C es metadata options route pref"
proof -
  have eq: "length ds = length es" "root_constraints_of ds = root_constraints_of es"
    "(\<Sum>d\<leftarrow>ds. dependency_size C d) = (\<Sum>d\<leftarrow>es. dependency_size C d)"
    using assms sum_list_mset root_constraints_set mset_eq_setD by (blast dest: mset_eq_length)+
  have bytes: "dependency_bytes C ds b = dependency_bytes C es b"
    if "validate_metadata C (map (\<lambda>m. (rm_registry m, rm_packages m)) metadata) = Inr b" for b
    using validate_registries_bounds [OF that [unfolded validate_metadata_def]] eq(3)
    by (simp add: dependency_bytes_sum)
  show ?thesis
    unfolding resolve_graph_with_preferences_def eq
    using bytes by (cases "validate_metadata C (map (\<lambda>m. (rm_registry m, rm_packages m)) metadata)") simp_all
qed

section \<open>Normalized metadata\<close>

lemma mset_insort_by: "mset (insort_by le x xs) = add_mset x (mset xs)"
  by (induction xs) auto

lemma mset_sort_by [simp]: "mset (sort_by le xs) = mset xs"
  by (induction xs) (simp_all add: sort_by_def mset_insort_by)

lemma record_order_sorts: "sorted_wrt record_order (sort_by record_order ps)"
  by (rule sorted_sort_by) (auto simp: record_order_def)

definition strictly_before :: "('v::linorder) package_version_metadata \<Rightarrow> 'v package_version_metadata \<Rightarrow> bool" where
  "strictly_before a b \<longleftrightarrow> pv_name a < pv_name b \<or> pv_name a = pv_name b \<and> pv_version b < pv_version a"

lemma check_adjacent_strict:
  "check_adjacent C reg ps = Inr u \<Longrightarrow> sorted_wrt record_order ps \<Longrightarrow> sorted_wrt strictly_before ps"
proof (induction C reg ps rule: check_adjacent.induct)
  case (1 C reg a b rest)
  have ne: "\<not> (pv_name a = pv_name b \<and> pv_version a = pv_version b)"
    and rest: "check_adjacent C reg (b # rest) = Inr u"
    using 1(2) by (auto split: if_splits)
  have "strictly_before a b"
    using 1(3) ne by (auto simp: record_order_def strictly_before_def)
  moreover have "sorted_wrt strictly_before (b # rest)"
    using 1(1) [OF ne rest] 1(3) by simp
  moreover have "transp strictly_before"
    by (auto intro!: transpI simp: strictly_before_def)
  ultimately show ?case by (metis sorted_wrt2)
qed auto

lemma insert_tags_Inr:
  "(insert_tags reg name ts tags :: ('v resolve_error, (string \<times> string) btree_set) result) = Inr tags' \<Longrightarrow>
   bs_set tags' = bs_set tags \<union> Pair name ` set ts \<and> (\<forall>t\<in>set ts. (name, t) \<notin> bs_set tags)"
proof (induction ts arbitrary: tags)
  case (Cons t ts)
  then have "(name, t) \<notin> bs_set tags" "(insert_tags reg name ts (bs_insert (name, t) tags) :: ('v resolve_error, (string \<times> string) btree_set) result) = Inr tags'"
    by (auto split: if_splits)
  with Cons.IH [OF this(2)] show ?case by auto
qed simp

lemma check_tags_Inr:
  fixes ps :: "('v::linorder) package_version_metadata list"
  shows "check_tags reg ps tags = Inr tags' \<Longrightarrow>
   (\<forall>p\<in>set ps. \<forall>t\<in>bs_set (pv_dist_tags p). (pv_name p, t) \<notin> bs_set tags) \<and>
   sorted_wrt (\<lambda>a b. pv_name a = pv_name b \<longrightarrow> bs_set (pv_dist_tags a) \<inter> bs_set (pv_dist_tags b) = {}) ps"
proof (induction ps arbitrary: tags)
  case (Cons p ps)
  then obtain tags1 where 1: "(insert_tags reg (pv_name p) (bs_elems (pv_dist_tags p)) tags :: ('v resolve_error, (string \<times> string) btree_set) result) = Inr tags1"
    "check_tags reg ps tags1 = Inr tags'"
    by (auto simp: result_simps)
  show ?case
    using Cons.IH [OF 1(2)] insert_tags_Inr [OF 1(1)] by (auto simp: image_iff)
qed simp

end
