(* ===== verification/Resolver_Properties.thy ===== *)
theory Resolver_Properties
  imports Resolver_Facts
begin

text \<open>
  The properties of the resolver, each with a concrete run that satisfies its hypotheses.
\<close>

section \<open>A concrete run\<close>

definition npm_registry :: package_source where
  "npm_registry = source_of_registry ''https://registry.npmjs.org''"

definition plain_record :: "string \<Rightarrow> rversion \<Rightarrow> rversion package_version_metadata" where
  "plain_record name version =
     \<lparr>pv_name = name, pv_version = version, pv_dist_tags = bs_empty, pv_dependencies = bm_empty,
      pv_peer_dependencies = bm_empty, pv_optional_peer_dependencies = bs_empty\<rparr>"

definition caret_requirement :: "rversion \<Rightarrow> rversion requirement" where
  "caret_requirement v = Requirement (''^'' @ r_to_string v) None None
     [Comparators [RequirementComparator Caret (RequirementBase v Full)]]"

text \<open>
  Two direct dependencies: \<open>app\<close> depends on \<open>lib\<close> and has \<open>host\<close> as a peer;
  \<open>lib\<close> depends on \<open>app\<close> again.
\<close>

definition sample_metadata :: "rversion registry_metadata list" where
  "sample_metadata =
     [\<lparr>rm_registry = npm_registry, rm_packages =
        [(plain_record ''app'' (RVersion 1 0 0 []))
           \<lparr>pv_dependencies := bm_of_list [(''lib'', caret_requirement (RVersion 2 0 0 []))],
            pv_peer_dependencies := bm_of_list [(''host'', caret_requirement (RVersion 3 0 0 []))]\<rparr>,
         (plain_record ''lib'' (RVersion 2 4 0 []))
           \<lparr>pv_dependencies := bm_of_list [(''app'', caret_requirement (RVersion 1 0 0 []))]\<rparr>,
         plain_record ''lib'' (RVersion 2 1 0 []),
         plain_record ''lib'' (RVersion 3 0 0 []),
         plain_record ''host'' (RVersion 3 5 0 [])]\<rparr>]"

definition sample_dependencies :: "rversion dependency list" where
  "sample_dependencies =
     [\<lparr>dep_registry = npm_registry, dep_name = ''app'', dep_requirement = caret_requirement (RVersion 1 0 0 [])\<rparr>,
      \<lparr>dep_registry = npm_registry, dep_name = ''host'', dep_requirement = caret_requirement (RVersion 3 0 0 [])\<rparr>]"

definition online :: resolution_options where
  "online = \<lparr>opt_offline = False, opt_frozen = False\<rparr>"

abbreviation sample_run :: "(rversion resolve_error, rversion resolution) result" where
  "sample_run \<equiv> resolve_graph_with_preferences reference_crates sample_dependencies sample_metadata online
     (\<lambda>parent _. Inr parent) no_preferences"

lemma sample_run_ok: "ok_result sample_run"
  by code_simp

section \<open>Properties\<close>

text \<open>
  C18. Selection is sound, optimal and complete. A selected record was supplied for that
  registry and name and satisfies every requirement. Among the supplied records that satisfy every
  requirement, one with the preferred root version is selected if there is one; otherwise one with
  a preferred version if there is one; and among those the highest version. Selection fails
  only when every supplied record violates some requirement; the error is a conflict when there is
  more than one requirement and a missing candidate otherwise, and it lists the versions supplied.
\<close>

theorem select_package_optimal_and_complete:
  "case select_package C reg name rs (candidate_index metadata) pref root origin of
     Inr p \<Rightarrow> p \<in> set (supplied metadata reg name) \<and>
       (\<forall>r\<in>bs_set rs. matches_tagged_version C r (pv_version p) (pv_dist_tags p)) \<and>
       (\<forall>q\<in>set (supplied metadata reg name).
          (\<forall>r\<in>bs_set rs. matches_tagged_version C r (pv_version q) (pv_dist_tags q)) \<longrightarrow>
            (root = Some (pv_version q) \<longrightarrow> root = Some (pv_version p)) \<and>
            (root \<noteq> Some (pv_version p) \<and> (reg, name, pv_version q) \<in> bs_set (prf_versions pref) \<longrightarrow>
               (reg, name, pv_version p) \<in> bs_set (prf_versions pref)) \<and>
            (pv_version p < pv_version q \<longrightarrow> root = Some (pv_version p) \<or>
               (reg, name, pv_version p) \<in> bs_set (prf_versions pref) \<and> (reg, name, pv_version q) \<notin> bs_set (prf_versions pref)))
   | Inl e \<Rightarrow> (\<forall>q\<in>set (supplied metadata reg name). \<exists>r\<in>bs_set rs. \<not> matches_tagged_version C r (pv_version q) (pv_dist_tags q)) \<and>
       (\<exists>raws versions. set versions = (\<lambda>q. sv_to_string C (pv_version q)) ` set (supplied metadata reg name) \<and>
          e = (if 1 < card (bs_set rs) then Conflict origin (identity reg) name raws versions
               else MissingCandidate origin (identity reg) name (case raws of [] \<Rightarrow> [] | r # _ \<Rightarrow> r) versions) \<and>
          set raws = req_raw ` bs_set rs)"
proof (cases "select_package C reg name rs (candidate_index metadata) pref root origin")
  case (Inl e)
  then have "\<not> satisfies_all C rs q" if "q \<in> set (supplied metadata reg name)" for q
    using select_package_Inl [of C reg name rs "candidate_index metadata" pref root origin] that
    by (auto simp: candidates_of_index)
  moreover note select_package_error [OF Inl, unfolded candidates_of_index]
  ultimately show ?thesis using Inl by (auto simp: satisfies_all_iff)
next
  case (Inr p)
  have "preference_key pref root reg name q \<le> preference_key pref root reg name p"
    if "q \<in> set (supplied metadata reg name)" "satisfies_all C rs q" for q
    using select_package_Inr(3) [OF Inr] that by (simp add: candidates_of_index)
  note best = this [unfolded preference_key_le satisfies_all_iff]
  have "p \<in> set (supplied metadata reg name)" "satisfies_all C rs p"
    using select_package_Inr(1,2) [OF Inr] by (simp_all add: candidates_of_index)
  then show ?thesis
    unfolding Inr sum.case satisfies_all_iff by (rule conjI [OF _ conjI [OF _ ballI]]) (rule impI, rule best)
qed

theorem select_package_optimal_and_complete_witness:
  "\<exists>p. select_package reference_crates npm_registry ''lib'' (bs_of_list [caret_requirement (RVersion 2 0 0 [])])
       (candidate_index sample_metadata) no_preferences None (RequirementOrigin ''lib'' None) = Inr p \<and>
     RVersion 2 1 0 [] \<le> pv_version p"
proof -
  let ?rs = "bs_of_list [caret_requirement (RVersion 2 0 0 [])]"
  let ?run = "select_package reference_crates npm_registry ''lib'' ?rs
       (candidate_index sample_metadata) no_preferences None (RequirementOrigin ''lib'' None)"
  let ?q = "plain_record ''lib'' (RVersion 2 1 0 [])"
  have "ok_result ?run" by code_simp
  then obtain p where p: "?run = Inr p" by (auto simp: ok_result_iff)
  have "satisfies_all reference_crates ?rs ?q" by code_simp
  then have q: "\<forall>r\<in>bs_set ?rs. matches_tagged_version reference_crates r (pv_version ?q) (pv_dist_tags ?q)"
    by (simp only: satisfies_all_iff)
  have mem: "?q \<in> set (supplied sample_metadata npm_registry ''lib'')"
    by (simp add: supplied_def sample_metadata_def plain_record_def)
  note best = select_package_optimal_and_complete [where C = reference_crates and reg = npm_registry and name = "''lib''"
      and rs = ?rs and metadata = sample_metadata and pref = no_preferences and root = None
      and origin = "RequirementOrigin ''lib'' None", unfolded p sum.case, THEN conjunct2, THEN conjunct2]
  have "\<not> pv_version p < pv_version ?q"
    using bspec [OF best mem, THEN mp, OF q, THEN conjunct2, THEN conjunct2] by (simp add: no_preferences_def)
  then show ?thesis using p by (simp add: plain_record_def not_less)
qed

text \<open>
  C2. The manifest is satisfied. After a successful resolution every direct dependency is
  bound, under its local name and registry, to one of the result's roots; the root has the
  package name the requirement stands for, and its version is that of a supplied record that
  satisfies the requirement.
\<close>

theorem resolution_satisfies_manifest:
  assumes "resolve_graph_with_preferences C ds metadata options route pref = Inr res" and "d \<in> set ds"
  shows "\<exists>root p. bm_get (res_root_bindings res) (dep_registry d, dep_name d) = Some root \<and>
    root \<in> set (res_roots res) \<and> set (res_roots res) \<subseteq> set (res_selected res) \<and>
    id_registry root = dep_registry d \<and> id_name root = package_name_of (dep_requirement d) (dep_name d) \<and>
    p \<in> set (supplied metadata (id_registry root) (id_name root)) \<and> pv_version p = id_version root \<and>
    matches_tagged_version C (dep_requirement d) (pv_version p) (pv_dist_tags p)"
  using assms(1)
proof (rule resolution_run)
  fix w0 w
  assume w: "roots_inv C (candidate_index metadata) pref (set (bm_entries (root_constraints_of ds))) w0"
    "graph_inv C route (candidate_index metadata) pref w0 w {}" "bs_set (w_missing w) = {}"
    "res_selected res = bs_elems (w_selected w)" "res_roots res = dedup (sort (w_roots w))"
    "res_root_bindings res = w_root_bindings w"
  let ?n = "package_name_of (dep_requirement d) (dep_name d)"
  obtain rs where rs: "(constraint_key d, rs) \<in> set (bm_entries (root_constraints_of ds))" "dep_requirement d \<in> bs_set rs"
    using root_constraint_of_dependency [OF assms(2)] .
  have "bs_set (w_missing w0) = {}" using w(2,3) by (auto simp: graph_inv_def)
  then have "root_ok C (candidate_index metadata) pref w0 (dep_registry d) (dep_name d) ?n rs"
    using w(1) rs(1) unfolding roots_inv_def constraint_key_def by blast
  then obtain p where p: "p \<in> set (supplied metadata (dep_registry d) ?n)" "satisfies_all C rs p"
    "bm_get (w_root_bindings w0) (dep_registry d, dep_name d) = Some (PackageId (dep_registry d) ?n (pv_version p))"
    using select_package_Inr(1,2) unfolding root_ok_def candidates_of_index [symmetric] by metis
  have "PackageId (dep_registry d) ?n (pv_version p) \<in> set (w_roots w)" "set (w_roots w) \<subseteq> bs_set (w_selected w)"
    using w(2) p(3) unfolding graph_inv_def structure_inv_def by (metis ranI)+
  then show ?thesis
    using p w(2,4,5,6) rs(2) by (auto simp: graph_inv_def satisfies_all_iff intro!: exI [of _ p])
qed

theorem resolution_satisfies_manifest_witness:
  "\<exists>res root. sample_run = Inr res \<and> bm_get (res_root_bindings res) (npm_registry, ''app'') = Some root \<and>
     root \<in> set (res_roots res) \<and> id_name root = ''app''"
proof -
  obtain res where res: "sample_run = Inr res" using sample_run_ok by (auto simp: ok_result_iff)
  have "\<lparr>dep_registry = npm_registry, dep_name = ''app'', dep_requirement = caret_requirement (RVersion 1 0 0 [])\<rparr>
      \<in> set sample_dependencies"
    by (simp add: sample_dependencies_def)
  from resolution_satisfies_manifest [OF res this] res show ?thesis
    by (auto simp: package_name_of_def caret_requirement_def)
qed

text \<open>
  C1. The graph is closed under dependencies. Every selected package is a supplied record;
  for each dependency that record declares, the result has an edge, under the declared
  name, to a selected package of the name the requirement stands for on the registry the
  routing function chose; the child's version satisfies the requirement and is the best
  such candidate; and every edge of the result arises that way.
\<close>

theorem resolution_closed_under_dependencies:
  assumes "resolve_graph_with_preferences C ds metadata options route pref = Inr res"
  shows "\<exists>pkg. (\<forall>x\<in>set (res_selected res).
      pkg x \<in> set (supplied metadata (id_registry x) (id_name x)) \<and> pv_version (pkg x) = id_version x \<and>
      (\<forall>d r. bm_get (pv_dependencies (pkg x)) d = Some r \<longrightarrow>
        (\<exists>y. ResolvedDependency x d y \<in> set (res_dependencies res)))) \<and>
    (\<forall>x d y. ResolvedDependency x d y \<in> set (res_dependencies res) \<longrightarrow>
      x \<in> set (res_selected res) \<and> y \<in> set (res_selected res) \<and>
      (\<exists>r. bm_get (pv_dependencies (pkg x)) d = Some r \<and> id_name y = package_name_of r d \<and>
        route (id_registry x) (id_name y) = Inr (id_registry y) \<and> best_match C metadata pref r y))"
  using assms
proof (rule resolution_run)
  fix w0 w
  assume w: "graph_inv C route (candidate_index metadata) pref w0 w {}" "w_queue w = []" "bs_set (w_missing w) = {}"
    "res_selected res = bs_elems (w_selected w)" "res_dependencies res = bs_elems (w_dependencies w)"
  define pkg where "pkg x = the (bm_get (w_packages w) x)" for x
  have s: "structure_inv (candidate_index metadata) w" and e: "edges_inv C route (candidate_index metadata) pref w {}"
    using w(1) by (simp_all add: graph_inv_def)
  have sel: "bm_get (w_packages w) x = Some (pkg x)" if "x \<in> bs_set (w_selected w)" for x
  proof -
    have "x \<in> dom (bm_get (w_packages w))" using that s by (simp add: structure_inv_def)
    then show ?thesis by (auto simp: pkg_def)
  qed
  have dec: "declared w x d r \<longleftrightarrow> x \<in> bs_set (w_selected w) \<and> bm_get (pv_dependencies (pkg x)) d = Some r" for x d r
  proof -
    have "declared w x d r \<Longrightarrow> x \<in> bs_set (w_selected w)"
      using s declared_dom [of w x d r] by (simp add: structure_inv_def)
    then show ?thesis using sel [of x] by (auto simp: declared_def)
  qed
  have exp: "bs_set (w_expanded w) = bs_set (w_selected w)" using s w(2) by (simp add: structure_inv_def)
  show ?thesis
  proof (intro exI [of _ pkg] conjI ballI allI impI)
    fix x assume x: "x \<in> set (res_selected res)"
    then show "pkg x \<in> set (supplied metadata (id_registry x) (id_name x))" "pv_version (pkg x) = id_version x"
      using s sel [of x] w(4) unfolding structure_inv_def candidates_of_index [symmetric] by auto
    fix d r assume "bm_get (pv_dependencies (pkg x)) d = Some r"
    then have "declared w x d r" using x w(4) dec by simp
    then show "\<exists>y. ResolvedDependency x d y \<in> set (res_dependencies res)"
      using e x unfolding edges_inv_def w(3,4,5) exp set_bs_elems by blast
  next
    fix x d y assume "ResolvedDependency x d y \<in> set (res_dependencies res)"
    then have ok: "edge_ok C route (candidate_index metadata) pref w x d y"
      using e w(5) unfolding edges_inv_def by simp
    then obtain r where r: "declared w x d r" unfolding edge_ok_def by blast
    show "x \<in> set (res_selected res)" "y \<in> set (res_selected res)"
      using r dec edge_ok_D(1) [OF ok r] w(4) by simp_all
    show "\<exists>r. bm_get (pv_dependencies (pkg x)) d = Some r \<and> id_name y = package_name_of r d \<and>
        route (id_registry x) (id_name y) = Inr (id_registry y) \<and> best_match C metadata pref r y"
      using r [unfolded dec] edge_ok_D(2,3,4) [OF ok r] by metis
  qed
qed

theorem resolution_closed_under_dependencies_witness:
  "\<exists>res x d y. sample_run = Inr res \<and> ResolvedDependency x d y \<in> set (res_dependencies res) \<and>
     x \<in> set (res_selected res) \<and> y \<in> set (res_selected res)"
proof -
  obtain res where res: "sample_run = Inr res" using sample_run_ok by (auto simp: ok_result_iff)
  have "case sample_run of Inr r \<Rightarrow> res_dependencies r \<noteq> [] | Inl _ \<Rightarrow> False" by code_simp
  then have "hd (res_dependencies res) \<in> set (res_dependencies res)" by (simp add: res)
  then obtain x d y where "ResolvedDependency x d y \<in> set (res_dependencies res)"
    by (metis resolved_dependency.exhaust)
  with resolution_closed_under_dependencies [OF res] res show ?thesis by blast
qed

text \<open>
  C17. Nothing superfluous. Every selected package is reached from a root along edges of the
  result, and the selected packages, the roots and the edges are listed in strictly
  increasing order, so the result is one canonical value.
\<close>

theorem resolution_reachable_from_roots:
  assumes "resolve_graph_with_preferences C ds metadata options route pref = Inr res"
  shows "(\<forall>x\<in>set (res_selected res). reaches (set (res_roots res)) (set (res_dependencies res)) x) \<and>
    sorted_wrt (<) (res_selected res) \<and> sorted_wrt (<) (res_roots res) \<and> sorted_wrt (<) (res_dependencies res)"
  using assms
proof (rule resolution_run)
  fix w0 w
  assume w: "reach_inv w {}" "res_selected res = bs_elems (w_selected w)" "res_roots res = dedup (sort (w_roots w))"
    "res_dependencies res = bs_elems (w_dependencies w)"
  then show ?thesis
    by (simp add: reach_inv_def bs_elems_sorted dedup_sorted_strict)
qed

theorem resolution_reachable_from_roots_witness:
  "\<exists>res x. sample_run = Inr res \<and> x \<in> set (res_selected res) \<and>
     reaches (set (res_roots res)) (set (res_dependencies res)) x"
proof -
  obtain res where res: "sample_run = Inr res" using sample_run_ok by (auto simp: ok_result_iff)
  have "case sample_run of Inr r \<Rightarrow> res_selected r \<noteq> [] | Inl _ \<Rightarrow> False" by code_simp
  then have "res_selected res \<noteq> []" by (simp add: res)
  with resolution_reachable_from_roots [OF res] res show ?thesis by (metis hd_in_set)
qed

text \<open>
  C4. Peers. Every selected package has a peer context; for each peer requirement of its
  record the context names the version of a direct dependency bound under the peer's name,
  on the registry the peer is routed to, that satisfies the requirement, or else the peer is
  optional and no direct dependency provides it; the context names nothing else.
\<close>

theorem resolution_peer_contexts_satisfied:
  assumes "resolve_graph_with_preferences C ds metadata options route pref = Inr res"
  shows "\<exists>packages. dom (bm_get (res_peer_contexts res)) = set (res_selected res) \<and>
    dom (bm_get packages) = set (res_selected res) \<and>
    (\<forall>x p. bm_get packages x = Some p \<longrightarrow>
      p \<in> set (supplied metadata (id_registry x) (id_name x)) \<and> pv_version p = id_version x \<and>
      (\<exists>context. bm_get (res_peer_contexts res) x = Some context \<and>
        dom (bm_get context) \<subseteq> dom (bm_get (pv_peer_dependencies p)) \<and>
        (\<forall>peer r. bm_get (pv_peer_dependencies p) peer = Some r \<longrightarrow>
          peer_bound C route packages (res_root_bindings res) x p peer r (bm_get context peer))))"
  using assms
proof (rule resolution_run)
  fix w0 w
  assume w: "graph_inv C route (candidate_index metadata) pref w0 w {}"
    "res_selected res = bs_elems (w_selected w)" "res_root_bindings res = w_root_bindings w"
    "peer_contexts C route (w_packages w) (root_providers (w_root_bindings w))
       (bm_entries (w_packages w)) bm_empty = Inr (res_peer_contexts res)"
  have s: "structure_inv (candidate_index metadata) w"
    using w(1) by (simp add: graph_inv_def)
  note spec = peer_contexts_spec [OF w(4) al_sorted_distinct [OF bm_entries_sorted]]
  have keys: "fst ` set (bm_entries (w_packages w)) = set (res_selected res)"
    using s w(2) set_bm_keys [of "w_packages w"] by (simp add: structure_inv_def bm_keys_def)
  show ?thesis
  proof (intro exI [of _ "w_packages w"] conjI allI impI)
    show "dom (bm_get (res_peer_contexts res)) = set (res_selected res)"
      using spec keys by simp
    show "dom (bm_get (w_packages w)) = set (res_selected res)"
      using s w(2) by (simp add: structure_inv_def)
    fix x p assume p: "bm_get (w_packages w) x = Some p"
    then show "p \<in> set (supplied metadata (id_registry x) (id_name x))" "pv_version p = id_version x"
      using s unfolding structure_inv_def candidates_of_index [symmetric] by auto
    show "\<exists>context. bm_get (res_peer_contexts res) x = Some context \<and>
        dom (bm_get context) \<subseteq> dom (bm_get (pv_peer_dependencies p)) \<and>
        (\<forall>peer r. bm_get (pv_peer_dependencies p) peer = Some r \<longrightarrow>
          peer_bound C route (w_packages w) (res_root_bindings res) x p peer r (bm_get context peer))"
      using spec p unfolding w(3) bm_get_in_entries [of "w_packages w"] by blast
  qed
qed

theorem resolution_peer_contexts_satisfied_witness:
  "\<exists>res. sample_run = Inr res \<and> dom (bm_get (res_peer_contexts res)) = set (res_selected res)"
proof -
  obtain res where res: "sample_run = Inr res" using sample_run_ok by (auto simp: ok_result_iff)
  with resolution_peer_contexts_satisfied [OF res] show ?thesis by blast
qed

text \<open>
  C19. Resolution never panics: the lookup of a queued package's metadata, which the code
  guards with \<open>expect\<close>, always succeeds, for every input and every routing function.
\<close>

theorem resolution_never_panics:
  "resolve_graph_with_preferences C ds metadata options route pref \<noteq> Inl (Panicked message)"
  using late_error_source [of C ds metadata options route pref "Panicked message"] by auto

text \<open>
  The report of missing metadata is exact: a resolution that ends with it names at least
  one package, lists them in strictly increasing order, and every package it lists has no
  record at all in the supplied metadata.
\<close>

lemma missing_metadata_report_exact:
  assumes "resolve_graph_with_preferences C ds metadata options route pref = Inl (MissingMetadata packages)"
  shows "packages \<noteq> [] \<and> sorted_wrt (<) packages \<and>
    (\<forall>(r, name)\<in>set packages. \<exists>reg. identity reg = r \<and> supplied metadata reg name = [])"
  using assms
proof (rule late_error_source)
  fix w
  assume w: "missing_inv (candidate_index metadata) w {}" "w_missing w \<noteq> bs_empty"
    "MissingMetadata packages = MissingMetadata (bs_elems (w_missing w))"
  have "bs_set (w_missing w) \<noteq> {}" using w(2) bs_eqI [of "w_missing w" bs_empty] by auto
  then have "packages \<noteq> []" using w(3) set_bs_elems [of "w_missing w"] by (metis empty_set resolve_error.inject(6))
  with w show ?thesis
    by (auto simp: missing_inv_def contains_key_supplied bs_elems_sorted)
qed simp

lemma missing_metadata_report_exact_witness:
  "\<exists>packages. resolve_graph_with_preferences reference_crates sample_dependencies [] online
     (\<lambda>parent _. Inr parent) no_preferences = Inl (MissingMetadata packages) \<and> packages \<noteq> []"
proof -
  define r where "r = resolve_graph_with_preferences reference_crates sample_dependencies [] online
     (\<lambda>parent _. Inr parent) no_preferences"
  have "case r of Inl (MissingMetadata _) \<Rightarrow> True | _ \<Rightarrow> False"
    unfolding r_def by code_simp
  then obtain e where "r = Inl e" "case e of MissingMetadata _ \<Rightarrow> True | _ \<Rightarrow> False" by (cases r) simp_all
  then obtain ps where "r = Inl (MissingMetadata ps)" by (cases e) simp_all
  with missing_metadata_report_exact [OF this [unfolded r_def]] show ?thesis unfolding r_def by blast
qed

text \<open>
  C20. Determinism. The result of a resolution, errors included, does not depend on the order
  in which the direct dependencies are listed.
\<close>

theorem resolution_independent_of_manifest_order:
  assumes "mset ds = mset es"
  shows "resolve_graph_with_preferences C ds metadata options route pref =
    resolve_graph_with_preferences C es metadata options route pref"
  using assms by (rule resolution_permute)

theorem resolution_independent_of_manifest_order_witness:
  "resolve_graph_with_preferences reference_crates sample_dependencies sample_metadata online
     (\<lambda>parent _. Inr parent) no_preferences =
   resolve_graph_with_preferences reference_crates (rev sample_dependencies) sample_metadata online
     (\<lambda>parent _. Inr parent) no_preferences"
  by (rule resolution_independent_of_manifest_order) simp

text \<open>
  Resource limits. Metadata that passes the check has, counted without overflow, at most
  100000 records and 1000000 relationships over all registries, and at most 64 MiB of
  retained text.
\<close>

lemma validated_metadata_within_limits:
  assumes "validate_metadata C metadata = Inr bytes"
  shows "bytes \<le> 64 * 1024 * 1024 \<and> (\<Sum>m\<leftarrow>metadata. length (snd m)) \<le> 100000 \<and>
    (\<Sum>m\<leftarrow>metadata. \<Sum>p\<leftarrow>snd m. relationships_of p) \<le> 1000000"
  using validate_registries_bounds [OF assms [unfolded validate_metadata_def]]
  by (simp add: max_bytes_def max_packages_def max_relationships_def)

lemma validated_metadata_within_limits_witness:
  "\<exists>bytes. validate_metadata reference_crates (map (\<lambda>m. (rm_registry m, rm_packages m)) sample_metadata) = Inr bytes \<and>
     bytes \<le> 64 * 1024 * 1024"
proof -
  have "ok_result (validate_metadata reference_crates (map (\<lambda>m. (rm_registry m, rm_packages m)) sample_metadata))"
    by code_simp
  then show ?thesis
    using validated_metadata_within_limits unfolding ok_result_iff by blast
qed

text \<open>
  Normalized metadata. Normalization keeps exactly the given records, in strictly
  increasing order of name and strictly decreasing order of version, so no exact identity
  occurs twice, and no dist-tag of a package names two of its versions.
\<close>

theorem normalized_metadata_canonical:
  assumes "metadata_normalize C reg packages = Inr m"
  shows "rm_registry m = reg \<and> mset (rm_packages m) = mset packages \<and>
    sorted_wrt strictly_before (rm_packages m) \<and>
    sorted_wrt (\<lambda>a b. pv_name a = pv_name b \<longrightarrow> bs_set (pv_dist_tags a) \<inter> bs_set (pv_dist_tags b) = {})
      (rm_packages m)"
proof -
  obtain tags where m: "m = \<lparr>rm_registry = reg, rm_packages = sort_by record_order packages\<rparr>"
    and tags: "check_tags reg (sort_by record_order packages) bs_empty = Inr tags"
    and adj: "check_adjacent C reg (sort_by record_order packages) = Inr ()"
    using assms by (auto simp: metadata_normalize_def Let_def result_simps)
  show ?thesis
    using check_adjacent_strict [OF adj record_order_sorts] check_tags_Inr [OF tags] by (simp add: m)
qed

theorem normalized_metadata_canonical_witness:
  "\<exists>m. metadata_normalize reference_crates npm_registry (rm_packages (hd sample_metadata)) = Inr m \<and>
     sorted_wrt strictly_before (rm_packages m)"
proof -
  have "ok_result (metadata_normalize reference_crates npm_registry (rm_packages (hd sample_metadata)))"
    by code_simp
  then show ?thesis
    using normalized_metadata_canonical unfolding ok_result_iff by blast
qed

end
