(* ===== verification/Lockfile_Keys.thy ===== *)
theory Lockfile_Keys
  imports Core_Facts
begin

text \<open>
  The crate \<open>tapid-lockfile\<close>, first part (\<open>model.rs\<close> up to the package keys): the
  textual encoding of peer and platform contexts, workspace sources, and the package key
  with its printer and parser.
\<close>

section \<open>Errors and versions\<close>

text \<open>\<open>LPanicked\<close> stands for a failed \<open>expect\<close>; the source has no such error.\<close>

datatype lockfile_error =
    Serialization
  | Domain domain_error
  | InvalidUrl string
  | InvalidSha512 string
  | InvalidCopiedArtifactEvidence
  | InvalidWorkspaceSource string
  | UnsupportedVersion nat
  | AliasMetadataInLegacySchema nat
  | InvalidDerivedOutput string
  | RegenerationRequired nat
  | DuplicatePackage string
  | PackageKeyMismatch string
  | NonCanonicalRegistryIdentity
  | InvalidPackageKey string
  | DanglingDependency string string
  | DanglingRoot string
  | MissingRoots
  | WorkspaceIdentityRequiresCurrentVersion
  | MissingRegistryIntegrityProvenance string
  | UnverifiedRegistryArtifact string
  | NonCanonicalRoots
  | DependencyNameMismatch string string string
  | SelfDependency string
  | RootManifestDigestMismatch string string
  | LPanicked string

definition LOCKFILE_VERSION :: nat where "LOCKFILE_VERSION = 7"
definition LIFECYCLE_LOCKFILE_VERSION :: nat where "LIFECYCLE_LOCKFILE_VERSION = 9"
definition COPIED_SOURCE_LOCKFILE_VERSION :: nat where "COPIED_SOURCE_LOCKFILE_VERSION = 10"
definition ROOTS_LEGACY_LOCKFILE_VERSION :: nat where "ROOTS_LEGACY_LOCKFILE_VERSION = 6"
definition REGISTRY_ONLY_LOCKFILE_VERSION :: nat where "REGISTRY_ONLY_LOCKFILE_VERSION = ROOTS_LEGACY_LOCKFILE_VERSION"
definition LEGACY_LOCKFILE_VERSION :: nat where "LEGACY_LOCKFILE_VERSION = 4"
definition PROVENANCE_LEGACY_LOCKFILE_VERSION :: nat where "PROVENANCE_LEGACY_LOCKFILE_VERSION = 5"

lemmas lockfile_versions = LOCKFILE_VERSION_def LIFECYCLE_LOCKFILE_VERSION_def COPIED_SOURCE_LOCKFILE_VERSION_def
  ROOTS_LEGACY_LOCKFILE_VERSION_def REGISTRY_ONLY_LOCKFILE_VERSION_def LEGACY_LOCKFILE_VERSION_def
  PROVENANCE_LEGACY_LOCKFILE_VERSION_def

section \<open>Context encoding\<close>

definition encode_plain :: "char \<Rightarrow> bool" where
  "encode_plain c \<longleftrightarrow> is_ascii_alphanumeric c \<or> c \<in> {CHR ''_'', CHR ''.'', CHR ''@''}"

definition encode_byte :: "char \<Rightarrow> string" where
  "encode_byte c = (if encode_plain c then [c]
     else [CHR ''%'', hex_upper (byte c div 16), hex_upper (byte c mod 16)])"

definition encode :: "string \<Rightarrow> string" where
  "encode value = concat (map encode_byte value)"

definition canonical_peer_context :: "('v::linorder) crates \<Rightarrow> 'v peer_context \<Rightarrow> string" where
  "canonical_peer_context C context =
     join '','' (map (\<lambda>(name, version). ''name='' @ encode name @ '';version='' @ encode (sv_to_string C version))
       (bm_entries context))"

definition encode_opt :: "string option \<Rightarrow> string" where
  "encode_opt value = (case value of None \<Rightarrow> [] | Some v \<Rightarrow> encode v)"

definition canonical_platform_context :: "platform_context \<Rightarrow> string" where
  "canonical_platform_context context =
     ''os='' @ encode_opt (ctx_os context) @ '';cpu='' @ encode_opt (ctx_cpu context) @
     '';libc='' @ encode_opt (ctx_libc context)"

definition canonical_artifact_digest :: "string \<Rightarrow> (lockfile_error, string) result" where
  "canonical_artifact_digest value = map_err Domain (artifact_digest_from_str value)"

definition context_or_dash :: "string \<Rightarrow> string" where
  "context_or_dash context = (if context = [] then ''-'' else context)"

definition parse_context :: "string \<Rightarrow> string \<Rightarrow> string \<Rightarrow> (lockfile_error, string) result" where
  "parse_context field pre original =
     (case strip_prefix pre field of
        None \<Rightarrow> Inl (InvalidPackageKey original)
      | Some value \<Rightarrow>
          if value = [] \<or> value = ''-'' then Inr []
          else if any_whitespace value then Inl (InvalidPackageKey original)
          else Inr value)"

text \<open>The loop of \<open>percent_decode\<close>: the decoded bytes, before the UTF-8 check.\<close>

fun percent_decode_bytes :: "string \<Rightarrow> string option" where
  "percent_decode_bytes [] = Some []"
| "percent_decode_bytes (c # cs) =
     (if c = CHR ''%'' then
        (case cs of
           h # l # rest \<Rightarrow>
             (case (to_digit16 h, to_digit16 l) of
                (Some high, Some low) \<Rightarrow>
                  map_option (\<lambda>d. char_of (high * 16 + low) # d) (percent_decode_bytes rest)
              | _ \<Rightarrow> None)
         | _ \<Rightarrow> None)
      else map_option (\<lambda>d. c # d) (percent_decode_bytes cs))"

definition percent_decode :: "string \<Rightarrow> string \<Rightarrow> (lockfile_error, string) result" where
  "percent_decode value original =
     (case percent_decode_bytes value of
        None \<Rightarrow> Inl (InvalidPackageKey original)
      | Some decoded \<Rightarrow> if utf8_valid decoded then Inr decoded else Inl (InvalidPackageKey original))"

definition peer_item :: "string \<Rightarrow> (string \<times> string) option" where
  "peer_item item =
     (case split_once '';version='' item of
        None \<Rightarrow> None
      | Some (name, version) \<Rightarrow> map_option (\<lambda>n. (n, version)) (strip_prefix ''name='' name))"

fun decode_peer_items ::
  "('v::linorder) crates \<Rightarrow> string \<Rightarrow> string list \<Rightarrow> 'v peer_context \<Rightarrow> (lockfile_error, 'v peer_context) result" where
  "decode_peer_items C original [] context = Inr context"
| "decode_peer_items C original (item # items) context =
     and_then (ok_or (InvalidPackageKey original) (peer_item item)) (\<lambda>(name, version).
     and_then (percent_decode name original) (\<lambda>name.
     and_then (map_err Domain (package_name_from_str name)) (\<lambda>name.
     and_then (percent_decode version original) (\<lambda>version.
     and_then (map_err Domain (package_version_from_str C version)) (\<lambda>version.
     decode_peer_items C original items (peer_context_with context name version))))))"

definition decode_peer_context ::
  "('v::linorder) crates \<Rightarrow> string \<Rightarrow> string \<Rightarrow> (lockfile_error, 'v peer_context) result" where
  "decode_peer_context C value original =
     (if value = [] then Inr bm_empty
      else and_then (decode_peer_items C original (split_char (CHR '','') value) bm_empty) (\<lambda>context.
        if canonical_peer_context C context \<noteq> value then Inl (InvalidPackageKey original) else Inr context))"

definition decode_field :: "string \<Rightarrow> string \<Rightarrow> (lockfile_error, string option) result" where
  "decode_field original field =
     (if field = [] then Inr None else and_then (percent_decode field original) (\<lambda>v. Inr (Some v)))"

definition decode_platform_context :: "string \<Rightarrow> string \<Rightarrow> (lockfile_error, platform_context) result" where
  "decode_platform_context value original =
     (if value = [] then map_err Domain (platform_context_new None None None)
      else and_then (ok_or (InvalidPackageKey original)
          (case strip_prefix ''os='' value of None \<Rightarrow> None | Some r \<Rightarrow> split_once '';cpu='' r)) (\<lambda>(os, rest).
        and_then (ok_or (InvalidPackageKey original) (split_once '';libc='' rest)) (\<lambda>(cpu, libc).
        and_then (decode_field original os) (\<lambda>os.
        and_then (decode_field original cpu) (\<lambda>cpu.
        and_then (decode_field original libc) (\<lambda>libc.
        and_then (map_err Domain (platform_context_new os cpu libc)) (\<lambda>context.
        if canonical_platform_context context \<noteq> value then Inl (InvalidPackageKey original)
        else Inr context)))))))"

section \<open>Workspace sources\<close>

datatype local_workspace_source = LocalWorkspaceSource (ws_path: string) (ws_name: string) (ws_version: string)

text \<open>
  The components of a Unix path as \<open>Path::components\<close> yields them: repeated separators and
  \<open>.\<close> vanish, \<open>..\<close> is a \<open>ParentDir\<close>.
\<close>

definition path_parts :: "string \<Rightarrow> string list" where
  "path_parts value = filter (\<lambda>p. p \<noteq> [] \<and> p \<noteq> ''.'') (split_char (CHR ''/'') value)"

definition canonical_workspace_path :: "string \<Rightarrow> (lockfile_error, string) result" where
  "canonical_workspace_path value =
     (if value = [] \<or> CHR 0x5C \<in> set value \<or> CHR ''|'' \<in> set value \<or> any_control value
      then Inl (InvalidWorkspaceSource value)
      else if prefix ''/'' value then Inl (InvalidWorkspaceSource value)
      else (let components = path_parts value in
        if list_ex (\<lambda>p. p = ''..'' \<or> CHR '':'' \<in> set p) components then Inl (InvalidWorkspaceSource value)
        else if components = [] then Inl (InvalidWorkspaceSource value)
        else Inr (join ''/'' components)))"

definition workspace_source_new ::
  "'v crates \<Rightarrow> string \<Rightarrow> string \<Rightarrow> string \<Rightarrow> (lockfile_error, local_workspace_source) result" where
  "workspace_source_new C path name version =
     and_then (canonical_workspace_path path) (\<lambda>path.
     and_then (map_err Domain (package_name_from_str name)) (\<lambda>name.
     and_then (map_err Domain (package_version_from_str C version)) (\<lambda>version.
     Inr (LocalWorkspaceSource path name (sv_to_string C version)))))"

definition workspace_identity :: "local_workspace_source \<Rightarrow> string" where
  "workspace_identity s = ''workspace:'' @ ws_path s @ '':'' @ ws_name s @ ''@'' @ ws_version s"

definition workspace_source_from_str :: "'v crates \<Rightarrow> string \<Rightarrow> (lockfile_error, local_workspace_source) result" where
  "workspace_source_from_str C value =
     and_then (ok_or (InvalidWorkspaceSource value) (strip_prefix ''workspace:'' value)) (\<lambda>rest.
     and_then (ok_or (InvalidWorkspaceSource value) (rsplit_once (CHR '':'') rest)) (\<lambda>(path, package).
     and_then (ok_or (InvalidWorkspaceSource value) (rsplit_once (CHR ''@'') package)) (\<lambda>(name, version).
     and_then (workspace_source_new C path name version) (\<lambda>source.
     if workspace_identity source \<noteq> value then Inl (InvalidWorkspaceSource value) else Inr source))))"

section \<open>Package keys\<close>

datatype lockfile_package_source =
    Registry string
  | Copied package_source
  | Workspace local_workspace_source

definition package_source_of :: "lockfile_package_source \<Rightarrow> package_source option" where
  "package_source_of s = (case s of
     Registry origin \<Rightarrow> Some (source_of_registry origin) | Copied source \<Rightarrow> Some source | Workspace _ \<Rightarrow> None)"

definition workspace_of :: "lockfile_package_source \<Rightarrow> local_workspace_source option" where
  "workspace_of s = (case s of Workspace source \<Rightarrow> Some source | _ \<Rightarrow> None)"

datatype 'v lockfile_package_key = LockfilePackageKey
  (key_source: lockfile_package_source) (key_name: string) (key_version: 'v)
  (key_peer: string) (key_platform: string)

definition key_with_source ::
  "('v::linorder) crates \<Rightarrow> lockfile_package_source \<Rightarrow> string \<Rightarrow> 'v \<Rightarrow> 'v peer_context \<Rightarrow> platform_context \<Rightarrow>
   'v lockfile_package_key" where
  "key_with_source C source name version peer platform =
     LockfilePackageKey source name version (canonical_peer_context C peer) (canonical_platform_context platform)"

definition key_from_source ::
  "('v::linorder) crates \<Rightarrow> package_source \<Rightarrow> string \<Rightarrow> 'v \<Rightarrow> 'v peer_context \<Rightarrow> platform_context \<Rightarrow>
   'v lockfile_package_key" where
  "key_from_source C source name version peer platform =
     key_with_source C
       (case registry source of Some origin \<Rightarrow> Registry origin | None \<Rightarrow> Copied source) name version peer platform"

definition key_new ::
  "('v::linorder) crates \<Rightarrow> string \<Rightarrow> string \<Rightarrow> 'v \<Rightarrow> 'v peer_context \<Rightarrow> platform_context \<Rightarrow> 'v lockfile_package_key" where
  "key_new C origin name version peer platform = key_with_source C (Registry origin) name version peer platform"

definition key_workspace ::
  "'v crates \<Rightarrow> local_workspace_source \<Rightarrow> (lockfile_error, 'v lockfile_package_key) result" where
  "key_workspace C source =
     and_then (map_err (\<lambda>_. LPanicked ''validated workspace package name'') (package_name_from_str (ws_name source))) (\<lambda>name.
     and_then (map_err (\<lambda>_. LPanicked ''validated workspace package version'')
         (package_version_from_str C (ws_version source))) (\<lambda>version.
     and_then (map_err (\<lambda>_. LPanicked ''unwrap'') (platform_context_new None None None)) (\<lambda>platform.
     Inr (LockfilePackageKey (Workspace source) name version [] (canonical_platform_context platform)))))"

fun source_text :: "lockfile_package_source \<Rightarrow> string" where
  "source_text (Registry origin) = origin"
| "source_text (Copied source) = identity source"
| "source_text (Workspace source) = workspace_identity source"

definition key_text :: "'v crates \<Rightarrow> string \<Rightarrow> string \<Rightarrow> 'v \<Rightarrow> string \<Rightarrow> string \<Rightarrow> string" where
  "key_text C source name version peer platform =
     source @ ''|'' @ name @ ''@'' @ sv_to_string C version @ ''|peer='' @ context_or_dash peer @
     ''|platform='' @ context_or_dash platform"

definition key_to_string :: "'v crates \<Rightarrow> 'v lockfile_package_key \<Rightarrow> string" where
  "key_to_string C k =
     key_text C (source_text (key_source k)) (key_name k) (key_version k) (key_peer k) (key_platform k)"

definition key_peer_context :: "('v::linorder) crates \<Rightarrow> 'v lockfile_package_key \<Rightarrow> (lockfile_error, 'v peer_context) result" where
  "key_peer_context C k = decode_peer_context C (key_peer k) (key_to_string C k)"

definition key_platform_context :: "('v::linorder) crates \<Rightarrow> 'v lockfile_package_key \<Rightarrow> (lockfile_error, platform_context) result" where
  "key_platform_context C k = decode_platform_context (key_platform k) (key_to_string C k)"

definition parse_key_source :: "'v crates \<Rightarrow> string \<Rightarrow> (lockfile_error, lockfile_package_source) result" where
  "parse_key_source C p0 =
     (if prefix ''workspace:'' p0 then map_sum id Workspace (workspace_source_from_str C p0)
      else if prefix ''file:'' p0 \<or> prefix ''git+'' p0
      then map_err Domain (map_sum id Copied (package_source_from_str C p0))
      else and_then (map_err Domain (registry_origin_from_str C p0)) (\<lambda>origin.
        if origin \<noteq> p0 then Inl NonCanonicalRegistryIdentity else Inr (Registry origin)))"

definition workspace_mismatch :: "'v crates \<Rightarrow> 'v lockfile_package_key \<Rightarrow> bool" where
  "workspace_mismatch C k =
     (case key_source k of
        Workspace source \<Rightarrow> ws_name source \<noteq> key_name k \<or> ws_version source \<noteq> sv_to_string C (key_version k)
      | _ \<Rightarrow> False)"

definition key_from_str :: "('v::linorder) crates \<Rightarrow> string \<Rightarrow> (lockfile_error, 'v lockfile_package_key) result" where
  "key_from_str C value =
     (case split_char (CHR ''|'') value of
        [p0, p1, p2, p3] \<Rightarrow>
          if \<not> prefix ''peer='' p2 \<or> \<not> prefix ''platform='' p3 then Inl (InvalidPackageKey value)
          else and_then (ok_or (InvalidPackageKey value) (rsplit_once (CHR ''@'') p1)) (\<lambda>(name, version).
            and_then (parse_key_source C p0) (\<lambda>source.
            and_then (map_err Domain (package_name_from_str name)) (\<lambda>name.
            and_then (map_err Domain (package_version_from_str C version)) (\<lambda>version.
            and_then (parse_context p2 ''peer='' value) (\<lambda>peer.
            and_then (parse_context p3 ''platform='' value) (\<lambda>platform.
            let key = LockfilePackageKey source name version peer platform in
            and_then (decode_peer_context C peer value) (\<lambda>_.
            and_then (decode_platform_context platform value) (\<lambda>_.
            if key_to_string C key \<noteq> value then Inl (InvalidPackageKey value)
            else if workspace_mismatch C key then Inl (InvalidPackageKey value)
            else Inr key))))))))
      | _ \<Rightarrow> Inl (InvalidPackageKey value))"

definition validate_dependency_target ::
  "('v::linorder) crates \<Rightarrow> string \<Rightarrow> string \<Rightarrow> string \<Rightarrow> (string, string) btree_map \<Rightarrow> (string \<Rightarrow> bool) \<Rightarrow>
   (lockfile_error, unit) result" where
  "validate_dependency_target C package name dependency aliases exists_key =
     and_then (key_from_str C dependency) (\<lambda>target.
     if dependency = package then Inl (SelfDependency package)
     else if key_name target \<noteq> name \<and> bm_get aliases name \<noteq> Some (key_name target)
     then Inl (DependencyNameMismatch package name (key_name target))
     else if \<not> exists_key dependency then Inl (DanglingDependency package dependency)
     else Inr ())"

end
