(* ===== verification/Lockfile.thy ===== *)
theory Lockfile
  imports Lockfile_Keys
begin

text \<open>
  The crate \<open>tapid-lockfile\<close>, second part: locked packages of registries and of workspace
  members, the outputs of lifecycle hooks, and the lockfile itself with insertion, roots,
  replay, and reading and writing. The JSON text format is \<open>serde_json\<close>'s and is a
  parameter.
\<close>

section \<open>Validation of addresses\<close>

definition validate_registry_url :: "'v crates \<Rightarrow> string \<Rightarrow> (lockfile_error, unit) result" where
  "validate_registry_url C value =
     (if CHR ''?'' \<in> set value \<or> CHR ''#'' \<in> set value \<or> CHR ''@'' \<in> set value then Inl (InvalidUrl value)
      else map_err (\<lambda>_. InvalidUrl value) (map_sum id (\<lambda>_. ()) (registry_origin_from_str C value)))"

definition validate_artifact_url :: "'v crates \<Rightarrow> string \<Rightarrow> (lockfile_error, unit) result" where
  "validate_artifact_url C value =
     map_err (\<lambda>_. InvalidUrl value) (map_sum id (\<lambda>_. ()) (artifact_url_from_str C value))"

section \<open>Outputs of lifecycle hooks\<close>

record derived_hook_output =
  dh_attestation :: string
  dh_hook :: string
  dh_key :: string
  dh_tree_digest :: string

definition hook_rank :: "string \<Rightarrow> nat option" where
  "hook_rank hook = (if hook = ''preinstall'' then Some 0 else if hook = ''install'' then Some 1
     else if hook = ''postinstall'' then Some 2 else None)"

definition check_hook_digest :: "string \<Rightarrow> (lockfile_error, unit) result" where
  "check_hook_digest digest =
     and_then (canonical_artifact_digest digest) (\<lambda>canonical.
     if canonical \<noteq> digest \<or> \<not> prefix ''sha256-'' digest
     then Inl (InvalidDerivedOutput ''noncanonical digest'') else Inr ())"

text \<open>The loop of \<open>validate_derived_hooks\<close>, with the rank of the hook before.\<close>

fun validate_hooks_from :: "nat option \<Rightarrow> derived_hook_output list \<Rightarrow> (lockfile_error, unit) result" where
  "validate_hooks_from previous [] = Inr ()"
| "validate_hooks_from previous (output # rest) =
     (case strip_prefix ''hmac-sha256-'' (dh_attestation output) of
        None \<Rightarrow> Inl (InvalidDerivedOutput ''missing lifecycle output authentication'')
      | Some tag \<Rightarrow>
          if length tag \<noteq> 64 \<or> \<not> list_all is_lower_hex tag
          then Inl (InvalidDerivedOutput ''invalid lifecycle output authentication'')
          else (case hook_rank (dh_hook output) of
              None \<Rightarrow> Inl (InvalidDerivedOutput ''unsupported hook'')
            | Some rank \<Rightarrow>
                if (case previous of None \<Rightarrow> False | Some p \<Rightarrow> rank \<le> p)
                then Inl (InvalidDerivedOutput ''duplicate or unordered hooks'')
                else and_then (for_each check_hook_digest [dh_key output, dh_tree_digest output]) (\<lambda>_.
                  validate_hooks_from (Some rank) rest)))"

definition validate_derived_hooks :: "derived_hook_output list \<Rightarrow> (lockfile_error, unit) result" where
  "validate_derived_hooks outputs = validate_hooks_from None outputs"

definition derived_hook_new :: "string \<Rightarrow> string \<Rightarrow> string \<Rightarrow> string \<Rightarrow> (lockfile_error, derived_hook_output) result" where
  "derived_hook_new hook key tree_digest attestation =
     (let output = \<lparr>dh_attestation = attestation, dh_hook = hook, dh_key = key, dh_tree_digest = tree_digest\<rparr> in
      and_then (validate_derived_hooks [output]) (\<lambda>_. Inr output))"

section \<open>Locked packages\<close>

record locked_package =
  lp_registry :: string
  lp_name :: string
  lp_version :: string
  lp_artifact_integrity :: string
  lp_registry_integrity_declared :: "bool option"
  lp_unpacked_digest :: string
  lp_tree_digest :: string
  lp_derived_hooks :: "derived_hook_output list"
  lp_artifact_url :: "string option"
  lp_peer_context :: string
  lp_platform_context :: string
  lp_dependencies :: "(string, string) btree_map"
  lp_dependency_aliases :: "(string, string) btree_map"

datatype registry_integrity_provenance = RegistryDeclared | LocallyComputed

definition lp_source :: "'v crates \<Rightarrow> locked_package \<Rightarrow> package_source option" where
  "lp_source C p = (case package_source_from_str C (lp_registry p) of Inr s \<Rightarrow> Some s | Inl _ \<Rightarrow> None)"

definition install_tree_digest :: "locked_package \<Rightarrow> string" where
  "install_tree_digest p =
     (if lp_derived_hooks p = [] then lp_tree_digest p else dh_tree_digest (last (lp_derived_hooks p)))"

definition lp_key :: "'v crates \<Rightarrow> locked_package \<Rightarrow> (lockfile_error, string) result" where
  "lp_key C p =
     and_then (map_err (\<lambda>_. LPanicked ''validated package source'') (package_source_from_str C (lp_registry p))) (\<lambda>reg.
     and_then (map_err (\<lambda>_. LPanicked ''validated package name'') (package_name_from_str (lp_name p))) (\<lambda>name.
     and_then (map_err (\<lambda>_. LPanicked ''validated package version'') (package_version_from_str C (lp_version p))) (\<lambda>version.
     Inr (key_text C (identity reg) name version (lp_peer_context p) (lp_platform_context p)))))"

text \<open>One alias entry of a package: it renames a declared dependency to that dependency's actual name.\<close>

definition validate_alias ::
  "('v::linorder) crates \<Rightarrow> string \<Rightarrow> (string, string) btree_map \<Rightarrow> string \<times> string \<Rightarrow> (lockfile_error, unit) result" where
  "validate_alias C own dependencies entry =
     (let (name, actual) = entry in
      and_then (map_err Domain (package_name_from_str name)) (\<lambda>_.
      and_then (map_err Domain (package_name_from_str actual)) (\<lambda>_.
      and_then (ok_or (DependencyNameMismatch own name actual) (bm_get dependencies name)) (\<lambda>dependency.
      and_then (key_from_str C dependency) (\<lambda>target.
      if actual \<noteq> key_name target \<or> name = actual
      then Inl (DependencyNameMismatch own name (key_name target)) else Inr ())))))"

definition lp_validate :: "('v::linorder) crates \<Rightarrow> locked_package \<Rightarrow> (lockfile_error, unit) result" where
  "lp_validate C p =
     and_then (map_err Domain (package_source_from_str C (lp_registry p))) (\<lambda>reg.
     if identity reg \<noteq> lp_registry p then Inl NonCanonicalRegistryIdentity else
     and_then (map_err Domain (package_name_from_str (lp_name p))) (\<lambda>_.
     and_then (map_err Domain (package_version_from_str C (lp_version p))) (\<lambda>_.
     and_then (map_err Domain (package_integrity_from_str C (lp_artifact_integrity p))) (\<lambda>integrity.
     if integrity \<noteq> lp_artifact_integrity p then Inl (InvalidSha512 (lp_artifact_integrity p)) else
     and_then (map_err Domain (artifact_digest_from_str (lp_unpacked_digest p))) (\<lambda>_.
     and_then (map_err Domain (artifact_digest_from_str (lp_tree_digest p))) (\<lambda>_.
     and_then (lp_key C p) (\<lambda>key.
     and_then (decode_peer_context C (lp_peer_context p) key) (\<lambda>_.
     and_then (decode_platform_context (lp_platform_context p) key) (\<lambda>_.
     and_then
       (if registry reg \<noteq> None then validate_registry_url C (lp_registry p)
        else if lp_registry_integrity_declared p \<noteq> None \<or> lp_artifact_url p \<noteq> None \<or> lp_derived_hooks p \<noteq> []
        then Inl InvalidCopiedArtifactEvidence else Inr ()) (\<lambda>_.
     and_then (case lp_artifact_url p of None \<Rightarrow> Inr () | Some url \<Rightarrow> validate_artifact_url C url) (\<lambda>_.
     and_then (for_each (validate_alias C key (lp_dependencies p)) (bm_entries (lp_dependency_aliases p))) (\<lambda>_.
     for_each (\<lambda>name. map_err Domain (map_sum id (\<lambda>_. ()) (package_name_from_str name)))
       (bm_keys (lp_dependencies p))))))))))))))"

definition lp_new_with_context_and_provenance ::
  "('v::linorder) crates \<Rightarrow> string \<Rightarrow> string \<Rightarrow> string \<Rightarrow> string \<Rightarrow> string \<Rightarrow> 'v peer_context \<Rightarrow> platform_context \<Rightarrow>
   registry_integrity_provenance \<Rightarrow> (lockfile_error, locked_package) result" where
  "lp_new_with_context_and_provenance C reg name version integrity unpacked_digest peer platform provenance =
     and_then (map_err Domain (package_source_from_str C reg)) (\<lambda>source.
     and_then (map_err Domain (package_name_from_str name)) (\<lambda>name.
     and_then (map_err Domain (package_version_from_str C version)) (\<lambda>version.
     and_then (map_err Domain (package_integrity_from_str C integrity)) (\<lambda>integrity.
     and_then (map_err Domain (artifact_digest_from_str unpacked_digest)) (\<lambda>digest.
     let package =
       \<lparr>lp_registry = identity source, lp_name = name, lp_version = sv_to_string C version,
        lp_artifact_integrity = integrity,
        lp_registry_integrity_declared = map_option (\<lambda>_. provenance = RegistryDeclared) (registry source),
        lp_unpacked_digest = digest, lp_tree_digest = unpacked_digest, lp_derived_hooks = [],
        lp_artifact_url = None, lp_peer_context = canonical_peer_context C peer,
        lp_platform_context = canonical_platform_context platform,
        lp_dependencies = bm_empty, lp_dependency_aliases = bm_empty\<rparr>
     in and_then (lp_validate C package) (\<lambda>_. Inr package))))))"

definition lp_new_with_provenance ::
  "('v::linorder) crates \<Rightarrow> string \<Rightarrow> string \<Rightarrow> string \<Rightarrow> string \<Rightarrow> string \<Rightarrow> registry_integrity_provenance \<Rightarrow>
   (lockfile_error, locked_package) result" where
  "lp_new_with_provenance C reg name version integrity unpacked_digest provenance =
     and_then (map_err (\<lambda>_. LPanicked ''unwrap'') (platform_context_new None None None)) (\<lambda>platform.
     lp_new_with_context_and_provenance C reg name version integrity unpacked_digest bm_empty platform provenance)"

definition lp_set_artifact_url :: "'v crates \<Rightarrow> string \<Rightarrow> locked_package \<Rightarrow> (lockfile_error, locked_package) result" where
  "lp_set_artifact_url C url p =
     and_then (validate_artifact_url C url) (\<lambda>_. Inr (p\<lparr>lp_artifact_url := Some url\<rparr>))"

definition lp_add_dependency ::
  "('v::linorder) crates \<Rightarrow> string \<Rightarrow> string \<Rightarrow> locked_package \<Rightarrow> (lockfile_error, locked_package) result" where
  "lp_add_dependency C name key p =
     and_then (map_err Domain (package_name_from_str name)) (\<lambda>name.
     and_then (key_from_str C key) (\<lambda>parsed.
     and_then (lp_key C p) (\<lambda>own.
     if key_name parsed \<noteq> name then Inl (DependencyNameMismatch own name (key_name parsed))
     else if key = own then Inl (SelfDependency key)
     else Inr (p\<lparr>lp_dependencies := bm_insert name key (lp_dependencies p),
                 lp_dependency_aliases := bm_remove name (lp_dependency_aliases p)\<rparr>))))"

definition lp_add_alias_dependency ::
  "('v::linorder) crates \<Rightarrow> string \<Rightarrow> string \<Rightarrow> locked_package \<Rightarrow> (lockfile_error, locked_package) result" where
  "lp_add_alias_dependency C name key p =
     and_then (map_err Domain (package_name_from_str name)) (\<lambda>name.
     and_then (key_from_str C key) (\<lambda>target.
     and_then (lp_key C p) (\<lambda>own.
     if key = own then Inl (SelfDependency key)
     else Inr (p\<lparr>lp_dependency_aliases :=
                   (if name \<noteq> key_name target then bm_insert name (key_name target) (lp_dependency_aliases p)
                    else bm_remove name (lp_dependency_aliases p)),
                 lp_dependencies := bm_insert name key (lp_dependencies p)\<rparr>))))"

section \<open>Workspace packages\<close>

record locked_workspace_package =
  lw_source :: local_workspace_source
  lw_manifest_digest :: string
  lw_dependencies :: "(string, string) btree_map"
  lw_dependency_aliases :: "(string, string) btree_map"

definition lw_new :: "local_workspace_source \<Rightarrow> string \<Rightarrow> (lockfile_error, locked_workspace_package) result" where
  "lw_new source manifest_digest =
     and_then (map_err Domain (artifact_digest_from_str manifest_digest)) (\<lambda>digest.
     Inr \<lparr>lw_source = source, lw_manifest_digest = digest, lw_dependencies = bm_empty,
          lw_dependency_aliases = bm_empty\<rparr>)"

definition lw_key :: "'v crates \<Rightarrow> locked_workspace_package \<Rightarrow> (lockfile_error, string) result" where
  "lw_key C p = and_then (key_workspace C (lw_source p)) (\<lambda>k. Inr (key_to_string C k))"

definition lw_add_alias_dependency ::
  "('v::linorder) crates \<Rightarrow> string \<Rightarrow> string \<Rightarrow> locked_workspace_package \<Rightarrow>
   (lockfile_error, locked_workspace_package) result" where
  "lw_add_alias_dependency C name key p =
     and_then (map_err Domain (package_name_from_str name)) (\<lambda>name.
     and_then (key_from_str C key) (\<lambda>target.
     and_then (lw_key C p) (\<lambda>own.
     if key = own then Inl (SelfDependency key)
     else Inr (p\<lparr>lw_dependency_aliases :=
                   (if name \<noteq> key_name target then bm_insert name (key_name target) (lw_dependency_aliases p)
                    else bm_remove name (lw_dependency_aliases p)),
                 lw_dependencies := bm_insert name key (lw_dependencies p)\<rparr>))))"

definition lw_add_dependency ::
  "('v::linorder) crates \<Rightarrow> string \<Rightarrow> string \<Rightarrow> locked_workspace_package \<Rightarrow>
   (lockfile_error, locked_workspace_package) result" where
  "lw_add_dependency C name key p =
     and_then (map_err Domain (package_name_from_str name)) (\<lambda>name.
     and_then (key_from_str C key) (\<lambda>parsed.
     and_then (lw_key C p) (\<lambda>own.
     if key_name parsed \<noteq> name then Inl (DependencyNameMismatch own name (key_name parsed))
     else if key = own then Inl (SelfDependency key)
     else Inr (p\<lparr>lw_dependencies := bm_insert name key (lw_dependencies p),
                 lw_dependency_aliases := bm_remove name (lw_dependency_aliases p)\<rparr>))))"

definition lw_validate_dependency ::
  "('v::linorder) crates \<Rightarrow> string \<Rightarrow> (string, string) btree_map \<Rightarrow> string \<times> string \<Rightarrow> (lockfile_error, unit) result" where
  "lw_validate_dependency C own aliases entry =
     (let (name, dependency) = entry in
      and_then (key_from_str C dependency) (\<lambda>parsed.
      if key_name parsed \<noteq> name \<and> bm_get aliases name \<noteq> Some (key_name parsed)
      then Inl (DependencyNameMismatch own name (key_name parsed))
      else if dependency = own then Inl (SelfDependency own)
      else Inr ()))"

definition lw_validate :: "('v::linorder) crates \<Rightarrow> locked_workspace_package \<Rightarrow> (lockfile_error, unit) result" where
  "lw_validate C p =
     and_then (workspace_source_new C (ws_path (lw_source p)) (ws_name (lw_source p)) (ws_version (lw_source p))) (\<lambda>source.
     if source \<noteq> lw_source p then Inl (InvalidWorkspaceSource (workspace_identity (lw_source p))) else
     and_then (map_err Domain (artifact_digest_from_str (lw_manifest_digest p))) (\<lambda>digest.
     and_then (lw_key C p) (\<lambda>own.
     if digest \<noteq> lw_manifest_digest p then Inl (InvalidPackageKey own) else
     and_then (for_each (lw_validate_dependency C own (lw_dependency_aliases p)) (bm_entries (lw_dependencies p))) (\<lambda>_.
     for_each (validate_alias C own (lw_dependencies p)) (bm_entries (lw_dependency_aliases p))))))"

section \<open>The lockfile\<close>

record lockfile =
  lf_version :: nat
  lf_root_manifest_digest :: string
  lf_resolver_version :: string
  lf_linker_version :: string
  lf_roots :: "string list"
  lf_root_bindings :: "(string, string) btree_map"
  lf_packages :: "(string, locked_package) btree_map"
  lf_workspace_packages :: "(string, locked_workspace_package) btree_map"

definition lockfile_new :: "string \<Rightarrow> (lockfile_error, lockfile) result" where
  "lockfile_new root_manifest_digest =
     and_then (canonical_artifact_digest root_manifest_digest) (\<lambda>digest.
     Inr \<lparr>lf_version = LOCKFILE_VERSION, lf_root_manifest_digest = digest, lf_resolver_version = ''0'',
          lf_linker_version = ''0'', lf_roots = [], lf_root_bindings = bm_empty, lf_packages = bm_empty,
          lf_workspace_packages = bm_empty\<rparr>)"

definition contains_package_key :: "lockfile \<Rightarrow> string \<Rightarrow> bool" where
  "contains_package_key l key \<longleftrightarrow>
     bm_contains_key (lf_packages l) key \<or> bm_contains_key (lf_workspace_packages l) key"

definition set_derived_hooks :: "string \<Rightarrow> derived_hook_output list \<Rightarrow> lockfile \<Rightarrow> (lockfile_error, lockfile) result" where
  "set_derived_hooks key outputs l =
     and_then (validate_derived_hooks outputs) (\<lambda>_.
     case bm_get (lf_packages l) key of
       None \<Rightarrow> Inl (InvalidPackageKey key)
     | Some p \<Rightarrow>
         Inr (l\<lparr>lf_packages := bm_insert key (p\<lparr>lp_derived_hooks := outputs\<rparr>) (lf_packages l),
                lf_version := (if outputs \<noteq> [] then max (lf_version l) LIFECYCLE_LOCKFILE_VERSION else lf_version l)\<rparr>))"

definition source_graph :: "lockfile \<Rightarrow> lockfile" where
  "source_graph l =
     l\<lparr>lf_version := (if lf_version l = LIFECYCLE_LOCKFILE_VERSION then LOCKFILE_VERSION else lf_version l),
       lf_packages := bm_map_values (\<lambda>p. p\<lparr>lp_derived_hooks := []\<rparr>) (lf_packages l)\<rparr>"

text \<open>
  The two loops that validate a batch and give each package its key; \<open>taken\<close> are the keys in
  use before.
\<close>

fun registry_batch ::
  "('v::linorder) crates \<Rightarrow> (string \<Rightarrow> bool) \<Rightarrow> locked_package list \<Rightarrow> (string, locked_package) btree_map \<Rightarrow>
   (lockfile_error, (string, locked_package) btree_map) result" where
  "registry_batch C taken [] batch = Inr batch"
| "registry_batch C taken (p # ps) batch =
     and_then (lp_validate C p) (\<lambda>_.
     and_then (lp_key C p) (\<lambda>key.
     if taken key \<or> bm_contains_key batch key then Inl (DuplicatePackage key)
     else registry_batch C taken ps (bm_insert key p batch)))"

fun workspace_batch ::
  "('v::linorder) crates \<Rightarrow> (string \<Rightarrow> bool) \<Rightarrow> locked_workspace_package list \<Rightarrow>
   (string, locked_workspace_package) btree_map \<Rightarrow>
   (lockfile_error, (string, locked_workspace_package) btree_map) result" where
  "workspace_batch C taken [] batch = Inr batch"
| "workspace_batch C taken (p # ps) batch =
     and_then (lw_validate C p) (\<lambda>_.
     and_then (lw_key C p) (\<lambda>key.
     if taken key \<or> bm_contains_key batch key then Inl (DuplicatePackage key)
     else workspace_batch C taken ps (bm_insert key p batch)))"

definition validate_edges ::
  "('v::linorder) crates \<Rightarrow> (string \<Rightarrow> bool) \<Rightarrow> string \<Rightarrow> (string, string) btree_map \<Rightarrow> (string, string) btree_map \<Rightarrow>
   (lockfile_error, unit) result" where
  "validate_edges C exists_key key dependencies aliases =
     for_each (\<lambda>(name, dependency). validate_dependency_target C key name dependency aliases exists_key)
       (bm_entries dependencies)"

definition copied_package :: "'v crates \<Rightarrow> locked_package \<Rightarrow> bool" where
  "copied_package C p \<longleftrightarrow> (case lp_source C p of None \<Rightarrow> False | Some s \<Rightarrow> registry s = None)"

definition registry_package :: "'v crates \<Rightarrow> locked_package \<Rightarrow> bool" where
  "registry_package C p \<longleftrightarrow> (case lp_source C p of None \<Rightarrow> False | Some s \<Rightarrow> registry s \<noteq> None)"

definition insert_graph ::
  "('v::linorder) crates \<Rightarrow> locked_package list \<Rightarrow> locked_workspace_package list \<Rightarrow> lockfile \<Rightarrow>
   (lockfile_error, lockfile) result" where
  "insert_graph C rs ws l =
     and_then (registry_batch C (contains_package_key l) rs bm_empty) (\<lambda>rbatch.
     and_then (workspace_batch C (\<lambda>k. contains_package_key l k \<or> bm_contains_key rbatch k) ws bm_empty) (\<lambda>wbatch.
     let exists_key = (\<lambda>k. contains_package_key l k \<or> bm_contains_key rbatch k \<or> bm_contains_key wbatch k) in
     and_then (for_each (\<lambda>(key, p). validate_edges C exists_key key (lp_dependencies p) (lp_dependency_aliases p))
         (bm_entries rbatch)) (\<lambda>_.
     and_then (for_each (\<lambda>(key, p). validate_edges C exists_key key (lw_dependencies p) (lw_dependency_aliases p))
         (bm_entries wbatch)) (\<lambda>_.
     Inr (l\<lparr>lf_version := (if list_ex (copied_package C) rs then COPIED_SOURCE_LOCKFILE_VERSION else lf_version l),
            lf_packages := bm_extend (lf_packages l) (bm_entries rbatch),
            lf_workspace_packages := bm_extend (lf_workspace_packages l) (bm_entries wbatch)\<rparr>)))))"

definition insert_packages ::
  "('v::linorder) crates \<Rightarrow> locked_package list \<Rightarrow> lockfile \<Rightarrow> (lockfile_error, lockfile) result" where
  "insert_packages C packages l = insert_graph C packages [] l"

definition insert_package ::
  "('v::linorder) crates \<Rightarrow> locked_package \<Rightarrow> lockfile \<Rightarrow> (lockfile_error, lockfile) result" where
  "insert_package C package l = insert_packages C [package] l"

definition insert_workspace_package ::
  "('v::linorder) crates \<Rightarrow> locked_workspace_package \<Rightarrow> lockfile \<Rightarrow> (lockfile_error, lockfile) result" where
  "insert_workspace_package C package l = insert_graph C [] [package] l"

definition check_root :: "('v::linorder) crates \<Rightarrow> lockfile \<Rightarrow> string \<Rightarrow> (lockfile_error, unit) result" where
  "check_root C l root =
     and_then (key_from_str C root) (\<lambda>_.
     if \<not> contains_package_key l root then Inl (DanglingRoot root) else Inr ())"

definition set_roots :: "('v::linorder) crates \<Rightarrow> string list \<Rightarrow> lockfile \<Rightarrow> (lockfile_error, lockfile) result" where
  "set_roots C roots l =
     (let roots = dedup (sort roots) in
      and_then (for_each (check_root C l) roots) (\<lambda>_.
      Inr (l\<lparr>lf_roots := roots, lf_root_bindings := bm_empty\<rparr>)))"

definition check_binding :: "('v::linorder) crates \<Rightarrow> lockfile \<Rightarrow> string \<times> string \<Rightarrow> (lockfile_error, unit) result" where
  "check_binding C l entry =
     (let (name, target) = entry in
      and_then (map_err Domain (package_name_from_str name)) (\<lambda>_.
      and_then (key_from_str C target) (\<lambda>_.
      if target \<notin> set (lf_roots l) then Inl (DanglingRoot target) else Inr ())))"

definition unbound_root :: "('v::linorder) crates \<Rightarrow> (string, string) btree_map \<Rightarrow> string \<Rightarrow> bool" where
  "unbound_root C bindings root \<longleftrightarrow>
     root \<notin> set (bm_values bindings) \<and>
     (case key_from_str C root of Inl _ \<Rightarrow> True | Inr key \<Rightarrow> workspace_of (key_source key) = None)"

definition set_root_bindings ::
  "('v::linorder) crates \<Rightarrow> (string, string) btree_map \<Rightarrow> lockfile \<Rightarrow> (lockfile_error, lockfile) result" where
  "set_root_bindings C bindings l =
     and_then (for_each (check_binding C l) (bm_entries bindings)) (\<lambda>_.
     if list_ex (unbound_root C bindings) (lf_roots l) then Inl NonCanonicalRoots
     else Inr (l\<lparr>lf_root_bindings := bindings\<rparr>))"

definition validate_replay :: "string \<Rightarrow> lockfile \<Rightarrow> (lockfile_error, unit) result" where
  "validate_replay current l =
     and_then (canonical_artifact_digest current) (\<lambda>current.
     if lf_root_manifest_digest l \<noteq> current
     then Inl (RootManifestDigestMismatch (lf_root_manifest_digest l) current)
     else if lf_version l = PROVENANCE_LEGACY_LOCKFILE_VERSION
     then Inl (RegenerationRequired PROVENANCE_LEGACY_LOCKFILE_VERSION)
     else (case find (\<lambda>(key, p). lp_registry_integrity_declared p = Some False) (bm_entries (lf_packages l)) of
         Some (key, _) \<Rightarrow> Inl (UnverifiedRegistryArtifact key)
       | None \<Rightarrow> Inr ()))"

definition validate_alias_schema :: "'v crates \<Rightarrow> lockfile \<Rightarrow> (lockfile_error, unit) result" where
  "validate_alias_schema C l =
     (if lf_version l < LIFECYCLE_LOCKFILE_VERSION \<and> list_ex (\<lambda>p. lp_derived_hooks p \<noteq> []) (bm_values (lf_packages l))
      then Inl (InvalidDerivedOutput ''derived hooks require schema 9'')
      else if lf_version l < COPIED_SOURCE_LOCKFILE_VERSION \<and> list_ex (copied_package C) (bm_values (lf_packages l))
      then Inl (UnsupportedVersion (lf_version l))
      else and_then (for_each (\<lambda>p. validate_derived_hooks (lp_derived_hooks p)) (bm_values (lf_packages l))) (\<lambda>_.
        if lf_version l < LOCKFILE_VERSION \<and>
           (\<not> bm_is_empty (lf_root_bindings l) \<or>
            list_ex (\<lambda>p. \<not> bm_is_empty (lp_dependency_aliases p)) (bm_values (lf_packages l)))
        then Inl (AliasMetadataInLegacySchema (lf_version l)) else Inr ()))"

definition missing_roots :: "lockfile \<Rightarrow> bool" where
  "missing_roots l \<longleftrightarrow>
     (\<not> bm_is_empty (lf_packages l) \<or> \<not> bm_is_empty (lf_workspace_packages l)) \<and> lf_roots l = []"

definition check_provenance :: "'v crates \<Rightarrow> lockfile \<Rightarrow> (lockfile_error, unit) result" where
  "check_provenance C l =
     (case find (\<lambda>(key, p). registry_package C p \<and> lp_registry_integrity_declared p = None)
             (bm_entries (lf_packages l)) of
        Some (key, _) \<Rightarrow> Inl (MissingRegistryIntegrityProvenance key)
      | None \<Rightarrow> Inr ())"

section \<open>Reading and writing\<close>

text \<open>
  \<open>serde_json\<close>: the pretty printer and the parser of the derived \<open>Serialize\<close> and
  \<open>Deserialize\<close> instances. The instance for workspace sources is the program's own: it
  rebuilds each source with \<open>LocalWorkspaceSource::new\<close>.
\<close>

record json =
  json_to :: "lockfile \<Rightarrow> string option"
  json_from :: "string \<Rightarrow> lockfile option"

definition to_json :: "'v crates \<Rightarrow> json \<Rightarrow> lockfile \<Rightarrow> (lockfile_error, string) result" where
  "to_json C J l =
     and_then (validate_alias_schema C l) (\<lambda>_.
     if ROOTS_LEGACY_LOCKFILE_VERSION \<le> lf_version l \<and> missing_roots l then Inl MissingRoots
     else and_then (if ROOTS_LEGACY_LOCKFILE_VERSION \<le> lf_version l then check_provenance C l else Inr ()) (\<lambda>_.
       map_sum id (\<lambda>text. text @ [CHR 0x0A]) (ok_or Serialization (json_to J l))))"

fun deserialize_workspaces ::
  "'v crates \<Rightarrow> (string \<times> locked_workspace_package) list \<Rightarrow>
   (lockfile_error, (string \<times> locked_workspace_package) list) result" where
  "deserialize_workspaces C [] = Inr []"
| "deserialize_workspaces C ((key, p) # rest) =
     and_then (map_err (\<lambda>_. Serialization)
         (workspace_source_new C (ws_path (lw_source p)) (ws_name (lw_source p)) (ws_version (lw_source p)))) (\<lambda>source.
     and_then (deserialize_workspaces C rest) (\<lambda>rest. Inr ((key, p\<lparr>lw_source := source\<rparr>) # rest)))"

definition supported_versions :: "nat list" where
  "supported_versions =
     [COPIED_SOURCE_LOCKFILE_VERSION, LOCKFILE_VERSION, LIFECYCLE_LOCKFILE_VERSION, LEGACY_LOCKFILE_VERSION,
      PROVENANCE_LEGACY_LOCKFILE_VERSION, REGISTRY_ONLY_LOCKFILE_VERSION]"

definition check_entry ::
  "('v::linorder) crates \<Rightarrow> ('p \<Rightarrow> (lockfile_error, unit) result) \<Rightarrow> ('p \<Rightarrow> (lockfile_error, string) result) \<Rightarrow>
   string \<times> 'p \<Rightarrow> (lockfile_error, unit) result" where
  "check_entry C validate key_of entry =
     (let (key, p) = entry in
      and_then (key_from_str C key) (\<lambda>_.
      and_then (validate p) (\<lambda>_.
      and_then (key_of p) (\<lambda>own. if key \<noteq> own then Inl (PackageKeyMismatch key) else Inr ()))))"

text \<open>The four loops at the end of \<open>from_json\<close>: every entry, then every edge.\<close>

definition check_graph :: "('v::linorder) crates \<Rightarrow> lockfile \<Rightarrow> (lockfile_error, unit) result" where
  "check_graph C l =
     and_then (for_each (check_entry C (lp_validate C) (lp_key C)) (bm_entries (lf_packages l))) (\<lambda>_.
     and_then (for_each (check_entry C (lw_validate C) (lw_key C)) (bm_entries (lf_workspace_packages l))) (\<lambda>_.
     and_then (for_each (\<lambda>(key, p). validate_edges C (contains_package_key l) key (lp_dependencies p)
         (lp_dependency_aliases p)) (bm_entries (lf_packages l))) (\<lambda>_.
     for_each (\<lambda>(key, p). validate_edges C (contains_package_key l) key (lw_dependencies p)
         (lw_dependency_aliases p)) (bm_entries (lf_workspace_packages l)))))"

text \<open>The checks of \<open>from_json\<close> on the deserialized value, after the digest has been made canonical.\<close>

definition check_lockfile :: "('v::linorder) crates \<Rightarrow> lockfile \<Rightarrow> (lockfile_error, lockfile) result" where
  "check_lockfile C l =
     (if PROVENANCE_LEGACY_LOCKFILE_VERSION \<le> lf_version l \<and> missing_roots l then Inl MissingRoots else
     and_then (if REGISTRY_ONLY_LOCKFILE_VERSION \<le> lf_version l then check_provenance C l else Inr ()) (\<lambda>_.
     if dedup (sort (lf_roots l)) \<noteq> lf_roots l then Inl NonCanonicalRoots else
     if lf_version l < LOCKFILE_VERSION \<and> \<not> bm_is_empty (lf_workspace_packages l)
     then Inl WorkspaceIdentityRequiresCurrentVersion else
     and_then (for_each (check_root C l) (lf_roots l)) (\<lambda>_.
     and_then (validate_alias_schema C l) (\<lambda>_.
     and_then (if bm_is_empty (lf_root_bindings l) then Inr l else set_root_bindings C (lf_root_bindings l) l) (\<lambda>l.
     and_then (check_graph C l) (\<lambda>_. Inr l))))))"

definition from_json :: "('v::linorder) crates \<Rightarrow> json \<Rightarrow> string \<Rightarrow> (lockfile_error, lockfile) result" where
  "from_json C J input =
     and_then (ok_or Serialization (json_from J input)) (\<lambda>wire.
     and_then (deserialize_workspaces C (bm_entries (lf_workspace_packages wire))) (\<lambda>ws.
     let l = wire\<lparr>lf_workspace_packages := bm_of_list ws\<rparr> in
     if lf_version l \<notin> set supported_versions then Inl (UnsupportedVersion (lf_version l)) else
     and_then (canonical_artifact_digest (lf_root_manifest_digest l)) (\<lambda>digest.
     check_lockfile C (l\<lparr>lf_root_manifest_digest := digest\<rparr>))))"

end
