(* ===== verification/Lockfile_Key_Facts.thy ===== *)
theory Lockfile_Key_Facts
  imports Lockfile_Keys Requirement_Facts
begin

text \<open>
  Round trips of the texts a lockfile is made of: percent encoding, peer and platform
  contexts, workspace sources, and package keys, which are injective on well-formed keys.
\<close>

section \<open>Percent encoding\<close>

lemma encode_simps [simp]: "encode [] = []" "encode (c # cs) = encode_byte c @ encode cs"
  by (simp_all add: encode_def)

lemma encode_eq_Nil [simp]: "encode s = [] \<longleftrightarrow> s = []"
  by (cases s) (auto simp: encode_byte_def)

lemma plain_not_percent: "encode_plain c \<Longrightarrow> c \<noteq> CHR ''%''"
  by (auto simp: encode_plain_def ascii_class_defs byte_def)

lemma hex_pair: "to_digit16 (hex_upper (byte c div 16)) = Some (byte c div 16)"
  "to_digit16 (hex_upper (byte c mod 16)) = Some (byte c mod 16)"
proof -
  have "byte c div 16 < 16" using byte_less [of c] by (simp add: div_less_iff_less_mult)
  then show "to_digit16 (hex_upper (byte c div 16)) = Some (byte c div 16)" by (rule hex_upper_digits)
  show "to_digit16 (hex_upper (byte c mod 16)) = Some (byte c mod 16)" by (rule hex_upper_digits) simp
qed

lemma char_of_hex_pair: "char_of (byte c div 16 * 16 + byte c mod 16) = c"
  by (metis char_of_byte div_mult_mod_eq)

lemma decode_encode_byte: "percent_decode_bytes (encode_byte c @ t) = map_option (\<lambda>d. c # d) (percent_decode_bytes t)"
  by (simp add: encode_byte_def hex_pair char_of_hex_pair plain_not_percent)

lemma percent_decode_encode_bytes: "percent_decode_bytes (encode s) = Some s"
  by (induction s) (simp_all add: decode_encode_byte)

lemma percent_decode_encode: "utf8_valid s \<Longrightarrow> percent_decode (encode s) original = Inr s"
  by (simp add: percent_decode_def percent_decode_encode_bytes)

lemma encode_inject: "encode s = encode t \<longleftrightarrow> s = t"
  by (metis option.inject percent_decode_encode_bytes)

definition encoded_char :: "char \<Rightarrow> bool" where
  "encoded_char c \<longleftrightarrow> encode_plain c \<or> c = CHR ''%''"

lemma hex_upper_encoded: "n < 16 \<Longrightarrow> encode_plain (hex_upper n)"
  by (auto simp: hex_upper_def encode_plain_def ascii_class_defs)

lemma encode_chars: "c \<in> set (encode s) \<Longrightarrow> encoded_char c"
proof (induction s)
  case (Cons a s)
  have "byte a div 16 < 16" using byte_less [of a] by (simp add: div_less_iff_less_mult)
  then have "c \<in> set (encode_byte a) \<Longrightarrow> encoded_char c"
    by (auto simp: encode_byte_def encoded_char_def hex_upper_encoded split: if_splits)
  with Cons show ?case by auto
qed simp

lemma encoded_char_clean:
  "encoded_char c \<Longrightarrow> is_ascii c \<and> \<not> is_whitespace (byte c) \<and> c \<notin> {CHR '';'', CHR '','', CHR ''|'', CHR ''='', CHR '':'', CHR ''-''}"
  by (auto simp: encoded_char_def encode_plain_def ascii_class_defs is_whitespace_def byte_def)

lemma encode_clean: "c \<in> {CHR '';'', CHR '','', CHR ''|'', CHR ''=''} \<Longrightarrow> c \<notin> set (encode s)"
  using encode_chars encoded_char_clean by blast

section \<open>Peer contexts\<close>

definition peer_context_ok :: "('v::linorder) crates \<Rightarrow> 'v peer_context \<Rightarrow> bool" where
  "peer_context_ok C ctx \<longleftrightarrow> (\<forall>(name, version)\<in>set (bm_entries ctx). valid_package_name name \<and> sv_build C version = [])"

definition peer_text :: "'v crates \<Rightarrow> string \<times> 'v \<Rightarrow> string" where
  "peer_text C e = ''name='' @ encode (fst e) @ '';version='' @ encode (sv_to_string C (snd e))"

lemma canonical_peer_text: "canonical_peer_context C ctx = join '','' (map (peer_text C) (bm_entries ctx))"
proof -
  have "(\<lambda>(name, version). ''name='' @ encode name @ '';version='' @ encode (sv_to_string C version)) = peer_text C"
    by (rule ext) (simp add: peer_text_def case_prod_unfold)
  then show ?thesis unfolding canonical_peer_context_def by simp
qed

lemma peer_item_text: "peer_item (peer_text C (n, v)) = Some (encode n, encode (sv_to_string C v))"
proof -
  have a: "CHR '';'' \<notin> set (''name='' @ encode n)" by (simp add: encode_clean)
  have "peer_text C (n, v) = (''name='' @ encode n) @ '';version='' @ encode (sv_to_string C v)"
    by (simp add: peer_text_def)
  then have "split_once '';version='' (peer_text C (n, v)) = Some (''name='' @ encode n, encode (sv_to_string C v))"
    using split_once_append [OF refl a, of "''version=''"] by simp
  then show ?thesis by (simp add: peer_item_def)
qed

lemma ascii_valid_name: "valid_package_name n \<Longrightarrow> utf8_valid n"
  using valid_package_name_ascii utf8_valid_ascii by blast

lemma version_string_utf8: "semver_contract C \<Longrightarrow> sv_build C v = [] \<Longrightarrow> utf8_valid (sv_to_string C v)"
  using version_chars [of C v] identifier_char_plain
  by (intro utf8_valid_ascii) (auto simp: semver_text_D(1) list_all_iff plain_char_def)

lemma version_parse: "semver_contract C \<Longrightarrow> sv_build C v = [] \<Longrightarrow> package_version_from_str C (sv_to_string C v) = Inr v"
  by (simp add: version_from_str_Inr semver_text_D)

lemma decode_peer_items_text:
  assumes "semver_contract C" "\<forall>(n, v)\<in>set es. valid_package_name n \<and> sv_build C v = []"
  shows "decode_peer_items C original (map (peer_text C) es) ctx = Inr (bm_extend ctx es)"
  using assms(2)
proof (induction es arbitrary: ctx)
  case (Cons e es)
  obtain n v where e: "e = (n, v)" by (cases e)
  with Cons.prems have nv: "valid_package_name n" "sv_build C v = []" by auto
  have "package_name_from_str n = Inr n" using nv by (simp add: package_name_Inr)
  with Cons nv show ?case
    by (simp add: e peer_item_text percent_decode_encode ascii_valid_name version_string_utf8 [OF assms(1)]
        version_parse [OF assms(1)] peer_context_with_def)
qed simp

lemma peer_text_no_comma: "CHR '','' \<notin> set (peer_text C e)"
  by (simp add: peer_text_def encode_clean)

lemma peer_context_roundtrip:
  assumes "semver_contract C" "peer_context_ok C ctx"
  shows "decode_peer_context C (canonical_peer_context C ctx) original = Inr ctx"
proof (cases "bm_entries ctx = []")
  case True
  then have "ctx = bm_empty" by (metis bm_is_empty_def bm_is_empty_iff)
  then show ?thesis by (simp add: canonical_peer_text decode_peer_context_def)
next
  case False
  have "canonical_peer_context C ctx \<noteq> []"
    unfolding canonical_peer_text by (subst join_eq_Nil) (auto simp: False peer_text_def)
  moreover have "split_char (CHR '','') (canonical_peer_context C ctx) = map (peer_text C) (bm_entries ctx)"
    unfolding canonical_peer_text by (rule split_char_join) (auto simp: False peer_text_no_comma)
  moreover have "decode_peer_items C original (map (peer_text C) (bm_entries ctx)) bm_empty = Inr ctx"
    using decode_peer_items_text [OF assms(1), of "bm_entries ctx"] assms(2)
    by (simp add: peer_context_ok_def bm_extend_entries)
  ultimately show ?thesis by (simp add: decode_peer_context_def)
qed

section \<open>Platform contexts\<close>

definition platform_ok :: "platform_context \<Rightarrow> bool" where
  "platform_ok p \<longleftrightarrow> (\<forall>v. Some v \<in> {ctx_os p, ctx_cpu p, ctx_libc p} \<longrightarrow> \<not> platform_value_bad v \<and> utf8_valid v)"

lemma decode_field_encode:
  "(\<And>v. f = Some v \<Longrightarrow> \<not> platform_value_bad v \<and> utf8_valid v) \<Longrightarrow> decode_field original (encode_opt f) = Inr f"
  by (cases f) (auto simp: decode_field_def encode_opt_def platform_value_bad_def percent_decode_encode)

lemma encode_opt_clean: "c \<in> {CHR '';'', CHR '','', CHR ''|'', CHR ''=''} \<Longrightarrow> c \<notin> set (encode_opt f)"
  using encode_clean by (cases f) (auto simp: encode_opt_def)

lemma platform_context_roundtrip:
  assumes "platform_ok p"
  shows "decode_platform_context (canonical_platform_context p) original = Inr p"
proof -
  let ?o = "encode_opt (ctx_os p)" and ?c = "encode_opt (ctx_cpu p)" and ?l = "encode_opt (ctx_libc p)"
  have s1: "split_once '';cpu='' (?o @ '';cpu='' @ ?c @ '';libc='' @ ?l) = Some (?o, ?c @ '';libc='' @ ?l)"
    by (rule split_once_append [OF refl]) (simp add: encode_opt_clean)
  have s2: "split_once '';libc='' (?c @ '';libc='' @ ?l) = Some (?c, ?l)"
    by (rule split_once_append [OF refl]) (simp add: encode_opt_clean)
  have t: "canonical_platform_context p = ''os='' @ (?o @ '';cpu='' @ ?c @ '';libc='' @ ?l)"
    by (simp add: canonical_platform_context_def)
  have d: "decode_field original ?o = Inr (ctx_os p)" "decode_field original ?c = Inr (ctx_cpu p)"
    "decode_field original ?l = Inr (ctx_libc p)"
    using assms by (auto intro!: decode_field_encode simp: platform_ok_def)
  have n: "platform_context_new (ctx_os p) (ctx_cpu p) (ctx_libc p) = Inr p"
    using assms by (cases p) (auto simp: platform_context_new_def platform_ok_def split: option.splits)
  have ne: "canonical_platform_context p \<noteq> []" by (simp add: canonical_platform_context_def)
  show ?thesis
    unfolding decode_platform_context_def using ne
    by (simp only: t strip_prefix_append if_False option.case s1 ok_or_simps and_then_simps prod.case s2 d n map_err_simps)
      (simp add: canonical_platform_context_def)
qed

section \<open>Workspace sources\<close>

lemma path_parts_ok: "p \<in> set (path_parts s) \<Longrightarrow> p \<noteq> [] \<and> p \<noteq> ''.'' \<and> CHR ''/'' \<notin> set p \<and> set p \<subseteq> set s"
  using split_char_parts_no_sep [of p "CHR ''/''" s] set_split_char [of p "CHR ''/''" s] by (auto simp: path_parts_def)

definition workspace_path_ok :: "string \<Rightarrow> bool" where
  "workspace_path_ok path \<longleftrightarrow>
     path \<noteq> [] \<and> CHR 0x5C \<notin> set path \<and> CHR ''|'' \<notin> set path \<and> CHR '':'' \<notin> set path \<and> \<not> any_control path \<and>
     (\<forall>part\<in>set (split_char (CHR ''/'') path). part \<noteq> [] \<and> part \<noteq> ''.'' \<and> part \<noteq> ''..'')"

lemma path_parts_canonical: "workspace_path_ok path \<Longrightarrow> path_parts path = split_char (CHR ''/'') path"
  by (simp add: path_parts_def workspace_path_ok_def filter_id_conv)

lemma prefix_slash_split: "prefix ''/'' path \<Longrightarrow> [] \<in> set (split_char (CHR ''/'') path)"
  by (cases path) auto

lemma canonical_workspace_path_fixpoint: "workspace_path_ok path \<Longrightarrow> canonical_workspace_path path = Inr path"
  using path_parts_canonical [of path] prefix_slash_split [of path] set_split_char [of _ "CHR ''/''" path]
  by (auto simp: canonical_workspace_path_def workspace_path_ok_def Let_def list_ex_iff join_split_char)

lemma version_no:
  assumes "semver_contract C" "sv_build C v = []" "c \<in> {CHR '':'', CHR ''@'', CHR ''|''}"
  shows "c \<notin> set (sv_to_string C v)"
proof
  assume "c \<in> set (sv_to_string C v)"
  then have "identifier_char c" using version_chars [OF assms(1,2)] by (simp add: semver_text_D(1) [OF assms(1)])
  with assms(3) show False by (auto simp: identifier_char_def ascii_class_defs byte_def)
qed

lemma valid_name_chars: "valid_package_name n \<Longrightarrow> c \<in> set n \<Longrightarrow> is_name_character c \<or> c = CHR ''@'' \<or> c = CHR ''/''"
  unfolding valid_package_name_def by (auto simp: list_all_iff)

lemma valid_name_no: "valid_package_name n \<Longrightarrow> c \<in> {CHR '':'', CHR ''|''} \<Longrightarrow> c \<notin> set n"
  using valid_name_chars [of n c] name_character_excludes [of c] by auto

definition workspace_ok :: "'v crates \<Rightarrow> local_workspace_source \<Rightarrow> bool" where
  "workspace_ok C s \<longleftrightarrow> workspace_path_ok (ws_path s) \<and> valid_package_name (ws_name s) \<and>
     (\<exists>v. sv_build C v = [] \<and> ws_version s = sv_to_string C v)"

lemma workspace_source_roundtrip:
  assumes "semver_contract C" "workspace_ok C s"
  shows "workspace_source_from_str C (workspace_identity s) = Inr s"
proof -
  obtain v where v: "sv_build C v = []" "ws_version s = sv_to_string C v"
    and p: "workspace_path_ok (ws_path s)" "valid_package_name (ws_name s)"
    using assms(2) by (auto simp: workspace_ok_def)
  let ?pkg = "ws_name s @ ''@'' @ ws_version s"
  have "CHR '':'' \<notin> set ?pkg" using valid_name_no [OF p(2)] version_no [OF assms(1) v(1)] v(2) by simp
  then have 1: "rsplit_once (CHR '':'') (ws_path s @ CHR '':'' # ?pkg) = Some (ws_path s, ?pkg)"
    by (rule rsplit_once_append)
  have 2: "rsplit_once (CHR ''@'') (ws_name s @ CHR ''@'' # ws_version s) = Some (ws_name s, ws_version s)"
    by (rule rsplit_once_append) (use version_no [OF assms(1) v(1)] v(2) in simp)
  have "workspace_source_new C (ws_path s) (ws_name s) (ws_version s) = Inr s"
    using p v version_parse [OF assms(1) v(1)]
    by (cases s) (simp add: workspace_source_new_def canonical_workspace_path_fixpoint package_name_Inr [THEN iffD2])
  with 1 2 show ?thesis
    by (simp add: workspace_source_from_str_def workspace_identity_def)
qed

section \<open>Package keys\<close>

fun source_ok :: "'v crates \<Rightarrow> lockfile_package_source \<Rightarrow> bool" where
  "source_ok C (Registry origin) \<longleftrightarrow> registry_origin_from_str C origin = Inr origin"
| "source_ok C (Copied source) \<longleftrightarrow> registry source = None \<and> package_source_from_str C (identity source) = Inr source"
| "source_ok C (Workspace source) \<longleftrightarrow> workspace_ok C source"

lemma origin_is_source:
  assumes "registry_origin_from_str C origin = Inr origin"
  shows "package_source_from_str C origin = Inr (source_of_registry origin)" "\<not> prefix ''workspace:'' origin"
    "\<not> prefix ''file:'' origin" "\<not> prefix ''git+'' origin"
proof -
  obtain a where a: "origin = ''https://'' @ a" using origin_https [OF assms] by auto
  show "package_source_from_str C origin = Inr (source_of_registry origin)"
    using assms unfolding package_source_from_str_def by (simp add: a)
  show "\<not> prefix ''workspace:'' origin" "\<not> prefix ''file:'' origin" "\<not> prefix ''git+'' origin"
    by (simp_all add: a)
qed

lemma workspace_text_no_pipe:
  assumes "semver_contract C" "workspace_ok C s"
  shows "CHR ''|'' \<notin> set (workspace_identity s)"
proof -
  obtain v where v: "sv_build C v = []" "ws_version s = sv_to_string C v"
    and p: "CHR ''|'' \<notin> set (ws_path s)" "valid_package_name (ws_name s)"
    using assms(2) unfolding workspace_ok_def workspace_path_ok_def by metis
  have "CHR ''|'' \<notin> set (ws_name s)" "CHR ''|'' \<notin> set (sv_to_string C v)"
    using valid_name_no [OF p(2)] version_no [OF assms(1) v(1)] by blast+
  with v p show ?thesis by (simp add: workspace_identity_def)
qed

lemma source_text_no_pipe:
  assumes "semver_contract C" "url_contract C" "source_ok C s"
  shows "CHR ''|'' \<notin> set (source_text s)"
proof (cases s)
  case (Registry origin)
  with assms(3) source_no_pipe [OF assms(2) origin_is_source(1)] show ?thesis
    by (simp add: source_of_registry_def)
next
  case (Copied source)
  with assms(2,3) source_no_pipe show ?thesis by auto
next
  case (Workspace w)
  with assms workspace_text_no_pipe show ?thesis by auto
qed

lemma copied_prefix:
  assumes "package_source_from_str C v = Inr s" "registry s = None"
  shows "prefix ''file:'' v \<or> prefix ''git+'' v"
  using assms(1) by (cases rule: source_cases) (use assms(2) in \<open>auto simp: source_of_registry_def\<close>)

lemma parse_key_source_text:
  assumes "semver_contract C" "source_ok C s"
  shows "parse_key_source C (source_text s) = Inr s"
proof (cases s)
  case (Registry origin)
  with assms(2) origin_is_source(2-4) [of C origin] show ?thesis by (simp add: parse_key_source_def)
next
  case (Copied source)
  have "\<not> prefix ''workspace:'' (identity source)"
    using assms(2) copied_prefix [of C "identity source" source] unfolding Copied by (auto simp: prefix_def)
  with Copied assms(2) copied_prefix [of C "identity source" source] show ?thesis
    by (auto simp: parse_key_source_def)
next
  case (Workspace w)
  have "prefix ''workspace:'' (workspace_identity w)" by (simp add: workspace_identity_def)
  with Workspace assms workspace_source_roundtrip [OF assms(1)] show ?thesis
    by (simp add: parse_key_source_def)
qed

text \<open>A well-formed key: canonical source, valid name and version, contexts that decode.\<close>

definition key_ok :: "('v::linorder) crates \<Rightarrow> 'v lockfile_package_key \<Rightarrow> bool" where
  "key_ok C k \<longleftrightarrow> source_ok C (key_source k) \<and> valid_package_name (key_name k) \<and> sv_build C (key_version k) = [] \<and>
     (\<exists>ctx. decode_peer_context C (key_peer k) [] = Inr ctx) \<and>
     (\<exists>p. decode_platform_context (key_platform k) [] = Inr p) \<and> \<not> workspace_mismatch C k"

definition context_clean :: "string \<Rightarrow> bool" where
  "context_clean s \<longleftrightarrow> CHR ''|'' \<notin> set s \<and> \<not> any_whitespace s \<and> s \<noteq> ''-''"

lemma context_cleanI:
  assumes "\<And>c. c \<in> set s \<Longrightarrow> encoded_char c \<or> c \<in> {CHR '';'', CHR ''='', CHR '',''}"
  shows "context_clean s"
proof -
  have "c \<in> set s \<Longrightarrow> is_ascii c \<and> \<not> is_whitespace (byte c) \<and> c \<noteq> CHR ''|'' \<and> c \<noteq> CHR ''-''" for c
    using assms [of c] encoded_char_clean [of c] by (auto simp: ascii_class_defs is_whitespace_def byte_def)
  then show ?thesis
    by (auto simp: context_clean_def any_whitespace_ascii list_all_iff list_ex_iff)
qed

lemma plain_letters: "list_all encode_plain ''name'' \<and> list_all encode_plain ''version'' \<and> list_all encode_plain ''os'' \<and>
   list_all encode_plain ''cpu'' \<and> list_all encode_plain ''libc''"
  by code_simp

lemma peer_context_clean: "context_clean (canonical_peer_context C ctx)"
proof (rule context_cleanI)
  fix c assume "c \<in> set (canonical_peer_context C ctx)"
  then consider "c = CHR '',''" | e where "c \<in> set (peer_text C e)"
    using set_join [of "'',''" "map (peer_text C) (bm_entries ctx)"] unfolding canonical_peer_text by auto
  then show "encoded_char c \<or> c \<in> {CHR '';'', CHR ''='', CHR '',''}"
  proof cases
    case 2
    then show ?thesis
      using encode_chars plain_letters by (auto simp: peer_text_def encoded_char_def)
  qed simp
qed

lemma platform_context_clean: "context_clean (canonical_platform_context p)"
proof (rule context_cleanI)
  have o: "c \<in> set (encode_opt f) \<Longrightarrow> encoded_char c" for c f
    using encode_chars by (cases f) (auto simp: encode_opt_def)
  fix c assume "c \<in> set (canonical_platform_context p)"
  then show "encoded_char c \<or> c \<in> {CHR '';'', CHR ''='', CHR '',''}"
    using o plain_letters by (auto simp: canonical_platform_context_def encoded_char_def)
qed

lemma parse_context_text:
  "context_clean s \<Longrightarrow> parse_context (pre @ context_or_dash s) pre original = Inr s"
  by (auto simp: parse_context_def context_or_dash_def context_clean_def)

lemma key_text_split:
  assumes "CHR ''|'' \<notin> set source" "CHR ''|'' \<notin> set name" "CHR ''|'' \<notin> set version"
    "CHR ''|'' \<notin> set peer" "CHR ''|'' \<notin> set platform"
  shows "split_char (CHR ''|'') (source @ ''|'' @ name @ ''@'' @ version @ ''|peer='' @ peer @ ''|platform='' @ platform) =
    [source, name @ ''@'' @ version, ''peer='' @ peer, ''platform='' @ platform]"
proof -
  let ?xs = "[source, name @ ''@'' @ version, ''peer='' @ peer, ''platform='' @ platform]"
  have "split_char (CHR ''|'') (join ''|'' ?xs) = ?xs"
    by (rule split_char_join) (use assms in auto)
  then show ?thesis by simp
qed

lemma context_or_dash_no_pipe: "context_clean s \<Longrightarrow> CHR ''|'' \<notin> set (context_or_dash s)"
  by (auto simp: context_or_dash_def context_clean_def)

text \<open>The text named in the error messages does not matter for success.\<close>

lemma percent_decode_original: "percent_decode s o1 = Inr d \<Longrightarrow> percent_decode s o2 = Inr d"
  by (auto simp: percent_decode_def split: option.splits if_splits)

lemma decode_peer_items_original:
  "decode_peer_items C o1 items ctx = Inr r \<Longrightarrow> decode_peer_items C o2 items ctx = Inr r"
proof (induction items arbitrary: ctx)
  case (Cons item items)
  obtain n v n1 v1 v2 where i: "peer_item item = Some (n, v)" "percent_decode n o1 = Inr n1" "valid_package_name n1"
    "percent_decode v o1 = Inr v1" "package_version_from_str C v1 = Inr v2"
    "decode_peer_items C o1 items (peer_context_with ctx n1 v2) = Inr r"
    using Cons.prems by (auto simp: result_simps)
  then show ?case
    using Cons.IH [OF i(6)] percent_decode_original [OF i(2), of o2] percent_decode_original [OF i(4), of o2]
    by (simp add: package_name_Inr [THEN iffD2])
qed simp

lemma decode_peer_original: "decode_peer_context C s o1 = Inr ctx \<Longrightarrow> decode_peer_context C s o2 = Inr ctx"
  by (auto simp: decode_peer_context_def result_simps dest: decode_peer_items_original split: if_splits)

lemma decode_field_original: "decode_field o1 f = Inr r \<Longrightarrow> decode_field o2 f = Inr r"
  by (auto simp: decode_field_def result_simps dest: percent_decode_original split: if_splits)

lemma decode_platform_original: "decode_platform_context s o1 = Inr p \<Longrightarrow> decode_platform_context s o2 = Inr p"
  unfolding decode_platform_context_def
  by (auto simp: result_simps split: if_splits) (metis decode_field_original)

lemma decode_peer_clean: "decode_peer_context C s original = Inr ctx \<Longrightarrow> context_clean s"
  using peer_context_clean [of C ctx] context_cleanI [of "[]"]
  by (auto simp: decode_peer_context_def result_simps split: if_splits)

lemma decode_platform_clean: "decode_platform_context s original = Inr p \<Longrightarrow> context_clean s"
  using platform_context_clean [of p] context_cleanI [of "[]"]
  by (auto simp: decode_platform_context_def result_simps split: if_splits)

lemma key_roundtrip:
  assumes C: "semver_contract C" "url_contract C" and k: "key_ok C k"
  shows "key_from_str C (key_to_string C k) = Inr k"
proof -
  obtain ctx p where ctx: "decode_peer_context C (key_peer k) [] = Inr ctx"
    and p: "decode_platform_context (key_platform k) [] = Inr p"
    and s: "source_ok C (key_source k)" "valid_package_name (key_name k)" "sv_build C (key_version k) = []"
      "\<not> workspace_mismatch C k"
    using k by (auto simp: key_ok_def)
  let ?s = "source_text (key_source k)" and ?v = "sv_to_string C (key_version k)"
  let ?peer = "context_or_dash (key_peer k)" and ?plat = "context_or_dash (key_platform k)"
  have clean: "context_clean (key_peer k)" "context_clean (key_platform k)"
    using decode_peer_clean [OF ctx] decode_platform_clean [OF p] by simp_all
  have split: "split_char (CHR ''|'') (key_to_string C k) = [?s, key_name k @ ''@'' @ ?v, ''peer='' @ ?peer, ''platform='' @ ?plat]"
    unfolding key_to_string_def key_text_def
    by (rule key_text_split)
      (use source_text_no_pipe [OF C s(1)] valid_name_no [OF s(2)] version_no [OF C(1) s(3)]
        context_or_dash_no_pipe [OF clean(1)] context_or_dash_no_pipe [OF clean(2)] in simp_all)
  have at: "rsplit_once (CHR ''@'') (key_name k @ ''@'' @ ?v) = Some (key_name k, ?v)"
    using rsplit_once_append [of "CHR ''@''" ?v "key_name k"] version_no [OF C(1) s(3), of "CHR ''@''"] by simp
  have parts: "package_name_from_str (key_name k) = Inr (key_name k)" "package_version_from_str C ?v = Inr (key_version k)"
    "decode_peer_context C (key_peer k) original = Inr ctx" "decode_platform_context (key_platform k) original = Inr p"
    for original
    using s(2) version_parse [OF C(1) s(3)] decode_peer_original [OF ctx] decode_platform_original [OF p]
    by (simp_all add: package_name_Inr)
  have pre: "prefix ''peer='' (''peer='' @ ?peer)" "prefix ''platform='' (''platform='' @ ?plat)"
    by (simp_all only: prefix_def) blast+
  show ?thesis
    unfolding key_from_str_def split list.case
    by (simp only: pre simp_thms if_False at ok_or_simps and_then_simps prod.case
        parse_key_source_text [OF C(1) s(1)] parts map_err_simps parse_context_text [OF clean(1)]
        parse_context_text [OF clean(2)] Let_def lockfile_package_key.collapse s(4))
qed

lemma key_text_of_parse: "key_from_str C s = Inr k \<Longrightarrow> key_to_string C k = s"
  by (auto simp: key_from_str_def Let_def result_simps split: list.splits if_splits)

lemma key_inject:
  "semver_contract C \<Longrightarrow> url_contract C \<Longrightarrow> key_ok C j \<Longrightarrow> key_ok C k \<Longrightarrow>
   key_to_string C j = key_to_string C k \<Longrightarrow> j = k"
  by (metis key_roundtrip sum.inject(2))

lemma key_with_source_ok:
  assumes "semver_contract C" "source_ok C source" "valid_package_name name" "sv_build C version = []"
    "peer_context_ok C peer" "platform_ok platform" "workspace_of source = None"
  shows "key_ok C (key_with_source C source name version peer platform)"
  using assms peer_context_roundtrip [OF assms(1,5)] platform_context_roundtrip [OF assms(6)]
  by (auto simp: key_ok_def key_with_source_def workspace_mismatch_def workspace_of_def split: lockfile_package_source.splits)

end
