(* ===== verification/Lockfile_Facts.thy ===== *)
theory Lockfile_Facts
  imports Lockfile Lockfile_Key_Facts
begin

text \<open>
  The invariant of a lockfile (valid entries under their own keys, no dangling edge or
  root, a schema version that covers its contents), that every operation keeps it, that
  reading checks it, and that reading what was written gives the same lockfile. The loop
  that collects a batch of packages is verified once, in the locale \<open>keyed_batch\<close>,
  and interpreted for registry and workspace packages.
\<close>

section \<open>Keys of validated packages\<close>

lemma canonical_source_ok:
  assumes "package_source_from_str C (identity reg) = Inr reg"
  obtains s where "source_ok C s" "source_text s = identity reg" "workspace_of s = None"
    "registry reg = None \<longleftrightarrow> (\<exists>r. s = Copied r)"
proof (cases "registry reg")
  case None
  then show ?thesis using that [of "Copied reg"] assms by (auto simp: workspace_of_def)
next
  case (Some origin)
  from assms have "registry_origin_from_str C (identity reg) = Inr (identity reg)"
    by (cases rule: source_cases) (use Some in \<open>auto simp: source_of_registry_def\<close>)
  then show ?thesis using that [of "Registry (identity reg)"] Some by (auto simp: workspace_of_def)
qed

lemma lp_validate_D:
  assumes "lp_validate C p = Inr u"
  obtains reg v ctx plat key where "package_source_from_str C (lp_registry p) = Inr reg" "identity reg = lp_registry p"
    "valid_package_name (lp_name p)" "package_version_from_str C (lp_version p) = Inr v"
    "lp_key C p = Inr key" "key = key_text C (lp_registry p) (lp_name p) v (lp_peer_context p) (lp_platform_context p)"
    "decode_peer_context C (lp_peer_context p) key = Inr ctx" "decode_platform_context (lp_platform_context p) key = Inr plat"
    "registry reg = None \<Longrightarrow> lp_derived_hooks p = []"
proof -
  obtain reg v key ctx plat where 1: "package_source_from_str C (lp_registry p) = Inr reg" "identity reg = lp_registry p"
    "valid_package_name (lp_name p)" "package_version_from_str C (lp_version p) = Inr v" "lp_key C p = Inr key"
    "decode_peer_context C (lp_peer_context p) key = Inr ctx" "decode_platform_context (lp_platform_context p) key = Inr plat"
    and 2: "registry reg = None \<longrightarrow> lp_derived_hooks p = []"
    using assms by (auto simp: lp_validate_def and_then_Inr map_err_Inr package_name_Inr split: if_splits)
  then show ?thesis
    using that [OF 1(1-5) _ 1(6,7) 2 [rule_format]] by (auto simp: lp_key_def package_name_Inr [THEN iffD2])
qed

lemma lp_key_source:
  assumes C: "semver_contract C" and p: "lp_validate C p = Inr u"
  obtains k where "lp_key C p = Inr (key_to_string C k)" "key_ok C k" "key_name k = lp_name p"
    "workspace_of (key_source k) = None"
proof -
  obtain reg v ctx plat key where d: "package_source_from_str C (lp_registry p) = Inr reg" "identity reg = lp_registry p"
    "valid_package_name (lp_name p)" "package_version_from_str C (lp_version p) = Inr v"
    "lp_key C p = Inr key" "key = key_text C (lp_registry p) (lp_name p) v (lp_peer_context p) (lp_platform_context p)"
    "decode_peer_context C (lp_peer_context p) key = Inr ctx" "decode_platform_context (lp_platform_context p) key = Inr plat"
    using lp_validate_D [OF p] by metis
  obtain s where s: "source_ok C s" "source_text s = identity reg" "workspace_of s = None"
    using canonical_source_ok [of C reg] d(1,2) by metis
  let ?k = "LockfilePackageKey s (lp_name p) v (lp_peer_context p) (lp_platform_context p)"
  have "key_ok C ?k"
    using s d(3,4) decode_peer_original [OF d(7)] decode_platform_original [OF d(8)]
    by (auto simp: key_ok_def version_from_str_Inr workspace_mismatch_def workspace_of_def split: lockfile_package_source.splits)
  moreover have "key = key_to_string C ?k" using d(2,6) s(2) by (simp add: key_to_string_def)
  ultimately show ?thesis using that d(5) s(3) by simp
qed

lemma lp_key_ok:
  assumes "semver_contract C" and "lp_validate C p = Inr u"
  obtains k where "lp_key C p = Inr (key_to_string C k)" "key_ok C k" "key_name k = lp_name p"
  using lp_key_source [OF assms] that by metis

lemma canonical_path_ok: "canonical_workspace_path path = Inr path \<Longrightarrow> workspace_path_ok path"
proof -
  assume a: "canonical_workspace_path path = Inr path"
  then have b: "path \<noteq> []" "CHR 0x5C \<notin> set path" "CHR ''|'' \<notin> set path" "\<not> any_control path"
    "join ''/'' (path_parts path) = path" "path_parts path \<noteq> []"
    "\<forall>p\<in>set (path_parts path). p \<noteq> ''..'' \<and> CHR '':'' \<notin> set p"
    by (auto simp: canonical_workspace_path_def Let_def list_ex_iff split: if_splits)
  have "split_char (CHR ''/'') (join ''/'' (path_parts path)) = path_parts path"
    by (rule split_char_join) (use b(6) path_parts_ok in auto)
  then have parts: "split_char (CHR ''/'') path = path_parts path" using b(5) by simp
  moreover have "CHR '':'' \<notin> set (join ''/'' (path_parts path))"
    using set_join [of "''/''" "path_parts path"] b(7) by auto
  ultimately show ?thesis using b path_parts_ok [of _ path] by (auto simp: workspace_path_ok_def)
qed

lemma lw_key_ok:
  assumes C: "semver_contract C" and p: "lw_validate C p = Inr u"
  obtains k where "lw_key C p = Inr (key_to_string C k)" "key_ok C k" "key_source k = Workspace (lw_source p)"
proof -
  let ?s = "lw_source p"
  have n: "workspace_source_new C (ws_path ?s) (ws_name ?s) (ws_version ?s) = Inr ?s"
    using p by (auto simp: lw_validate_def result_simps split: if_splits)
  then obtain v where v: "canonical_workspace_path (ws_path ?s) = Inr (ws_path ?s)" "valid_package_name (ws_name ?s)"
    "package_version_from_str C (ws_version ?s) = Inr v" "ws_version ?s = sv_to_string C v"
    by (cases ?s) (auto simp: workspace_source_new_def and_then_Inr map_err_Inr package_name_Inr)
  have w: "workspace_ok C ?s"
    using v canonical_path_ok by (auto simp: workspace_ok_def version_from_str_Inr)
  let ?k = "LockfilePackageKey (Workspace ?s) (ws_name ?s) v [] (canonical_platform_context (PlatformContext None None None))"
  have "platform_ok (PlatformContext None None None)" by (simp add: platform_ok_def)
  then have "key_ok C ?k"
    using w v platform_context_roundtrip
    by (auto simp: key_ok_def version_from_str_Inr decode_peer_context_def workspace_mismatch_def)
  moreover have "lw_key C p = Inr (key_to_string C ?k)"
    using v by (simp add: lw_key_def key_workspace_def package_name_Inr [THEN iffD2] platform_context_new_def)
  ultimately show ?thesis using that by simp
qed

lemma source_text_prefix: "source_ok C s \<Longrightarrow> prefix ''workspace:'' (source_text s) \<longleftrightarrow> workspace_of s \<noteq> None"
proof (cases s)
  case (Copied r)
  then show "source_ok C s \<Longrightarrow> ?thesis"
    using copied_prefix [of C "identity r" r] by (auto simp: workspace_of_def prefix_def)
qed (use origin_is_source(2) in \<open>auto simp: workspace_of_def workspace_identity_def\<close>)

section \<open>The lockfile invariant\<close>

text \<open>Every entry is a valid package stored under its own key.\<close>

definition entries_ok :: "('v::linorder) crates \<Rightarrow> lockfile \<Rightarrow> bool" where
  "entries_ok C l \<longleftrightarrow>
     (\<forall>key p. bm_get (lf_packages l) key = Some p \<longrightarrow> lp_validate C p = Inr () \<and> lp_key C p = Inr key) \<and>
     (\<forall>key p. bm_get (lf_workspace_packages l) key = Some p \<longrightarrow> lw_validate C p = Inr () \<and> lw_key C p = Inr key)"

text \<open>
  Every dependency of every entry is a parseable key of another entry of the lockfile, whose
  name is the declared name or the alias recorded for it.
\<close>

definition edge_target_ok :: "('v::linorder) crates \<Rightarrow> lockfile \<Rightarrow> string \<Rightarrow> (string, string) btree_map \<Rightarrow> string \<Rightarrow> string \<Rightarrow> bool" where
  "edge_target_ok C l key aliases name dependency \<longleftrightarrow>
     dependency \<noteq> key \<and> contains_package_key l dependency \<and>
     (\<exists>target. key_from_str C dependency = Inr target \<and>
        (key_name target = name \<or> bm_get aliases name = Some (key_name target)))"

definition edges_ok :: "('v::linorder) crates \<Rightarrow> lockfile \<Rightarrow> bool" where
  "edges_ok C l \<longleftrightarrow>
     (\<forall>key p name dependency. bm_get (lf_packages l) key = Some p \<and> bm_get (lp_dependencies p) name = Some dependency \<longrightarrow>
        edge_target_ok C l key (lp_dependency_aliases p) name dependency) \<and>
     (\<forall>key p name dependency. bm_get (lf_workspace_packages l) key = Some p \<and> bm_get (lw_dependencies p) name = Some dependency \<longrightarrow>
        edge_target_ok C l key (lw_dependency_aliases p) name dependency)"

definition roots_ok :: "('v::linorder) crates \<Rightarrow> lockfile \<Rightarrow> bool" where
  "roots_ok C l \<longleftrightarrow>
     sorted_wrt (<) (lf_roots l) \<and> (\<forall>root\<in>set (lf_roots l). check_root C l root = Inr ()) \<and>
     (lf_root_bindings l = bm_empty \<or> set_root_bindings C (lf_root_bindings l) l = Inr l)"

definition lockfile_ok :: "('v::linorder) crates \<Rightarrow> lockfile \<Rightarrow> bool" where
  "lockfile_ok C l \<longleftrightarrow>
     entries_ok C l \<and> edges_ok C l \<and> roots_ok C l \<and> validate_alias_schema C l = Inr () \<and>
     canonical_digest (lf_root_manifest_digest l)"

lemma validate_target_iff:
  "validate_dependency_target C key name dependency aliases ex = Inr () \<longleftrightarrow>
     dependency \<noteq> key \<and> ex dependency \<and>
     (\<exists>target. key_from_str C dependency = Inr target \<and>
        (key_name target = name \<or> bm_get aliases name = Some (key_name target)))"
  by (auto simp: validate_dependency_target_def result_simps)

lemma validate_edges_iff:
  "validate_edges C ex key deps aliases = Inr () \<longleftrightarrow>
     (\<forall>name dependency. bm_get deps name = Some dependency \<longrightarrow>
        validate_dependency_target C key name dependency aliases ex = Inr ())"
  by (auto simp: validate_edges_def for_each_Inr bm_get_in_entries)

lemma validate_edges_mono:
  "validate_edges C ex key deps aliases = Inr () \<Longrightarrow> (\<And>k. ex k \<Longrightarrow> ex' k) \<Longrightarrow> validate_edges C ex' key deps aliases = Inr ()"
  unfolding validate_edges_iff validate_target_iff by blast

lemma edges_ok_iff:
  "edges_ok C l \<longleftrightarrow>
     (\<forall>key p. bm_get (lf_packages l) key = Some p \<longrightarrow>
        validate_edges C (contains_package_key l) key (lp_dependencies p) (lp_dependency_aliases p) = Inr ()) \<and>
     (\<forall>key p. bm_get (lf_workspace_packages l) key = Some p \<longrightarrow>
        validate_edges C (contains_package_key l) key (lw_dependencies p) (lw_dependency_aliases p) = Inr ())"
  unfolding edges_ok_def edge_target_ok_def validate_edges_iff validate_target_iff by blast

lemma for_each_entries:
  "for_each (\<lambda>(k, p). f k p) (bm_entries m) = Inr () \<longleftrightarrow> (\<forall>k p. bm_get m k = Some p \<longrightarrow> f k p = Inr ())"
  by (auto simp: for_each_Inr bm_get_in_entries)

lemma for_each_values:
  "for_each f (bm_values m) = Inr () \<longleftrightarrow> (\<forall>k p. bm_get m k = Some p \<longrightarrow> f p = Inr ())"
  by (auto simp: for_each_Inr set_bm_values ran_def)

lemma list_ex_values: "list_ex P (bm_values m) \<longleftrightarrow> (\<exists>k p. bm_get m k = Some p \<and> P p)"
  by (auto simp: list_ex_iff set_bm_values ran_def)

text \<open>
  The loop that collects a batch, for any kind of package with a validation and a key: what
  it returns is the given packages, all valid, under their own keys, none of them in use.
\<close>

locale keyed_batch =
  fixes validate :: "'p \<Rightarrow> (lockfile_error, unit) result" and key_of :: "'p \<Rightarrow> (lockfile_error, string) result"
    and collect :: "(string \<Rightarrow> bool) \<Rightarrow> 'p list \<Rightarrow> (string, 'p) btree_map \<Rightarrow> (lockfile_error, (string, 'p) btree_map) result"
  assumes collect_Nil: "collect taken [] batch = Inr batch"
    and collect_Cons: "collect taken (p # ps) batch = Inr batch' \<longleftrightarrow>
      (\<exists>key. validate p = Inr () \<and> key_of p = Inr key \<and> \<not> taken key \<and> bm_get batch key = None \<and>
         collect taken ps (bm_insert key p batch) = Inr batch')"
begin

lemma collect_keeps: "collect taken ps batch = Inr batch' \<Longrightarrow> bm_get batch key = Some p \<Longrightarrow> bm_get batch' key = Some p"
proof (induction ps arbitrary: batch)
  case (Cons q ps)
  then obtain k where k: "bm_get batch k = None" "collect taken ps (bm_insert k q batch) = Inr batch'"
    by (auto simp: collect_Cons)
  have "k \<noteq> key" using k(1) Cons.prems(2) by auto
  with Cons.IH [OF k(2)] Cons.prems(2) show ?case by simp
qed (simp add: collect_Nil)

lemma collect_sound:
  assumes "collect taken ps batch = Inr batch'" "bm_get batch' key = Some p"
  shows "bm_get batch key = Some p \<or> p \<in> set ps \<and> validate p = Inr () \<and> key_of p = Inr key \<and> \<not> taken key"
  using assms
proof (induction ps arbitrary: batch)
  case (Cons q ps)
  then obtain k where k: "validate q = Inr ()" "key_of q = Inr k" "\<not> taken k"
    "collect taken ps (bm_insert k q batch) = Inr batch'"
    by (auto simp: collect_Cons)
  from Cons.IH [OF k(4) Cons.prems(2)] k show ?case by (auto split: if_splits)
qed (simp add: collect_Nil)

lemma collect_complete:
  assumes "collect taken ps batch = Inr batch'" "p \<in> set ps"
  shows "\<exists>key. key_of p = Inr key \<and> bm_get batch' key = Some p"
  using assms
proof (induction ps arbitrary: batch)
  case (Cons q ps)
  then obtain k where k: "key_of q = Inr k" "collect taken ps (bm_insert k q batch) = Inr batch'"
    by (auto simp: collect_Cons)
  show ?case
  proof (cases "p = q")
    case True
    with k collect_keeps [OF k(2), of k q] show ?thesis by simp
  next
    case False
    with Cons.IH [OF k(2)] Cons.prems(2) show ?thesis by simp
  qed
qed simp

end

interpretation rbatch: keyed_batch "lp_validate C" "lp_key C" "registry_batch C" for C
  by unfold_locales (auto simp: result_simps bm_contains_key_def split: if_splits)

interpretation wbatch: keyed_batch "lw_validate C" "lw_key C" "workspace_batch C" for C
  by unfold_locales (auto simp: result_simps bm_contains_key_def split: if_splits)

lemma schema_iff:
  "validate_alias_schema C l = Inr () \<longleftrightarrow>
     (\<forall>k p. bm_get (lf_packages l) k = Some p \<longrightarrow>
        validate_derived_hooks (lp_derived_hooks p) = Inr () \<and>
        (lp_derived_hooks p \<noteq> [] \<longrightarrow> LIFECYCLE_LOCKFILE_VERSION \<le> lf_version l) \<and>
        (copied_package C p \<longrightarrow> COPIED_SOURCE_LOCKFILE_VERSION \<le> lf_version l) \<and>
        (lp_dependency_aliases p \<noteq> bm_empty \<longrightarrow> LOCKFILE_VERSION \<le> lf_version l)) \<and>
     (lf_root_bindings l \<noteq> bm_empty \<longrightarrow> LOCKFILE_VERSION \<le> lf_version l)"
  unfolding validate_alias_schema_def list_ex_values bm_is_empty_iff
  by (auto simp: and_then_Inr for_each_values not_less)

lemma insert_graph_D:
  assumes "insert_graph C rs ws l = Inr l'"
  obtains rb wb where "registry_batch C (contains_package_key l) rs bm_empty = Inr rb"
    "workspace_batch C (\<lambda>k. contains_package_key l k \<or> bm_contains_key rb k) ws bm_empty = Inr wb"
    "\<And>k. contains_package_key l' k \<longleftrightarrow> contains_package_key l k \<or> bm_contains_key rb k \<or> bm_contains_key wb k"
    "\<And>k p. bm_get rb k = Some p \<Longrightarrow> validate_edges C (contains_package_key l') k (lp_dependencies p) (lp_dependency_aliases p) = Inr ()"
    "\<And>k p. bm_get wb k = Some p \<Longrightarrow> validate_edges C (contains_package_key l') k (lw_dependencies p) (lw_dependency_aliases p) = Inr ()"
    "l' = l\<lparr>lf_version := (if list_ex (copied_package C) rs then COPIED_SOURCE_LOCKFILE_VERSION else lf_version l),
            lf_packages := bm_extend (lf_packages l) (bm_entries rb),
            lf_workspace_packages := bm_extend (lf_workspace_packages l) (bm_entries wb)\<rparr>"
proof -
  obtain rb wb where b: "registry_batch C (contains_package_key l) rs bm_empty = Inr rb"
    "workspace_batch C (\<lambda>k. contains_package_key l k \<or> bm_contains_key rb k) ws bm_empty = Inr wb"
    and e: "for_each (\<lambda>(key, p). validate_edges C (\<lambda>k. contains_package_key l k \<or> bm_contains_key rb k \<or> bm_contains_key wb k)
        key (lp_dependencies p) (lp_dependency_aliases p)) (bm_entries rb) = Inr ()"
      "for_each (\<lambda>(key, p). validate_edges C (\<lambda>k. contains_package_key l k \<or> bm_contains_key rb k \<or> bm_contains_key wb k)
        key (lw_dependencies p) (lw_dependency_aliases p)) (bm_entries wb) = Inr ()"
    and l': "l' = l\<lparr>lf_version := (if list_ex (copied_package C) rs then COPIED_SOURCE_LOCKFILE_VERSION else lf_version l),
            lf_packages := bm_extend (lf_packages l) (bm_entries rb),
            lf_workspace_packages := bm_extend (lf_workspace_packages l) (bm_entries wb)\<rparr>"
    using assms unfolding insert_graph_def Let_def and_then_Inr by auto
  have c: "contains_package_key l' = (\<lambda>k. contains_package_key l k \<or> bm_contains_key rb k \<or> bm_contains_key wb k)"
    by (rule ext) (auto simp: l' contains_package_key_def bm_contains_key_iff bm_get_extend_entries)
  show ?thesis
    by (rule that [OF b _ _ _ l']) (use e in \<open>auto simp: c for_each_entries\<close>)
qed

lemma insert_graph_entries:
  assumes "entries_ok C l" "insert_graph C rs ws l = Inr l'"
  shows "entries_ok C l'"
  using assms(2)
proof (rule insert_graph_D)
  fix rb wb
  assume b: "registry_batch C (contains_package_key l) rs bm_empty = Inr rb"
    "workspace_batch C (\<lambda>k. contains_package_key l k \<or> bm_contains_key rb k) ws bm_empty = Inr wb"
    and l': "l' = l\<lparr>lf_version := (if list_ex (copied_package C) rs then COPIED_SOURCE_LOCKFILE_VERSION else lf_version l),
            lf_packages := bm_extend (lf_packages l) (bm_entries rb),
            lf_workspace_packages := bm_extend (lf_workspace_packages l) (bm_entries wb)\<rparr>"
  show ?thesis
    using assms(1) rbatch.collect_sound [OF b(1)] wbatch.collect_sound [OF b(2)]
    by (auto simp: l' entries_ok_def extend_Some)
qed

lemma insert_graph_edges:
  assumes "edges_ok C l" "insert_graph C rs ws l = Inr l'"
  shows "edges_ok C l'"
  using assms(2)
proof (rule insert_graph_D)
  fix rb wb
  assume c: "\<And>k. contains_package_key l' k \<longleftrightarrow> contains_package_key l k \<or> bm_contains_key rb k \<or> bm_contains_key wb k"
    and e: "\<And>k p. bm_get rb k = Some p \<Longrightarrow> validate_edges C (contains_package_key l') k (lp_dependencies p) (lp_dependency_aliases p) = Inr ()"
      "\<And>k p. bm_get wb k = Some p \<Longrightarrow> validate_edges C (contains_package_key l') k (lw_dependencies p) (lw_dependency_aliases p) = Inr ()"
    and l': "l' = l\<lparr>lf_version := (if list_ex (copied_package C) rs then COPIED_SOURCE_LOCKFILE_VERSION else lf_version l),
            lf_packages := bm_extend (lf_packages l) (bm_entries rb),
            lf_workspace_packages := bm_extend (lf_workspace_packages l) (bm_entries wb)\<rparr>"
  have old: "\<And>k. contains_package_key l k \<Longrightarrow> contains_package_key l' k" by (simp add: c)
  have mono: "validate_edges C (contains_package_key l) k d a = Inr () \<Longrightarrow>
      validate_edges C (contains_package_key l') k d a = Inr ()" for k d a
    by (erule validate_edges_mono) (rule old)
  have "validate_edges C (contains_package_key l') k (lp_dependencies p) (lp_dependency_aliases p) = Inr ()"
    if "bm_get (lf_packages l') k = Some p" for k p
  proof -
    have "bm_get rb k = Some p \<or> bm_get (lf_packages l) k = Some p" using that by (auto simp: l' extend_Some)
    then show ?thesis
      using assms(1) e(1) mono unfolding edges_ok_iff by blast
  qed
  moreover have "validate_edges C (contains_package_key l') k (lw_dependencies p) (lw_dependency_aliases p) = Inr ()"
    if "bm_get (lf_workspace_packages l') k = Some p" for k p
  proof -
    have "bm_get wb k = Some p \<or> bm_get (lf_workspace_packages l) k = Some p" using that by (auto simp: l' extend_Some)
    then show ?thesis
      using assms(1) e(2) mono unfolding edges_ok_iff by blast
  qed
  ultimately show ?thesis by (simp add: edges_ok_iff)
qed

lemma check_root_iff: "check_root C l root = Inr () \<longleftrightarrow> (\<exists>k. key_from_str C root = Inr k) \<and> contains_package_key l root"
  by (auto simp: check_root_def result_simps)

lemma set_root_bindings_same:
  "lf_roots l = lf_roots l' \<Longrightarrow> lf_root_bindings l = b \<Longrightarrow> lf_root_bindings l' = b \<Longrightarrow>
   set_root_bindings C b l = Inr l \<Longrightarrow> set_root_bindings C b l' = Inr l'"
  by (auto simp: set_root_bindings_def check_binding_def and_then_Inr for_each_Inr split: if_splits prod.splits)

lemma insert_graph_roots:
  assumes "roots_ok C l" "insert_graph C rs ws l = Inr l'"
  shows "roots_ok C l'"
  using assms(2)
proof (rule insert_graph_D)
  fix rb wb
  assume c: "\<And>k. contains_package_key l' k \<longleftrightarrow> contains_package_key l k \<or> bm_contains_key rb k \<or> bm_contains_key wb k"
    and l': "l' = l\<lparr>lf_version := (if list_ex (copied_package C) rs then COPIED_SOURCE_LOCKFILE_VERSION else lf_version l),
            lf_packages := bm_extend (lf_packages l) (bm_entries rb),
            lf_workspace_packages := bm_extend (lf_workspace_packages l) (bm_entries wb)\<rparr>"
  have same: "lf_roots l' = lf_roots l" "lf_root_bindings l' = lf_root_bindings l" by (simp_all add: l')
  show ?thesis
    using assms(1) set_root_bindings_same [of l l' "lf_root_bindings l" C] unfolding roots_ok_def same check_root_iff c
    by blast
qed

lemma insert_graph_schema:
  assumes "validate_alias_schema C l = Inr ()" "insert_graph C rs ws l = Inr l'"
    "\<forall>p\<in>set rs. lp_derived_hooks p = []" "lf_version l \<in> {LOCKFILE_VERSION, LIFECYCLE_LOCKFILE_VERSION, COPIED_SOURCE_LOCKFILE_VERSION}"
  shows "validate_alias_schema C l' = Inr ()"
    "lf_version l' \<in> {LOCKFILE_VERSION, LIFECYCLE_LOCKFILE_VERSION, COPIED_SOURCE_LOCKFILE_VERSION}"
proof -
  show "lf_version l' \<in> {LOCKFILE_VERSION, LIFECYCLE_LOCKFILE_VERSION, COPIED_SOURCE_LOCKFILE_VERSION}"
    using assms(2) by (rule insert_graph_D) (use assms(4) in auto)
  show "validate_alias_schema C l' = Inr ()"
    using assms(2)
  proof (rule insert_graph_D)
    fix rb wb
    assume b: "registry_batch C (contains_package_key l) rs bm_empty = Inr rb"
      and l': "l' = l\<lparr>lf_version := (if list_ex (copied_package C) rs then COPIED_SOURCE_LOCKFILE_VERSION else lf_version l),
            lf_packages := bm_extend (lf_packages l) (bm_entries rb),
            lf_workspace_packages := bm_extend (lf_workspace_packages l) (bm_entries wb)\<rparr>"
    have v: "lf_version l \<le> lf_version l'" "LOCKFILE_VERSION \<le> lf_version l'"
      "\<And>p. p \<in> set rs \<Longrightarrow> copied_package C p \<Longrightarrow> COPIED_SOURCE_LOCKFILE_VERSION \<le> lf_version l'"
      using assms(4) by (auto simp: l' lockfile_versions list_ex_iff)
    have new: "p \<in> set rs" if "bm_get rb k = Some p" for k p
      using rbatch.collect_sound [OF b that] by simp
    have "validate_derived_hooks [] = Inr ()" by (simp add: validate_derived_hooks_def)
    then show ?thesis
      using assms(1,3) v new unfolding schema_iff by (auto simp: l' extend_Some) (meson order_trans)+
  qed
qed

section \<open>Lockfiles the operations build\<close>

text \<open>
  The states a lockfile passes through: created for a manifest digest, then changed by any of the
  public operations in any order.
\<close>

inductive built :: "('v::linorder) crates \<Rightarrow> lockfile \<Rightarrow> bool" for C where
  new: "lockfile_new digest = Inr l \<Longrightarrow> built C l"
| insert: "built C l \<Longrightarrow> insert_graph C rs ws l = Inr l' \<Longrightarrow> built C l'"
| roots: "built C l \<Longrightarrow> set_roots C keys l = Inr l' \<Longrightarrow> built C l'"
| bindings: "built C l \<Longrightarrow> set_root_bindings C bindings l = Inr l' \<Longrightarrow> built C l'"
| hooks: "built C l \<Longrightarrow> set_derived_hooks key outputs l = Inr l' \<Longrightarrow> built C l'"
| source: "built C l \<Longrightarrow> built C (source_graph l)"

definition current_version :: "lockfile \<Rightarrow> bool" where
  "current_version l \<longleftrightarrow> lf_version l \<in> {LOCKFILE_VERSION, LIFECYCLE_LOCKFILE_VERSION, COPIED_SOURCE_LOCKFILE_VERSION}"

lemma bm_eq_empty_get: "m = bm_empty \<longleftrightarrow> (\<forall>k. bm_get m k = None)"
  using bm_eqI [of m bm_empty] by auto

lemma new_ok: "lockfile_new digest = Inr l \<Longrightarrow> lockfile_ok C l \<and> current_version l"
  by (auto simp: lockfile_new_def canonical_artifact_digest_def result_simps lockfile_ok_def entries_ok_def edges_ok_def
      roots_ok_def schema_iff current_version_def dest: digest_Inr)

lemma insert_ok:
  assumes "lockfile_ok C l" "current_version l" "\<forall>p\<in>set rs. lp_derived_hooks p = []" "insert_graph C rs ws l = Inr l'"
  shows "lockfile_ok C l' \<and> current_version l'"
proof -
  have "lf_root_manifest_digest l' = lf_root_manifest_digest l"
    using assms(4) by (rule insert_graph_D) simp
  then show ?thesis
    using assms insert_graph_entries insert_graph_edges insert_graph_roots insert_graph_schema
    unfolding lockfile_ok_def current_version_def by metis
qed

lemma set_roots_ok:
  assumes "lockfile_ok C l" "set_roots C keys l = Inr l'"
  shows "lockfile_ok C l' \<and> lf_version l' = lf_version l"
proof -
  have l': "l' = l\<lparr>lf_roots := dedup (sort keys), lf_root_bindings := bm_empty\<rparr>"
    and r: "\<forall>r\<in>set (dedup (sort keys)). check_root C l r = Inr ()"
    using assms(2) by (auto simp: set_roots_def Let_def and_then_Inr for_each_Inr)
  have "contains_package_key l' = contains_package_key l" by (rule ext) (simp add: l' contains_package_key_def)
  moreover from this r have "roots_ok C l'" by (simp add: roots_ok_def l' dedup_sorted_strict check_root_iff)
  ultimately show ?thesis
    using assms(1) by (simp add: lockfile_ok_def entries_ok_def edges_ok_iff schema_iff l')
qed

lemma set_root_bindings_ok:
  assumes "lockfile_ok C l" "current_version l" "set_root_bindings C bindings l = Inr l'"
  shows "lockfile_ok C l' \<and> lf_version l' = lf_version l"
proof -
  have l': "l' = l\<lparr>lf_root_bindings := bindings\<rparr>"
    using assms(3) by (auto simp: set_root_bindings_def and_then_Inr split: if_splits)
  have "set_root_bindings C bindings l' = Inr l'"
    using assms(3) by (auto simp: set_root_bindings_def check_binding_def and_then_Inr for_each_Inr l' split: if_splits prod.splits)
  moreover have "contains_package_key l' = contains_package_key l" by (rule ext) (simp add: l' contains_package_key_def)
  ultimately show ?thesis
    using assms(1,2) by (auto simp: lockfile_ok_def entries_ok_def edges_ok_iff schema_iff roots_ok_def check_root_iff l'
        current_version_def lockfile_versions)
qed

lemma lp_key_hooks: "lp_key C (p\<lparr>lp_derived_hooks := h\<rparr>) = lp_key C p"
  by (simp add: lp_key_def)

lemma copied_hooks: "copied_package C (p\<lparr>lp_derived_hooks := h\<rparr>) = copied_package C p"
  "registry_package C (p\<lparr>lp_derived_hooks := h\<rparr>) = registry_package C p"
  by (simp_all add: copied_package_def registry_package_def lp_source_def)

lemma lp_validate_hooks:
  assumes "lp_validate C p = Inr ()" "registry_package C p \<or> h = []"
  shows "lp_validate C (p\<lparr>lp_derived_hooks := h\<rparr>) = Inr ()"
proof -
  have "registry reg \<noteq> None" if "registry_package C p" "package_source_from_str C (lp_registry p) = Inr reg" for reg
    using that by (simp add: registry_package_def lp_source_def)
  with assms show ?thesis
    unfolding lp_validate_def lp_key_hooks by (auto simp: and_then_Inr map_err_Inr split: if_splits)
qed

text \<open>Changing only the hook outputs of the entries of a lockfile.\<close>

lemma rehook_ok:
  assumes ok: "lockfile_ok C l"
    and same: "lf_root_manifest_digest l' = lf_root_manifest_digest l" "lf_roots l' = lf_roots l"
      "lf_root_bindings l' = lf_root_bindings l" "lf_workspace_packages l' = lf_workspace_packages l"
    and packages: "\<And>k. bm_get (lf_packages l') k = map_option (\<lambda>p. p\<lparr>lp_derived_hooks := h k\<rparr>) (bm_get (lf_packages l) k)"
    and valid: "\<And>k p. bm_get (lf_packages l) k = Some p \<Longrightarrow>
      (registry_package C p \<or> h k = []) \<and> validate_derived_hooks (h k) = Inr () \<and>
      (h k \<noteq> [] \<longrightarrow> LIFECYCLE_LOCKFILE_VERSION \<le> lf_version l') \<and>
      (copied_package C p \<longrightarrow> COPIED_SOURCE_LOCKFILE_VERSION \<le> lf_version l')"
    and version: "LOCKFILE_VERSION \<le> lf_version l'"
  shows "lockfile_ok C l'"
proof -
  have contains: "contains_package_key l' = contains_package_key l"
    by (rule ext) (simp add: contains_package_key_def bm_contains_key_def packages same(4))
  have e: "entries_ok C l'"
    using ok valid unfolding lockfile_ok_def entries_ok_def same(4) packages
    by (auto simp: lp_key_hooks lp_validate_hooks)
  have "edges_ok C l'"
    using ok unfolding lockfile_ok_def edges_ok_iff same(4) packages contains by auto
  moreover have "roots_ok C l'"
    using ok set_root_bindings_same [of l l' "lf_root_bindings l" C]
    unfolding lockfile_ok_def roots_ok_def same check_root_iff contains by blast
  moreover have "validate_alias_schema C l' = Inr ()"
    using valid version unfolding schema_iff packages by (auto simp: copied_hooks)
  ultimately show ?thesis using ok e same(1) by (simp add: lockfile_ok_def)
qed

lemma source_graph_version: "current_version l \<Longrightarrow> current_version (source_graph l)"
  by (auto simp: source_graph_def current_version_def)

lemma source_graph_ok:
  assumes "lockfile_ok C l" "current_version l"
  shows "lockfile_ok C (source_graph l) \<and> current_version (source_graph l)"
proof
  show "current_version (source_graph l)"
    using assms(2) by (auto simp: source_graph_def current_version_def)
  have s: "validate_alias_schema C l = Inr ()" using assms(1) by (simp add: lockfile_ok_def)
  show "lockfile_ok C (source_graph l)"
  proof (rule rehook_ok [OF assms(1), where h = "\<lambda>_. []"])
    fix k q assume "bm_get (lf_packages l) k = Some q"
    then show "(registry_package C q \<or> [] = ([] :: derived_hook_output list)) \<and> validate_derived_hooks [] = Inr () \<and>
        (([] :: derived_hook_output list) \<noteq> [] \<longrightarrow> LIFECYCLE_LOCKFILE_VERSION \<le> lf_version (source_graph l)) \<and>
        (copied_package C q \<longrightarrow> COPIED_SOURCE_LOCKFILE_VERSION \<le> lf_version (source_graph l))"
      using s unfolding schema_iff by (auto simp: validate_derived_hooks_def source_graph_def lockfile_versions)
  qed (use assms(2) in \<open>auto simp: source_graph_def bm_get_map_values current_version_def lockfile_versions\<close>)
qed

text \<open>
  The operations neither look at hook outputs nor protect them: they commute with removing all
  outputs, so that the rest of the invariant is kept whatever outputs there are.
\<close>

abbreviation without_hooks :: "locked_package \<Rightarrow> locked_package" where
  "without_hooks p \<equiv> p\<lparr>lp_derived_hooks := []\<rparr>"

lemma source_contains: "contains_package_key (source_graph l) = contains_package_key l"
  by (rule ext) (simp add: contains_package_key_def bm_contains_key_def source_graph_def bm_get_map_values)

lemma map_values_insert: "bm_map_values f (bm_insert k v m) = bm_insert k (f v) (bm_map_values f m)"
  by (rule bm_eqI) (simp add: fun_eq_iff bm_get_map_values)

lemma map_values_extend: "bm_map_values f (bm_extend m es) = bm_extend (bm_map_values f m) (map (\<lambda>e. (fst e, f (snd e))) es)"
  by (induction m es rule: bm_extend.induct) (simp_all add: map_values_insert)

lemma map_values_contains: "bm_contains_key (bm_map_values f m) k = bm_contains_key m k"
  by (simp add: bm_contains_key_def bm_get_map_values)

lemma registry_batch_source:
  "registry_batch C taken rs b = Inr rb \<Longrightarrow>
   registry_batch C taken (map without_hooks rs) (bm_map_values without_hooks b) = Inr (bm_map_values without_hooks rb)"
proof (induction rs arbitrary: b)
  case (Cons p rs)
  then obtain key where k: "lp_validate C p = Inr ()" "lp_key C p = Inr key" "\<not> (taken key \<or> bm_contains_key b key)"
    "registry_batch C taken rs (bm_insert key p b) = Inr rb"
    by (auto simp: and_then_Inr split: if_splits)
  have "lp_validate C (without_hooks p) = Inr ()" by (rule lp_validate_hooks [OF k(1)]) simp
  with k Cons.IH [OF k(4)] show ?case by (simp add: lp_key_hooks map_values_contains map_values_insert)
qed simp

lemma insert_graph_source:
  assumes "insert_graph C rs ws l = Inr l'"
  shows "insert_graph C (map without_hooks rs) ws (source_graph l) = Inr (source_graph l')"
proof -
  let ?rb = "bm_map_values without_hooks"
  obtain rb wb where b: "registry_batch C (contains_package_key l) rs bm_empty = Inr rb"
    "workspace_batch C (\<lambda>k. contains_package_key l k \<or> bm_contains_key rb k) ws bm_empty = Inr wb"
    "for_each (\<lambda>(key, p). validate_edges C (\<lambda>k. contains_package_key l k \<or> bm_contains_key rb k \<or> bm_contains_key wb k) key
       (lp_dependencies p) (lp_dependency_aliases p)) (bm_entries rb) = Inr ()"
    "for_each (\<lambda>(key, p). validate_edges C (\<lambda>k. contains_package_key l k \<or> bm_contains_key rb k \<or> bm_contains_key wb k) key
       (lw_dependencies p) (lw_dependency_aliases p)) (bm_entries wb) = Inr ()"
    and l': "l' = l\<lparr>lf_version := (if list_ex (copied_package C) rs then COPIED_SOURCE_LOCKFILE_VERSION else lf_version l),
            lf_packages := bm_extend (lf_packages l) (bm_entries rb),
            lf_workspace_packages := bm_extend (lf_workspace_packages l) (bm_entries wb)\<rparr>"
    using assms unfolding insert_graph_def Let_def and_then_Inr by auto
  have batch: "registry_batch C (contains_package_key l) (map without_hooks rs) bm_empty = Inr (?rb rb)"
  proof -
    have "?rb bm_empty = bm_empty" by (rule bm_eqI) (simp add: fun_eq_iff bm_get_map_values)
    then show ?thesis using registry_batch_source [OF b(1)] by metis
  qed
  have edges: "for_each (\<lambda>(key, p). validate_edges C ex key (lp_dependencies p) (lp_dependency_aliases p)) (bm_entries (?rb rb)) =
      for_each (\<lambda>(key, p). validate_edges C ex key (lp_dependencies p) (lp_dependency_aliases p)) (bm_entries rb)" for ex
    by (simp add: bm_entries_map_values for_each_map comp_def case_prod_unfold)
  have "list_ex (copied_package C) (map without_hooks rs) = list_ex (copied_package C) rs"
    by (induction rs) (simp_all add: copied_hooks)
  then show ?thesis
    unfolding insert_graph_def source_contains Let_def batch and_then_simps map_values_contains b(2) edges b(3,4)
    by (simp add: source_graph_def l' map_values_extend bm_entries_map_values lockfile_versions)
qed

lemma set_roots_source: "set_roots C keys l = Inr l' \<Longrightarrow> set_roots C keys (source_graph l) = Inr (source_graph l')"
  unfolding set_roots_def check_root_def source_contains by (auto simp: Let_def and_then_Inr source_graph_def)

lemma set_root_bindings_source:
  "set_root_bindings C b l = Inr l' \<Longrightarrow> set_root_bindings C b (source_graph l) = Inr (source_graph l')"
  unfolding set_root_bindings_def check_binding_def by (auto simp: and_then_Inr source_graph_def split: if_splits)

lemma set_derived_hooks_source:
  assumes "set_derived_hooks key outputs l = Inr l'" "current_version l"
  shows "source_graph l' = source_graph l \<and> current_version l'"
proof -
  obtain p where p: "bm_get (lf_packages l) key = Some p"
    "l' = l\<lparr>lf_packages := bm_insert key (p\<lparr>lp_derived_hooks := outputs\<rparr>) (lf_packages l),
       lf_version := (if outputs \<noteq> [] then max (lf_version l) LIFECYCLE_LOCKFILE_VERSION else lf_version l)\<rparr>"
    using assms(1) by (auto simp: set_derived_hooks_def and_then_Inr split: option.splits)
  have "bm_map_values without_hooks (lf_packages l') = bm_map_values without_hooks (lf_packages l)"
    by (rule bm_eqI) (simp add: fun_eq_iff bm_get_map_values p)
  then show ?thesis using assms(2) by (auto simp: source_graph_def p(2) current_version_def lockfile_versions)
qed

text \<open>Where hook outputs belong: on packages from a registry, validated, in a schema that has them.\<close>

definition hooks_placed :: "('v::linorder) crates \<Rightarrow> lockfile \<Rightarrow> bool" where
  "hooks_placed C l \<longleftrightarrow> (\<forall>key p. bm_get (lf_packages l) key = Some p \<and> lp_derived_hooks p \<noteq> [] \<longrightarrow>
     registry_package C p \<and> validate_derived_hooks (lp_derived_hooks p) = Inr () \<and> LIFECYCLE_LOCKFILE_VERSION \<le> lf_version l)"

lemma built_source_ok: "built C l \<Longrightarrow> lockfile_ok C (source_graph l) \<and> current_version l"
proof (induction rule: built.induct)
  case (new digest l)
  then show ?case using new_ok source_graph_ok by blast
next
  case (insert l rs ws l')
  have "\<forall>p \<in> set (map without_hooks rs). lp_derived_hooks p = []" by simp
  moreover have "current_version (source_graph l)" using insert.IH source_graph_version by blast
  moreover have "current_version l'"
    using insert.hyps(2) by (rule insert_graph_D) (use insert.IH in \<open>auto simp: current_version_def\<close>)
  ultimately show ?case using insert_ok [OF _ _ _ insert_graph_source [OF insert.hyps(2)]] insert.IH by blast
next
  case (roots l keys l')
  have "lf_version l' = lf_version l" using roots.hyps(2) by (auto simp: set_roots_def Let_def and_then_Inr)
  then show ?case using set_roots_ok [OF _ set_roots_source [OF roots.hyps(2)]] roots.IH by (simp add: current_version_def)
next
  case (bindings l bindings l')
  have "lf_version l' = lf_version l" using bindings.hyps(2) by (auto simp: set_root_bindings_def and_then_Inr split: if_splits)
  then show ?case
    using set_root_bindings_ok [OF _ _ set_root_bindings_source [OF bindings.hyps(2)]] bindings.IH source_graph_version [of l]
    by (simp add: current_version_def)
next
  case (hooks l key outputs l')
  then show ?case using set_derived_hooks_source by metis
next
  case (source l)
  have "source_graph (source_graph l) = source_graph l"
    by (simp add: source_graph_def bm_eqI fun_eq_iff bm_get_map_values option.map_comp comp_def lockfile_versions)
  then show ?case using source.IH source_graph_version by simp
qed

lemma hooks_placed_iff:
  assumes "lockfile_ok C (source_graph l)" "current_version l"
  shows "lockfile_ok C l \<longleftrightarrow> hooks_placed C l"
proof
  assume ok: "lockfile_ok C l"
  show "hooks_placed C l"
    unfolding hooks_placed_def
  proof (intro allI impI, elim conjE)
    fix key p assume p: "bm_get (lf_packages l) key = Some p" "lp_derived_hooks p \<noteq> []"
    have "lp_validate C p = Inr ()" using ok p(1) by (simp add: lockfile_ok_def entries_ok_def)
    then have "registry_package C p" using p(2) by (elim lp_validate_D) (auto simp: registry_package_def lp_source_def)
    then show "registry_package C p \<and> validate_derived_hooks (lp_derived_hooks p) = Inr () \<and> LIFECYCLE_LOCKFILE_VERSION \<le> lf_version l"
      using ok p unfolding lockfile_ok_def schema_iff by blast
  qed
next
  assume placed: "hooks_placed C l"
  define h where "h k = (case bm_get (lf_packages l) k of Some q \<Rightarrow> lp_derived_hooks q | None \<Rightarrow> [])" for k
  have s: "validate_alias_schema C (source_graph l) = Inr ()" using assms(1) by (simp add: lockfile_ok_def)
  show "lockfile_ok C l"
  proof (rule rehook_ok [OF assms(1), where h = h])
    fix k q
    show "bm_get (lf_packages l) k = map_option (\<lambda>p. p\<lparr>lp_derived_hooks := h k\<rparr>) (bm_get (lf_packages (source_graph l)) k)"
      by (simp add: source_graph_def bm_get_map_values h_def split: option.splits)
    assume q: "bm_get (lf_packages (source_graph l)) k = Some q"
    then obtain p where p: "bm_get (lf_packages l) k = Some p" "q = without_hooks p"
      by (auto simp: source_graph_def bm_get_map_values)
    have "copied_package C q \<longrightarrow> COPIED_SOURCE_LOCKFILE_VERSION \<le> lf_version l"
      using s q assms(2) unfolding schema_iff by (auto simp: source_graph_def current_version_def lockfile_versions split: if_splits)
    then show "(registry_package C q \<or> h k = []) \<and> validate_derived_hooks (h k) = Inr () \<and>
      (h k \<noteq> [] \<longrightarrow> LIFECYCLE_LOCKFILE_VERSION \<le> lf_version l) \<and>
      (copied_package C q \<longrightarrow> COPIED_SOURCE_LOCKFILE_VERSION \<le> lf_version l)"
      using placed p by (cases "lp_derived_hooks p = []") (auto simp: hooks_placed_def h_def validate_derived_hooks_def copied_hooks)
  qed (use assms(2) in \<open>auto simp: source_graph_def current_version_def lockfile_versions\<close>)
qed

lemma source_graph_edges: "edges_ok C (source_graph l) \<longleftrightarrow> edges_ok C l"
proof -
  have "bm_get (lf_packages (source_graph l)) k = map_option without_hooks (bm_get (lf_packages l) k)"
    and "lf_workspace_packages (source_graph l) = lf_workspace_packages l" for k
    by (simp_all add: source_graph_def bm_get_map_values)
  then show ?thesis unfolding edges_ok_iff source_contains by fastforce
qed

section \<open>Reading what was written\<close>

definition json_contract :: "json \<Rightarrow> bool" where
  "json_contract J \<longleftrightarrow> (\<forall>l text. json_to J l = Some text \<longrightarrow> json_from J (text @ [CHR 0x0A]) = Some l)"

lemma deserialize_workspaces_id:
  "(\<And>k p. (k, p) \<in> set es \<Longrightarrow> workspace_source_new C (ws_path (lw_source p)) (ws_name (lw_source p)) (ws_version (lw_source p)) = Inr (lw_source p)) \<Longrightarrow>
   deserialize_workspaces C es = Inr es"
proof (induction es)
  case (Cons e es)
  obtain k p where e: "e = (k, p)" by (cases e)
  have "deserialize_workspaces C es = Inr es" using Cons.IH Cons.prems by (meson list.set_intros(2))
  with Cons.prems [of k p] show ?case by (simp add: e)
qed simp

lemma lw_validate_source:
  "lw_validate C p = Inr () \<Longrightarrow>
   workspace_source_new C (ws_path (lw_source p)) (ws_name (lw_source p)) (ws_version (lw_source p)) = Inr (lw_source p)"
  by (auto simp: lw_validate_def and_then_Inr split: if_splits)

lemma check_workspace_entries:
  assumes "semver_contract C" "url_contract C" "entries_ok C l"
  shows "for_each (check_entry C (lw_validate C) (lw_key C)) (bm_entries (lf_workspace_packages l)) = Inr ()"
proof -
  have "check_entry C (lw_validate C) (lw_key C) (k, p) = Inr ()" if "bm_get (lf_workspace_packages l) k = Some p" for k p
  proof -
    have v: "lw_validate C p = Inr ()" "lw_key C p = Inr k" using assms(3) that by (auto simp: entries_ok_def)
    obtain j where "lw_key C p = Inr (key_to_string C j)" "key_ok C j" using lw_key_ok [OF assms(1) v(1)] by metis
    then show ?thesis using v key_roundtrip [OF assms(1,2)] by (simp add: check_entry_def)
  qed
  then show ?thesis by (auto simp: for_each_Inr bm_get_in_entries)
qed

lemma to_json_Inr:
  assumes "to_json C J l = Inr text" "current_version l"
  obtains body where "json_to J l = Some body" "text = body @ [CHR 0x0A]" "\<not> missing_roots l" "check_provenance C l = Inr ()"
proof -
  have "ROOTS_LEGACY_LOCKFILE_VERSION \<le> lf_version l"
    using assms(2) by (auto simp: current_version_def lockfile_versions)
  then show ?thesis
    using assms(1) that by (auto simp: to_json_def and_then_Inr ok_or_def split: if_splits option.splits)
qed

lemma copied_or_registry: "lp_validate C p = Inr u \<Longrightarrow> copied_package C p \<longleftrightarrow> \<not> registry_package C p"
  by (elim lp_validate_D) (simp add: copied_package_def registry_package_def lp_source_def)

lemma lp_validate_copied_hooks:
  assumes "lp_validate C (without_hooks p) = Inr ()"
  shows "lp_validate C p = (if copied_package C p \<and> lp_derived_hooks p \<noteq> [] then Inl InvalidCopiedArtifactEvidence else Inr ())"
proof (cases "registry_package C p \<or> lp_derived_hooks p = []")
  case True
  then have "lp_validate C p = Inr ()"
    using lp_validate_hooks [OF assms, of "lp_derived_hooks p"] by (simp add: copied_hooks)
  then show ?thesis using True copied_or_registry [of C p] by auto
next
  case False
  then have "copied_package C p" using copied_or_registry [OF assms] by (simp add: copied_hooks)
  then show ?thesis
    using assms False unfolding lp_validate_def lp_key_hooks
    by (auto simp: and_then_Inr map_err_Inr copied_package_def lp_source_def split: if_splits sum.splits)
qed

text \<open>A lockfile that was written, whatever hook outputs it records, up to the checks of its entries.\<close>

lemma check_lockfile_graph:
  assumes src: "lockfile_ok C (source_graph l)" "current_version l" and s: "validate_alias_schema C l = Inr ()"
    and w: "\<not> missing_roots l" "check_provenance C l = Inr ()"
  shows "check_lockfile C l = and_then (check_graph C l) (\<lambda>_. Inr l)"
proof -
  have same: "lf_roots (source_graph l) = lf_roots l" "lf_root_bindings (source_graph l) = lf_root_bindings l"
    by (simp_all add: source_graph_def)
  have "roots_ok C l"
    using src(1) set_root_bindings_same [of "source_graph l" l "lf_root_bindings l" C]
    unfolding lockfile_ok_def roots_ok_def check_root_iff source_contains same by blast
  then have r: "dedup (sort (lf_roots l)) = lf_roots l" "for_each (check_root C l) (lf_roots l) = Inr ()"
    "(if bm_is_empty (lf_root_bindings l) then Inr l else set_root_bindings C (lf_root_bindings l) l) = Inr l"
    unfolding roots_ok_def by (auto simp: for_each_Inr bm_is_empty_iff dedup_strict strict_sorted_iff sorted_sort_id)
  have "\<not> lf_version l < LOCKFILE_VERSION" using src(2) by (auto simp: current_version_def lockfile_versions)
  then show ?thesis unfolding check_lockfile_def using w r s by simp
qed

lemma check_entries_hooks:
  assumes C: "semver_contract C" "url_contract C" and src: "lockfile_ok C (source_graph l)"
  shows "for_each (check_entry C (lp_validate C) (lp_key C)) (bm_entries (lf_packages l)) =
    (if list_ex (\<lambda>p. copied_package C p \<and> lp_derived_hooks p \<noteq> []) (bm_values (lf_packages l))
     then Inl InvalidCopiedArtifactEvidence else Inr ())"
proof -
  have "check_entry C (lp_validate C) (lp_key C) (k, p) =
      (if copied_package C p \<and> lp_derived_hooks p \<noteq> [] then Inl InvalidCopiedArtifactEvidence else Inr ())"
    if "(k, p) \<in> set (bm_entries (lf_packages l))" for k p
  proof -
    have "bm_get (lf_packages (source_graph l)) k = Some (without_hooks p)"
      using that [folded bm_get_in_entries] by (simp add: source_graph_def bm_get_map_values)
    then have v: "lp_validate C (without_hooks p) = Inr ()" "lp_key C p = Inr k"
      using src lp_key_hooks [of C "[]" p] unfolding lockfile_ok_def entries_ok_def by auto
    obtain j where "lp_key C p = Inr (key_to_string C j)" "key_ok C j"
      using lp_key_ok [OF C(1) v(1)] unfolding lp_key_hooks by metis
    then show ?thesis using v(2) key_roundtrip [OF C] lp_validate_copied_hooks [OF v(1)] by (simp add: check_entry_def)
  qed
  then have "for_each (check_entry C (lp_validate C) (lp_key C)) (bm_entries (lf_packages l)) =
      (if list_ex (\<lambda>e. copied_package C (snd e) \<and> lp_derived_hooks (snd e) \<noteq> []) (bm_entries (lf_packages l))
       then Inl InvalidCopiedArtifactEvidence else Inr ())"
    by (intro for_each_same_error) auto
  then show ?thesis by (simp add: bm_values_def list_ex_iff)
qed

lemma check_graph_written:
  assumes C: "semver_contract C" "url_contract C" and src: "lockfile_ok C (source_graph l)"
  shows "check_graph C l =
    (if list_ex (\<lambda>p. copied_package C p \<and> lp_derived_hooks p \<noteq> []) (bm_values (lf_packages l))
     then Inl InvalidCopiedArtifactEvidence else Inr ())"
proof -
  have "edges_ok C l" "entries_ok C (source_graph l)" using src source_graph_edges by (auto simp: lockfile_ok_def)
  then have "for_each (\<lambda>(key, p). validate_edges C (contains_package_key l) key (lp_dependencies p)
         (lp_dependency_aliases p)) (bm_entries (lf_packages l)) = Inr ()"
    "for_each (\<lambda>(key, p). validate_edges C (contains_package_key l) key (lw_dependencies p)
         (lw_dependency_aliases p)) (bm_entries (lf_workspace_packages l)) = Inr ()"
    "for_each (check_entry C (lw_validate C) (lw_key C)) (bm_entries (lf_workspace_packages l)) = Inr ()"
    using check_workspace_entries [OF C, of "source_graph l"] by (simp_all add: edges_ok_iff for_each_entries source_graph_def)
  then show ?thesis unfolding check_graph_def check_entries_hooks [OF assms] by simp
qed

lemma written_reads_back:
  assumes C: "semver_contract C" "url_contract C" "json_contract J"
    and src: "lockfile_ok C (source_graph l)" "current_version l" and written: "to_json C J l = Inr text"
  shows "from_json C J text =
    (if list_ex (\<lambda>p. copied_package C p \<and> lp_derived_hooks p \<noteq> []) (bm_values (lf_packages l))
     then Inl InvalidCopiedArtifactEvidence else Inr l)"
  using written src(2)
proof (rule to_json_Inr)
  fix body
  assume b: "json_to J l = Some body" "text = body @ [CHR 0x0A]" "\<not> missing_roots l" "check_provenance C l = Inr ()"
  have 1: "json_from J text = Some l" using C(3) b by (auto simp: json_contract_def)
  have w: "lf_workspace_packages (source_graph l) = lf_workspace_packages l"
    "lf_root_manifest_digest (source_graph l) = lf_root_manifest_digest l" by (simp_all add: source_graph_def)
  have 2: "deserialize_workspaces C (bm_entries (lf_workspace_packages l)) = Inr (bm_entries (lf_workspace_packages l))"
    using src(1) by (intro deserialize_workspaces_id lw_validate_source) (auto simp: lockfile_ok_def entries_ok_def w bm_get_in_entries)
  have 3: "lf_version l \<in> set supported_versions"
    using src(2) by (auto simp: current_version_def supported_versions_def)
  have 4: "canonical_artifact_digest (lf_root_manifest_digest l) = Inr (lf_root_manifest_digest l)"
    using src(1) by (simp add: lockfile_ok_def canonical_artifact_digest_def w)
  have "validate_alias_schema C l = Inr ()" using written by (simp add: to_json_def and_then_Inr)
  then have "check_lockfile C l = and_then (check_graph C l) (\<lambda>_. Inr l)"
    by (rule check_lockfile_graph [OF src _ b(3,4)])
  then show ?thesis
    using 1 2 3 4 check_graph_written [OF C(1,2) src(1)] by (simp add: from_json_def bm_of_list_def bm_extend_entries)
qed
lemma check_graph_iff:
  "check_graph C l = Inr () \<longleftrightarrow>
     (\<forall>k p. bm_get (lf_packages l) k = Some p \<longrightarrow> check_entry C (lp_validate C) (lp_key C) (k, p) = Inr ()) \<and>
     (\<forall>k p. bm_get (lf_workspace_packages l) k = Some p \<longrightarrow> check_entry C (lw_validate C) (lw_key C) (k, p) = Inr ()) \<and>
     edges_ok C l"
  unfolding check_graph_def edges_ok_iff
  by (auto simp: and_then_Inr for_each_entries) (auto simp: for_each_Inr bm_get_in_entries)

lemma check_entry_D: "check_entry C validate key_of (k, p) = Inr () \<Longrightarrow> validate p = Inr () \<and> key_of p = Inr k"
  by (auto simp: check_entry_def and_then_Inr split: if_splits)

lemma set_root_bindings_D: "set_root_bindings C b l = Inr x \<Longrightarrow> x = l\<lparr>lf_root_bindings := b\<rparr>"
  by (auto simp: set_root_bindings_def and_then_Inr split: if_splits)

lemma check_lockfile_Inr:
  assumes "check_lockfile C l = Inr l'"
  shows "dedup (sort (lf_roots l)) = lf_roots l" "for_each (check_root C l) (lf_roots l) = Inr ()"
    "validate_alias_schema C l = Inr ()" "check_graph C l = Inr ()" "l' = l"
    "lf_root_bindings l = bm_empty \<or> set_root_bindings C (lf_root_bindings l) l = Inr l"
proof -
  have same: "l\<lparr>lf_root_bindings := lf_root_bindings l\<rparr> = l" by simp
  have b: "(if bm_is_empty (lf_root_bindings l) then Inr l else set_root_bindings C (lf_root_bindings l) l) = Inr x \<Longrightarrow> x = l" for x
    using set_root_bindings_D [of C "lf_root_bindings l" l x] same by (simp split: if_splits)
  have i: "(if c then Inl e else r) = Inr x \<longleftrightarrow> \<not> c \<and> r = Inr x" for c e r x by simp
  show "dedup (sort (lf_roots l)) = lf_roots l" "for_each (check_root C l) (lf_roots l) = Inr ()"
    "validate_alias_schema C l = Inr ()" "check_graph C l = Inr ()" "l' = l"
    "lf_root_bindings l = bm_empty \<or> set_root_bindings C (lf_root_bindings l) l = Inr l"
    using assms b unfolding check_lockfile_def i and_then_Inr bm_is_empty_iff by (auto split: if_splits)
qed

lemma check_lockfile_ok:
  assumes "check_lockfile C l = Inr l'" "canonical_digest (lf_root_manifest_digest l)"
  shows "l' = l \<and> lockfile_ok C l"
proof -
  note r = check_lockfile_Inr [OF assms(1)]
  have "sorted_wrt (<) (lf_roots l)" using r(1) dedup_sorted_strict [of "sort (lf_roots l)"] by simp
  then have "roots_ok C l" using r(2,6) by (simp add: roots_ok_def for_each_Inr)
  moreover have "entries_ok C l" "edges_ok C l"
    using r(4) check_entry_D [of C "lp_validate C" "lp_key C"] check_entry_D [of C "lw_validate C" "lw_key C"]
    unfolding check_graph_iff entries_ok_def by blast+
  ultimately show ?thesis using r(3,5) assms(2) by (simp add: lockfile_ok_def)
qed

lemma from_json_ok:
  assumes "from_json C J input = Inr l"
  shows "lockfile_ok C l \<and> lf_version l \<in> set supported_versions"
proof -
  obtain l1 digest where l1: "lf_version l1 \<in> set supported_versions" "canonical_artifact_digest (lf_root_manifest_digest l1) = Inr digest"
    "check_lockfile C (l1\<lparr>lf_root_manifest_digest := digest\<rparr>) = Inr l"
  proof -
    obtain wire ws digest where "lf_version (wire\<lparr>lf_workspace_packages := bm_of_list ws\<rparr>) \<in> set supported_versions"
      "canonical_artifact_digest (lf_root_manifest_digest (wire\<lparr>lf_workspace_packages := bm_of_list ws\<rparr>)) = Inr digest"
      "check_lockfile C ((wire\<lparr>lf_workspace_packages := bm_of_list ws\<rparr>)\<lparr>lf_root_manifest_digest := digest\<rparr>) = Inr l"
      using assms by (auto simp: from_json_def Let_def and_then_Inr split: if_splits)
    then show ?thesis by (rule that)
  qed
  have "canonical_digest digest"
    using l1(2) digest_Inr by (auto simp: canonical_artifact_digest_def map_err_Inr)
  with check_lockfile_ok [OF l1(3)] l1(1) show ?thesis by auto
qed

end
