(* ===== verification/Lockfile_Properties.thy ===== *)
theory Lockfile_Properties
  imports Lockfile_Facts
begin

text \<open>
  The properties of the lockfile, each with a concrete lockfile or key that satisfies its
  hypotheses.
\<close>

section \<open>A concrete lockfile\<close>

definition sample_digest :: string where
  "sample_digest = ''sha256-'' @ replicate 64 (CHR ''a'')"

definition sample_integrity :: string where
  "sample_integrity = ''sha512-'' @ r_encode (replicate 64 (CHR 0x07))"

definition sample_package :: "(lockfile_error, locked_package) result" where
  "sample_package = lp_new_with_provenance reference_crates ''https://registry.npmjs.org/'' ''@s/left'' ''1.0.0-2''
     sample_integrity sample_digest RegistryDeclared"

definition sample_key :: string where
  "sample_key = ''https://registry.npmjs.org|@s/left@1.0.0-2|peer=-|platform=os=;cpu=;libc=''"

definition sample_workspace :: "(lockfile_error, locked_workspace_package) result" where
  "sample_workspace =
     and_then (workspace_source_new reference_crates ''./packages//app'' ''app'' ''0.1.0'') (\<lambda>source.
     and_then (lw_new source sample_digest) (lw_add_alias_dependency reference_crates ''l'' sample_key))"

definition sample_build :: "(lockfile_error, lockfile) result" where
  "sample_build =
     and_then (lockfile_new sample_digest) (\<lambda>l.
     and_then sample_package (\<lambda>p.
     and_then sample_workspace (\<lambda>w.
     and_then (insert_graph reference_crates [p] [w] l) (\<lambda>l.
     set_roots reference_crates [sample_key] l))))"

lemma sample_build_ok: "ok_result sample_build" by code_simp

lemma sample_built:
  assumes "sample_build = Inr l"
  shows "built reference_crates l"
proof -
  obtain l0 p w l1 where s: "lockfile_new sample_digest = Inr l0"
    "insert_graph reference_crates [p] [w] l0 = Inr l1" "set_roots reference_crates [sample_key] l1 = Inr l"
    using assms unfolding sample_build_def and_then_Inr by blast
  show ?thesis by (rule built.roots [OF built.insert [OF built.new [OF s(1)] s(2)] s(3)])
qed

lemma sample_no_hooks:
  assumes "sample_build = Inr l"
  shows "list_all (\<lambda>p. lp_derived_hooks p = []) (bm_values (lf_packages l))"
proof -
  have "case sample_build of Inr l \<Rightarrow> list_all (\<lambda>p. lp_derived_hooks p = []) (bm_values (lf_packages l)) | Inl _ \<Rightarrow> False"
    by code_simp
  then show ?thesis by (simp add: assms)
qed

lemma sample_lockfile_ok:
  assumes "sample_build = Inr l"
  shows "lockfile_ok reference_crates l"
proof -
  have "hooks_placed reference_crates l"
    using sample_no_hooks [OF assms] by (auto simp: hooks_placed_def list_all_iff set_bm_values ran_def)
  then show ?thesis using built_source_ok [OF sample_built [OF assms]] hooks_placed_iff by blast
qed

text \<open>A serializer that knows one document.\<close>

definition one_document :: "lockfile \<Rightarrow> json" where
  "one_document l =
     \<lparr>json_to = (\<lambda>x. if x = l then Some ''{}'' else None),
      json_from = (\<lambda>s. if s = ''{}'' @ [CHR 0x0A] then Some l else None)\<rparr>"

lemma one_document_contract: "json_contract (one_document l)"
  by (simp add: json_contract_def one_document_def)

section \<open>Properties of the texts\<close>

text \<open>
  Percent encoding. Decoding an encoded string gives the string back, for every valid
  UTF-8 string, so encoding is injective; an encoded string holds none of the characters
  that delimit contexts and keys.
\<close>

theorem percent_encoding_roundtrip:
  assumes "utf8_valid s"
  shows "percent_decode (encode s) original = Inr s \<and>
    set (encode s) \<inter> {CHR '';'', CHR '','', CHR ''|'', CHR ''=''} = {} \<and> \<not> any_whitespace (encode s)"
proof -
  have "\<not> any_whitespace (encode s)"
    using encode_chars [of _ s] encoded_char_clean
    by (subst any_whitespace_ascii) (auto simp: list_all_iff list_ex_iff)
  then show ?thesis using percent_decode_encode [OF assms] encode_clean [of _ s] by blast
qed

theorem percent_encoding_roundtrip_witness:
  "encode ''a-b|c'' = ''a%2Db%7Cc'' \<and> percent_decode (encode ''a-b|c'') [] = Inr ''a-b|c''"
proof -
  have "utf8_valid ''a-b|c''" "encode ''a-b|c'' = ''a%2Db%7Cc''" by code_simp+
  then show ?thesis using percent_encoding_roundtrip [of "''a-b|c''" "[]"] by simp
qed

text \<open>
  Contexts. The canonical text of a peer context with valid names, and of a platform
  context with valid values, decodes to that context; and a text that decodes is the
  canonical text of its context, or empty.
\<close>

theorem context_texts_canonical:
  assumes "semver_contract C" and "peer_context_ok C peer" and "platform_ok platform"
  shows "decode_peer_context C (canonical_peer_context C peer) original = Inr peer \<and>
    decode_platform_context (canonical_platform_context platform) original = Inr platform \<and>
    (\<forall>s ctx. decode_peer_context C s original = Inr ctx \<longrightarrow> s = canonical_peer_context C ctx) \<and>
    (\<forall>s ctx. decode_platform_context s original = Inr ctx \<longrightarrow> s = [] \<or> s = canonical_platform_context ctx)"
proof -
  have "s = canonical_peer_context C ctx" if "decode_peer_context C s original = Inr ctx" for s ctx
    using that by (auto simp: decode_peer_context_def and_then_Inr canonical_peer_text split: if_splits)
  moreover have "s = [] \<or> s = canonical_platform_context ctx" if "decode_platform_context s original = Inr ctx" for s ctx
    using that by (auto simp: decode_platform_context_def and_then_Inr split: if_splits)
  ultimately show ?thesis
    using peer_context_roundtrip [OF assms(1,2)] platform_context_roundtrip [OF assms(3)] by blast
qed

theorem context_texts_canonical_witness:
  "decode_peer_context reference_crates ''name=a%2Db;version=1.0.0%2D2'' [] =
     Inr (bm_of_list [(''a-b'', RVersion 1 0 0 [2])]) \<and>
   decode_platform_context ''os=linux;cpu=x64;libc='' [] = Inr (PlatformContext (Some ''linux'') (Some ''x64'') None)"
proof -
  let ?peer = "bm_of_list [(''a-b'', RVersion 1 0 0 [2])]" and ?plat = "PlatformContext (Some ''linux'') (Some ''x64'') None"
  have peer: "canonical_peer_context reference_crates ?peer = ''name=a%2Db;version=1.0.0%2D2''"
    and plat: "canonical_platform_context ?plat = ''os=linux;cpu=x64;libc=''" by code_simp+
  have "package_name_from_str ''a-b'' = Inr ''a-b''" by code_simp
  then have "valid_package_name ''a-b''" by (simp add: package_name_Inr)
  then have ok: "peer_context_ok reference_crates ?peer"
    by (simp add: peer_context_ok_def bm_of_list_def reference_crates_def)
  have "\<not> platform_value_bad ''linux''" "\<not> platform_value_bad ''x64''" "utf8_valid ''linux''" "utf8_valid ''x64''" by code_simp+
  then have "platform_ok ?plat" unfolding platform_ok_def platform_context.sel by blast
  from context_texts_canonical [OF reference_semver ok this, of "[]"] show ?thesis unfolding peer plat by blast
qed

text \<open>
  Package keys. The text of a well-formed key parses to that key, so distinct keys have
  distinct texts; and every text that parses is the printed form of what it parses to.
\<close>

lemma package_key_text_roundtrip:
  assumes "semver_contract C" and "url_contract C" and "key_ok C k"
  shows "key_from_str C (key_to_string C k) = Inr k \<and>
    (\<forall>j. key_ok C j \<and> key_to_string C j = key_to_string C k \<longrightarrow> j = k) \<and>
    (\<forall>s j. key_from_str C s = Inr j \<longrightarrow> key_to_string C j = s)"
  using key_roundtrip [OF assms] key_inject [OF assms(1,2) _ assms(3)] key_text_of_parse by blast

lemma package_key_text_roundtrip_witness:
  "\<exists>k. key_to_string reference_crates k = sample_key \<and> key_from_str reference_crates sample_key = Inr k"
proof -
  let ?k = "key_with_source reference_crates (Registry ''https://registry.npmjs.org'') ''@s/left'' (RVersion 1 0 0 [2])
    bm_empty (PlatformContext None None None)"
  have "registry_origin_from_str reference_crates ''https://registry.npmjs.org'' = Inr ''https://registry.npmjs.org''"
    and "package_name_from_str ''@s/left'' = Inr ''@s/left''" by code_simp+
  then have src: "source_ok reference_crates (Registry ''https://registry.npmjs.org'')"
    and name: "valid_package_name ''@s/left''" by (simp_all add: package_name_Inr)
  have t: "key_to_string reference_crates ?k = sample_key" by code_simp
  have "key_ok reference_crates ?k"
    by (rule key_with_source_ok [OF reference_semver src name])
      (simp_all add: reference_crates_def peer_context_ok_def platform_ok_def workspace_of_def)
  from package_key_text_roundtrip [OF reference_semver reference_url this] t show ?thesis by auto
qed

section \<open>Properties of the lockfile\<close>




lemma sample_written:
  assumes l: "sample_build = Inr l"
  shows "to_json reference_crates (one_document l) l = Inr (''{}'' @ [CHR 0x0A])"
proof -
  have "case sample_build of Inr l \<Rightarrow> \<not> missing_roots l \<and> ok_result (validate_alias_schema reference_crates l) \<and>
      ok_result (check_provenance reference_crates l) | Inl _ \<Rightarrow> False"
    by code_simp
  then have "\<not> missing_roots l" "validate_alias_schema reference_crates l = Inr ()" "check_provenance reference_crates l = Inr ()"
    by (auto simp: l ok_result_iff)
  then show ?thesis by (simp add: to_json_def one_document_def)
qed

text \<open>A copied package whose hook outputs are recorded.\<close>

definition sample_copied :: "(lockfile_error, locked_package) result" where
  "sample_copied = lp_new_with_provenance reference_crates (''file:vendor/left#'' @ sample_digest) ''left'' ''1.0.0''
     sample_integrity sample_digest RegistryDeclared"

definition sample_copied_key :: string where
  "sample_copied_key = ''file:vendor/left#'' @ sample_digest @ ''|left@1.0.0|peer=-|platform=os=;cpu=;libc=''"

definition sample_hooks :: "derived_hook_output list" where
  "sample_hooks = [\<lparr>dh_attestation = ''hmac-sha256-'' @ replicate 64 (CHR ''0''), dh_hook = ''install'',
     dh_key = sample_digest, dh_tree_digest = sample_digest\<rparr>]"

definition sample_copied_build :: "(lockfile_error, lockfile) result" where
  "sample_copied_build =
     and_then (lockfile_new sample_digest) (\<lambda>l.
     and_then sample_copied (\<lambda>p.
     and_then (insert_graph reference_crates [p] [] l) (\<lambda>l.
     and_then (set_roots reference_crates [sample_copied_key] l) (\<lambda>l.
     set_derived_hooks sample_copied_key sample_hooks l))))"

lemma sample_copied_built:
  assumes "sample_copied_build = Inr l"
  shows "built reference_crates l"
proof -
  obtain l0 p l1 l2 where s: "lockfile_new sample_digest = Inr l0"
    "insert_graph reference_crates [p] [] l0 = Inr l1" "set_roots reference_crates [sample_copied_key] l1 = Inr l2"
    "set_derived_hooks sample_copied_key sample_hooks l2 = Inr l"
    using assms unfolding sample_copied_build_def and_then_Inr by blast
  show ?thesis by (rule built.hooks [OF built.roots [OF built.insert [OF built.new [OF s(1)] s(2)] s(3)] s(4)])
qed

lemma sample_copied_written:
  obtains l where "sample_copied_build = Inr l"
    "to_json reference_crates (one_document l) l = Inr (''{}'' @ [CHR 0x0A])"
    "\<exists>p\<in>set (bm_values (lf_packages l)). copied_package reference_crates p \<and> lp_derived_hooks p \<noteq> []"
proof -
  have "case sample_copied_build of Inl _ \<Rightarrow> False | Inr l \<Rightarrow> \<not> missing_roots l \<and>
      ok_result (validate_alias_schema reference_crates l) \<and> ok_result (check_provenance reference_crates l) \<and>
      list_ex (\<lambda>p. copied_package reference_crates p \<and> lp_derived_hooks p \<noteq> []) (bm_values (lf_packages l))"
    by code_simp
  then obtain l where l: "sample_copied_build = Inr l" "\<not> missing_roots l" "validate_alias_schema reference_crates l = Inr ()"
    "check_provenance reference_crates l = Inr ()"
    "list_ex (\<lambda>p. copied_package reference_crates p \<and> lp_derived_hooks p \<noteq> []) (bm_values (lf_packages l))"
    by (auto simp: ok_result_iff split: sum.splits)
  then have "to_json reference_crates (one_document l) l = Inr (''{}'' @ [CHR 0x0A])"
    by (simp add: to_json_def one_document_def)
  with that l(1,5) show ?thesis by (auto simp: list_ex_iff)
qed


text \<open>
  C6. Reading checks everything. Whatever text is read, an accepted lockfile has a supported
  version and satisfies the full invariant: valid entries under their own keys, no
  dangling dependency or root, canonical roots, bindings, schema and manifest digest.
\<close>

theorem accepted_lockfile_valid:
  assumes "from_json C J input = Inr l"
  shows "lockfile_ok C l \<and> lf_version l \<in> {4, 5, 6, 7, 9, 10}"
  using from_json_ok [OF assms] by (auto simp: supported_versions_def lockfile_versions)

definition empty_lockfile :: lockfile where
  "empty_lockfile =
     \<lparr>lf_version = 7, lf_root_manifest_digest = sample_digest, lf_resolver_version = ''0'', lf_linker_version = ''0'',
      lf_roots = [], lf_root_bindings = bm_empty, lf_packages = bm_empty, lf_workspace_packages = bm_empty\<rparr>"

theorem accepted_lockfile_valid_witness:
  "\<exists>l. from_json reference_crates (one_document empty_lockfile) (''{}'' @ [CHR 0x0A]) = Inr l \<and>
     lockfile_ok reference_crates l"
proof -
  have "json_from (one_document empty_lockfile) (''{}'' @ [CHR 0x0A]) = Some empty_lockfile"
    by (simp add: one_document_def)
  moreover have "ok_result (from_json reference_crates \<lparr>json_to = (\<lambda>_. None), json_from = (\<lambda>_. Some empty_lockfile)\<rparr> [])"
    by code_simp
  ultimately obtain l where "from_json reference_crates (one_document empty_lockfile) (''{}'' @ [CHR 0x0A]) = Inr l"
    unfolding ok_result_iff from_json_def by auto
  with accepted_lockfile_valid [OF this] show ?thesis by blast
qed

text \<open>
  Insertion. A successful insertion stores every given package under its own key, none of
  which was in use; it keeps every entry there was, adds nothing else, and leaves the roots,
  their bindings and the manifest digest as they were.
\<close>

theorem insert_graph_adds_exactly:
  assumes "insert_graph C rs ws l = Inr l'"
  shows "(\<forall>p\<in>set rs. \<exists>key. lp_key C p = Inr key \<and> \<not> contains_package_key l key \<and> bm_get (lf_packages l') key = Some p) \<and>
    (\<forall>p\<in>set ws. \<exists>key. lw_key C p = Inr key \<and> \<not> contains_package_key l key \<and> bm_get (lf_workspace_packages l') key = Some p) \<and>
    (\<forall>key p. bm_get (lf_packages l') key = Some p \<longrightarrow> bm_get (lf_packages l) key = Some p \<or> p \<in> set rs) \<and>
    (\<forall>key p. bm_get (lf_workspace_packages l') key = Some p \<longrightarrow> bm_get (lf_workspace_packages l) key = Some p \<or> p \<in> set ws) \<and>
    (\<forall>key p. bm_get (lf_packages l) key = Some p \<longrightarrow> bm_get (lf_packages l') key = Some p) \<and>
    (\<forall>key p. bm_get (lf_workspace_packages l) key = Some p \<longrightarrow> bm_get (lf_workspace_packages l') key = Some p) \<and>
    lf_roots l' = lf_roots l \<and> lf_root_bindings l' = lf_root_bindings l \<and>
    lf_root_manifest_digest l' = lf_root_manifest_digest l"
  using assms
proof (rule insert_graph_D)
  fix rb wb
  assume b: "registry_batch C (contains_package_key l) rs bm_empty = Inr rb"
    "workspace_batch C (\<lambda>k. contains_package_key l k \<or> bm_contains_key rb k) ws bm_empty = Inr wb"
    and l': "l' = l\<lparr>lf_version := (if list_ex (copied_package C) rs then COPIED_SOURCE_LOCKFILE_VERSION else lf_version l),
            lf_packages := bm_extend (lf_packages l) (bm_entries rb),
            lf_workspace_packages := bm_extend (lf_workspace_packages l) (bm_entries wb)\<rparr>"
  have r: "p \<in> set rs \<and> \<not> contains_package_key l key" if "bm_get rb key = Some p" for key p
    using rbatch.collect_sound [OF b(1) that] by simp
  have w: "p \<in> set ws \<and> \<not> contains_package_key l key" if "bm_get wb key = Some p" for key p
    using wbatch.collect_sound [OF b(2) that] by simp
  have old: "bm_get rb key = None" if "bm_get (lf_packages l) key = Some p" for key p
    using r [of key] that by (cases "bm_get rb key") (auto simp: contains_package_key_def bm_contains_key_def)
  have old': "bm_get wb key = None" if "bm_get (lf_workspace_packages l) key = Some p" for key p
    using w [of key] that by (cases "bm_get wb key") (auto simp: contains_package_key_def bm_contains_key_def)
  have g: "bm_get (lf_packages l') key = Some p \<longleftrightarrow> bm_get rb key = Some p \<or> bm_get rb key = None \<and> bm_get (lf_packages l) key = Some p"
    "bm_get (lf_workspace_packages l') key = Some q \<longleftrightarrow>
       bm_get wb key = Some q \<or> bm_get wb key = None \<and> bm_get (lf_workspace_packages l) key = Some q" for key p q
    by (simp_all add: l' extend_Some)
  have rest: "lf_roots l' = lf_roots l" "lf_root_bindings l' = lf_root_bindings l"
    "lf_root_manifest_digest l' = lf_root_manifest_digest l" by (simp_all add: l')
  show ?thesis
    unfolding g rest
    using rbatch.collect_complete [OF b(1)] wbatch.collect_complete [OF b(2)] r w old old' by blast
qed

theorem insert_graph_adds_exactly_witness:
  "\<exists>l p w l' key. lockfile_new sample_digest = Inr l \<and> sample_package = Inr p \<and>
     insert_graph reference_crates [p] [w] l = Inr l' \<and> lp_key reference_crates p = Inr key \<and>
     bm_get (lf_packages l') key = Some p"
proof -
  obtain m where "sample_build = Inr m" using sample_build_ok by (auto simp: ok_result_iff)
  then obtain l p w l' where s: "lockfile_new sample_digest = Inr l" "sample_package = Inr p"
    "insert_graph reference_crates [p] [w] l = Inr l'"
    unfolding sample_build_def and_then_Inr by blast
  show ?thesis
    using insert_graph_adds_exactly [OF s(3)] s by (metis list.set_intros(1))
qed

text \<open>
  Replay. A lockfile is accepted for replay exactly when the current manifest digest, in
  any letter case, is its recorded one, its schema is not the legacy version without
  integrity provenance, and no package's integrity was only computed locally.
\<close>

theorem replay_accepted_iff:
  "validate_replay current l = Inr () \<longleftrightarrow>
     artifact_digest_from_str current = Inr (lf_root_manifest_digest l) \<and> lf_version l \<noteq> 5 \<and>
     Some False \<notin> lp_registry_integrity_declared ` ran (bm_get (lf_packages l))"
proof -
  have "find (\<lambda>(key, p). lp_registry_integrity_declared p = Some False) (bm_entries (lf_packages l)) = None \<longleftrightarrow>
      Some False \<notin> lp_registry_integrity_declared ` ran (bm_get (lf_packages l))"
    by (auto simp: find_None_iff ran_def bm_get_in_entries image_iff) metis
  then show ?thesis
    by (auto simp: validate_replay_def canonical_artifact_digest_def and_then_Inr map_err_Inr lockfile_versions
        split: option.splits)
qed

lemma hook_rank_bound: "hook_rank h = Some r \<Longrightarrow> r \<le> 2"
  by (auto simp: hook_rank_def split: if_splits)

lemma check_hook_digest_Inr: "check_hook_digest d = Inr () \<Longrightarrow> canonical_digest d"
  using digest_Inr by (auto simp: check_hook_digest_def canonical_artifact_digest_def and_then_Inr map_err_Inr split: if_splits)

lemma validate_hooks_from_D:
  assumes "validate_hooks_from previous outputs = Inr ()"
  shows "sorted_wrt (\<lambda>a b. the (hook_rank (dh_hook a)) < the (hook_rank (dh_hook b))) outputs \<and>
    (\<forall>o1\<in>set outputs. hook_rank (dh_hook o1) \<noteq> None \<and> canonical_digest (dh_key o1) \<and> canonical_digest (dh_tree_digest o1) \<and>
       (\<forall>p. previous = Some p \<longrightarrow> p < the (hook_rank (dh_hook o1))))"
  using assms
proof (induction outputs arbitrary: previous)
  case (Cons o1 rest)
  obtain rank where r: "hook_rank (dh_hook o1) = Some rank" "\<forall>p. previous = Some p \<longrightarrow> p < rank"
    "check_hook_digest (dh_key o1) = Inr ()" "check_hook_digest (dh_tree_digest o1) = Inr ()"
    "validate_hooks_from (Some rank) rest = Inr ()"
    using Cons.prems by (auto simp: and_then_Inr not_le split: option.splits if_splits)
  have "sorted_wrt (\<lambda>a b. the (hook_rank (dh_hook a)) < the (hook_rank (dh_hook b))) rest \<and>
    (\<forall>o1\<in>set rest. hook_rank (dh_hook o1) \<noteq> None \<and> canonical_digest (dh_key o1) \<and> canonical_digest (dh_tree_digest o1) \<and>
       rank < the (hook_rank (dh_hook o1)))"
    using Cons.IH [OF r(5)] by blast
  then show ?case
    using r check_hook_digest_Inr by (auto intro: order.strict_trans)
qed simp

text \<open>
  Hook outputs. Accepted hook outputs are in the order in which the hooks run, each hook
  at most once, and every recorded derivation key and tree digest is a canonical digest;
  so there are at most three, and the tree activated for installation is canonical.
\<close>

theorem accepted_hook_outputs_ordered:
  assumes "validate_derived_hooks outputs = Inr ()"
  shows "sorted_wrt (\<lambda>a b. the (hook_rank (dh_hook a)) < the (hook_rank (dh_hook b))) outputs \<and>
    distinct (map dh_hook outputs) \<and> length outputs \<le> 3 \<and>
    list_all (\<lambda>h. canonical_digest (dh_key h) \<and> canonical_digest (dh_tree_digest h)) outputs"
proof -
  note D = validate_hooks_from_D [OF assms [unfolded validate_derived_hooks_def]]
  let ?rank = "\<lambda>h. the (hook_rank h)"
  have s: "sorted_wrt (\<lambda>a b. ?rank (dh_hook a) < ?rank (dh_hook b)) outputs"
    using D by blast
  then have "sorted_wrt (<) (map ?rank (map dh_hook outputs))"
    by (simp add: sorted_wrt_map)
  then have d: "distinct (map ?rank (map dh_hook outputs))"
    by (simp add: strict_sorted_iff)
  have "set (map ?rank (map dh_hook outputs)) \<subseteq> {..2}"
    using D hook_rank_bound by fastforce
  then have "card (set (map ?rank (map dh_hook outputs))) \<le> 3"
    using card_mono [of "{..2::nat}"] by fastforce
  then have "length outputs \<le> 3"
    using distinct_card [OF d] by simp
  moreover have "distinct (map dh_hook outputs)" using d by (metis distinct_map)
  moreover have "list_all (\<lambda>h. canonical_digest (dh_key h) \<and> canonical_digest (dh_tree_digest h)) outputs"
    using D by (simp add: list_all_iff)
  ultimately show ?thesis using s by blast
qed

theorem accepted_hook_outputs_ordered_witness:
  "let outs = map (\<lambda>h. \<lparr>dh_attestation = ''hmac-sha256-'' @ replicate 64 CHR ''0'', dh_hook = h, dh_key = sample_digest, dh_tree_digest = sample_digest\<rparr>)
        [''preinstall'', ''install'', ''postinstall'']
   in validate_derived_hooks outs = Inr () \<and> distinct (map dh_hook outs)"
proof -
  define outs where "outs = map (\<lambda>h. \<lparr>dh_attestation = ''hmac-sha256-'' @ replicate 64 CHR ''0'', dh_hook = h, dh_key = sample_digest, dh_tree_digest = sample_digest\<rparr>)
        [''preinstall'', ''install'', ''postinstall'']"
  have "validate_derived_hooks outs = Inr ()" unfolding outs_def by code_simp
  with accepted_hook_outputs_ordered [OF this] show ?thesis unfolding outs_def Let_def by blast
qed

end
