(* ===== verification/Rust_Path.thy ===== *)
theory Rust_Path
  imports Rust_Collections
begin

text \<open>
  Prelude, part three: \<open>std::path\<close> on Unix. A path is what \<open>Path::components\<close> yields,
  since equality and order of paths are those of their components: whether there is a root
  component, and the names after it, where \<open>..\<close> is the parent component; repeated separators
  and \<open>.\<close> have vanished. No path of the model is built from a text with a leading \<open>.\<close>.
\<close>

datatype path = Path (path_absolute: bool) (path_names: "string list")

text \<open>The order of the components: the root first, then parents, then names by their bytes.\<close>

definition component_key :: "string \<Rightarrow> nat \<times> string" where
  "component_key p = (if p = ''..'' then (2, []) else (3, p))"

definition path_key :: "path \<Rightarrow> (nat \<times> string) list" where
  "path_key p = (if path_absolute p then [(0, [])] else []) @ map component_key (path_names p)"

lemma component_key_inject [simp]: "component_key a = component_key b \<longleftrightarrow> a = b"
  by (auto simp: component_key_def)

lemma component_key_root [simp]: "component_key a \<noteq> (0, [])" "(0, []) \<noteq> component_key a"
  by (auto simp: component_key_def)

lemma path_key_inject: "path_key p = path_key q \<longleftrightarrow> p = q"
proof -
  have "inj component_key" by (rule injI) simp
  then show ?thesis
    by (cases p; cases q) (auto simp: path_key_def inj_map_eq_map Cons_eq_map_conv map_eq_Cons_conv)
qed

instantiation path :: linorder
begin

definition less_eq_path :: "path \<Rightarrow> path \<Rightarrow> bool" where
  "less_eq_path p q \<longleftrightarrow> path_key p \<le> path_key q"

definition less_path :: "path \<Rightarrow> path \<Rightarrow> bool" where
  "less_path p q \<longleftrightarrow> path_key p < path_key q"

instance
  by standard (auto simp: less_eq_path_def less_path_def path_key_inject [symmetric])

end

text \<open>The names of a text, and \<open>Path::join\<close> with a path and with a text.\<close>

definition names_of :: "string \<Rightarrow> string list" where
  "names_of s = filter (\<lambda>p. p \<noteq> [] \<and> p \<noteq> ''.'') (split_char (CHR ''/'') s)"

definition path_of :: "string \<Rightarrow> path" where
  "path_of s = Path (prefix ''/'' s) (names_of s)"

definition path_join :: "path \<Rightarrow> path \<Rightarrow> path" where
  "path_join p q = (if path_absolute q then q else Path (path_absolute p) (path_names p @ path_names q))"

definition path_push :: "path \<Rightarrow> string \<Rightarrow> path" where
  "path_push p s = path_join p (path_of s)"

definition has_parent_dir :: "path \<Rightarrow> bool" where
  "has_parent_dir p \<longleftrightarrow> ''..'' \<in> set (path_names p)"

text \<open>\<open>Path::starts_with\<close>, which is also when \<open>Path::strip_prefix\<close> succeeds.\<close>

definition path_starts_with :: "path \<Rightarrow> path \<Rightarrow> bool" where
  "path_starts_with p base \<longleftrightarrow> path_absolute p = path_absolute base \<and> prefix (path_names base) (path_names p) \<or>
     \<not> path_absolute base \<and> path_names base = []"

lemma path_join_relative [simp]:
  "\<not> path_absolute q \<Longrightarrow> path_join p q = Path (path_absolute p) (path_names p @ path_names q)"
  by (simp add: path_join_def)

lemma path_of_single:
  "s \<noteq> [] \<Longrightarrow> s \<noteq> ''.'' \<Longrightarrow> CHR ''/'' \<notin> set s \<Longrightarrow> path_of s = Path False [s]"
  by (auto simp: path_of_def names_of_def split_char_no_sep prefix_def)

lemma path_push_single:
  "s \<noteq> [] \<Longrightarrow> s \<noteq> ''.'' \<Longrightarrow> CHR ''/'' \<notin> set s \<Longrightarrow>
   path_push p s = Path (path_absolute p) (path_names p @ [s])"
  by (simp add: path_push_def path_of_single)

end
