(* ===== verification/Linker.thy ===== *)
theory Linker
  imports Core_Facts Rust_Path
begin

text \<open>
  The crate \<open>tapid-linker\<close>: the pure planner that decides where every package instance is
  stored and where it is linked in \<open>node_modules\<close>. Modelled are \<open>layout.rs\<close>,
  \<open>workspace.rs\<close> and \<open>platform.rs\<close>, on Unix paths. SHA-256 is a third-party
  function, here an argument that gives the lower-case hexadecimal digest of a byte string.
\<close>

section \<open>Data\<close>

datatype platform = Unix | Windows | Other

datatype capability = Supported | Unsupported

record platform_capabilities =
  pc_platform :: platform
  pc_symlink :: capability
  pc_junction :: capability
  pc_process_sandbox :: capability
  pc_limitations :: "string list"

definition for_platform :: "platform \<Rightarrow> platform_capabilities" where
  "for_platform p =
     (case p of
        Unix \<Rightarrow> \<lparr>pc_platform = p, pc_symlink = Supported, pc_junction = Unsupported, pc_process_sandbox = Unsupported,
          pc_limitations = [''This crate plans links only; it does not enforce process sandboxing.'']\<rparr>
      | Windows \<Rightarrow> \<lparr>pc_platform = p, pc_symlink = Supported, pc_junction = Supported, pc_process_sandbox = Unsupported,
          pc_limitations = [''Link mutation and process sandboxing are outside this planning crate.'']\<rparr>
      | Other \<Rightarrow> \<lparr>pc_platform = p, pc_symlink = Unsupported, pc_junction = Unsupported, pc_process_sandbox = Unsupported,
          pc_limitations = [''This platform has no supported link strategy in this release.'',
            ''Process sandboxing is not provided.'']\<rparr>)"

text \<open>\<open>LinkPanicked\<close> stands for a failed \<open>expect\<close> or map index; the source has no such error.\<close>

datatype 'v plan_error =
    InvalidTreeDigest string
  | TreeRootMustBeAbsolute path
  | InvalidManagedRoot path
  | PathOutsideManagedRoot path
  | DuplicateInstance "'v package_id"
  | UnknownInstance "'v package_id"
  | UnknownParent "'v package_id"
  | ConflictingTarget path
  | UnsupportedPlatform platform
  | InvalidPackageMetadata string
  | BinTargetMissing path
  | BinTargetNotRegular path
  | ShimCollision path
  | LinkPanicked string

record verified_tree_reference =
  vt_digest :: string
  vt_root :: path

definition verified_tree_new :: "string \<Rightarrow> path \<Rightarrow> ('v plan_error, verified_tree_reference) result" where
  "verified_tree_new digest root =
     (if \<not> prefix ''sha256-'' digest \<or> length digest \<noteq> 71 \<or> \<not> list_all is_ascii_hexdigit (drop 7 digest)
      then Inl (InvalidTreeDigest digest)
      else if \<not> path_absolute root then Inl (TreeRootMustBeAbsolute root)
      else Inr \<lparr>vt_digest = to_ascii_lowercase digest, vt_root = root\<rparr>)"

record managed_root =
  mr_path :: path
  mr_ownership_marker :: path

definition managed_root_new :: "path \<Rightarrow> ('v plan_error, managed_root) result" where
  "managed_root_new path =
     (if \<not> path_absolute path \<or> has_parent_dir path then Inl (InvalidManagedRoot path)
      else Inr \<lparr>mr_path = path, mr_ownership_marker = path_push path ''.tapid-managed''\<rparr>)"

definition managed_contains :: "managed_root \<Rightarrow> path \<Rightarrow> bool" where
  "managed_contains root candidate \<longleftrightarrow>
     path_absolute candidate \<and> \<not> has_parent_dir candidate \<and> path_starts_with candidate (mr_path root)"

record 'v package_instance =
  pi_id :: "'v package_id"
  pi_peer_context :: "'v peer_context"
  pi_platform_context :: platform_context
  pi_tree :: verified_tree_reference

datatype 'v instance_key = InstanceKey
  (ik_id: "'v package_id") (ik_peer_context: "'v peer_context") (ik_platform_context: platform_context)

instantiation instance_key :: (linorder) linorder
begin

definition less_eq_instance_key :: "'a instance_key \<Rightarrow> 'a instance_key \<Rightarrow> bool" where
  "less_eq_instance_key a b \<longleftrightarrow>
     (ik_id a, ik_peer_context a, ik_platform_context a) \<le> (ik_id b, ik_peer_context b, ik_platform_context b)"

definition less_instance_key :: "'a instance_key \<Rightarrow> 'a instance_key \<Rightarrow> bool" where
  "less_instance_key a b \<longleftrightarrow>
     (ik_id a, ik_peer_context a, ik_platform_context a) < (ik_id b, ik_peer_context b, ik_platform_context b)"

instance
  by standard (auto simp: less_eq_instance_key_def less_instance_key_def intro: instance_key.expand)

end

definition key_of :: "('v::linorder) package_instance \<Rightarrow> 'v instance_key" where
  "key_of i = InstanceKey (pi_id i) (pi_peer_context i) (pi_platform_context i)"

record 'v dependency_edge =
  de_parent :: "'v instance_key"
  de_child :: "'v instance_key"

record 'v layout_input =
  li_instances :: "'v package_instance list"
  li_root_dependencies :: "'v instance_key list"
  li_dependency_edges :: "'v dependency_edge list"

text \<open>An import name bound to an actual package instance.\<close>

datatype 'v named_dependency = NamedDependency (nd_name: string) (nd_child: "'v instance_key")

instantiation named_dependency :: (linorder) linorder
begin

definition less_eq_named_dependency :: "'a named_dependency \<Rightarrow> 'a named_dependency \<Rightarrow> bool" where
  "less_eq_named_dependency a b \<longleftrightarrow> (nd_name a, nd_child a) \<le> (nd_name b, nd_child b)"

definition less_named_dependency :: "'a named_dependency \<Rightarrow> 'a named_dependency \<Rightarrow> bool" where
  "less_named_dependency a b \<longleftrightarrow> (nd_name a, nd_child a) < (nd_name b, nd_child b)"

instance
  by standard (auto simp: less_eq_named_dependency_def less_named_dependency_def intro: named_dependency.expand)

end

record 'v named_dependency_edge =
  ne_parent :: "'v instance_key"
  ne_dependency :: "'v named_dependency"

record 'v named_layout_input =
  ni_instances :: "'v package_instance list"
  ni_root_dependencies :: "'v named_dependency list"
  ni_dependency_edges :: "'v named_dependency_edge list"

definition named_input_of :: "('v::linorder) layout_input \<Rightarrow> 'v named_layout_input" where
  "named_input_of input =
     \<lparr>ni_instances = li_instances input,
      ni_root_dependencies = map (\<lambda>child. NamedDependency (id_name (ik_id child)) child) (li_root_dependencies input),
      ni_dependency_edges = map (\<lambda>e. \<lparr>ne_parent = de_parent e,
        ne_dependency = NamedDependency (id_name (ik_id (de_child e))) (de_child e)\<rparr>) (li_dependency_edges input)\<rparr>"

record 'v materialization_entry =
  me_instance :: "'v package_id"
  me_peer_context :: string
  me_platform_context :: string
  me_source :: path
  me_target :: path

datatype link_kind = Symlink | Junction

record activation_step =
  as_kind :: link_kind
  as_source :: path
  as_target :: path

record 'v materialization_plan =
  mp_managed_root :: managed_root
  mp_ownership_marker :: path
  mp_entries :: "'v materialization_entry list"
  mp_activation :: "activation_step list"

section \<open>Path components\<close>

definition registry_component :: "(string \<Rightarrow> string) \<Rightarrow> package_source \<Rightarrow> string" where
  "registry_component sha256 reg = ''registry-'' @ sha256 (identity reg)"

definition safe_char :: "char \<Rightarrow> bool" where
  "safe_char c \<longleftrightarrow> is_ascii_alphanumeric c \<or> c \<in> {CHR ''-'', CHR ''_'', CHR ''.'', CHR ''@''}"

definition safe_component :: "string \<Rightarrow> string" where
  "safe_component value = map (\<lambda>g. if length g = 1 \<and> safe_char (hd g) then hd g else CHR ''_'') (char_groups value)"

definition encode_path_byte :: "char \<Rightarrow> string" where
  "encode_path_byte c =
     (if is_ascii_alphanumeric c \<or> c \<in> {CHR ''_'', CHR ''.'', CHR ''@''} then [c]
      else [CHR ''%'', hex_upper (byte c div 16), hex_upper (byte c mod 16)])"

definition encode_path_component :: "string \<Rightarrow> string" where
  "encode_path_component value = concat (map encode_path_byte value)"

definition platform_component_key :: "platform_context \<Rightarrow> string" where
  "platform_component_key p =
     (let field = (\<lambda>f. encode_path_component (case f of None \<Rightarrow> [] | Some v \<Rightarrow> v)) in
      ''os-'' @ field (ctx_os p) @ ''--cpu-'' @ field (ctx_cpu p) @ ''--libc-'' @ field (ctx_libc p))"

definition platform_sort_key :: "platform_context \<Rightarrow> string" where
  "platform_sort_key p = platform_component_key p"

definition context_suffix :: "('v::linorder) crates \<Rightarrow> 'v peer_context \<Rightarrow> platform_context \<Rightarrow> string" where
  "context_suffix C peer plat =
     (let peer_text = (if peer_context_to_string C peer = [] then ''no-peer''
            else safe_component (peer_context_to_string C peer));
          platform_text = (if platform_context_to_string plat = [] then ''no-platform''
            else platform_component_key plat)
      in ''peer='' @ peer_text @ ''__platform='' @ platform_text)"

text \<open>Each part of the name is pushed as one component; the parts of a package name are never empty or \<open>.\<close>.\<close>

definition package_name_path :: "string \<Rightarrow> path" where
  "package_name_path value = Path False (filter (\<lambda>p. p \<noteq> []) (split_char (CHR ''/'') value))"

definition storage_path ::
  "('v::linorder) crates \<Rightarrow> (string \<Rightarrow> string) \<Rightarrow> managed_root \<Rightarrow> 'v package_id \<Rightarrow> 'v peer_context \<Rightarrow> platform_context \<Rightarrow> path" where
  "storage_path C sha256 root pid peer plat =
     path_push (path_push (path_push (path_join (path_push (path_push (mr_path root) ''.tapid'') ''instances'')
       (package_name_path (id_name pid))) (sv_to_string C (id_version pid)))
       (registry_component sha256 (id_registry pid))) (context_suffix C peer plat)"

definition plan_entry :: "('v::linorder) crates \<Rightarrow> path \<Rightarrow> 'v package_instance \<Rightarrow> 'v materialization_entry" where
  "plan_entry C target i =
     \<lparr>me_instance = pi_id i, me_peer_context = peer_context_to_string C (pi_peer_context i),
      me_platform_context = platform_context_to_string (pi_platform_context i),
      me_source = vt_root (pi_tree i), me_target = target\<rparr>"

section \<open>Flat materialization\<close>

definition materialization_order ::
  "('v::linorder) crates \<Rightarrow> 'v package_instance \<Rightarrow> 'v package_id \<times> string \<times> string" where
  "materialization_order C i =
     (pi_id i, peer_context_to_string C (pi_peer_context i), platform_sort_key (pi_platform_context i))"

fun check_duplicates :: "('v::linorder) package_instance list \<Rightarrow> ('v plan_error, unit) result" where
  "check_duplicates (a # b # rest) =
     (if key_of a = key_of b then Inl (DuplicateInstance (pi_id a)) else check_duplicates (b # rest))"
| "check_duplicates _ = Inr ()"

fun materialize_all ::
  "('v::linorder) crates \<Rightarrow> (string \<Rightarrow> string) \<Rightarrow> managed_root \<Rightarrow> 'v package_instance list \<Rightarrow>
   'v materialization_entry list \<times> activation_step list \<Rightarrow>
   ('v plan_error, 'v materialization_entry list \<times> activation_step list) result" where
  "materialize_all C sha256 root [] acc = Inr acc"
| "materialize_all C sha256 root (i # rest) acc =
     (let (entries, steps) = acc;
          target = storage_path C sha256 root (pi_id i) (pi_peer_context i) (pi_platform_context i);
          link = path_join (path_push (mr_path root) ''node_modules'') (package_name_path (id_name (pi_id i)))
      in
      if \<not> managed_contains root target then Inl (PathOutsideManagedRoot target)
      else if \<not> managed_contains root link then Inl (PathOutsideManagedRoot link)
      else if list_ex (\<lambda>s. as_target s = link) steps then Inl (ConflictingTarget link)
      else materialize_all C sha256 root rest
        (entries @ [plan_entry C target i], steps @ [\<lparr>as_kind = Symlink, as_source = target, as_target = link\<rparr>]))"

definition plan_materialization ::
  "('v::linorder) crates \<Rightarrow> (string \<Rightarrow> string) \<Rightarrow> managed_root \<Rightarrow> 'v package_instance list \<Rightarrow>
   ('v plan_error, 'v materialization_plan) result" where
  "plan_materialization C sha256 root instances0 =
     (let instances = sort_key (materialization_order C) instances0 in
      and_then (check_duplicates instances) (\<lambda>_.
      and_then (materialize_all C sha256 root instances ([], [])) (\<lambda>(entries, steps).
      Inr \<lparr>mp_managed_root = root, mp_ownership_marker = mr_ownership_marker root,
           mp_entries = entries, mp_activation = steps\<rparr>)))"

end
