(* ===== verification/Linker_Layout.thy ===== *)
theory Linker_Layout
  imports Linker
begin

text \<open>
  The nested layout of \<open>layout.rs\<close>: registry packages are hoisted to the outermost
  \<open>node_modules\<close> directory where their name is not taken by another instance, breadth
  first from the direct dependencies; a dependency that already resolves to the right
  instance is left alone; a repeated lookup state ends a cycle. \<open>plan_workspace_layout\<close>
  reserves the names of workspace members, whose links \<open>workspace.rs\<close> plans.
\<close>

section \<open>Workspace links\<close>

record 'v workspace_package =
  wp_root :: path
  wp_name :: string
  wp_version :: 'v

record 'v workspace_link =
  wl_name :: string
  wl_version :: 'v
  wl_source :: path
  wl_target :: path

definition valid_relative_root :: "path \<Rightarrow> bool" where
  "valid_relative_root p \<longleftrightarrow> path_names p \<noteq> [] \<and> \<not> path_absolute p \<and> \<not> has_parent_dir p"

text \<open>\<open>strip_prefix\<close> succeeds and leaves something.\<close>

definition strictly_below :: "path \<Rightarrow> path \<Rightarrow> bool" where
  "strictly_below base p \<longleftrightarrow> path_starts_with p base \<and> p \<noteq> base"

fun link_packages ::
  "path \<Rightarrow> ('v::linorder) workspace_package list \<Rightarrow> path btree_set \<Rightarrow> ('v plan_error, 'v workspace_link list) result" where
  "link_packages project [] targets = Inr []"
| "link_packages project (p # ps) targets =
     (let source = path_join project (wp_root p);
          target = path_join (path_push project ''node_modules'') (package_name_path (wp_name p))
      in
      if \<not> valid_relative_root (wp_root p) then Inl (PathOutsideManagedRoot (wp_root p))
      else if \<not> strictly_below project source then Inl (PathOutsideManagedRoot source)
      else if \<not> strictly_below project target then Inl (PathOutsideManagedRoot target)
      else if bs_contains targets target then Inl (ConflictingTarget target)
      else and_then (link_packages project ps (bs_insert target targets)) (\<lambda>links.
        Inr (\<lparr>wl_name = wp_name p, wl_version = wp_version p, wl_source = source, wl_target = target\<rparr> # links)))"

definition plan_workspace_links ::
  "path \<Rightarrow> ('v::linorder) workspace_package list \<Rightarrow> ('v plan_error, 'v workspace_link list) result" where
  "plan_workspace_links project packages =
     (if \<not> path_absolute project \<or> has_parent_dir project then Inl (InvalidManagedRoot project)
      else link_packages project (sort_key (\<lambda>p. (wp_name p, wp_version p, wp_root p)) packages) bs_empty)"

section \<open>The tables of the layout\<close>

text \<open>The maps that the placement loop reads: they do not change while it runs.\<close>

record 'v layout_env =
  env_root :: managed_root
  env_kind :: link_kind
  env_reserved :: "path btree_set"
  env_storage :: "('v instance_key, path) btree_map"
  env_children :: "('v instance_key, 'v named_dependency list) btree_map"
  env_lookup_names :: "string list"

definition link_kind_of :: "platform \<Rightarrow> ('v plan_error, link_kind) result" where
  "link_kind_of p = (case p of Unix \<Rightarrow> Inr Symlink | Windows \<Rightarrow> Inr Junction | Other \<Rightarrow> Inl (UnsupportedPlatform p))"

fun index_instances ::
  "('v::linorder) package_instance list \<Rightarrow> ('v instance_key, 'v package_instance) btree_map \<Rightarrow>
   ('v plan_error, ('v instance_key, 'v package_instance) btree_map) result" where
  "index_instances [] by_key = Inr by_key"
| "index_instances (i # rest) by_key =
     (if bm_contains_key by_key (key_of i) then Inl (DuplicateInstance (ik_id (key_of i)))
      else index_instances rest (bm_insert (key_of i) i by_key))"

fun store_instances ::
  "('v::linorder) crates \<Rightarrow> (string \<Rightarrow> string) \<Rightarrow> managed_root \<Rightarrow> 'v package_instance list \<Rightarrow>
   'v materialization_entry list \<times> ('v instance_key, path) btree_map \<Rightarrow>
   ('v plan_error, 'v materialization_entry list \<times> ('v instance_key, path) btree_map) result" where
  "store_instances C sha256 root [] acc = Inr acc"
| "store_instances C sha256 root (i # rest) acc =
     (let (entries, storage) = acc;
          target = storage_path C sha256 root (pi_id i) (pi_peer_context i) (pi_platform_context i)
      in
      if \<not> managed_contains root target then Inl (PathOutsideManagedRoot target)
      else store_instances C sha256 root rest
        (entries @ [plan_entry C target i], bm_insert (key_of i) target storage))"

definition push_child ::
  "('v::linorder) named_dependency_edge \<Rightarrow> ('v instance_key, 'v named_dependency list) btree_map \<Rightarrow>
   ('v instance_key, 'v named_dependency list) btree_map" where
  "push_child e children =
     bm_insert (ne_parent e)
       ((case bm_get children (ne_parent e) of None \<Rightarrow> [] | Some ds \<Rightarrow> ds) @ [ne_dependency e]) children"

fun collect_children ::
  "('v instance_key, ('v::linorder) package_instance) btree_map \<Rightarrow> 'v named_dependency_edge list \<Rightarrow>
   ('v instance_key, 'v named_dependency list) btree_map \<Rightarrow>
   ('v plan_error, ('v instance_key, 'v named_dependency list) btree_map) result" where
  "collect_children by_key [] children = Inr children"
| "collect_children by_key (e # rest) children =
     (if \<not> bm_contains_key by_key (ne_parent e) then Inl (UnknownInstance (ik_id (ne_parent e)))
      else if \<not> bm_contains_key by_key (nd_child (ne_dependency e))
      then Inl (UnknownInstance (ik_id (nd_child (ne_dependency e))))
      else collect_children by_key rest (push_child e children))"

definition children_of :: "('v::linorder) layout_env \<Rightarrow> 'v instance_key \<Rightarrow> 'v named_dependency list" where
  "children_of env key = (case bm_get (env_children env) key of None \<Rightarrow> [] | Some ds \<Rightarrow> ds)"

section \<open>Placement\<close>

record 'v layout_state =
  ls_placements :: "(path, 'v instance_key) btree_map"
  ls_activation :: "activation_step list"
  ls_reachable :: "'v instance_key btree_set"

text \<open>The names that see an instance, and the lookup state of a placed instance.\<close>

type_synonym 'v lookup_state = "'v instance_key \<times> 'v instance_key option list"

text \<open>A queued dependency: the binding, the bases searched for it from the outermost, and the lookup states above it.\<close>

type_synonym 'v pending = "'v named_dependency \<times> path list \<times> 'v lookup_state btree_set"

definition target_in :: "path \<Rightarrow> string \<Rightarrow> path" where
  "target_in base name = path_join base (package_name_path name)"

definition node_modules_of :: "path \<Rightarrow> path" where
  "node_modules_of target = path_push target ''node_modules''"

text \<open>The first loop over the bases, innermost first: does the name resolve already, or where is it shadowed?\<close>

fun scan_bases ::
  "('v::linorder) layout_env \<Rightarrow> (path, 'v instance_key) btree_map \<Rightarrow> 'v named_dependency \<Rightarrow> (nat \<times> path) list \<Rightarrow>
   ('v plan_error, bool \<times> nat option) result" where
  "scan_bases env placements dep [] = Inr (False, None)"
| "scan_bases env placements dep ((index, base) # rest) =
     (let target = target_in base (nd_name dep) in
      if \<not> managed_contains (env_root env) target then Inl (PathOutsideManagedRoot target)
      else if bs_contains (env_reserved env) target then Inr (False, Some index)
      else (case bm_get placements target of
          Some existing \<Rightarrow> Inr (existing = nd_child dep, if existing = nd_child dep then None else Some index)
        | None \<Rightarrow> scan_bases env placements dep rest))"

text \<open>The second loop, outermost first: the first base whose target is free.\<close>

definition free_base ::
  "('v::linorder) layout_env \<Rightarrow> (path, 'v instance_key) btree_map \<Rightarrow> string \<Rightarrow> nat \<times> path \<Rightarrow> bool" where
  "free_base env placements name entry \<longleftrightarrow>
     \<not> bm_contains_key placements (target_in (snd entry) name) \<and>
     \<not> bs_contains (env_reserved env) (target_in (snd entry) name)"

fun lookup_from :: "(path, ('v::linorder) instance_key) btree_map \<Rightarrow> string \<Rightarrow> path list \<Rightarrow> 'v instance_key option" where
  "lookup_from placements name [] = None"
| "lookup_from placements name (base # rest) =
     (case bm_get placements (target_in base name) of
        Some key \<Rightarrow> Some key
      | None \<Rightarrow> lookup_from placements name rest)"

definition lookup :: "(path, ('v::linorder) instance_key) btree_map \<Rightarrow> path list \<Rightarrow> string \<Rightarrow> 'v instance_key option" where
  "lookup placements bases name = lookup_from placements name (rev bases)"

definition activate ::
  "('v::linorder) layout_env \<Rightarrow> path \<Rightarrow> path \<Rightarrow> 'v instance_key \<Rightarrow> 'v layout_state \<Rightarrow> 'v layout_state" where
  "activate env source target child st =
     st\<lparr>ls_placements := bm_insert target child (ls_placements st),
        ls_activation := ls_activation st @ [\<lparr>as_kind = env_kind env, as_source = source, as_target = target\<rparr>],
        ls_reachable := bs_insert child (ls_reachable st)\<rparr>"

definition unresolved_child ::
  "('v::linorder) layout_env \<Rightarrow> (path, 'v instance_key) btree_map \<Rightarrow> path list \<Rightarrow> 'v instance_key \<Rightarrow> bool" where
  "unresolved_child env placements bases child \<longleftrightarrow>
     list_ex (\<lambda>d. lookup placements bases (nd_name d) \<noteq> Some (nd_child d)) (children_of env child)"

text \<open>One pass of the \<open>while\<close> loop: the new state and what it queues.\<close>

definition place_dependency ::
  "('v::linorder) layout_env \<Rightarrow> 'v pending \<Rightarrow> 'v layout_state \<Rightarrow>
   ('v plan_error, 'v layout_state \<times> 'v pending list) result" where
  "place_dependency env item st =
     (let (dep, bases, lineage) = item;
          child = nd_child dep;
          indexed = enumerate 0 bases
      in and_then (scan_bases env (ls_placements st) dep (rev indexed)) (\<lambda>(already_resolves, shadowed_at).
         if already_resolves then Inr (st\<lparr>ls_reachable := bs_insert child (ls_reachable st)\<rparr>, [])
         else (case find (free_base env (ls_placements st) (nd_name dep))
                 (drop (case shadowed_at of None \<Rightarrow> 0 | Some index \<Rightarrow> index + 1) indexed) of
             None \<Rightarrow>
               if bases = [] then Inl (LinkPanicked ''dependency search always has a direct parent base'')
               else Inl (ConflictingTarget (target_in (last bases) (nd_name dep)))
           | Some (index, base) \<Rightarrow>
               (case bm_get (env_storage env) child of
                  None \<Rightarrow> Inl (LinkPanicked ''storage'')
                | Some source \<Rightarrow>
                    (let target = target_in base (nd_name dep);
                         st' = activate env source target child st;
                         descendant_bases = take (index + 1) bases @ [node_modules_of target];
                         lookups = (child, map (lookup (ls_placements st') descendant_bases) (env_lookup_names env))
                     in
                     if bs_contains lineage lookups then
                       (if unresolved_child env (ls_placements st') descendant_bases child
                        then Inl (ConflictingTarget target) else Inr (st', []))
                     else Inr (st', map (\<lambda>grandchild. (grandchild, descendant_bases, bs_insert lookups lineage))
                       (children_of env child)))))))"

fun place_roots ::
  "('v::linorder) layout_env \<Rightarrow> ('v instance_key, 'v package_instance) btree_map \<Rightarrow> path \<Rightarrow> 'v named_dependency list \<Rightarrow>
   'v layout_state \<times> 'v pending list \<Rightarrow> ('v plan_error, 'v layout_state \<times> 'v pending list) result" where
  "place_roots env by_key root_base [] acc = Inr acc"
| "place_roots env by_key root_base (dep # rest) acc =
     (let (st, queue) = acc;
          child = nd_child dep;
          target = target_in root_base (nd_name dep)
      in
      if \<not> bm_contains_key by_key child then Inl (UnknownInstance (ik_id child))
      else if bs_contains (env_reserved env) target then Inl (ConflictingTarget target)
      else (case bm_get (ls_placements st) target of
          Some existing \<Rightarrow>
            if existing \<noteq> child then Inl (ConflictingTarget target)
            else place_roots env by_key root_base rest (st, queue)
        | None \<Rightarrow>
            (case bm_get (env_storage env) child of
               None \<Rightarrow> Inl (LinkPanicked ''storage'')
             | Some source \<Rightarrow>
                 place_roots env by_key root_base rest
                   (activate env source target child st,
                    queue @ map (\<lambda>grandchild. (grandchild, [root_base, node_modules_of target], bs_empty))
                      (children_of env child)))))"

section \<open>The placement loop\<close>

text \<open>
  Termination: a pass that queues work adds a lookup state to the lineage of what it
  queues, and over the instances of the input there are finitely many lookup states.
\<close>

definition known_keys :: "('v::linorder) layout_env \<Rightarrow> 'v layout_state \<Rightarrow> 'v instance_key set" where
  "known_keys env st = dom (bm_get (env_storage env)) \<union> ran (bm_get (ls_placements st))"

definition lookup_states :: "('v::linorder) layout_env \<Rightarrow> 'v layout_state \<Rightarrow> 'v lookup_state set" where
  "lookup_states env st = known_keys env st \<times>
     {ks. set ks \<subseteq> insert None (Some ` known_keys env st) \<and> length ks = length (env_lookup_names env)}"

definition max_children :: "('v::linorder) layout_env \<Rightarrow> nat" where
  "max_children env = sum_list (map length (bm_values (env_children env)))"

definition item_weight :: "('v::linorder) layout_env \<Rightarrow> 'v layout_state \<Rightarrow> 'v pending \<Rightarrow> nat" where
  "item_weight env st item =
     (max_children env + 1) ^ card (lookup_states env st - bs_set (snd (snd item)))"

definition queue_weight :: "('v::linorder) layout_env \<Rightarrow> 'v layout_state \<Rightarrow> 'v pending list \<Rightarrow> nat" where
  "queue_weight env st queue = sum_list (map (item_weight env st) queue)"

lemma finite_known_keys [simp]: "finite (known_keys env st)"
  by (simp add: known_keys_def)

lemma finite_lookup_states [simp]: "finite (lookup_states env st)"
  unfolding lookup_states_def by (intro finite_cartesian_product finite_known_keys finite_lists_length_eq finite.insertI finite_imageI)

lemma children_of_le: "length (children_of env key) \<le> max_children env"
proof (cases "bm_get (env_children env) key")
  case (Some ds)
  then have "ds \<in> set (bm_values (env_children env))" by (auto simp: set_bm_values ran_def)
  then have "length ds \<le> max_children env"
    unfolding max_children_def by (intro member_le_sum_list) auto
  then show ?thesis by (simp add: children_of_def Some)
qed (simp add: children_of_def)

lemma lookup_from_ran: "lookup_from m name bases = Some key \<Longrightarrow> key \<in> ran (bm_get m)"
  by (induction bases) (auto simp: ran_def split: option.splits)

text \<open>What one pass of the loop does, by cases.\<close>

lemma place_dependency_cases:
  assumes "place_dependency env (dep, bases, lineage) st = Inr (st', new)"
  obtains
    (resolved) shadow where "scan_bases env (ls_placements st) dep (rev (enumerate 0 bases)) = Inr (True, shadow)"
      "st' = st\<lparr>ls_reachable := bs_insert (nd_child dep) (ls_reachable st)\<rparr>" "new = []"
  | (placed) shadow index base source where
      "scan_bases env (ls_placements st) dep (rev (enumerate 0 bases)) = Inr (False, shadow)"
      "find (free_base env (ls_placements st) (nd_name dep))
         (drop (case shadow of None \<Rightarrow> 0 | Some i \<Rightarrow> i + 1) (enumerate 0 bases)) = Some (index, base)"
      "bm_get (env_storage env) (nd_child dep) = Some source"
      "st' = activate env source (target_in base (nd_name dep)) (nd_child dep) st"
      "new = [] \<and> \<not> unresolved_child env (ls_placements st')
           (take (index + 1) bases @ [node_modules_of (target_in base (nd_name dep))]) (nd_child dep) \<or>
       (\<exists>lookups. lookups \<notin> bs_set lineage \<and>
         lookups = (nd_child dep, map (lookup (ls_placements st') (take (index + 1) bases @ [node_modules_of (target_in base (nd_name dep))])) (env_lookup_names env)) \<and>
         new = map (\<lambda>g. (g, take (index + 1) bases @ [node_modules_of (target_in base (nd_name dep))], bs_insert lookups lineage))
           (children_of env (nd_child dep)))"
proof -
  obtain already shadow where s: "scan_bases env (ls_placements st) dep (rev (enumerate 0 bases)) = Inr (already, shadow)"
    using assms by (auto simp: place_dependency_def Let_def and_then_Inr)
  show ?thesis
  proof (cases already)
    case True
    then show ?thesis using assms s by (intro resolved [of shadow]) (auto simp: place_dependency_def)
  next
    case False
    obtain index base source where f: "find (free_base env (ls_placements st) (nd_name dep))
         (drop (case shadow of None \<Rightarrow> 0 | Some i \<Rightarrow> i + 1) (enumerate 0 bases)) = Some (index, base)"
      "bm_get (env_storage env) (nd_child dep) = Some source"
      using assms s False by (auto simp: place_dependency_def Let_def split: option.splits if_splits)
    show ?thesis
      using assms s False f
      by (intro placed [of shadow index base source])
        (auto simp: place_dependency_def Let_def split: if_splits)
  qed
qed

lemma place_dependency_keys:
  assumes "place_dependency env item st = Inr (st', new)"
  shows "known_keys env st' = known_keys env st"
proof -
  obtain dep bases lineage where item: "item = (dep, bases, lineage)" by (cases item)
  show ?thesis
    using assms unfolding item
  proof (cases rule: place_dependency_cases)
    case (placed shadow index base source)
    have "bm_get (ls_placements st) (target_in base (nd_name dep)) = None"
      using find_SomeD [OF placed(2)] by (auto simp: free_base_def bm_contains_key_iff)
    then show ?thesis
      using placed(3,4) by (auto simp: known_keys_def activate_def)
  qed (simp add: known_keys_def)
qed

lemma place_dependency_weight:
  assumes "place_dependency env item st = Inr (st', new)"
  shows "queue_weight env st' (rest @ new) < queue_weight env st (item # rest)"
proof -
  have same: "lookup_states env st' = lookup_states env st"
    using place_dependency_keys [OF assms] by (simp add: lookup_states_def)
  then have w: "item_weight env st' = item_weight env st" by (simp add: item_weight_def fun_eq_iff)
  obtain dep bases lineage where item: "item = (dep, bases, lineage)" by (cases item)
  define m where "m = card (lookup_states env st - bs_set lineage)"
  have "place_dependency env (dep, bases, lineage) st = Inr (st', new)" using assms by (simp add: item)
  then have "sum_list (map (item_weight env st) new) < item_weight env st item"
  proof (cases rule: place_dependency_cases)
    case (placed shadow index base source)
    show ?thesis
    proof (cases "new = []")
      case False
      define bs where "bs = take (index + 1) bases @ [node_modules_of (target_in base (nd_name dep))]"
      obtain lookups where l: "lookups \<notin> bs_set lineage"
        "lookups = (nd_child dep, map (lookup (ls_placements st') bs) (env_lookup_names env))"
        "new = map (\<lambda>g. (g, bs, bs_insert lookups lineage)) (children_of env (nd_child dep))"
        using placed(5) False unfolding bs_def by blast
      have "nd_child dep \<in> known_keys env st'" using placed(3) by (auto simp: known_keys_def)
      moreover have "lookup (ls_placements st') bs name \<in> insert None (Some ` known_keys env st')" for name
        using lookup_from_ran [of "ls_placements st'" name "rev bs"]
        by (cases "lookup (ls_placements st') bs name") (auto simp: lookup_def known_keys_def)
      ultimately have "lookups \<in> lookup_states env st'"
        unfolding l(2) lookup_states_def by auto
      then have d: "lookups \<in> lookup_states env st - bs_set lineage" using l(1) by (simp add: same)
      then have c: "card (lookup_states env st - bs_set (bs_insert lookups lineage)) = m - 1"
        unfolding m_def bs_set_insert by (metis Diff_insert card_Diff_singleton)
      have "0 < m" using d by (auto simp: m_def card_gt_0_iff)
      have "item_weight env st i = (max_children env + 1) ^ (m - 1)" if "i \<in> set new" for i
        using that c by (auto simp: l(3) item_weight_def)
      then have "map (item_weight env st) new = replicate (length new) ((max_children env + 1) ^ (m - 1))"
        by (simp add: map_replicate_const [symmetric])
      then have "sum_list (map (item_weight env st) new) = length new * (max_children env + 1) ^ (m - 1)"
        by (simp add: sum_list_replicate)
      also have "\<dots> < (max_children env + 1) * (max_children env + 1) ^ (m - 1)"
        using children_of_le [of env "nd_child dep"] by (intro mult_strict_right_mono) (auto simp: l(3))
      also have "\<dots> = (max_children env + 1) ^ m" using \<open>0 < m\<close> by (cases m) simp_all
      finally show ?thesis by (simp add: item_weight_def m_def item)
    qed (simp add: item_weight_def)
  qed (simp add: item_weight_def)
  then show ?thesis by (simp add: queue_weight_def w)
qed

function place_all ::
  "('v::linorder) layout_env \<Rightarrow> 'v pending list \<Rightarrow> 'v layout_state \<Rightarrow> ('v plan_error, 'v layout_state) result" where
  "place_all env queue st =
     (case queue of
        [] \<Rightarrow> Inr st
      | item # rest \<Rightarrow>
          and_then (place_dependency env item st) (\<lambda>(st', new). place_all env (rest @ new) st'))"
  by pat_completeness auto
termination
  by (relation "measure (\<lambda>(env, queue, st). queue_weight env st queue)") (auto intro: place_dependency_weight)

declare place_all.simps [simp del]

section \<open>The plan\<close>

definition layout_env_of ::
  "managed_root \<Rightarrow> link_kind \<Rightarrow> path btree_set \<Rightarrow> (('v::linorder) instance_key, path) btree_map \<Rightarrow>
   ('v instance_key, 'v named_dependency list) btree_map \<Rightarrow> 'v layout_env" where
  "layout_env_of root kind reserved storage children0 =
     (let children = bm_map_values (\<lambda>ds. dedup (sort ds)) children0 in
      \<lparr>env_root = root, env_kind = kind, env_reserved = reserved, env_storage = storage, env_children = children,
       env_lookup_names = bs_elems (bs_of_list (map nd_name (concat (bm_values children))))\<rparr>)"

definition empty_layout :: "('v::linorder) layout_state" where
  "empty_layout = \<lparr>ls_placements = bm_empty, ls_activation = [], ls_reachable = bs_empty\<rparr>"

definition finish_layout ::
  "('v::linorder) layout_env \<Rightarrow> 'v materialization_entry list \<Rightarrow> 'v layout_state \<Rightarrow>
   ('v plan_error, 'v materialization_plan) result" where
  "finish_layout env entries st =
     (case find (\<lambda>parent. \<not> bs_contains (ls_reachable st) parent) (bm_keys (env_children env)) of
        Some parent \<Rightarrow> Inl (UnknownParent (ik_id parent))
      | None \<Rightarrow>
          Inr \<lparr>mp_managed_root = env_root env, mp_ownership_marker = mr_ownership_marker (env_root env),
               mp_entries = entries, mp_activation = sort_key as_target (ls_activation st)\<rparr>)"

definition plan_named_layout_inner ::
  "('v::linorder) crates \<Rightarrow> (string \<Rightarrow> string) \<Rightarrow> managed_root \<Rightarrow> 'v named_layout_input \<Rightarrow> platform \<Rightarrow>
   path btree_set \<Rightarrow> ('v plan_error, 'v materialization_plan) result" where
  "plan_named_layout_inner C sha256 root input plat reserved =
     and_then (link_kind_of plat) (\<lambda>kind.
     let instances = sort_key key_of (ni_instances input) in
     and_then (index_instances instances bm_empty) (\<lambda>by_key.
     and_then (store_instances C sha256 root instances ([], bm_empty)) (\<lambda>(entries, storage).
     and_then (collect_children by_key
         (sort_key (\<lambda>e. (ne_parent e, ne_dependency e)) (ni_dependency_edges input)) bm_empty) (\<lambda>children.
     let env = layout_env_of root kind reserved storage children in
     and_then (place_roots env by_key (path_push (mr_path root) ''node_modules'')
         (dedup (sort (ni_root_dependencies input))) (empty_layout, [])) (\<lambda>(st, queue).
     and_then (place_all env queue st) (finish_layout env entries))))))"

definition plan_named_layout ::
  "('v::linorder) crates \<Rightarrow> (string \<Rightarrow> string) \<Rightarrow> managed_root \<Rightarrow> 'v named_layout_input \<Rightarrow> platform \<Rightarrow>
   ('v plan_error, 'v materialization_plan) result" where
  "plan_named_layout C sha256 root input plat = plan_named_layout_inner C sha256 root input plat bs_empty"

definition plan_layout ::
  "('v::linorder) crates \<Rightarrow> (string \<Rightarrow> string) \<Rightarrow> managed_root \<Rightarrow> 'v layout_input \<Rightarrow> platform \<Rightarrow>
   ('v plan_error, 'v materialization_plan) result" where
  "plan_layout C sha256 root input plat = plan_named_layout C sha256 root (named_input_of input) plat"

fun reserve_links ::
  "managed_root \<Rightarrow> 'v workspace_link list \<Rightarrow> path btree_set \<Rightarrow> ('v plan_error, path btree_set) result" where
  "reserve_links root [] reserved = Inr reserved"
| "reserve_links root (l # ls) reserved =
     (let expected = target_in (path_push (mr_path root) ''node_modules'') (wl_name l) in
      if wl_target l \<noteq> expected \<or> \<not> managed_contains root (wl_target l)
      then Inl (PathOutsideManagedRoot (wl_target l))
      else if bs_contains reserved expected then Inl (ConflictingTarget expected)
      else reserve_links root ls (bs_insert expected reserved))"

definition plan_workspace_layout ::
  "('v::linorder) crates \<Rightarrow> (string \<Rightarrow> string) \<Rightarrow> managed_root \<Rightarrow> 'v named_layout_input \<Rightarrow> 'v workspace_link list \<Rightarrow>
   platform \<Rightarrow> ('v plan_error, 'v materialization_plan) result" where
  "plan_workspace_layout C sha256 root input links plat =
     and_then (reserve_links root links bs_empty) (plan_named_layout_inner C sha256 root input plat)"

end
