(* ===== verification/Linker_Facts.thy ===== *)
theory Linker_Facts
  imports Linker_Layout
begin

text \<open>
  Lemmas on the nested layout: the interface \<open>placement_loop\<close> of an invariant of the
  placement loop and its extension \<open>layout_invariant\<close> to the loop over the direct
  dependencies, interpreted for where packages are put, for the absence of panics and for
  layouts in which every name stands for one instance.
\<close>

section \<open>Invariants of the placement loop\<close>

text \<open>
  An invariant of the loop's queue and state, and what it gives at the end of a run: it
  holds of the result with an empty queue, and an error of a run is an error of one pass
  from a state in which it held.
\<close>

lemma place_all_Nil [simp]: "place_all env [] st = Inr st"
  by (simp add: place_all.simps)

lemma place_all_Cons:
  "place_all env (item # rest) st = and_then (place_dependency env item st) (\<lambda>(st', new). place_all env (rest @ new) st')"
  by (simp add: place_all.simps [of env "item # rest"])

locale placement_loop =
  fixes env :: "('v::linorder) layout_env" and I :: "'v pending list \<Rightarrow> 'v layout_state \<Rightarrow> bool"
  assumes step: "I (item # rest) st \<Longrightarrow> place_dependency env item st = Inr (st', new) \<Longrightarrow> I (rest @ new) st'"
begin

lemma run: "place_all e queue st = Inr st' \<Longrightarrow> e = env \<Longrightarrow> I queue st \<Longrightarrow> I [] st'"
proof (induction e queue st rule: place_all.induct)
  case (1 e queue st)
  show ?case
  proof (cases queue)
    case Nil
    with 1 show ?thesis by simp
  next
    case (Cons item rest)
    with 1(2) obtain st1 new where s: "place_dependency e item st = Inr (st1, new)" "place_all e (rest @ new) st1 = Inr st'"
      by (auto simp: place_all_Cons and_then_Inr)
    with 1(3,4) Cons have "I (rest @ new) st1" by (auto intro: step)
    with 1(1) [OF Cons s(1) refl s(2)] 1(3) show ?thesis by blast
  qed
qed

lemma failure:
  "place_all e queue st = Inl err \<Longrightarrow> e = env \<Longrightarrow> I queue st \<Longrightarrow>
   \<exists>item rest st1. I (item # rest) st1 \<and> place_dependency env item st1 = Inl err"
proof (induction e queue st rule: place_all.induct)
  case (1 e queue st)
  show ?case
  proof (cases queue)
    case Nil
    with 1 show ?thesis by simp
  next
    case (Cons item rest)
    show ?thesis
    proof (cases "place_dependency e item st")
      case (Inl err')
      with 1(2,3) Cons have "place_dependency env item st = Inl err" by (simp add: place_all_Cons)
      with 1(4) Cons show ?thesis by blast
    next
      case (Inr r)
      obtain st1 new where r: "r = (st1, new)" by (cases r)
      with 1(2) Cons Inr have "place_all e (rest @ new) st1 = Inl err" by (simp add: place_all_Cons)
      moreover have "I (rest @ new) st1" using 1(3,4) Cons Inr r by (auto intro: step)
      ultimately show ?thesis using 1(1) [OF Cons Inr r [symmetric]] 1(3) by blast
    qed
  qed
qed

end

section \<open>One pass of the loop\<close>

text \<open>The target of a name is taken in a base: reserved, or placed.\<close>

definition taken :: "('v::linorder) layout_env \<Rightarrow> (path, 'v instance_key) btree_map \<Rightarrow> path \<Rightarrow> bool" where
  "taken env placements target \<longleftrightarrow> target \<in> bs_set (env_reserved env) \<or> bm_get placements target \<noteq> None"

text \<open>
  The scan stops at the innermost base where the name is taken; the bases inside it are
  free and their targets below the managed root.
\<close>

lemma scan_bases_spec:
  assumes "scan_bases env placements dep (rev (enumerate 0 bases)) = Inr (already, shadow)"
  obtains k where "k \<le> length bases"
    "\<And>i. k \<le> i \<Longrightarrow> i < length bases \<Longrightarrow> managed_contains (env_root env) (target_in (bases ! i) (nd_name dep)) \<and>
       \<not> taken env placements (target_in (bases ! i) (nd_name dep))"
    "k = 0 \<and> \<not> already \<and> shadow = None \<or>
     0 < k \<and> \<not> already \<and> shadow = Some (k - 1) \<and> taken env placements (target_in (bases ! (k - 1)) (nd_name dep)) \<or>
     0 < k \<and> already \<and> target_in (bases ! (k - 1)) (nd_name dep) \<notin> bs_set (env_reserved env) \<and>
       bm_get placements (target_in (bases ! (k - 1)) (nd_name dep)) = Some (nd_child dep)"
  using assms
proof (induction bases arbitrary: thesis rule: rev_induct)
  case Nil
  then show ?case by simp
next
  case (snoc b bs)
  let ?t = "target_in b (nd_name dep)"
  have scan: "scan_bases env placements dep ((length bs, b) # rev (enumerate 0 bs)) = Inr (already, shadow)"
    using snoc.prems(2) by (simp add: enumerate_append_eq)
  then have c: "managed_contains (env_root env) ?t" by (auto simp: Let_def split: if_splits)
  show ?case
  proof (cases "taken env placements ?t")
    case True
    have "\<not> already \<and> shadow = Some (length bs) \<or>
       already \<and> ?t \<notin> bs_set (env_reserved env) \<and> bm_get placements ?t = Some (nd_child dep)"
      using True scan c by (auto simp: taken_def Let_def split: option.splits if_splits)
    then show ?thesis
      using True by (intro snoc.prems(1) [of "Suc (length bs)"]) auto
  next
    case False
    then have "scan_bases env placements dep (rev (enumerate 0 bs)) = Inr (already, shadow)"
      using scan c by (simp add: taken_def Let_def)
    then obtain k where k: "k \<le> length bs"
      "\<And>i. k \<le> i \<Longrightarrow> i < length bs \<Longrightarrow> managed_contains (env_root env) (target_in (bs ! i) (nd_name dep)) \<and>
         \<not> taken env placements (target_in (bs ! i) (nd_name dep))"
      "k = 0 \<and> \<not> already \<and> shadow = None \<or>
       0 < k \<and> \<not> already \<and> shadow = Some (k - 1) \<and> taken env placements (target_in (bs ! (k - 1)) (nd_name dep)) \<or>
       0 < k \<and> already \<and> target_in (bs ! (k - 1)) (nd_name dep) \<notin> bs_set (env_reserved env) \<and>
         bm_get placements (target_in (bs ! (k - 1)) (nd_name dep)) = Some (nd_child dep)"
      using snoc.IH by blast
    show ?thesis
    proof (rule snoc.prems(1) [of k])
      show "k \<le> length (bs @ [b])" using k(1) by simp
      show "managed_contains (env_root env) (target_in ((bs @ [b]) ! i) (nd_name dep)) \<and>
         \<not> taken env placements (target_in ((bs @ [b]) ! i) (nd_name dep))" if "k \<le> i" "i < length (bs @ [b])" for i
        using k(2) [of i] that c False by (cases "i < length bs") (auto simp: nth_append less_Suc_eq)
      show "k = 0 \<and> \<not> already \<and> shadow = None \<or>
       0 < k \<and> \<not> already \<and> shadow = Some (k - 1) \<and> taken env placements (target_in ((bs @ [b]) ! (k - 1)) (nd_name dep)) \<or>
       0 < k \<and> already \<and> target_in ((bs @ [b]) ! (k - 1)) (nd_name dep) \<notin> bs_set (env_reserved env) \<and>
         bm_get placements (target_in ((bs @ [b]) ! (k - 1)) (nd_name dep)) = Some (nd_child dep)"
        using k(1,3) by (auto simp: nth_append)
    qed
  qed
qed

lemma lookup_hit:
  assumes "k < length bases" "bm_get m (target_in (bases ! k) name) = Some key"
    "\<And>i. k < i \<Longrightarrow> i < length bases \<Longrightarrow> bm_get m (target_in (bases ! i) name) \<in> {None, Some key}"
  shows "lookup m bases name = Some key"
  using assms
proof (induction bases rule: rev_induct)
  case (snoc b bs)
  show ?case
  proof (cases "k = length bs")
    case True
    then show ?thesis using snoc.prems(2) by (simp add: lookup_def)
  next
    case False
    have k: "k < length bs" using snoc.prems(1) False by simp
    have "bm_get m (target_in b name) \<in> {None, Some key}"
      using snoc.prems(3) [of "length bs"] k by simp
    moreover have "lookup m bs name = Some key"
    proof (rule snoc.IH [OF k])
      show "bm_get m (target_in (bs ! k) name) = Some key" using snoc.prems(2) k by (simp add: nth_append)
      show "bm_get m (target_in (bs ! i) name) \<in> {None, Some key}" if "k < i" "i < length bs" for i
        using snoc.prems(3) [of i] that by (simp add: nth_append)
    qed
    ultimately show ?thesis by (auto simp: lookup_def)
  qed
qed simp

text \<open>
  A pass either finds the dependency resolved, or places it in the base just inside the
  one where its name was taken; afterwards the name resolves to the dependency's instance.
\<close>

lemma place_dependency_step:
  assumes "place_dependency env (dep, bases, lineage) st = Inr (st', new)"
  obtains
    (resolved) "st' = st\<lparr>ls_reachable := bs_insert (nd_child dep) (ls_reachable st)\<rparr>" "new = []"
      "lookup (ls_placements st) bases (nd_name dep) = Some (nd_child dep)"
  | (placed) k source where "k < length bases" "bm_get (env_storage env) (nd_child dep) = Some source"
      "managed_contains (env_root env) (target_in (bases ! k) (nd_name dep))"
      "\<not> taken env (ls_placements st) (target_in (bases ! k) (nd_name dep))"
      "st' = activate env source (target_in (bases ! k) (nd_name dep)) (nd_child dep) st"
      "lookup (ls_placements st') bases (nd_name dep) = Some (nd_child dep)"
      "new = [] \<and> \<not> unresolved_child env (ls_placements st')
           (take (k + 1) bases @ [node_modules_of (target_in (bases ! k) (nd_name dep))]) (nd_child dep) \<or>
       (\<exists>lineage'. new = map (\<lambda>g. (g, take (k + 1) bases @ [node_modules_of (target_in (bases ! k) (nd_name dep))], lineage'))
           (children_of env (nd_child dep)))"
  using assms
proof (cases rule: place_dependency_cases)
  case (resolved shadow)
  from resolved(1) obtain k where k: "k \<le> length bases" "0 < k"
    "\<And>i. k \<le> i \<Longrightarrow> i < length bases \<Longrightarrow> \<not> taken env (ls_placements st) (target_in (bases ! i) (nd_name dep))"
    "bm_get (ls_placements st) (target_in (bases ! (k - 1)) (nd_name dep)) = Some (nd_child dep)"
    by (elim scan_bases_spec) blast
  have "lookup (ls_placements st) bases (nd_name dep) = Some (nd_child dep)"
    using k by (intro lookup_hit [of "k - 1"]) (auto simp: taken_def)
  with resolved that(1) show ?thesis by blast
next
  case (placed shadow index base source)
  from placed(1) obtain k where k: "k \<le> length bases"
    "\<And>i. k \<le> i \<Longrightarrow> i < length bases \<Longrightarrow> managed_contains (env_root env) (target_in (bases ! i) (nd_name dep)) \<and>
       \<not> taken env (ls_placements st) (target_in (bases ! i) (nd_name dep))"
    "(case shadow of None \<Rightarrow> 0 | Some i \<Rightarrow> i + 1) = k"
    by (elim scan_bases_spec) fastforce
  have d: "drop k (enumerate 0 bases) = enumerate k (drop k bases)" using k(1) by (simp add: enumerate_eq_zip drop_zip)
  have lt: "k < length bases"
    using placed(2) unfolding k(3) d by (cases "k < length bases") auto
  have "free_base env (ls_placements st) (nd_name dep) (k, bases ! k)"
    using k(2) [of k] lt by (auto simp: free_base_def taken_def bm_contains_key_iff)
  then have i: "index = k" "base = bases ! k"
    using placed(2) lt unfolding k(3) d by (auto simp: Cons_nth_drop_Suc [symmetric])
  let ?t = "target_in (bases ! k) (nd_name dep)"
  have "lookup (ls_placements st') bases (nd_name dep) = Some (nd_child dep)"
    using k(2) lt unfolding placed(4) i by (intro lookup_hit [of k]) (auto simp: activate_def taken_def)
  with that(2) [OF lt placed(3)] k(2) [of k] lt placed(4,5) show ?thesis unfolding i by blast
qed

section \<open>The tables\<close>

definition storage_of :: "('v::linorder) crates \<Rightarrow> (string \<Rightarrow> string) \<Rightarrow> managed_root \<Rightarrow> 'v instance_key \<Rightarrow> path" where
  "storage_of C sha256 root k = storage_path C sha256 root (ik_id k) (ik_peer_context k) (ik_platform_context k)"

lemma storage_of_key: "storage_of C sha256 root (key_of i) = storage_path C sha256 root (pi_id i) (pi_peer_context i) (pi_platform_context i)"
  by (simp add: storage_of_def key_of_def)

lemma index_instances_D:
  "index_instances is m = Inr m' \<Longrightarrow>
   dom (bm_get m') = dom (bm_get m) \<union> key_of ` set is \<and> distinct (map key_of is) \<and> key_of ` set is \<inter> dom (bm_get m) = {}"
proof (induction "is" arbitrary: m)
  case (Cons i rest)
  then have c: "key_of i \<notin> dom (bm_get m)" "index_instances rest (bm_insert (key_of i) i m) = Inr m'"
    by (auto simp: bm_contains_key_iff split: if_splits)
  from Cons.IH [OF c(2)] c(1) show ?case by auto
qed simp

lemma store_instances_D:
  "store_instances C sha256 root is (es, m) = Inr (es', m') \<Longrightarrow>
   es' = es @ map (\<lambda>i. plan_entry C (storage_of C sha256 root (key_of i)) i) is \<and>
   (\<forall>i\<in>set is. managed_contains root (storage_of C sha256 root (key_of i))) \<and>
   (\<forall>k. bm_get m' k = (if k \<in> key_of ` set is then Some (storage_of C sha256 root k) else bm_get m k))"
proof (induction "is" arbitrary: es m)
  case (Cons i rest)
  then have c: "managed_contains root (storage_of C sha256 root (key_of i))"
    and r: "store_instances C sha256 root rest (es @ [plan_entry C (storage_of C sha256 root (key_of i)) i],
        bm_insert (key_of i) (storage_of C sha256 root (key_of i)) m) = Inr (es', m')"
    by (auto simp: storage_of_key Let_def split: if_splits)
  from Cons.IH [OF r] c show ?case by auto
qed auto

definition deps_of :: "('v::linorder instance_key, 'v named_dependency list) btree_map \<Rightarrow> 'v instance_key \<Rightarrow> 'v named_dependency set" where
  "deps_of m k = set (case bm_get m k of None \<Rightarrow> [] | Some ds \<Rightarrow> ds)"

lemma deps_of_push: "deps_of (push_child e m) k = deps_of m k \<union> (if k = ne_parent e then {ne_dependency e} else {})"
  by (auto simp: deps_of_def push_child_def split: option.splits)

lemma collect_children_D:
  "collect_children by_key es m = Inr m' \<Longrightarrow>
   deps_of m' k = deps_of m k \<union> {ne_dependency e |e. e \<in> set es \<and> ne_parent e = k} \<and>
   (\<forall>e\<in>set es. ne_parent e \<in> dom (bm_get by_key) \<and> nd_child (ne_dependency e) \<in> dom (bm_get by_key))"
proof (induction es arbitrary: m)
  case (Cons e es)
  then have c: "ne_parent e \<in> dom (bm_get by_key)" "nd_child (ne_dependency e) \<in> dom (bm_get by_key)"
    "collect_children by_key es (push_child e m) = Inr m'"
    by (auto simp: bm_contains_key_iff split: if_splits)
  from Cons.IH [OF c(3)] c(1,2) show ?case by (auto simp: deps_of_push)
qed simp

text \<open>A successful plan, taken apart.\<close>

lemma layout_run:
  fixes C :: "('v::linorder) crates"
  assumes "plan_named_layout_inner C sha256 root input plat reserved = Inr plan"
  obtains env by_key st0 queue st where
    "env_root env = root" "env_reserved env = reserved" "link_kind_of plat = (Inr (env_kind env) :: ('v plan_error, link_kind) result)"
    "\<And>k. bm_get (env_storage env) k =
       (if k \<in> key_of ` set (ni_instances input) then Some (storage_of C sha256 root k) else None)"
    "dom (bm_get by_key) = key_of ` set (ni_instances input)" "distinct (map key_of (ni_instances input))"
    "\<And>k. set (children_of env k) = {ne_dependency e |e. e \<in> set (ni_dependency_edges input) \<and> ne_parent e = k}"
    "\<And>e. e \<in> set (ni_dependency_edges input) \<Longrightarrow>
       ne_parent e \<in> key_of ` set (ni_instances input) \<and> nd_child (ne_dependency e) \<in> key_of ` set (ni_instances input)"
    "place_roots env by_key (path_push (mr_path root) ''node_modules'')
       (dedup (sort (ni_root_dependencies input))) (empty_layout, []) = Inr (st0, queue)"
    "place_all env queue st0 = Inr st"
    "plan = \<lparr>mp_managed_root = root, mp_ownership_marker = mr_ownership_marker root,
       mp_entries = map (\<lambda>i. plan_entry C (storage_of C sha256 root (key_of i)) i) (sort_key key_of (ni_instances input)),
       mp_activation = sort_key as_target (ls_activation st)\<rparr>"
    "\<And>i. i \<in> set (ni_instances input) \<Longrightarrow> managed_contains root (storage_of C sha256 root (key_of i))"
    "\<And>e. e \<in> set (ni_dependency_edges input) \<Longrightarrow> ne_parent e \<in> bs_set (ls_reachable st)"
proof -
  let ?is = "sort_key key_of (ni_instances input)"
  let ?es = "sort_key (\<lambda>e. (ne_parent e, ne_dependency e)) (ni_dependency_edges input)"
  obtain kind by_key entries storage children st0 queue st where r:
    "link_kind_of plat = (Inr kind :: ('v plan_error, link_kind) result)" "index_instances ?is bm_empty = Inr by_key"
    "store_instances C sha256 root ?is ([], bm_empty) = Inr (entries, storage)"
    "collect_children by_key ?es bm_empty = Inr children"
    "place_roots (layout_env_of root kind reserved storage children) by_key (path_push (mr_path root) ''node_modules'')
       (dedup (sort (ni_root_dependencies input))) (empty_layout, []) = Inr (st0, queue)"
    "place_all (layout_env_of root kind reserved storage children) queue st0 = Inr st"
    "finish_layout (layout_env_of root kind reserved storage children) entries st = Inr plan"
    using assms unfolding plan_named_layout_inner_def Let_def and_then_Inr by (auto simp: and_then_Inr intro: that)
  define env where "env = layout_env_of root kind reserved storage children"
  have env: "env_root env = root" "env_reserved env = reserved" "env_kind env = kind" "env_storage env = storage"
    "env_children env = bm_map_values (\<lambda>ds. dedup (sort ds)) children"
    by (simp_all add: env_def layout_env_of_def Let_def)
  have ch: "set (children_of env k) = deps_of children k" for k
    by (simp add: children_of_def env(5) bm_get_map_values deps_of_def split: option.splits)
  note s = store_instances_D [OF r(3)]
  note i = index_instances_D [OF r(2)]
  note c = collect_children_D [OF r(4)]
  have "\<forall>k\<in>dom (bm_get children). k \<in> bs_set (ls_reachable st)"
    using r(7) unfolding env_def [symmetric]
    by (simp add: finish_layout_def find_None_iff env(5) set_bm_keys bm_get_map_values dom_def split: option.splits)
      (metis option.distinct(1))
  moreover have "ne_parent e \<in> dom (bm_get children)" if "e \<in> set (ni_dependency_edges input)" for e
  proof -
    have "ne_dependency e \<in> deps_of children (ne_parent e)"
      using c [of "ne_parent e"] that by (auto simp: deps_of_def)
    then show ?thesis by (cases "bm_get children (ne_parent e)") (auto simp: deps_of_def)
  qed
  moreover have "plan = \<lparr>mp_managed_root = root, mp_ownership_marker = mr_ownership_marker root, mp_entries = entries,
      mp_activation = sort_key as_target (ls_activation st)\<rparr>"
    using r(7) unfolding env_def [symmetric] by (simp add: finish_layout_def env split: option.splits)
  moreover have "distinct (map key_of (ni_instances input))"
    using i by (simp add: distinct_map)
  moreover have "bm_get storage k = (if k \<in> key_of ` set (ni_instances input) then Some (storage_of C sha256 root k) else None)" for k
    using s by simp
  moreover have "set (children_of env k) = {ne_dependency e |e. e \<in> set (ni_dependency_edges input) \<and> ne_parent e = k}" for k
    using c [of k] by (simp add: ch deps_of_def)
  ultimately show ?thesis
    using that [of env by_key st0 queue st] env(1-4) r(1,5,6) s i c unfolding env_def [symmetric] by auto
qed

section \<open>Invariants of the whole layout\<close>

text \<open>
  The loop over the direct dependencies places each one that is new, and queues its
  children. An invariant that both loops keep and that holds of the empty layout holds
  of every layout.
\<close>

locale layout_invariant = placement_loop env I
  for env :: "('v::linorder) layout_env" and I :: "'v pending list \<Rightarrow> 'v layout_state \<Rightarrow> bool" +
  fixes root_base :: path and admissible :: "'v named_dependency \<Rightarrow> bool"
  assumes start: "I [] empty_layout"
    and root: "I queue st \<Longrightarrow> admissible dep \<Longrightarrow> \<not> taken env (ls_placements st) (target_in root_base (nd_name dep)) \<Longrightarrow>
      bm_get (env_storage env) (nd_child dep) = Some source \<Longrightarrow>
      I (queue @ map (\<lambda>g. (g, [root_base, node_modules_of (target_in root_base (nd_name dep))], bs_empty)) (children_of env (nd_child dep)))
        (activate env source (target_in root_base (nd_name dep)) (nd_child dep) st)"
begin

lemma roots:
  "place_roots env by_key root_base deps (st, queue) = Inr (st', queue') \<Longrightarrow> (\<And>d. d \<in> set deps \<Longrightarrow> admissible d) \<Longrightarrow>
   I queue st \<Longrightarrow> I queue' st'"
proof (induction deps arbitrary: st queue)
  case (Cons d ds)
  let ?t = "target_in root_base (nd_name d)"
  have free: "?t \<notin> bs_set (env_reserved env)" using Cons.prems(1) by (auto simp: Let_def split: if_splits)
  show ?case
  proof (cases "bm_get (ls_placements st) ?t")
    case (Some existing)
    then have "place_roots env by_key root_base ds (st, queue) = Inr (st', queue')"
      using Cons.prems(1) by (auto simp: Let_def split: if_splits)
    with Cons show ?thesis by simp
  next
    case None
    then obtain source where src: "bm_get (env_storage env) (nd_child d) = Some source"
      "place_roots env by_key root_base ds (activate env source ?t (nd_child d) st,
         queue @ map (\<lambda>g. (g, [root_base, node_modules_of ?t], bs_empty)) (children_of env (nd_child d))) = Inr (st', queue')"
      using Cons.prems(1) by (auto simp: Let_def split: if_splits option.splits)
    moreover have "I (queue @ map (\<lambda>g. (g, [root_base, node_modules_of ?t], bs_empty)) (children_of env (nd_child d)))
        (activate env source ?t (nd_child d) st)"
      using Cons.prems(2,3) free None src(1) by (intro root) (simp_all add: taken_def)
    ultimately show ?thesis using Cons.IH Cons.prems(2) by auto
  qed
qed simp

lemma layout:
  assumes "place_roots env by_key root_base deps (empty_layout, []) = Inr (st0, queue)"
    and "\<And>d. d \<in> set deps \<Longrightarrow> admissible d" and "place_all env queue st0 = Inr st"
  shows "I [] st"
  using run [OF assms(3) refl] roots [OF assms(1,2) start] by blast

end

section \<open>Where things are put\<close>

definition layout_safe :: "('v::linorder) layout_env \<Rightarrow> 'v pending list \<Rightarrow> 'v layout_state \<Rightarrow> bool" where
  "layout_safe env queue st \<longleftrightarrow>
     (\<forall>t\<in>dom (bm_get (ls_placements st)). managed_contains (env_root env) t \<and> t \<notin> bs_set (env_reserved env)) \<and>
     distinct (map as_target (ls_activation st)) \<and>
     as_target ` set (ls_activation st) = dom (bm_get (ls_placements st)) \<and>
     bs_set (ls_reachable st) \<subseteq> ran (bm_get (ls_placements st)) \<and>
     (\<forall>s\<in>set (ls_activation st). as_kind s = env_kind env \<and>
        (\<exists>k. bm_get (ls_placements st) (as_target s) = Some k \<and> bm_get (env_storage env) k = Some (as_source s)))"

lemma layout_safe_activate:
  assumes "layout_safe env queue st" "managed_contains (env_root env) t" "\<not> taken env (ls_placements st) t"
    "bm_get (env_storage env) key = Some source"
  shows "layout_safe env queue' (activate env source t key st)"
proof -
  have "bm_get (ls_placements st) t = None" using assms(3) by (simp add: taken_def)
  then have "ran (bm_get (ls_placements (activate env source t key st))) = insert key (ran (bm_get (ls_placements st)))"
    by (simp add: activate_def)
  with assms show ?thesis unfolding layout_safe_def taken_def by (auto simp: activate_def)
qed

lemma layout_safe_step:
  assumes "layout_safe env (item # rest) st" "place_dependency env item st = Inr (st', new)"
  shows "layout_safe env (rest @ new) st'"
proof -
  obtain dep bases lineage where item: "item = (dep, bases, lineage)" by (cases item)
  show ?thesis
    using assms(2) unfolding item
  proof (cases rule: place_dependency_step)
    case resolved
    then have "nd_child dep \<in> ran (bm_get (ls_placements st))"
      by (auto simp: lookup_def dest: lookup_from_ran)
    with resolved show ?thesis using assms(1) by (simp add: layout_safe_def)
  next
    case (placed k source)
    then show ?thesis using layout_safe_activate [OF assms(1)] by blast
  qed
qed

interpretation safe: layout_invariant env "layout_safe env" root_base
    "\<lambda>d. managed_contains (env_root env) (target_in root_base (nd_name d))" for env root_base
proof (unfold_locales, goal_cases)
  case 1
  then show ?case by (rule layout_safe_step)
next
  case 2
  show ?case by (simp add: layout_safe_def empty_layout_def)
next
  case (3 queue st dep source)
  then show ?case by (intro layout_safe_activate)
qed

text \<open>Panics: a search path is never empty, and every queued instance has a storage path.\<close>

definition queue_ready :: "('v::linorder) layout_env \<Rightarrow> 'v pending list \<Rightarrow> 'v layout_state \<Rightarrow> bool" where
  "queue_ready env queue st \<longleftrightarrow>
     (\<forall>k. \<forall>d\<in>set (children_of env k). nd_child d \<in> dom (bm_get (env_storage env))) \<longrightarrow>
     (\<forall>(d, bases, l)\<in>set queue. bases \<noteq> [] \<and> nd_child d \<in> dom (bm_get (env_storage env)))"

lemma queue_ready_step:
  assumes "queue_ready env (item # rest) st" "place_dependency env item st = Inr (st', new)"
  shows "queue_ready env (rest @ new) st'"
proof -
  obtain dep bases lineage where item: "item = (dep, bases, lineage)" by (cases item)
  show ?thesis
    using assms(2) unfolding item
  proof (cases rule: place_dependency_step)
    case resolved
    then show ?thesis using assms(1) by (simp add: queue_ready_def)
  next
    case (placed k source)
    from placed(7) show ?thesis using assms(1) unfolding queue_ready_def by fastforce
  qed
qed

interpretation ready: layout_invariant env "queue_ready env" root_base "\<lambda>_. True" for env root_base
proof (unfold_locales, goal_cases)
  case 1
  then show ?case by (rule queue_ready_step)
next
  case 2
  show ?case by (simp add: queue_ready_def)
next
  case (3 queue st dep source)
  then show ?case unfolding queue_ready_def by fastforce
qed

lemma scan_bases_no_panic: "scan_bases env m dep bases = Inl e \<Longrightarrow> e \<noteq> LinkPanicked msg"
  by (induction env m dep bases rule: scan_bases.induct) (auto simp: Let_def split: if_splits option.splits)

lemma place_dependency_no_panic:
  assumes "bases \<noteq> []" "nd_child dep \<in> dom (bm_get (env_storage env))"
  shows "place_dependency env (dep, bases, lineage) st \<noteq> Inl (LinkPanicked msg)"
  using assms scan_bases_no_panic [of env "ls_placements st" dep "rev (enumerate 0 bases)"]
  by (auto simp: place_dependency_def Let_def and_then_def split: sum.splits if_splits option.splits)

section \<open>Where a name is searched\<close>

text \<open>
  A package at a target sees the \<open>node_modules\<close> directories on the way from the project to
  its own, the nearest first: \<open>search_path\<close> lists them from the outermost.
\<close>

definition root_modules :: "managed_root \<Rightarrow> path" where
  "root_modules root = path_push (mr_path root) ''node_modules''"

definition search_path :: "managed_root \<Rightarrow> path \<Rightarrow> path list" where
  "search_path root target =
     map (Path (path_absolute target))
       (filter (\<lambda>q. last q = ''node_modules'' \<and> prefix (path_names (root_modules root)) q)
         (prefixes (path_names target @ [''node_modules''])))"

text \<open>Names no part of which is itself \<open>node_modules\<close>.\<close>

definition plain_name :: "string \<Rightarrow> bool" where
  "plain_name n \<longleftrightarrow> valid_package_name n \<and> ''node_modules'' \<notin> set (split_char (CHR ''/'') n)"

lemma push_node_modules: "path_push p ''node_modules'' = Path (path_absolute p) (path_names p @ [''node_modules''])"
  by (rule path_push_single) simp_all

lemma name_path:
  "valid_package_name n \<Longrightarrow> package_name_path n = Path False (split_char (CHR ''/'') n)"
  by (auto simp: package_name_path_def filter_id_conv dest: valid_name_path_safe)

lemma target_in_valid:
  "valid_package_name n \<Longrightarrow> target_in b n = Path (path_absolute b) (path_names b @ split_char (CHR ''/'') n)"
  by (simp add: target_in_def name_path)

inductive search_chain :: "managed_root \<Rightarrow> path list \<Rightarrow> bool" for root where
  outermost: "search_chain root [root_modules root]"
| nested: "search_chain root bs \<Longrightarrow> plain_name n \<Longrightarrow> search_chain root (bs @ [node_modules_of (target_in (last bs) n)])"

lemma search_chain_not_Nil: "search_chain root bs \<Longrightarrow> bs \<noteq> []"
  by (induction rule: search_chain.induct) auto

lemma search_chain_take: "search_chain root bs \<Longrightarrow> k < length bs \<Longrightarrow> search_chain root (take (k + 1) bs)"
proof (induction rule: search_chain.induct)
  case outermost
  then show ?case by (simp add: search_chain.outermost)
next
  case (nested bs n)
  show ?case
  proof (cases "k < length bs")
    case True
    with nested show ?thesis by simp
  next
    case False
    with nested.prems have "take (k + 1) (bs @ [node_modules_of (target_in (last bs) n)]) = bs @ [node_modules_of (target_in (last bs) n)]"
      by simp
    with nested.hyps search_chain.nested show ?thesis by metis
  qed
qed

lemma search_chain_member:
  assumes "search_chain root bs" "b \<in> set bs"
  obtains bs' where "search_chain root bs'" "last bs' = b"
proof -
  obtain k where "k < length bs" "b = bs ! k" using assms(2) by (auto simp: in_set_conv_nth)
  moreover have "last (take (k + 1) bs) = bs ! k" using calculation(1) by (simp add: take_Suc_conv_app_nth)
  ultimately show ?thesis using search_chain_take [OF assms(1)] that by blast
qed

lemma search_chain_last: "search_chain root bs \<Longrightarrow> path_names (last bs) \<noteq> [] \<and> last (path_names (last bs)) = ''node_modules''"
  by (induction rule: search_chain.induct) (simp_all add: root_modules_def node_modules_of_def push_node_modules)

lemma plain_parts:
  assumes "plain_name n"
  shows "split_char (CHR ''/'') n = [n] \<and> n \<noteq> ''node_modules'' \<or>
    (\<exists>scope m. split_char (CHR ''/'') n = [scope, m] \<and> scope \<noteq> ''node_modules'' \<and> m \<noteq> ''node_modules'')"
  using valid_name_parts [of n] assms unfolding plain_name_def by auto

lemma prefixes_two: "prefixes (xs @ [a, b]) = prefixes xs @ [xs @ [a], xs @ [a, b]]"
  using prefixes_snoc [of "xs @ [a]" b] by (simp add: prefixes_snoc)

lemma prefixes_three: "prefixes (xs @ [a, b, c]) = prefixes xs @ [xs @ [a], xs @ [a, b], xs @ [a, b, c]]"
  using prefixes_snoc [of "xs @ [a, b]" c] by (simp add: prefixes_two)

lemma search_chain_path:
  "search_chain root bs \<Longrightarrow>
   map (Path (path_absolute (mr_path root)))
     (filter (\<lambda>q. last q = ''node_modules'' \<and> prefix (path_names (root_modules root)) q) (prefixes (path_names (last bs)))) = bs \<and>
   path_absolute (last bs) = path_absolute (mr_path root) \<and> prefix (path_names (root_modules root)) (path_names (last bs))"
proof (induction rule: search_chain.induct)
  case outermost
  have r: "root_modules root = Path (path_absolute (mr_path root)) (path_names (mr_path root) @ [''node_modules''])"
    by (simp add: root_modules_def push_node_modules)
  have "\<not> prefix (path_names (mr_path root) @ [''node_modules'']) q" if "q \<in> set (prefixes (path_names (mr_path root)))" for q
    using that prefix_length_le [of q "path_names (mr_path root)"]
      prefix_length_le [of "path_names (mr_path root) @ [''node_modules'']" q] by auto
  then have f: "filter (\<lambda>q. last q = ''node_modules'' \<and> prefix (path_names (mr_path root) @ [''node_modules'']) q)
      (prefixes (path_names (mr_path root))) = []"
    by (auto simp: filter_empty_conv)
  show ?case unfolding r by (simp add: prefixes_snoc f)
next
  case (nested bs n)
  let ?xs = "path_names (last bs)" and ?r = "path_names (root_modules root)"
  have v: "valid_package_name n" using nested.hyps(2) by (simp add: plain_name_def)
  have t: "node_modules_of (target_in (last bs) n) =
      Path (path_absolute (last bs)) ((?xs @ split_char (CHR ''/'') n) @ [''node_modules''])"
    by (simp add: node_modules_of_def push_node_modules target_in_valid [OF v])
  have p: "prefix ?r (?xs @ ys)" for ys using nested.IH by simp
  from plain_parts [OF nested.hyps(2)]
  have "filter (\<lambda>q. last q = ''node_modules'' \<and> prefix ?r q) (prefixes ((?xs @ split_char (CHR ''/'') n) @ [''node_modules''])) =
      filter (\<lambda>q. last q = ''node_modules'' \<and> prefix ?r q) (prefixes ?xs) @ [(?xs @ split_char (CHR ''/'') n) @ [''node_modules'']]"
  proof (elim disjE exE conjE)
    assume "split_char (CHR ''/'') n = [n]" "n \<noteq> ''node_modules''"
    then show ?thesis using p [of "[n, ''node_modules'']"] by (simp add: prefixes_two)
  next
    fix scope m assume s: "split_char (CHR ''/'') n = [scope, m]" "scope \<noteq> ''node_modules''" "m \<noteq> ''node_modules''"
    with p [of "[scope, m, ''node_modules'']"] show ?thesis by (simp add: prefixes_three)
  qed
  with nested.IH show ?case unfolding last_snoc t by (auto simp: p)
qed

lemma search_path_chain:
  assumes "search_chain root bs" "plain_name n"
  shows "search_path root (target_in (last bs) n) = bs @ [node_modules_of (target_in (last bs) n)]"
proof -
  have v: "valid_package_name n" using assms(2) by (simp add: plain_name_def)
  note c = search_chain_path [OF search_chain.nested [OF assms]]
  show ?thesis
    using c [THEN conjunct1] search_chain_path [OF assms(1)]
    by (simp add: search_path_def node_modules_of_def push_node_modules target_in_valid [OF v])
qed

lemma target_name_inject:
  assumes "search_chain root bs" "search_chain root' cs" "plain_name n" "plain_name m"
    "target_in (last bs) n = target_in (last cs) m"
  shows "n = m"
proof -
  have v: "valid_package_name n" "valid_package_name m" using assms(3,4) by (simp_all add: plain_name_def)
  have eq: "path_names (last bs) @ split_char (CHR ''/'') n = path_names (last cs) @ split_char (CHR ''/'') m"
    using assms(5) by (simp add: target_in_valid v)
  have "split_char (CHR ''/'') n = split_char (CHR ''/'') m"
    using plain_parts [OF assms(3)] plain_parts [OF assms(4)] eq search_chain_last [OF assms(1)] search_chain_last [OF assms(2)]
    by (auto simp: append_eq_Cons_conv) (metis last_snoc)+
  then show ?thesis by (metis join_split_char)
qed

section \<open>Layouts in which every name has one instance\<close>

definition names_agree :: "('v::linorder) layout_env \<Rightarrow> (string \<Rightarrow> 'v instance_key) \<Rightarrow> bool" where
  "names_agree env f \<longleftrightarrow> (\<forall>k. \<forall>d\<in>set (children_of env k). plain_name (nd_name d) \<and> nd_child d = f (nd_name d))"

definition placed_well ::
  "managed_root \<Rightarrow> (string \<Rightarrow> 'v instance_key) \<Rightarrow> (path, ('v::linorder) instance_key) btree_map \<Rightarrow> bool" where
  "placed_well root f m \<longleftrightarrow>
     (\<forall>t k. bm_get m t = Some k \<longrightarrow> (\<exists>bs n. search_chain root bs \<and> plain_name n \<and> t = target_in (last bs) n \<and> k = f n))"

lemma lookup_None_iff: "lookup m bs n = None \<longleftrightarrow> (\<forall>b\<in>set bs. bm_get m (target_in b n) = None)"
proof -
  have "lookup_from m n cs = None \<longleftrightarrow> (\<forall>b\<in>set cs. bm_get m (target_in b n) = None)" for cs
    by (induction cs) (auto split: option.splits)
  then show ?thesis by (simp add: lookup_def)
qed

lemma lookup_Some_D: "lookup m bs n = Some k \<Longrightarrow> \<exists>b\<in>set bs. bm_get m (target_in b n) = Some k"
proof -
  have "lookup_from m n cs = Some k \<Longrightarrow> \<exists>b\<in>set cs. bm_get m (target_in b n) = Some k" for cs
    by (induction cs) (auto split: option.splits)
  then show "lookup m bs n = Some k \<Longrightarrow> ?thesis" by (auto simp: lookup_def dest!: \<open>\<And>cs. _ \<Longrightarrow> _\<close>)
qed

lemma lookup_value:
  assumes "placed_well root f m" "search_chain root bs" "plain_name n" "lookup m bs n = Some k"
  shows "k = f n"
proof -
  obtain b where b: "b \<in> set bs" "bm_get m (target_in b n) = Some k" using lookup_Some_D [OF assms(4)] by blast
  obtain bs' where c: "search_chain root bs'" "last bs' = b" using search_chain_member [OF assms(2) b(1)] .
  obtain cs n' where n': "search_chain root cs" "plain_name n'" "target_in b n = target_in (last cs) n'" "k = f n'"
    using assms(1) b(2) unfolding placed_well_def by blast
  with target_name_inject [OF c(1) n'(1) assms(3) n'(2)] c(2) show ?thesis by simp
qed

lemma lookup_mono:
  assumes "placed_well root f m'" "bm_get m \<subseteq>\<^sub>m bm_get m'" "search_chain root bs" "plain_name n" "lookup m bs n = Some (f n)"
  shows "lookup m' bs n = Some (f n)"
proof (cases "lookup m' bs n")
  case None
  obtain b where b: "b \<in> set bs" "bm_get m (target_in b n) = Some (f n)" using lookup_Some_D [OF assms(5)] by blast
  with assms(2) have "bm_get m' (target_in b n) = Some (f n)" by (metis domI map_le_def)
  with None b show ?thesis by (auto simp: lookup_None_iff)
next
  case (Some k)
  with lookup_value [OF assms(1,3,4)] show ?thesis by simp
qed

text \<open>
  Every dependency of a placed instance resolves from where the instance is placed, or is
  still queued with that search path.
\<close>

definition dependencies_served ::
  "('v::linorder) layout_env \<Rightarrow> 'v pending list \<Rightarrow> (path, 'v instance_key) btree_map \<Rightarrow> path \<Rightarrow> 'v instance_key \<Rightarrow> bool" where
  "dependencies_served env queue m t k \<longleftrightarrow>
     (\<forall>d\<in>set (children_of env k).
        lookup m (search_path (env_root env) t) (nd_name d) = Some (nd_child d) \<or>
        (\<exists>l. (d, search_path (env_root env) t, l) \<in> set queue))"

definition layout_resolved ::
  "('v::linorder) layout_env \<Rightarrow> (string \<Rightarrow> 'v instance_key) \<Rightarrow> 'v pending list \<Rightarrow> 'v layout_state \<Rightarrow> bool" where
  "layout_resolved env f queue st \<longleftrightarrow>
     names_agree env f \<longrightarrow>
     placed_well (env_root env) f (ls_placements st) \<and>
     (\<forall>(d, bs, l)\<in>set queue. search_chain (env_root env) bs \<and> plain_name (nd_name d) \<and> nd_child d = f (nd_name d)) \<and>
     (\<forall>t k. bm_get (ls_placements st) t = Some k \<longrightarrow> dependencies_served env queue (ls_placements st) t k)"

lemma placed_search_chain:
  assumes "placed_well root f m" "bm_get m t = Some k"
  shows "search_chain root (search_path root t)"
proof -
  obtain bs n where "search_chain root bs" "plain_name n" "t = target_in (last bs) n"
    using assms unfolding placed_well_def by blast
  with search_path_chain search_chain.nested show ?thesis by metis
qed

lemma served_grows:
  assumes "names_agree env f" "placed_well (env_root env) f m" "placed_well (env_root env) f m'" "bm_get m \<subseteq>\<^sub>m bm_get m'"
    and "bm_get m t = Some k" "dependencies_served env queue m t k"
    and "\<And>d bs l. (d, bs, l) \<in> set queue \<Longrightarrow> (d, bs, l) \<in> set queue' \<or> lookup m' bs (nd_name d) = Some (nd_child d)"
  shows "dependencies_served env queue' m' t k"
  unfolding dependencies_served_def
proof
  fix d assume d: "d \<in> set (children_of env k)"
  then have n: "plain_name (nd_name d)" "nd_child d = f (nd_name d)" using assms(1) by (auto simp: names_agree_def)
  have "lookup m' (search_path (env_root env) t) (nd_name d) = Some (nd_child d)"
    if "lookup m (search_path (env_root env) t) (nd_name d) = Some (nd_child d)"
    using lookup_mono [OF assms(3,4) placed_search_chain [OF assms(2,5)] n(1)] that n(2) by simp
  with assms(6,7) d show "lookup m' (search_path (env_root env) t) (nd_name d) = Some (nd_child d) \<or>
      (\<exists>l. (d, search_path (env_root env) t, l) \<in> set queue')"
    unfolding dependencies_served_def by blast
qed

lemma layout_resolved_activate:
  assumes names: "names_agree env f" and inv: "layout_resolved env f queue st"
    and new: "search_chain (env_root env) bs" "plain_name n" "t = target_in (last bs) n" "\<not> taken env (ls_placements st) t"
    and st': "st' = activate env source t (f n) st"
    and queued: "\<And>d bs l. (d, bs, l) \<in> set queue \<Longrightarrow>
      (d, bs, l) \<in> set queue' \<or> lookup (ls_placements st') bs (nd_name d) = Some (nd_child d)"
    and ok: "\<And>d bs l. (d, bs, l) \<in> set queue' \<Longrightarrow>
      search_chain (env_root env) bs \<and> plain_name (nd_name d) \<and> nd_child d = f (nd_name d)"
    and served: "dependencies_served env queue' (ls_placements st') t (f n)"
  shows "layout_resolved env f queue' st'"
proof -
  let ?m = "ls_placements st" and ?m' = "ls_placements st'"
  have i: "placed_well (env_root env) f ?m" "\<And>t k. bm_get ?m t = Some k \<Longrightarrow> dependencies_served env queue ?m t k"
    using inv names by (auto simp: layout_resolved_def)
  have m': "bm_get ?m' = (bm_get ?m)(t \<mapsto> f n)" by (simp add: st' activate_def)
  have le: "bm_get ?m \<subseteq>\<^sub>m bm_get ?m'" using new(4) by (auto simp: m' map_le_def taken_def)
  have w: "placed_well (env_root env) f ?m'"
    using i(1) new(1-3) unfolding placed_well_def m' by auto
  have "dependencies_served env queue' ?m' u k" if "bm_get ?m' u = Some k" for u k
  proof (cases "u = t")
    case True
    with that served show ?thesis by (simp add: m')
  next
    case False
    with that have u: "bm_get ?m u = Some k" by (simp add: m')
    show ?thesis by (rule served_grows [OF names i(1) w le u i(2) [OF u]]) (rule queued)
  qed
  with w ok show ?thesis unfolding layout_resolved_def by auto
qed

lemma layout_resolved_step:
  assumes "layout_resolved env f (item # rest) st" "place_dependency env item st = Inr (st', new)"
  shows "layout_resolved env f (rest @ new) st'"
proof (cases "names_agree env f")
  case names: True
  obtain dep bases lineage where item: "item = (dep, bases, lineage)" by (cases item)
  have i: "placed_well (env_root env) f (ls_placements st)" "search_chain (env_root env) bases" "plain_name (nd_name dep)"
    "nd_child dep = f (nd_name dep)"
    "\<And>d bs l. (d, bs, l) \<in> set rest \<Longrightarrow> search_chain (env_root env) bs \<and> plain_name (nd_name d) \<and> nd_child d = f (nd_name d)"
    "\<And>t k. bm_get (ls_placements st) t = Some k \<Longrightarrow> dependencies_served env (item # rest) (ls_placements st) t k"
    using assms(1) names by (auto simp: layout_resolved_def item)
  have "place_dependency env (dep, bases, lineage) st = Inr (st', new)" using assms(2) by (simp add: item)
  then show ?thesis
  proof (cases rule: place_dependency_step)
    case resolved
    have "dependencies_served env rest (ls_placements st) t k" if "bm_get (ls_placements st) t = Some k" for t k
      by (rule served_grows [OF names i(1) i(1) map_le_refl that i(6) [OF that]]) (use resolved(3) item in auto)
    with i(1,5) resolved(1,2) show ?thesis by (auto simp: layout_resolved_def)
  next
    case (placed k source)
    let ?bs = "take (k + 1) bases" and ?t = "target_in (bases ! k) (nd_name dep)"
    have bs: "search_chain (env_root env) ?bs" "last ?bs = bases ! k"
      using search_chain_take [OF i(2) placed(1)] placed(1) by (simp_all add: take_Suc_conv_app_nth)
    have path: "search_path (env_root env) ?t = ?bs @ [node_modules_of ?t]" "search_chain (env_root env) (?bs @ [node_modules_of ?t])"
      using search_path_chain [OF bs(1) i(3)] search_chain.nested [OF bs(1) i(3)] by (simp_all only: bs(2))
    have kids: "plain_name (nd_name g) \<and> nd_child g = f (nd_name g)" if "g \<in> set (children_of env (nd_child dep))" for g
      using names that by (auto simp: names_agree_def)
    show ?thesis
    proof (rule layout_resolved_activate [OF names assms(1) bs(1) i(3)])
      show "?t = target_in (last ?bs) (nd_name dep)" by (simp only: bs(2))
      show "st' = activate env source ?t (f (nd_name dep)) st" using placed(5) by (simp only: i(4))
      show "(d, cs, l) \<in> set (rest @ new) \<or> lookup (ls_placements st') cs (nd_name d) = Some (nd_child d)"
        if "(d, cs, l) \<in> set (item # rest)" for d cs l using that placed(6) item by auto
      show "search_chain (env_root env) cs \<and> plain_name (nd_name d) \<and> nd_child d = f (nd_name d)"
        if "(d, cs, l) \<in> set (rest @ new)" for d cs l
        using that i(5) placed(7) path(2) kids by auto
      show "dependencies_served env (rest @ new) (ls_placements st') ?t (f (nd_name dep))"
        using placed(7) unfolding dependencies_served_def path(1) i(4) [symmetric]
      proof (elim disjE exE conjE)
        fix lineage' assume "new = map (\<lambda>g. (g, ?bs @ [node_modules_of ?t], lineage')) (children_of env (nd_child dep))"
        then have "(d, ?bs @ [node_modules_of ?t], lineage') \<in> set (rest @ new)" if "d \<in> set (children_of env (nd_child dep))" for d
          using that by simp
        then show "\<forall>d\<in>set (children_of env (nd_child dep)). lookup (ls_placements st') (?bs @ [node_modules_of ?t]) (nd_name d) = Some (nd_child d) \<or>
            (\<exists>l. (d, ?bs @ [node_modules_of ?t], l) \<in> set (rest @ new))" by blast
      qed (auto simp: unresolved_child_def list_ex_iff)
    qed (rule placed(4))
  qed
qed (simp add: layout_resolved_def)

interpretation resolved: layout_invariant env "layout_resolved env f" "root_modules (env_root env)"
    "\<lambda>d. plain_name (nd_name d) \<and> nd_child d = f (nd_name d)" for env f
proof (unfold_locales, goal_cases)
  case 1
  then show ?case by (rule layout_resolved_step)
next
  case 2
  show ?case by (simp add: layout_resolved_def empty_layout_def placed_well_def)
next
  case (3 queue st dep source)
  show ?case
  proof (cases "names_agree env f")
    case names: True
    let ?r = "root_modules (env_root env)" and ?t = "target_in (root_modules (env_root env)) (nd_name dep)"
    have bs: "search_chain (env_root env) [?r]" by (rule search_chain.outermost)
    have path: "search_path (env_root env) ?t = [?r, node_modules_of ?t]" "search_chain (env_root env) [?r, node_modules_of ?t]"
      using search_path_chain [OF bs] search_chain.nested [OF bs] 3(2) by auto
    show ?thesis
    proof (rule layout_resolved_activate [OF names 3(1) bs])
      show "dependencies_served env (queue @ map (\<lambda>g. (g, [?r, node_modules_of ?t], bs_empty)) (children_of env (nd_child dep)))
          (ls_placements (activate env source ?t (nd_child dep) st)) ?t (f (nd_name dep))"
        using 3(2) by (auto simp: dependencies_served_def path(1))
      show "search_chain (env_root env) cs \<and> plain_name (nd_name d) \<and> nd_child d = f (nd_name d)"
        if "(d, cs, l) \<in> set (queue @ map (\<lambda>g. (g, [?r, node_modules_of ?t], bs_empty)) (children_of env (nd_child dep)))" for d cs l
        using that 3(1) names path(2) by (auto simp: layout_resolved_def names_agree_def)
    qed (use 3 in simp_all)
  qed (simp add: layout_resolved_def)
qed

section \<open>Placements stay\<close>

lemma place_dependency_grows:
  assumes "place_dependency env item st = Inr (st', new)"
  shows "bm_get (ls_placements st) \<subseteq>\<^sub>m bm_get (ls_placements st')"
proof -
  obtain dep bases lineage where item: "item = (dep, bases, lineage)" by (cases item)
  show ?thesis
    using assms unfolding item
    by (cases rule: place_dependency_step) (auto simp: activate_def map_le_def taken_def)
qed

interpretation grows: placement_loop env "\<lambda>_ st. m \<subseteq>\<^sub>m bm_get (ls_placements st)" for env m
  by unfold_locales (blast intro: map_le_trans place_dependency_grows)

lemma place_roots_placed:
  "place_roots env by_key base deps (st, queue) = Inr (st', queue') \<Longrightarrow>
   bm_get (ls_placements st) \<subseteq>\<^sub>m bm_get (ls_placements st') \<and>
   (\<forall>d\<in>set deps. bm_get (ls_placements st') (target_in base (nd_name d)) = Some (nd_child d))"
proof (induction deps arbitrary: st queue)
  case (Cons d ds)
  let ?t = "target_in base (nd_name d)"
  obtain st1 queue1 where r: "place_roots env by_key base ds (st1, queue1) = Inr (st', queue')"
    and m: "bm_get (ls_placements st) \<subseteq>\<^sub>m bm_get (ls_placements st1)" "bm_get (ls_placements st1) ?t = Some (nd_child d)"
  proof (cases "bm_get (ls_placements st) ?t")
    case (Some existing)
    with Cons.prems have "place_roots env by_key base ds (st, queue) = Inr (st', queue')" "existing = nd_child d"
      by (auto simp: Let_def split: if_splits)
    with that [of st queue] Some show ?thesis by simp
  next
    case None
    with Cons.prems obtain source queue1 where
      "place_roots env by_key base ds (activate env source ?t (nd_child d) st, queue1) = Inr (st', queue')"
      by (auto simp: Let_def split: if_splits option.splits)
    then show ?thesis
    proof (rule that)
      show "bm_get (ls_placements st) \<subseteq>\<^sub>m bm_get (ls_placements (activate env source ?t (nd_child d) st))"
        using None by (auto simp: activate_def map_le_def)
      show "bm_get (ls_placements (activate env source ?t (nd_child d) st)) ?t = Some (nd_child d)"
        by (simp add: activate_def)
    qed
  qed
  note IH = Cons.IH [OF r]
  have "bm_get (ls_placements st') ?t = Some (nd_child d)" using IH m(2) by (metis domI map_le_def)
  with IH m(1) show ?case using map_le_trans by auto
qed simp

section \<open>Panics and order\<close>

lemma place_roots_no_panic:
  "place_roots env by_key base deps acc = Inl e \<Longrightarrow> dom (bm_get by_key) \<subseteq> dom (bm_get (env_storage env)) \<Longrightarrow> e \<noteq> LinkPanicked msg"
proof (induction deps arbitrary: acc)
  case (Cons d ds)
  obtain st queue where acc: "acc = (st, queue)" by (cases acc)
  show ?case
  proof (cases "bm_get (env_storage env) (nd_child d)")
    case None
    with Cons.prems have "\<not> bm_contains_key by_key (nd_child d)" by (auto simp: bm_contains_key_iff)
    with Cons.prems show ?thesis by (auto simp: acc Let_def)
  next
    case (Some source)
    with Cons show ?thesis by (auto simp: acc Let_def split: if_splits option.splits)
  qed
qed simp

lemma index_instances_no_panic: "index_instances is m = Inl e \<Longrightarrow> e \<noteq> LinkPanicked msg"
  by (induction "is" arbitrary: m) (auto split: if_splits)

lemma store_instances_no_panic: "store_instances C sha256 root is acc = Inl e \<Longrightarrow> e \<noteq> LinkPanicked msg"
  by (induction "is" arbitrary: acc) (auto simp: Let_def split: if_splits prod.splits)

lemma collect_children_no_panic: "collect_children by_key es m = Inl e \<Longrightarrow> e \<noteq> LinkPanicked msg"
  by (induction es arbitrary: m) (auto split: if_splits)

lemma place_all_no_panic:
  assumes "place_all env queue st = Inl e" "queue_ready env queue st"
    "\<And>k d. d \<in> set (children_of env k) \<Longrightarrow> nd_child d \<in> dom (bm_get (env_storage env))"
  shows "e \<noteq> LinkPanicked msg"
proof -
  obtain dep bases l rest st1 where f: "queue_ready env ((dep, bases, l) # rest) st1" "place_dependency env (dep, bases, l) st1 = Inl e"
    using ready.failure [OF assms(1) refl assms(2)] by (metis prod_cases3)
  then have "bases \<noteq> []" "nd_child dep \<in> dom (bm_get (env_storage env))"
    using assms(3) unfolding queue_ready_def by fastforce+
  with place_dependency_no_panic [of bases dep env l st1 msg] f(2) show ?thesis by auto
qed

lemma index_instances_error:
  "map key_of is = map key_of js \<Longrightarrow> dom (bm_get m) = dom (bm_get n) \<Longrightarrow> index_instances is m = Inl e \<Longrightarrow> index_instances js n = Inl e"
proof (induction "is" arbitrary: js m n)
  case (Cons i rest)
  then obtain j js' where j: "js = j # js'" "key_of i = key_of j" "map key_of rest = map key_of js'"
    by (cases js) auto
  have "dom (bm_get (bm_insert (key_of i) i m)) = dom (bm_get (bm_insert (key_of j) j n))" using Cons.prems(2) j(2) by simp
  with Cons.IH [OF j(3) this] Cons.prems(2,3) j show ?case by (auto simp: bm_contains_key_iff split: if_splits)
qed simp

section \<open>The whole planner\<close>

lemma reserve_links_D:
  "reserve_links root ls r = Inr r' \<Longrightarrow> bs_set r' = bs_set r \<union> wl_target ` set ls"
  by (induction ls arbitrary: r) (auto simp: Let_def split: if_splits)

lemma root_target_contained:
  assumes "managed_root_new p = Inr root" "valid_package_name n"
  shows "managed_contains root (target_in (path_push (mr_path root) ''node_modules'') n)"
  using assms(1) valid_name_path_safe [OF assms(2)]
  by (auto simp: managed_root_new_def managed_contains_def target_in_valid [OF assms(2)] push_node_modules
      has_parent_dir_def path_starts_with_def split: if_splits)

lemma layout_panic:
  fixes C :: "('v::linorder) crates"
  shows "plan_named_layout_inner C sha256 root input plat reserved \<noteq> Inl (LinkPanicked msg)"
proof
  let ?is = "sort_key key_of (ni_instances input)"
  let ?es = "sort_key (\<lambda>e. (ne_parent e, ne_dependency e)) (ni_dependency_edges input)"
  let ?ds = "dedup (sort (ni_root_dependencies input))" and ?b = "path_push (mr_path root) ''node_modules''"
  assume "plan_named_layout_inner C sha256 root input plat reserved = Inl (LinkPanicked msg)"
  then obtain kind by_key entries storage children where r:
    "index_instances ?is bm_empty = Inr by_key"
    "store_instances C sha256 root ?is ([], bm_empty) = Inr (entries, storage)"
    "collect_children by_key ?es bm_empty = Inr children"
    and rest: "and_then (place_roots (layout_env_of root kind reserved storage children) by_key ?b ?ds (empty_layout, []))
       (\<lambda>(st, queue). and_then (place_all (layout_env_of root kind reserved storage children) queue st)
          (finish_layout (layout_env_of root kind reserved storage children) entries)) = Inl (LinkPanicked msg)"
    unfolding plan_named_layout_inner_def Let_def
    by (auto simp: and_then_def link_kind_of_def split: sum.splits platform.splits
        dest: index_instances_no_panic store_instances_no_panic collect_children_no_panic)
  define env where "env = layout_env_of root kind reserved storage children"
  have env: "env_storage env = storage" "env_children env = bm_map_values (\<lambda>ds. dedup (sort ds)) children"
    by (simp_all add: env_def layout_env_of_def Let_def)
  have dom: "dom (bm_get by_key) = dom (bm_get storage)"
    using index_instances_D [OF r(1)] store_instances_D [OF r(2)] by (auto simp: dom_def split: if_splits)
  have kids: "nd_child d \<in> dom (bm_get (env_storage env))" if "d \<in> set (children_of env k)" for d k
  proof -
    have "d \<in> deps_of children k"
      using that by (simp add: children_of_def env(2) bm_get_map_values deps_of_def split: option.splits)
    then obtain e where "e \<in> set (ni_dependency_edges input)" "d = ne_dependency e"
      using collect_children_D [OF r(3), of k] by (auto simp: deps_of_def [of bm_empty])
    then show ?thesis using collect_children_D [OF r(3), of k] dom by (simp add: env(1))
  qed
  show False
  proof (cases "place_roots env by_key ?b ?ds (empty_layout, [])")
    case (Inl e)
    with rest place_roots_no_panic [OF Inl] dom show False by (auto simp: env_def [symmetric] env(1))
  next
    case (Inr q)
    obtain st queue where q: "q = (st, queue)" by (cases q)
    have ready: "queue_ready env queue st"
      using ready.roots [OF Inr [unfolded q]] ready.start by blast
    show False
      using rest place_all_no_panic [of env queue st _ msg, OF _ ready kids]
      by (auto simp: env_def [symmetric] Inr q and_then_def finish_layout_def split: sum.splits option.splits)
  qed
qed

lemma reserve_links_no_panic: "reserve_links root ls r \<noteq> Inl (LinkPanicked msg)"
  by (induction ls arbitrary: r) (auto simp: Let_def)

lemma link_packages_D:
  assumes "link_packages project ps targets = Inr links" "managed_root_new project = (Inr root :: ('v::linorder plan_error, managed_root) result)"
    "\<And>p. p \<in> set ps \<Longrightarrow> valid_package_name (wp_name p)"
  shows "(\<exists>r. reserve_links root links targets = Inr r) \<and>
    map (\<lambda>l. (wl_name l, wl_version l)) links = map (\<lambda>p. (wp_name p, wp_version p)) ps \<and>
    distinct (map wl_target links) \<and> wl_target ` set links \<inter> bs_set targets = {} \<and>
    (\<forall>l\<in>set links. managed_contains root (wl_target l) \<and> strictly_below project (wl_source l))"
  using assms(1,3)
proof (induction ps arbitrary: targets links)
  case (Cons p ps)
  let ?t = "target_in (path_push project ''node_modules'') (wp_name p)"
  obtain ls where ls: "link_packages project ps (bs_insert ?t targets) = Inr ls"
    "links = \<lparr>wl_name = wp_name p, wl_version = wp_version p, wl_source = path_join project (wp_root p), wl_target = ?t\<rparr> # ls"
    "?t \<notin> bs_set targets" "strictly_below project (path_join project (wp_root p))"
    using Cons.prems(1) by (auto simp: Let_def and_then_Inr target_in_def split: if_splits)
  have root: "mr_path root = project" using assms(2) by (auto simp: managed_root_new_def split: if_splits)
  have "managed_contains root ?t"
    using root_target_contained [OF assms(2)] Cons.prems(2) by (simp add: root)
  with Cons.IH [OF ls(1)] Cons.prems(2) ls(2-4) show ?case by (auto simp: root Let_def)
qed simp

text \<open>A number of passes of the placement loop, from one queue and state to another.\<close>

inductive passes ::
  "('v::linorder) layout_env \<Rightarrow> nat \<Rightarrow> 'v pending list \<Rightarrow> 'v layout_state \<Rightarrow> 'v pending list \<Rightarrow> 'v layout_state \<Rightarrow> bool" for env where
  none: "passes env 0 queue st queue st"
| pass: "place_dependency env item st = Inr (st1, new) \<Longrightarrow> passes env n (rest @ new) st1 queue' st' \<Longrightarrow>
    passes env (Suc n) (item # rest) st queue' st'"

end
