(* ===== verification/Linker_Storage.thy ===== *)
theory Linker_Storage
  imports Linker_Facts
begin

text \<open>
  Lemmas on the storage path of an instance: its components, that each part is one path
  component, and what of the instance can be read back from it.
\<close>

section \<open>Storage paths\<close>

lemma split_at_separator:
  assumes "c \<notin> set a" "c \<notin> set b" "a @ c # xs = b @ c # ys"
  shows "a = b \<and> xs = ys"
  using assms by (induction a arbitrary: b) (auto simp: Cons_eq_append_conv append_eq_Cons_conv)

lemma hex_upper_inject: "m < 16 \<Longrightarrow> n < 16 \<Longrightarrow> hex_upper m = hex_upper n \<Longrightarrow> m = n"
  by (metis hex_upper_digits option.inject)

lemma encode_path_component_inject: "encode_path_component a = encode_path_component b \<Longrightarrow> a = b"
proof (induction a arbitrary: b)
  case Nil
  then show ?case by (cases b) (auto simp: encode_path_component_def encode_path_byte_def split: if_splits)
next
  case (Cons x xs)
  let ?plain = "\<lambda>c. is_ascii_alphanumeric c \<or> c \<in> {CHR ''_'', CHR ''.'', CHR ''@''}"
  obtain y ys where b: "b = y # ys"
    using Cons.prems by (cases b) (auto simp: encode_path_component_def encode_path_byte_def split: if_splits)
  have pct: "\<not> ?plain CHR ''%''" by (simp add: ascii_class_defs byte_def)
  have eq: "encode_path_byte x @ encode_path_component xs = encode_path_byte y @ encode_path_component ys"
    using Cons.prems by (simp add: encode_path_component_def b)
  have "x = y \<and> encode_path_component xs = encode_path_component ys"
  proof (cases "?plain x \<or> ?plain y")
    case True
    with eq pct show ?thesis unfolding encode_path_byte_def by (auto simp only: if_True if_False append.simps list.inject split: if_splits)
  next
    case False
    then have "hex_upper (byte x div 16) = hex_upper (byte y div 16)" "hex_upper (byte x mod 16) = hex_upper (byte y mod 16)"
      and r: "encode_path_component xs = encode_path_component ys"
      using eq by (simp_all add: encode_path_byte_def)
    moreover have "byte c < 256" for c by (simp add: byte_def)
    ultimately have "byte x div 16 = byte y div 16" "byte x mod 16 = byte y mod 16"
      by (auto intro!: hex_upper_inject simp: div_less_iff_less_mult)
    then have "byte x = byte y" by (metis div_mult_mod_eq)
    then have "x = y" by (simp add: byte_def)
    with r show ?thesis by blast
  qed
  with Cons.IH b show ?case by blast
qed

lemma hex_upper_chars: "n < 16 \<Longrightarrow> hex_upper n \<notin> {CHR ''-'', CHR ''/'', CHR ''=''}"
  using hex_upper_digits [of n] by (auto simp: to_digit16_def ascii_class_defs byte_def split: if_splits)

lemma encode_path_component_chars: "c \<in> set (encode_path_component v) \<Longrightarrow> c \<notin> {CHR ''-'', CHR ''/''}"
proof -
  assume "c \<in> set (encode_path_component v)"
  then obtain x where "c \<in> set (encode_path_byte x)" by (auto simp: encode_path_component_def)
  then consider "is_ascii_alphanumeric c \<or> c \<in> {CHR ''_'', CHR ''.'', CHR ''@'', CHR ''%''}"
    | n where "c = hex_upper n" "n < 16"
    unfolding encode_path_byte_def by (cases "is_ascii_alphanumeric x \<or> x \<in> {CHR ''_'', CHR ''.'', CHR ''@''}") (auto simp: byte_def div_less_iff_less_mult)
  then show ?thesis
  proof cases
    case 1
    then show ?thesis by (auto simp: ascii_class_defs byte_def)
  next
    case 2
    then show ?thesis using hex_upper_chars by auto
  qed
qed

lemma safe_component_chars: "c \<in> set (safe_component v) \<Longrightarrow> c \<notin> {CHR ''/'', CHR ''=''}"
proof -
  have safe: "d \<notin> {CHR ''/'', CHR ''=''}" if "safe_char d" for d
    using that by (auto simp: safe_char_def ascii_class_defs byte_def)
  assume "c \<in> set (safe_component v)"
  then have "safe_char c \<or> c = CHR ''_''" by (auto simp: safe_component_def split: if_splits)
  with safe show ?thesis by auto
qed


definition field :: "string option \<Rightarrow> string" where
  "field f = (case f of None \<Rightarrow> [] | Some v \<Rightarrow> v)"

lemma platform_component_key_inject:
  assumes "platform_component_key p = platform_component_key q"
  shows "field (ctx_os p) = field (ctx_os q) \<and> field (ctx_cpu p) = field (ctx_cpu q) \<and> field (ctx_libc p) = field (ctx_libc q)"
proof -
  let ?e = "\<lambda>f. encode_path_component (field f)"
  have no: "CHR ''-'' \<notin> set (?e f)" for f using encode_path_component_chars by blast
  have "?e (ctx_os p) @ CHR ''-'' # (''-cpu-'' @ ?e (ctx_cpu p) @ ''--libc-'' @ ?e (ctx_libc p)) =
      ?e (ctx_os q) @ CHR ''-'' # (''-cpu-'' @ ?e (ctx_cpu q) @ ''--libc-'' @ ?e (ctx_libc q))"
    using assms by (simp add: platform_component_key_def field_def Let_def)
  then have os: "?e (ctx_os p) = ?e (ctx_os q)" and
    r: "?e (ctx_cpu p) @ CHR ''-'' # (''-libc-'' @ ?e (ctx_libc p)) = ?e (ctx_cpu q) @ CHR ''-'' # (''-libc-'' @ ?e (ctx_libc q))"
    using split_at_separator [OF no no] by auto
  from split_at_separator [OF no no r] have "?e (ctx_cpu p) = ?e (ctx_cpu q)" "?e (ctx_libc p) = ?e (ctx_libc q)" by auto
  with os show ?thesis by (simp add: encode_path_component_inject)
qed

text \<open>A peer text is followed by the first equals sign after it.\<close>

lemma context_suffix_inject:
  assumes "context_suffix C peer plat = context_suffix C peer' plat'"
  shows "field (ctx_os plat) = field (ctx_os plat') \<and> field (ctx_cpu plat) = field (ctx_cpu plat') \<and>
    field (ctx_libc plat) = field (ctx_libc plat')"
proof -
  let ?peer = "\<lambda>p. if peer_context_to_string C p = [] then ''no-peer'' else safe_component (peer_context_to_string C p)"
  let ?plat = "\<lambda>p. if platform_context_to_string p = [] then ''no-platform'' else platform_component_key p"
  have no: "CHR ''='' \<notin> set (?peer p @ ''__platform'')" for p using safe_component_chars by auto
  have "(?peer peer @ ''__platform'') @ CHR ''='' # ?plat plat = (?peer peer' @ ''__platform'') @ CHR ''='' # ?plat plat'"
    using assms by (simp add: context_suffix_def Let_def)
  from split_at_separator [OF no no this] have eq: "?plat plat = ?plat plat'" by blast
  have key: "platform_component_key p \<noteq> ''no-platform''" "''no-platform'' \<noteq> platform_component_key p" for p
    by (simp_all add: platform_component_key_def Let_def)
  have none: "platform_context_to_string p = [] \<Longrightarrow> ctx_os p = None \<and> ctx_cpu p = None \<and> ctx_libc p = None" for p
    by (auto simp: platform_context_to_string_def split: if_splits)
  show ?thesis
  proof (cases "platform_context_to_string plat = [] \<or> platform_context_to_string plat' = []")
    case True
    with eq key have "platform_context_to_string plat = []" "platform_context_to_string plat' = []" by (metis)+
    with none show ?thesis by simp
  next
    case False
    with eq show ?thesis by (intro platform_component_key_inject) simp
  qed
qed

lemma version_component:
  assumes "semver_text C"
  shows "CHR ''/'' \<notin> set (sv_to_string C v)" "sv_to_string C v \<noteq> []" "sv_to_string C v \<noteq> ''.''"
proof -
  have t: "sv_to_string C v = version_text C v" "list_all identifier_char (sv_pre C v)" "list_all identifier_char (sv_build C v)"
    using assms by (auto simp: semver_text_def)
  have "CHR ''/'' \<notin> set (sv_pre C v)" "CHR ''/'' \<notin> set (sv_build C v)"
    using t(2,3) by (auto simp: list_all_iff identifier_char_def ascii_class_defs byte_def)
  moreover have "\<not> is_ascii_digit CHR ''/''" by (simp add: is_ascii_digit_def byte_def)
  ultimately show "CHR ''/'' \<notin> set (sv_to_string C v)" by (simp add: t(1) version_text_def dec_string_no)
  have "length (version_text C v) \<ge> 2" by (simp add: version_text_def)
  then show "sv_to_string C v \<noteq> []" "sv_to_string C v \<noteq> ''.''" by (auto simp: t(1))
qed

text \<open>The digest is written in hexadecimal.\<close>

definition hex_digest :: "(string \<Rightarrow> string) \<Rightarrow> bool" where
  "hex_digest sha256 \<longleftrightarrow> (\<forall>s. list_all is_ascii_hexdigit (sha256 s))"

lemma storage_path_names:
  assumes "semver_text C" "hex_digest sha256" "valid_package_name (id_name (ik_id k))"
  shows "path_names (storage_of C sha256 root k) = path_names (mr_path root) @ [''.tapid'', ''instances''] @
    split_char (CHR ''/'') (id_name (ik_id k)) @
    [sv_to_string C (id_version (ik_id k)), registry_component sha256 (id_registry (ik_id k)),
     context_suffix C (ik_peer_context k) (ik_platform_context k)]"
proof -
  have hex: "CHR ''/'' \<notin> set (sha256 s)" for s
  proof
    assume "CHR ''/'' \<in> set (sha256 s)"
    then have "is_ascii_hexdigit CHR ''/''" using assms(2) unfolding hex_digest_def list_all_iff by blast
    then show False by (simp add: ascii_class_defs byte_def)
  qed
  have reg: "path_push p (registry_component sha256 r) = Path (path_absolute p) (path_names p @ [registry_component sha256 r])" for p r
    by (rule path_push_single) (auto simp: registry_component_def hex)
  have "CHR ''/'' \<notin> set (platform_component_key p)" for p
    using encode_path_component_chars by (auto simp: platform_component_key_def Let_def)
  then have ctx: "path_push p (context_suffix C peer plat) = Path (path_absolute p) (path_names p @ [context_suffix C peer plat])" for p peer plat
    using safe_component_chars by (intro path_push_single) (auto simp: context_suffix_def Let_def)
  have ver: "path_push p (sv_to_string C v) = Path (path_absolute p) (path_names p @ [sv_to_string C v])" for p v
    using version_component [OF assms(1)] by (intro path_push_single) auto
  have fixed: "path_push p ''.tapid'' = Path (path_absolute p) (path_names p @ [''.tapid''])"
    "path_push p ''instances'' = Path (path_absolute p) (path_names p @ [''instances''])" for p
    by (rule path_push_single; simp)+
  show ?thesis by (simp add: storage_of_def storage_path_def reg ctx ver fixed name_path [OF assms(3)])
qed

end
