(* ===== verification/Linker_Properties.thy ===== *)
theory Linker_Properties
  imports Linker_Storage Reference_Crates
begin

text \<open>
  What makes the linker's planner correct: plans stay inside the project, conflict-free
  layouts resolve, the planner does not panic, stored packages do not overwrite each other,
  and the links of a workspace are accepted by the layout that reserves them.
\<close>

section \<open>Inputs for the witnesses\<close>

definition sample_root :: managed_root where
  "sample_root = \<lparr>mr_path = path_of ''/p'', mr_ownership_marker = path_of ''/p/.tapid-managed''\<rparr>"

definition sample_instance :: "string \<Rightarrow> u64 \<Rightarrow> rversion package_instance" where
  "sample_instance name major =
     \<lparr>pi_id = PackageId (PackageSource ''r'' None) name (RVersion major 0 0 []),
      pi_peer_context = bm_empty, pi_platform_context = PlatformContext None None None,
      pi_tree = \<lparr>vt_digest = [], vt_root = path_of ''/s''\<rparr>\<rparr>"

definition sample_dep :: "string \<Rightarrow> u64 \<Rightarrow> rversion named_dependency" where
  "sample_dep name major = NamedDependency name (key_of (sample_instance name major))"

definition sample_edge :: "string \<Rightarrow> string \<Rightarrow> rversion named_dependency_edge" where
  "sample_edge parent name = \<lparr>ne_parent = key_of (sample_instance parent 1), ne_dependency = sample_dep name 1\<rparr>"

text \<open>A direct dependency \<open>a\<close> needs \<open>b\<close>, and \<open>b\<close> needs \<open>a\<close>.\<close>

definition cycle_input :: "rversion named_layout_input" where
  "cycle_input =
     \<lparr>ni_instances = [sample_instance ''a'' 1, sample_instance ''b'' 1],
      ni_root_dependencies = [sample_dep ''a'' 1],
      ni_dependency_edges = [sample_edge ''a'' ''b'', sample_edge ''b'' ''a'']\<rparr>"

text \<open>
  Direct dependencies \<open>a\<close>, \<open>b@1\<close> and \<open>x@1\<close>; \<open>a\<close> needs \<open>b@2\<close> and \<open>x@1\<close>, and \<open>b@2\<close>
  needs \<open>x@2\<close>.
\<close>

definition shadow_input :: "rversion named_layout_input" where
  "shadow_input =
     \<lparr>ni_instances = [sample_instance ''a'' 1, sample_instance ''b'' 1, sample_instance ''b'' 2,
        sample_instance ''x'' 1, sample_instance ''x'' 2],
      ni_root_dependencies = [sample_dep ''a'' 1, sample_dep ''b'' 1, sample_dep ''x'' 1],
      ni_dependency_edges =
        [\<lparr>ne_parent = key_of (sample_instance ''a'' 1), ne_dependency = sample_dep ''b'' 2\<rparr>,
         \<lparr>ne_parent = key_of (sample_instance ''a'' 1), ne_dependency = sample_dep ''x'' 1\<rparr>,
         \<lparr>ne_parent = key_of (sample_instance ''b'' 2), ne_dependency = sample_dep ''x'' 2\<rparr>]\<rparr>"

definition sample_links :: "rversion workspace_link list" where
  "sample_links = [\<lparr>wl_name = ''w'', wl_version = RVersion 1 0 0 [], wl_source = path_of ''/p/w'',
     wl_target = path_of ''/p/node_modules/w''\<rparr>]"

definition sample_packages :: "rversion workspace_package list" where
  "sample_packages = [\<lparr>wp_root = path_of ''w'', wp_name = ''b'', wp_version = RVersion 1 0 0 []\<rparr>]"

text \<open>A package with a peer dependency, resolved with one peer.\<close>

definition peer_instance :: "string \<Rightarrow> rversion package_instance" where
  "peer_instance peer = (sample_instance ''a'' 1)\<lparr>pi_peer_context := bm_insert peer (RVersion 1 0 0 []) bm_empty\<rparr>"

text \<open>Where a link of a plan points.\<close>

definition placed_at :: "('v plan_error, 'v materialization_plan) result \<Rightarrow> path \<Rightarrow> path option" where
  "placed_at r target =
     (case r of Inl _ \<Rightarrow> None | Inr plan \<Rightarrow> map_option as_source (find (\<lambda>s. as_target s = target) (mp_activation plan)))"

lemma sample_names: "plain_name ''a''" "plain_name ''b''"
proof -
  have "package_name_from_str ''a'' = Inr ''a''" "package_name_from_str ''b'' = Inr ''b''" by code_simp+
  then show "plain_name ''a''" "plain_name ''b''" by (simp_all add: plain_name_def package_name_Inr)
qed

lemma peer_instances_share_storage:
  "storage_of reference_crates sha256 root (key_of (peer_instance ''@s/b_c'')) =
   storage_of reference_crates sha256 root (key_of (peer_instance ''@s_b/c''))"
proof -
  have "context_suffix reference_crates (pi_peer_context (peer_instance ''@s/b_c'')) (PlatformContext None None None) =
      context_suffix reference_crates (pi_peer_context (peer_instance ''@s_b/c'')) (PlatformContext None None None)"
    by code_simp
  then show ?thesis by (simp add: storage_of_key storage_path_def peer_instance_def sample_instance_def)
qed

section \<open>Properties\<close>

text \<open>
  C8. A plan stays inside the project. Every package is stored below the managed root,
  every link is placed below it, no two links share a target, no link takes the place of a
  workspace member, and every link points at a stored package of the plan.
\<close>

theorem layout_paths_contained:
  assumes root: "managed_root_new p = Inr root"
    and plan: "plan_workspace_layout C sha256 root input links plat = Inr plan"
    and names: "\<And>d. d \<in> set (ni_root_dependencies input) \<Longrightarrow> valid_package_name (nd_name d)"
  shows "(\<forall>e\<in>set (mp_entries plan). managed_contains root (me_target e)) \<and>
    (\<forall>s\<in>set (mp_activation plan). managed_contains root (as_target s) \<and>
       as_target s \<notin> wl_target ` set links \<and> as_source s \<in> me_target ` set (mp_entries plan)) \<and>
    sorted_wrt (<) (map as_target (mp_activation plan))"
proof -
  obtain reserved where r: "reserve_links root links bs_empty = Inr reserved"
    "plan_named_layout_inner C sha256 root input plat reserved = Inr plan"
    using plan by (auto simp: plan_workspace_layout_def and_then_Inr)
  have res: "bs_set reserved = wl_target ` set links" using reserve_links_D [OF r(1)] by simp
  from r(2) obtain env by_key st0 queue st where l:
    "env_root env = root" "env_reserved env = reserved"
    "\<And>k. bm_get (env_storage env) k =
       (if k \<in> key_of ` set (ni_instances input) then Some (storage_of C sha256 root k) else None)"
    "place_roots env by_key (path_push (mr_path root) ''node_modules'')
       (dedup (sort (ni_root_dependencies input))) (empty_layout, []) = Inr (st0, queue)"
    "place_all env queue st0 = Inr st"
    "mp_entries plan = map (\<lambda>i. plan_entry C (storage_of C sha256 root (key_of i)) i) (sort_key key_of (ni_instances input))"
    "mp_activation plan = sort_key as_target (ls_activation st)"
    "\<And>i. i \<in> set (ni_instances input) \<Longrightarrow> managed_contains root (storage_of C sha256 root (key_of i))"
    by (rule layout_run) auto
  have s: "layout_safe env [] st"
    by (rule safe.layout [OF l(4) _ l(5)]) (auto simp: l(1) names intro: root_target_contained [OF root])
  have "sorted_wrt (<) (map as_target (mp_activation plan))"
    using s unfolding l(7) strict_sorted_iff by (simp add: layout_safe_def distinct_map)
  moreover have "\<forall>e\<in>set (mp_entries plan). managed_contains root (me_target e)"
    using l(8) by (auto simp: l(6) plan_entry_def)
  moreover have "managed_contains root (as_target t) \<and> as_target t \<notin> wl_target ` set links \<and>
      as_source t \<in> me_target ` set (mp_entries plan)" if t: "t \<in> set (mp_activation plan)" for t
  proof -
    have "t \<in> set (ls_activation st)" using t by (simp add: l(7))
    then obtain k where k: "bm_get (ls_placements st) (as_target t) = Some k" "bm_get (env_storage env) k = Some (as_source t)"
      using s by (auto simp: layout_safe_def)
    then obtain i where "i \<in> set (ni_instances input)" "as_source t = storage_of C sha256 root (key_of i)"
      by (auto simp: l(3) split: if_splits)
    then have "as_source t \<in> me_target ` set (mp_entries plan)" by (force simp: l(6) plan_entry_def)
    moreover have "managed_contains root (as_target t) \<and> as_target t \<notin> wl_target ` set links"
      using s k(1) by (auto simp: layout_safe_def l(1,2) res)
    ultimately show ?thesis by blast
  qed
  ultimately show ?thesis by blast
qed

theorem layout_paths_contained_witness:
  "\<exists>plan. plan_workspace_layout reference_crates (\<lambda>_. ''h'') sample_root cycle_input sample_links Unix = Inr plan \<and>
     sorted_wrt (<) (map as_target (mp_activation plan)) \<and> mp_activation plan \<noteq> []"
proof -
  let ?r = "plan_workspace_layout reference_crates (\<lambda>_. ''h'') sample_root cycle_input sample_links Unix"
  have "map_sum (\<lambda>_. ()) (length \<circ> mp_activation) ?r = Inr 2" by code_simp
  then obtain plan where plan: "?r = Inr plan" "length (mp_activation plan) = 2" by (cases ?r) auto
  have root: "managed_root_new (path_of ''/p'') = (Inr sample_root :: (rversion plan_error, managed_root) result)"
    by code_simp
  have "valid_package_name (nd_name d)" if "d \<in> set (ni_root_dependencies cycle_input)" for d
    using that sample_names by (simp add: cycle_input_def sample_dep_def plain_name_def)
  with layout_paths_contained [OF root plan(1)] plan show ?thesis by auto
qed


text \<open>
  C7. In a conflict-free layout every package finds its dependencies. If every dependency
  name stands for one instance throughout the graph and no name contains the directory name
  \<open>node_modules\<close>, the links of the plan place every direct dependency in the project's
  \<open>node_modules\<close>, place every package that has dependencies, and from every place where
  a package is linked the walk outwards through the enclosing \<open>node_modules\<close> directories
  finds exactly the instance that the edge selected.
\<close>

theorem layout_resolves:
  assumes root: "managed_root_new p = Inr root"
    and plan: "plan_workspace_layout C sha256 root input links plat = Inr plan"
    and edges: "\<And>e. e \<in> set (ni_dependency_edges input) \<Longrightarrow>
      plain_name (nd_name (ne_dependency e)) \<and> nd_child (ne_dependency e) = f (nd_name (ne_dependency e))"
    and roots: "\<And>d. d \<in> set (ni_root_dependencies input) \<Longrightarrow> plain_name (nd_name d) \<and> nd_child d = f (nd_name d)"
  shows "\<exists>m. dom (bm_get m) = as_target ` set (mp_activation plan) \<and>
    (\<forall>s\<in>set (mp_activation plan). \<exists>k. bm_get m (as_target s) = Some k \<and> as_source s = storage_of C sha256 root k) \<and>
    (\<forall>d\<in>set (ni_root_dependencies input). bm_get m (target_in (root_modules root) (nd_name d)) = Some (nd_child d)) \<and>
    (\<forall>e\<in>set (ni_dependency_edges input). ne_parent e \<in> ran (bm_get m) \<and>
       (\<forall>t. bm_get m t = Some (ne_parent e) \<longrightarrow>
          lookup m (search_path root t) (nd_name (ne_dependency e)) = Some (nd_child (ne_dependency e))))"
proof -
  obtain reserved where "plan_named_layout_inner C sha256 root input plat reserved = Inr plan"
    using plan by (auto simp: plan_workspace_layout_def and_then_Inr)
  then obtain env by_key st0 queue st where l:
    "env_root env = root"
    "\<And>k. bm_get (env_storage env) k =
       (if k \<in> key_of ` set (ni_instances input) then Some (storage_of C sha256 root k) else None)"
    "\<And>k. set (children_of env k) = {ne_dependency e |e. e \<in> set (ni_dependency_edges input) \<and> ne_parent e = k}"
    "place_roots env by_key (root_modules root) (dedup (sort (ni_root_dependencies input))) (empty_layout, []) = Inr (st0, queue)"
    "place_all env queue st0 = Inr st"
    "mp_activation plan = sort_key as_target (ls_activation st)"
    "\<And>e. e \<in> set (ni_dependency_edges input) \<Longrightarrow> ne_parent e \<in> bs_set (ls_reachable st)"
    unfolding root_modules_def by (rule layout_run) auto
  let ?m = "ls_placements st"
  have names: "names_agree env f" using edges by (auto simp: names_agree_def l(3))
  have target: "managed_contains root (target_in (root_modules root) (nd_name d))" if "d \<in> set (ni_root_dependencies input)" for d
    using root_target_contained [OF root] roots [OF that] by (simp add: root_modules_def plain_name_def)
  have s: "layout_safe env [] st"
    by (rule safe.layout [OF l(4) _ l(5)]) (auto simp: l(1) target)
  have "layout_resolved env f [] st"
    by (rule resolved.layout [OF l(4) [folded l(1)] _ l(5)]) (use roots in auto)
  then have served: "\<forall>t k. bm_get ?m t = Some k \<longrightarrow> dependencies_served env [] ?m t k"
    using names by (simp add: layout_resolved_def)
  have r: "bm_get ?m (target_in (root_modules root) (nd_name d)) = Some (nd_child d)" if "d \<in> set (ni_root_dependencies input)" for d
  proof -
    have "bm_get (ls_placements st0) (target_in (root_modules root) (nd_name d)) = Some (nd_child d)"
      using place_roots_placed [OF l(4)] that by simp
    with grows.run [OF l(5) refl map_le_refl] show ?thesis by (metis domI map_le_def)
  qed
  have "lookup ?m (search_path root t) (nd_name (ne_dependency e)) = Some (nd_child (ne_dependency e))"
    if "e \<in> set (ni_dependency_edges input)" "bm_get ?m t = Some (ne_parent e)" for e t
    using served that by (auto simp: dependencies_served_def l(1,3))
  moreover have "ne_parent e \<in> ran (bm_get ?m)" if "e \<in> set (ni_dependency_edges input)" for e
    using s l(7) [OF that] by (auto simp: layout_safe_def)
  moreover have "\<exists>k. bm_get ?m (as_target t) = Some k \<and> as_source t = storage_of C sha256 root k"
    if "t \<in> set (mp_activation plan)" for t
    using s that by (fastforce simp: layout_safe_def l(2,6) split: if_splits)
  moreover have "dom (bm_get ?m) = as_target ` set (mp_activation plan)"
    using s by (simp add: layout_safe_def l(6))
  ultimately show ?thesis using r by blast
qed

theorem layout_resolves_witness:
  "\<exists>plan m. plan_workspace_layout reference_crates (\<lambda>_. ''h'') sample_root cycle_input sample_links Unix = Inr plan \<and>
     as_target ` set (mp_activation plan) = dom (bm_get m) \<and>
     bm_get m (path_of ''/p/node_modules/a'') = Some (key_of (sample_instance ''a'' 1)) \<and>
     lookup m (search_path sample_root (path_of ''/p/node_modules/a'')) ''b'' = Some (key_of (sample_instance ''b'' 1))"
proof -
  let ?r = "plan_workspace_layout reference_crates (\<lambda>_. ''h'') sample_root cycle_input sample_links Unix"
  have "ok_result ?r" by code_simp
  then obtain plan where plan: "?r = Inr plan" by (auto simp: ok_result_iff)
  have root: "managed_root_new (path_of ''/p'') = (Inr sample_root :: (rversion plan_error, managed_root) result)"
    and a: "target_in (root_modules sample_root) ''a'' = path_of ''/p/node_modules/a''" by code_simp+
  have edges: "plain_name (nd_name (ne_dependency e)) \<and>
      nd_child (ne_dependency e) = (\<lambda>n. key_of (sample_instance n 1)) (nd_name (ne_dependency e))"
    if "e \<in> set (ni_dependency_edges cycle_input)" for e
    using that sample_names by (auto simp: cycle_input_def sample_edge_def sample_dep_def)
  have roots: "plain_name (nd_name d) \<and> nd_child d = (\<lambda>n. key_of (sample_instance n 1)) (nd_name d)"
    if "d \<in> set (ni_root_dependencies cycle_input)" for d
    using that sample_names by (auto simp: cycle_input_def sample_dep_def)
  obtain m where "dom (bm_get m) = as_target ` set (mp_activation plan)"
    "\<forall>d\<in>set (ni_root_dependencies cycle_input). bm_get m (target_in (root_modules sample_root) (nd_name d)) = Some (nd_child d)"
    "\<forall>e\<in>set (ni_dependency_edges cycle_input). \<forall>t. bm_get m t = Some (ne_parent e) \<longrightarrow>
       lookup m (search_path sample_root t) (nd_name (ne_dependency e)) = Some (nd_child (ne_dependency e))"
    using layout_resolves [OF root plan edges roots] by blast
  then show ?thesis
    using plan by (intro exI [of _ plan] exI [of _ m]) (simp add: cycle_input_def sample_edge_def sample_dep_def a)
qed

text \<open>
  C21. The planner never panics: the two map lookups of a storage path and the \<open>expect\<close>
  on the innermost base always succeed, for every input, platform and set of links.
\<close>

theorem layout_never_panics:
  "plan_workspace_layout C sha256 root input links plat \<noteq> Inl (LinkPanicked msg)"
  using reserve_links_no_panic [of root links bs_empty msg] layout_panic [of C sha256 root input plat _ msg]
  by (auto simp: plan_workspace_layout_def and_then_def split: sum.splits)

text \<open>
  C22. The placement loop ends. However long it runs, the number of passes made plus the
  weight of what is still queued is at most the weight of the initial queue, cycles of
  dependencies included; and when the queue is empty the loop returns that state.
\<close>

theorem placement_passes_bounded:
  assumes "passes env n queue st queue' st'"
  shows "n + queue_weight env st' queue' \<le> queue_weight env st queue \<and> (queue' = [] \<longrightarrow> place_all env queue st = Inr st')"
  using assms
proof (induction rule: passes.induct)
  case (pass item st st1 new n rest queue' st')
  from place_dependency_weight [OF pass.hyps(1), of rest] pass.IH pass.hyps(1) show ?case by (auto simp: place_all_Cons)
qed simp

theorem placement_passes_bounded_witness:
  "\<exists>st' new. passes (layout_env_of sample_root Symlink bs_empty
       (bm_insert (key_of (sample_instance ''a'' 1)) (path_of ''/s'') bm_empty) bm_empty) 1
       [(sample_dep ''a'' 1, [root_modules sample_root], bs_empty)] empty_layout new st' \<and>
     1 \<le> queue_weight (layout_env_of sample_root Symlink bs_empty
       (bm_insert (key_of (sample_instance ''a'' 1)) (path_of ''/s'') bm_empty) bm_empty) empty_layout
       [(sample_dep ''a'' 1, [root_modules sample_root], bs_empty)]"
proof -
  let ?env = "layout_env_of sample_root Symlink bs_empty
    (bm_insert (key_of (sample_instance ''a'' 1)) (path_of ''/s'') bm_empty) bm_empty"
  let ?item = "(sample_dep ''a'' 1, [root_modules sample_root], bs_empty)"
  have "ok_result (place_dependency ?env ?item empty_layout)" by code_simp
  then obtain st' new where "place_dependency ?env ?item empty_layout = Inr (st', new)" by (auto simp: ok_result_iff)
  then have "passes ?env (Suc 0) [?item] empty_layout ([] @ new) st'" by (rule passes.pass) (rule passes.none)
  with placement_passes_bounded [OF this] show ?thesis by auto
qed

text \<open>
  The two planners of a workspace agree. When the links of the workspace members are
  planned, there is one for every member, their targets are distinct and below the project,
  their sources are strictly below the project, and the layout accepts all of them: it
  plans the registry packages with exactly those targets reserved.
\<close>

lemma workspace_links_reserved:
  fixes C :: "('v::linorder) crates"
  assumes root: "managed_root_new project = (Inr root :: ('v plan_error, managed_root) result)"
    and links: "plan_workspace_links project packages = Inr links"
    and names: "\<And>p. p \<in> set packages \<Longrightarrow> valid_package_name (wp_name p)"
  shows "(\<exists>reserved. bs_set reserved = wl_target ` set links \<and>
      plan_workspace_layout C sha256 root input links plat = plan_named_layout_inner C sha256 root input plat reserved) \<and>
    (\<lambda>l. (wl_name l, wl_version l)) ` set links = (\<lambda>p. (wp_name p, wp_version p)) ` set packages \<and>
    length links = length packages \<and> distinct (map wl_target links) \<and>
    (\<forall>l\<in>set links. managed_contains root (wl_target l) \<and> strictly_below project (wl_source l))"
proof -
  let ?ps = "sort_key (\<lambda>p. (wp_name p, wp_version p, wp_root p)) packages"
  have "link_packages project ?ps bs_empty = Inr links"
    using links by (simp add: plan_workspace_links_def split: if_splits)
  note d = link_packages_D [OF this root]
  from d names obtain r where r: "reserve_links root links bs_empty = Inr r" by auto
  have m: "map (\<lambda>l. (wl_name l, wl_version l)) links = map (\<lambda>p. (wp_name p, wp_version p)) ?ps" using d names by simp
  have "(\<lambda>l. (wl_name l, wl_version l)) ` set links = (\<lambda>p. (wp_name p, wp_version p)) ` set packages"
    using arg_cong [OF m, of set] by simp
  moreover have "length links = length packages" using arg_cong [OF m, of length] by simp
  moreover have "bs_set r = wl_target ` set links" using reserve_links_D [OF r] by simp
  ultimately show ?thesis using d names r by (auto simp: plan_workspace_layout_def)
qed

lemma workspace_links_reserved_witness:
  "\<exists>links reserved. plan_workspace_links (path_of ''/p'') sample_packages = Inr links \<and>
     bs_set reserved = wl_target ` set links \<and> length links = 1 \<and>
     plan_workspace_layout reference_crates (\<lambda>_. ''h'') sample_root cycle_input links Unix =
       plan_named_layout_inner reference_crates (\<lambda>_. ''h'') sample_root cycle_input Unix reserved"
proof -
  have "ok_result (plan_workspace_links (path_of ''/p'') sample_packages)" by code_simp
  then obtain links where l: "plan_workspace_links (path_of ''/p'') sample_packages = Inr links" by (auto simp: ok_result_iff)
  have root: "managed_root_new (path_of ''/p'') = (Inr sample_root :: (rversion plan_error, managed_root) result)" by code_simp
  have n: "valid_package_name (wp_name p)" if "p \<in> set sample_packages" for p
    using that sample_names by (simp add: sample_packages_def plain_name_def)
  have "length sample_packages = 1" by (simp add: sample_packages_def)
  with workspace_links_reserved [OF root l n, of reference_crates "\<lambda>_. ''h''" cycle_input Unix] l show ?thesis by auto
qed

text \<open>
  Stored packages do not overwrite each other across versions. Two instances with the
  same storage path have the same package name, the same version, registries with the same
  hash, and the same platform, where a platform field that is absent counts as empty.
\<close>

lemma storage_paths_separate:
  assumes sv: "semver_text C" and hex: "hex_digest sha256"
    and names: "valid_package_name (id_name (ik_id a))" "valid_package_name (id_name (ik_id b))"
    and same: "storage_of C sha256 root a = storage_of C sha256 root b"
  shows "id_name (ik_id a) = id_name (ik_id b) \<and> id_version (ik_id a) = id_version (ik_id b) \<and>
    sha256 (identity (id_registry (ik_id a))) = sha256 (identity (id_registry (ik_id b))) \<and>
    field (ctx_os (ik_platform_context a)) = field (ctx_os (ik_platform_context b)) \<and>
    field (ctx_cpu (ik_platform_context a)) = field (ctx_cpu (ik_platform_context b)) \<and>
    field (ctx_libc (ik_platform_context a)) = field (ctx_libc (ik_platform_context b))"
proof -
  have eq: "split_char (CHR ''/'') (id_name (ik_id a)) = split_char (CHR ''/'') (id_name (ik_id b))"
    "sv_to_string C (id_version (ik_id a)) = sv_to_string C (id_version (ik_id b))"
    "registry_component sha256 (id_registry (ik_id a)) = registry_component sha256 (id_registry (ik_id b))"
    "context_suffix C (ik_peer_context a) (ik_platform_context a) = context_suffix C (ik_peer_context b) (ik_platform_context b)"
    using storage_path_names [OF sv hex names(1), where root = root] storage_path_names [OF sv hex names(2), where root = root] same by auto
  have "id_version (ik_id a) = id_version (ik_id b)" using eq(2) sv by (metis option.inject semver_text_def)
  moreover have "id_name (ik_id a) = id_name (ik_id b)" using eq(1) by (metis join_split_char)
  moreover have "sha256 (identity (id_registry (ik_id a))) = sha256 (identity (id_registry (ik_id b)))"
    using eq(3) by (simp add: registry_component_def)
  ultimately show ?thesis using context_suffix_inject [OF eq(4)] by simp
qed

lemma storage_paths_separate_witness:
  "storage_of reference_crates (\<lambda>_. ''0f'') sample_root (key_of (peer_instance ''@s/b_c'')) =
     storage_of reference_crates (\<lambda>_. ''0f'') sample_root (key_of (peer_instance ''@s_b/c'')) \<and>
   id_version (ik_id (key_of (peer_instance ''@s/b_c''))) = id_version (ik_id (key_of (peer_instance ''@s_b/c'')))"
proof -
  have hex: "hex_digest (\<lambda>_. ''0f'')" by (simp add: hex_digest_def ascii_class_defs byte_def)
  have n: "valid_package_name (id_name (ik_id (key_of (peer_instance p))))" for p
    using sample_names(1) by (simp add: peer_instance_def sample_instance_def key_of_def plain_name_def)
  have "semver_text reference_crates" using reference_semver by (simp add: semver_contract_def)
  from storage_paths_separate [OF this hex n n peer_instances_share_storage] show ?thesis
    using peer_instances_share_storage by blast
qed

text \<open>
  The peer part of a storage path is not injective: \<open>safe_component\<close> writes every
  character outside its alphabet as \<open>_\<close>, a character that is in the alphabet. The instances
  of one package resolved with the peers \<open>@s/b_c@1.0.0\<close> and \<open>@s_b/c@1.0.0\<close>
  are different, both are in the plan, and they are stored in one directory.
\<close>

lemma peer_storage_collision:
  "package_name_from_str ''@s/b_c'' = Inr ''@s/b_c'' \<and> package_name_from_str ''@s_b/c'' = Inr ''@s_b/c'' \<and>
   key_of (peer_instance ''@s/b_c'') \<noteq> key_of (peer_instance ''@s_b/c'') \<and>
   storage_of reference_crates sha256 root (key_of (peer_instance ''@s/b_c'')) =
     storage_of reference_crates sha256 root (key_of (peer_instance ''@s_b/c''))"
proof (intro conjI peer_instances_share_storage)
  show "key_of (peer_instance ''@s/b_c'') \<noteq> key_of (peer_instance ''@s_b/c'')" by code_simp
qed code_simp+


end
