(* ===== verification/Linker_Order.thy ===== *)
theory Linker_Order
  imports Linker_Properties "HOL-Library.Multiset"
begin

text \<open>
  The layout does not depend on the order in which its input is listed.
\<close>

lemma sort_mset_eq: "mset xs = mset ys \<Longrightarrow> sort xs = sort ys"
  by (rule properties_for_sort) simp_all

text \<open>
  C23. The plan does not depend on the order in which the lockfile or the caller lists
  things: permuting the instances or the edges, or repeating and permuting the direct
  dependencies, gives the same plan or the same error.
\<close>

theorem layout_order_independent:
  fixes a b :: "('v::linorder) named_layout_input"
  assumes "mset (ni_instances a) = mset (ni_instances b)" "mset (ni_dependency_edges a) = mset (ni_dependency_edges b)"
    and "set (ni_root_dependencies a) = set (ni_root_dependencies b)"
  shows "plan_workspace_layout C sha256 root a links plat = plan_workspace_layout C sha256 root b links plat"
proof -
  have edges: "sort_key (\<lambda>e. (ne_parent e, ne_dependency e)) (ni_dependency_edges a) =
      sort_key (\<lambda>e. (ne_parent e, ne_dependency e)) (ni_dependency_edges b)"
    by (rule sort_key_eq_sort_key [OF assms(2)]) (auto intro: inj_onI)
  have roots: "dedup (sort (ni_root_dependencies a)) = dedup (sort (ni_root_dependencies b))"
    by (simp add: sort_dedup_canonical assms(3))
  have "plan_named_layout_inner C sha256 root a plat r = plan_named_layout_inner C sha256 root b plat r" for r
  proof (cases "distinct (map key_of (ni_instances a))")
    case True
    then have "sort_key key_of (ni_instances a) = sort_key key_of (ni_instances b)"
      by (intro sort_key_eq_sort_key [OF assms(1)]) (simp add: distinct_map)
    with edges roots show ?thesis by (simp add: plan_named_layout_inner_def)
  next
    case False
    let ?ia = "index_instances (sort_key key_of (ni_instances a)) bm_empty"
    let ?ib = "index_instances (sort_key key_of (ni_instances b)) bm_empty"
    have keys: "map key_of (sort_key key_of (ni_instances a)) = map key_of (sort_key key_of (ni_instances b))"
      by (simp add: map_sort_key sort_mset_eq [of "map key_of (ni_instances a)" "map key_of (ni_instances b)"] assms(1))
    have "\<not> distinct (map key_of (sort_key key_of (ni_instances a)))" using False by (simp add: distinct_map)
    then obtain e where e: "?ia = Inl e" using index_instances_D by (cases ?ia) fastforce+
    with index_instances_error [OF keys refl] have "?ib = Inl e" by blast
    with e show ?thesis by (simp add: plan_named_layout_inner_def and_then_def split: sum.splits)
  qed
  then have "plan_named_layout_inner C sha256 root a plat = plan_named_layout_inner C sha256 root b plat" by (rule ext)
  then show ?thesis by (simp add: plan_workspace_layout_def)
qed

theorem layout_order_independent_witness:
  "plan_workspace_layout reference_crates (\<lambda>_. ''h'') sample_root
     (cycle_input\<lparr>ni_instances := rev (ni_instances cycle_input), ni_dependency_edges := rev (ni_dependency_edges cycle_input),
        ni_root_dependencies := [sample_dep ''a'' 1, sample_dep ''a'' 1]\<rparr>) sample_links Unix =
   plan_workspace_layout reference_crates (\<lambda>_. ''h'') sample_root cycle_input sample_links Unix"
  by (rule layout_order_independent) (simp_all add: cycle_input_def)


end
