(* ===== verification/Why.thy ===== *)
theory Why
  imports Lockfile
begin

text \<open>
  The \<open>why\<close> command (\<open>tapid-cli/src/application/why.rs\<close>): the graph of a lockfile with
  its dependency and peer edges, and the bounded depth-first search for the paths that lead
  from the direct dependencies to a package. Reading the project, its manifest and the
  registry configuration is not modelled: the roots are an argument.
\<close>

section \<open>The graph of a lockfile\<close>

record why_edge =
  we_name :: string
  we_target :: string
  we_kind :: string

record 'v why_graph =
  wg_edges :: "(string, why_edge list) btree_map"
  wg_nodes :: "(string, 'v lockfile_package_key) btree_map"

fun typed_entries ::
  "('v::linorder) crates \<Rightarrow> (string \<times> 'p) list \<Rightarrow> (lockfile_error, ('v lockfile_package_key \<times> 'p) list) result" where
  "typed_entries C [] = Inr []"
| "typed_entries C ((encoded, package) # rest) =
     and_then (key_from_str C encoded) (\<lambda>key.
     and_then (typed_entries C rest) (\<lambda>entries. Inr ((key, package) # entries)))"

definition packages_typed ::
  "('v::linorder) crates \<Rightarrow> lockfile \<Rightarrow> (lockfile_error, ('v lockfile_package_key \<times> locked_package) list) result" where
  "packages_typed C l = typed_entries C (bm_entries (lf_packages l))"

definition workspace_packages_typed ::
  "('v::linorder) crates \<Rightarrow> lockfile \<Rightarrow> (lockfile_error, ('v lockfile_package_key \<times> locked_workspace_package) list) result" where
  "workspace_packages_typed C l = typed_entries C (bm_entries (lf_workspace_packages l))"

definition dependency_edges_of :: "(string, string) btree_map \<Rightarrow> why_edge list" where
  "dependency_edges_of dependencies =
     map (\<lambda>(name, target). \<lparr>we_name = name, we_target = target, we_kind = ''dependency''\<rparr>) (bm_entries dependencies)"

fun add_nodes ::
  "('v::linorder) crates \<Rightarrow> ('v lockfile_package_key \<times> (string, string) btree_map) list \<Rightarrow> 'v why_graph \<Rightarrow> 'v why_graph" where
  "add_nodes C [] g = g"
| "add_nodes C ((key, dependencies) # rest) g =
     add_nodes C rest
       (g\<lparr>wg_nodes := bm_insert (key_to_string C key) key (wg_nodes g),
          wg_edges := bm_insert (key_to_string C key) (dependency_edges_of dependencies) (wg_edges g)\<rparr>)"

text \<open>
  The source collects the nodes of each source, name and version in a map of vectors, in the
  order of the nodes; looking one up gives the nodes with that source, name and version.
\<close>

definition providers_of ::
  "(string, 'v lockfile_package_key) btree_map \<Rightarrow> lockfile_package_source \<Rightarrow> string \<Rightarrow> 'v \<Rightarrow> 'v lockfile_package_key list" where
  "providers_of nodes source name version =
     filter (\<lambda>k. key_source k = source \<and> key_name k = name \<and> key_version k = version) (bm_values nodes)"

definition peer_edges ::
  "('v::linorder) crates \<Rightarrow> (string, 'v lockfile_package_key) btree_map \<Rightarrow> 'v lockfile_package_key \<Rightarrow> 'v peer_context \<Rightarrow>
   why_edge list" where
  "peer_edges C nodes source ctx =
     concat (map (\<lambda>(name, version).
       map (\<lambda>target. \<lparr>we_name = name, we_target = key_to_string C target, we_kind = ''peer''\<rparr>)
         (providers_of nodes (key_source source) name version)) (bm_entries ctx))"

definition push_edges ::
  "string \<Rightarrow> why_edge list \<Rightarrow> (string, why_edge list) btree_map \<Rightarrow> (lockfile_error, (string, why_edge list) btree_map) result" where
  "push_edges encoded new edges =
     (if new = [] then Inr edges
      else (case bm_get edges encoded of
          None \<Rightarrow> Inl (LPanicked ''indexed graph node'')
        | Some present \<Rightarrow> Inr (bm_insert encoded (present @ new) edges)))"

fun add_peers ::
  "('v::linorder) crates \<Rightarrow> (string, 'v lockfile_package_key) btree_map \<Rightarrow> (string \<times> 'v lockfile_package_key) list \<Rightarrow>
   (string, why_edge list) btree_map \<Rightarrow> (lockfile_error, (string, why_edge list) btree_map) result" where
  "add_peers C nodes [] edges = Inr edges"
| "add_peers C nodes ((encoded, source) # rest) edges =
     and_then (key_peer_context C source) (\<lambda>ctx.
     and_then (push_edges encoded (peer_edges C nodes source ctx) edges) (add_peers C nodes rest))"

definition why_graph_of :: "('v::linorder) crates \<Rightarrow> lockfile \<Rightarrow> (lockfile_error, 'v why_graph) result" where
  "why_graph_of C l =
     and_then (packages_typed C l) (\<lambda>packages.
     and_then (workspace_packages_typed C l) (\<lambda>workspaces.
     let g = add_nodes C (map (\<lambda>(key, p). (key, lw_dependencies p)) workspaces)
               (add_nodes C (map (\<lambda>(key, p). (key, lp_dependencies p)) packages)
                 \<lparr>wg_edges = bm_empty, wg_nodes = bm_empty\<rparr>)
     in and_then (add_peers C (wg_nodes g) (bm_entries (wg_nodes g)) (wg_edges g)) (\<lambda>edges.
        Inr (g\<lparr>wg_edges := edges\<rparr>))))"

definition source_kind :: "'v lockfile_package_key \<Rightarrow> string" where
  "source_kind key = (case key_source key of Workspace _ \<Rightarrow> ''workspace'' | Copied _ \<Rightarrow> ''copied'' | _ \<Rightarrow> ''registry'')"

text \<open>The reasons for every package: the immediate dependency and peer edges to it.\<close>

definition push_reason ::
  "string \<Rightarrow> why_edge \<Rightarrow> (string, string list) btree_map \<Rightarrow> (string, string list) btree_map" where
  "push_reason parent e reasons =
     bm_insert (we_target e)
       ((case bm_get reasons (we_target e) of None \<Rightarrow> [] | Some rs \<Rightarrow> rs) @
        [parent @ '' through '' @ we_kind e @ [CHR '' '', CHR 0x27] @ we_name e @ [CHR 0x27]]) reasons"

definition requiring_edges :: "('v::linorder) crates \<Rightarrow> lockfile \<Rightarrow> (lockfile_error, (string, string list) btree_map) result" where
  "requiring_edges C l =
     and_then (why_graph_of C l) (\<lambda>g.
     Inr (fold (\<lambda>(parent, edges). fold (push_reason (map (\<lambda>c. if c = CHR ''|'' then CHR '' '' else c) parent)) edges)
       (bm_entries (wg_edges g)) bm_empty))"

section \<open>The search\<close>

record why_step =
  step_key :: string
  step_via :: "string option"
  step_edge_kind :: "string option"
  step_source_kind :: string

type_synonym why_path = "why_step list"

record why_root =
  root_key :: string
  root_name :: string
  root_kind :: string

record search_state =
  ss_paths :: "why_path list"
  ss_truncated :: bool
  ss_visits :: nat

definition MAX_PATHS :: nat where "MAX_PATHS = 50"

definition MAX_DEPTH :: nat where "MAX_DEPTH = 128"

definition MAX_VISITS :: nat where "MAX_VISITS = 10000"

definition edges_of :: "('v::linorder) why_graph \<Rightarrow> string \<Rightarrow> why_edge list" where
  "edges_of g current = (case bm_get (wg_edges g) current of None \<Rightarrow> [] | Some edges \<Rightarrow> edges)"

definition edge_step :: "why_edge \<Rightarrow> 'v lockfile_package_key \<Rightarrow> why_step" where
  "edge_step e key =
     \<lparr>step_key = we_target e, step_via = Some (we_name e), step_edge_kind = Some (we_kind e),
      step_source_kind = source_kind key\<rparr>"

definition record_path :: "'v lockfile_package_key \<Rightarrow> string \<Rightarrow> why_path \<Rightarrow> search_state \<Rightarrow> search_state" where
  "record_path key requested path st =
     (if key_name key \<noteq> requested then st
      else if length (ss_paths st) = MAX_PATHS then st\<lparr>ss_truncated := True\<rparr>
      else st\<lparr>ss_paths := ss_paths st @ [path]\<rparr>)"

text \<open>
  The source pushes a step and a visited key before a recursive call and removes both after
  it; here the call gets the longer path and set. Calls nest at most \<open>MAX_DEPTH\<close> deep.
\<close>

function search_paths ::
  "('v::linorder) why_graph \<Rightarrow> string \<Rightarrow> string \<Rightarrow> string btree_set \<Rightarrow> why_path \<Rightarrow> search_state \<Rightarrow> nat \<Rightarrow> search_state"
and search_edges ::
  "('v::linorder) why_graph \<Rightarrow> string \<Rightarrow> why_edge list \<Rightarrow> string btree_set \<Rightarrow> why_path \<Rightarrow> search_state \<Rightarrow> nat \<Rightarrow> search_state" where
  "search_paths g requested current visited path st depth =
     (if MAX_VISITS \<le> ss_visits st then st\<lparr>ss_truncated := True\<rparr>
      else (let st1 = st\<lparr>ss_visits := ss_visits st + 1\<rparr> in
        case bm_get (wg_nodes g) current of
          None \<Rightarrow> st1
        | Some current_key \<Rightarrow>
            (let st2 = record_path current_key requested path st1 in
             if MAX_DEPTH \<le> depth then
               (if edges_of g current \<noteq> [] then st2\<lparr>ss_truncated := True\<rparr> else st2)
             else search_edges g requested (edges_of g current) visited path st2 depth)))"
| "search_edges g requested [] visited path st depth = st"
| "search_edges g requested (e # rest) visited path st depth =
     (if ss_truncated st then st
      else if bs_contains visited (we_target e) then search_edges g requested rest visited path st depth
      else (case bm_get (wg_nodes g) (we_target e) of
          None \<Rightarrow> search_edges g requested rest visited path st depth
        | Some key \<Rightarrow>
            search_edges g requested rest visited path
              (search_paths g requested (we_target e) (bs_insert (we_target e) visited)
                (path @ [edge_step e key]) st (depth + 1)) depth))"
  by pat_completeness auto
termination
  by (relation "measures [case_sum (\<lambda>(_, _, _, _, _, _, d). 2 * (MAX_DEPTH + 1 - d))
        (\<lambda>(_, _, _, _, _, _, d). 2 * (MAX_DEPTH + 1 - d) - 1),
      case_sum (\<lambda>_. 0) (\<lambda>(_, _, es, _). length es)]") auto

declare search_paths.simps [simp del]

definition root_step :: "why_root \<Rightarrow> 'v lockfile_package_key \<Rightarrow> why_step" where
  "root_step r key =
     \<lparr>step_key = root_key r, step_via = Some (root_name r), step_edge_kind = Some (root_kind r),
      step_source_kind = source_kind key\<rparr>"

fun search_roots :: "('v::linorder) why_graph \<Rightarrow> string \<Rightarrow> why_root list \<Rightarrow> search_state \<Rightarrow> search_state" where
  "search_roots g requested [] st = st"
| "search_roots g requested (r # rest) st =
     (case bm_get (wg_nodes g) (root_key r) of
        None \<Rightarrow> search_roots g requested rest st
      | Some key \<Rightarrow>
          (let st' = search_paths g requested (root_key r) (bs_insert (root_key r) bs_empty) [root_step r key] st 0 in
           if ss_truncated st' then st' else search_roots g requested rest st'))"

text \<open>The report of the command, but for the display of the project's directory.\<close>

record why_report =
  wr_schema_version :: nat
  wr_operation :: string
  wr_outcome :: string
  wr_changes :: "string list"
  wr_warnings :: "string list"
  wr_package :: string
  wr_paths :: "why_path list"
  wr_truncated :: bool

definition explain_roots :: "('v::linorder) why_graph \<Rightarrow> string \<Rightarrow> why_root list \<Rightarrow> why_report" where
  "explain_roots g requested roots =
     (let state = search_roots g requested roots \<lparr>ss_paths = [], ss_truncated = False, ss_visits = 0\<rparr>;
          warnings = (if list_ex (\<lambda>path. list_ex (\<lambda>s. step_edge_kind s = Some ''dependency'') (drop 1 path)) (ss_paths state)
            then [''transitive dependency edge kinds are not recorded in the lockfile; those edges are labeled dependency'']
            else []);
          outcome = (if ss_truncated state then ''partial''
            else if ss_paths state = [] then ''not_found'' else ''success'')
      in \<lparr>wr_schema_version = 1, wr_operation = ''why'', wr_outcome = outcome, wr_changes = [], wr_warnings = warnings, wr_package = requested, wr_paths = ss_paths state,
          wr_truncated = ss_truncated state\<rparr>)"

end
