(* ===== verification/Why_Facts.thy ===== *)
theory Why_Facts
  imports Why Lockfile_Facts
begin

text \<open>
  Lemmas on the \<open>why\<close> command: what a path of the graph is, that the bounded search is
  sound and, unless it was cut off, complete, and how the graph arises from a lockfile.
\<close>

section \<open>Paths\<close>

text \<open>A path continues another: along edges of the graph to packages that are not on it yet.\<close>

inductive extends :: "('v::linorder) why_graph \<Rightarrow> why_path \<Rightarrow> why_path \<Rightarrow> bool" for g where
  stop: "extends g p p"
| onward: "e \<in> set (edges_of g (step_key (last p))) \<Longrightarrow> we_target e \<notin> step_key ` set p \<Longrightarrow>
    bm_get (wg_nodes g) (we_target e) = Some k \<Longrightarrow> extends g (p @ [edge_step e k]) q \<Longrightarrow> extends g p q"

definition answers :: "('v::linorder) why_graph \<Rightarrow> string \<Rightarrow> why_path \<Rightarrow> bool" where
  "answers g requested p \<longleftrightarrow> (\<exists>k. bm_get (wg_nodes g) (step_key (last p)) = Some k \<and> key_name k = requested)"

definition search_sound :: "('v::linorder) why_graph \<Rightarrow> string \<Rightarrow> why_path \<Rightarrow> search_state \<Rightarrow> search_state \<Rightarrow> bool" where
  "search_sound g requested path st st' \<longleftrightarrow>
     (\<exists>ps. ss_paths st' = ss_paths st @ ps \<and> (\<forall>p\<in>set ps. extends g path p \<and> answers g requested p)) \<and>
     (ss_truncated st \<longrightarrow> ss_truncated st') \<and>
     (length (ss_paths st) \<le> MAX_PATHS \<longrightarrow> length (ss_paths st') \<le> MAX_PATHS) \<and>
     (ss_visits st \<le> MAX_VISITS \<longrightarrow> ss_visits st' \<le> MAX_VISITS)"

lemma search_sound_refl: "search_sound g r p st st"
  by (simp add: search_sound_def)

lemma search_sound_truncate: "search_sound g r p st st' \<Longrightarrow> search_sound g r p st (st'\<lparr>ss_truncated := True\<rparr>)"
  by (simp add: search_sound_def)

lemma search_sound_trans:
  "search_sound g r p st1 st2 \<Longrightarrow> search_sound g r p st2 st3 \<Longrightarrow> search_sound g r p st1 st3"
  unfolding search_sound_def by fastforce

lemma search_sound_widen:
  assumes "search_sound g r (p @ [edge_step e k]) st st'" "e \<in> set (edges_of g (step_key (last p)))"
    "we_target e \<notin> step_key ` set p" "bm_get (wg_nodes g) (we_target e) = Some k"
  shows "search_sound g r p st st'"
  using assms unfolding search_sound_def by (metis extends.onward)

lemma record_path_sound:
  assumes "bm_get (wg_nodes g) (step_key (last p)) = Some k"
  shows "search_sound g r p st (record_path k r p st)"
  using assms by (auto simp: search_sound_def record_path_def answers_def intro: extends.stop)

lemma record_path_answers:
  "bm_get (wg_nodes g) (step_key (last p)) = Some k \<Longrightarrow> answers g r p \<Longrightarrow> \<not> ss_truncated (record_path k r p st) \<Longrightarrow>
   p \<in> set (ss_paths (record_path k r p st))"
  by (auto simp: record_path_def answers_def)

lemma search_sound_keeps:
  "search_sound g r p st st' \<Longrightarrow> q \<in> set (ss_paths st) \<Longrightarrow> q \<in> set (ss_paths st')"
  by (auto simp: search_sound_def)

text \<open>The search is sound, keeps its limits, and is complete unless it was cut off.\<close>

definition search_done :: "('v::linorder) why_graph \<Rightarrow> string \<Rightarrow> why_path \<Rightarrow> search_state \<Rightarrow> search_state \<Rightarrow> bool" where
  "search_done g requested path st st' \<longleftrightarrow>
     search_sound g requested path st st' \<and>
     (\<not> ss_truncated st' \<longrightarrow> (\<forall>q. extends g path q \<and> answers g requested q \<longrightarrow> q \<in> set (ss_paths st')))"

definition edges_done ::
  "('v::linorder) why_graph \<Rightarrow> string \<Rightarrow> why_edge list \<Rightarrow> why_path \<Rightarrow> search_state \<Rightarrow> search_state \<Rightarrow> bool" where
  "edges_done g requested es path st st' \<longleftrightarrow>
     search_sound g requested path st st' \<and>
     (\<not> ss_truncated st' \<longrightarrow>
       (\<forall>e\<in>set es. \<forall>k q. we_target e \<notin> step_key ` set path \<and> bm_get (wg_nodes g) (we_target e) = Some k \<and>
          extends g (path @ [edge_step e k]) q \<and> answers g requested q \<longrightarrow> q \<in> set (ss_paths st')))"

lemma edges_done_search:
  assumes "edges_done g r (edges_of g (step_key (last path))) path st st'"
    and "answers g r path \<Longrightarrow> \<not> ss_truncated st \<Longrightarrow> path \<in> set (ss_paths st)"
  shows "search_done g r path st st'"
proof -
  have s: "search_sound g r path st st'" using assms(1) by (simp add: edges_done_def)
  have "q \<in> set (ss_paths st')" if t: "\<not> ss_truncated st'" and q: "extends g path q" "answers g r q" for q
    using q(1)
  proof (cases rule: extends.cases)
    case stop
    have "\<not> ss_truncated st" using s t by (auto simp: search_sound_def)
    with assms(2) q(2) stop search_sound_keeps [OF s] show ?thesis by blast
  next
    case (onward e k)
    with assms(1) t q(2) show ?thesis unfolding edges_done_def by blast
  qed
  with s show ?thesis by (simp add: search_done_def)
qed

lemma search_paths_done:
  assumes current: "step_key (last path) = current" "bm_get (wg_nodes g) current = Some key"
    and st2: "st2 = record_path key r path (st\<lparr>ss_visits := ss_visits st + 1\<rparr>)"
    and edges: "\<not> MAX_VISITS \<le> ss_visits st \<Longrightarrow> \<not> MAX_DEPTH \<le> depth \<Longrightarrow>
      edges_done g r (edges_of g current) path st2 (search_edges g r (edges_of g current) visited path st2 depth)"
  shows "search_done g r path st (search_paths g r current visited path st depth)"
proof (cases "MAX_VISITS \<le> ss_visits st")
  case True
  then show ?thesis
    by (simp add: search_paths.simps search_done_def search_sound_truncate search_sound_refl)
next
  case False
  have "search_sound g r path st (st\<lparr>ss_visits := ss_visits st + 1\<rparr>)" using False by (simp add: search_sound_def)
  moreover have "search_sound g r path (st\<lparr>ss_visits := ss_visits st + 1\<rparr>) st2"
    unfolding st2 by (rule record_path_sound) (simp add: current)
  ultimately have s: "search_sound g r path st st2" by (rule search_sound_trans)
  have here: "path \<in> set (ss_paths st2)" if "answers g r path" "\<not> ss_truncated st2"
    using record_path_answers [of g path key] current that by (simp add: st2)
  have r: "search_paths g r current visited path st depth =
      (if MAX_DEPTH \<le> depth then if edges_of g current \<noteq> [] then st2\<lparr>ss_truncated := True\<rparr> else st2
       else search_edges g r (edges_of g current) visited path st2 depth)"
    using False by (simp add: search_paths.simps current(2) st2 Let_def)
  show ?thesis
  proof (cases "MAX_DEPTH \<le> depth")
    case True
    have "edges_done g r [] path st2 st2" by (simp add: edges_done_def search_sound_refl)
    with edges_done_search [of g r path st2 st2] here current(1)
    have "edges_of g current = [] \<Longrightarrow> search_done g r path st2 st2" by simp
    with True s show ?thesis unfolding r by (auto simp: search_done_def intro: search_sound_truncate)
  next
    case deep: False
    have "search_done g r path st2 (search_edges g r (edges_of g current) visited path st2 depth)"
      using edges_done_search [of g r path st2] edges [OF False deep] here current(1) by simp
    with s deep show ?thesis unfolding r by (auto simp: search_done_def intro: search_sound_trans)
  qed
qed

lemma edges_done_Cons:
  assumes first: "search_done g r (path @ [edge_step e k]) st st1" and rest: "edges_done g r es path st1 st'"
    and e: "e \<in> set (edges_of g (step_key (last path)))" "we_target e \<notin> step_key ` set path" "bm_get (wg_nodes g) (we_target e) = Some k"
  shows "edges_done g r (e # es) path st st'"
proof -
  have s1: "search_sound g r path st st1" using first e by (auto simp: search_done_def intro: search_sound_widen)
  have s2: "search_sound g r path st1 st'" using rest by (simp add: edges_done_def)
  have "\<not> ss_truncated st1" if "\<not> ss_truncated st'" using s2 that by (auto simp: search_sound_def)
  then have "q \<in> set (ss_paths st')" if "\<not> ss_truncated st'" "extends g (path @ [edge_step e k]) q" "answers g r q" for q
    using first that search_sound_keeps [OF s2] by (auto simp: search_done_def)
  with rest e(3) search_sound_trans [OF s1 s2] show ?thesis by (auto simp: edges_done_def)
qed

lemma search_correct:
  "path \<noteq> [] \<Longrightarrow> step_key (last path) = current \<Longrightarrow> bs_set visited = step_key ` set path \<Longrightarrow>
   bm_get (wg_nodes g) current \<noteq> None \<Longrightarrow>
   search_done g requested path st (search_paths g requested current visited path st depth)"
  "path \<noteq> [] \<Longrightarrow> bs_set visited = step_key ` set path \<Longrightarrow> set es \<subseteq> set (edges_of g (step_key (last path))) \<Longrightarrow>
   edges_done g requested es path st (search_edges g requested es visited path st depth)"
proof (induction g requested current visited path st depth and g requested es visited path st depth
    rule: search_paths_search_edges.induct)
  case (1 g requested current visited path st depth)
  obtain key where key: "bm_get (wg_nodes g) current = Some key" using 1(5) by blast
  show ?case
    using 1(1) [OF _ refl key refl _ 1(2) 1(4)] 1(3) by (intro search_paths_done [OF 1(3) key refl]) simp
next
  case (2 g requested visited path st depth)
  then show ?case by (simp add: edges_done_def search_sound_refl)
next
  case (3 g requested e rest visited path st depth)
  have rest: "set rest \<subseteq> set (edges_of g (step_key (last path)))" and e: "e \<in> set (edges_of g (step_key (last path)))"
    using 3(7) by auto
  show ?case
  proof (cases "ss_truncated st")
    case True
    then show ?thesis by (simp add: edges_done_def search_sound_refl)
  next
    case open_: False
    show ?thesis
    proof (cases "bs_contains visited (we_target e) \<or> bm_get (wg_nodes g) (we_target e) = None")
      case True
      then have "search_edges g requested (e # rest) visited path st depth = search_edges g requested rest visited path st depth"
        using open_ by (auto split: option.splits)
      with True show ?thesis using 3(1,2) open_ 3(5,6) rest by (auto simp: edges_done_def)
    next
      case False
      then obtain key where key: "bm_get (wg_nodes g) (we_target e) = Some key" and new: "\<not> bs_contains visited (we_target e)"
        by auto
      let ?st1 = "search_paths g requested (we_target e) (bs_insert (we_target e) visited) (path @ [edge_step e key]) st (depth + 1)"
      have "search_done g requested (path @ [edge_step e key]) st ?st1"
        using 3(3) [OF open_ new key] 3(6) key by (simp add: edge_step_def)
      moreover have "edges_done g requested rest path ?st1 (search_edges g requested rest visited path ?st1 depth)"
        using 3(4) [OF open_ new key 3(5,6) rest] .
      ultimately show ?thesis
        using edges_done_Cons [OF _ _ e _ key] new 3(6) open_ key by simp
    qed
  qed
qed

text \<open>The paths that explain a package: from a root that is in the graph, along its edges.\<close>

definition why_paths :: "('v::linorder) why_graph \<Rightarrow> string \<Rightarrow> why_root list \<Rightarrow> why_path set" where
  "why_paths g requested roots =
     {p. \<exists>r\<in>set roots. \<exists>k. bm_get (wg_nodes g) (root_key r) = Some k \<and> extends g [root_step r k] p \<and> answers g requested p}"

lemma why_paths_Cons:
  "why_paths g requested (r # rs) =
     {p. \<exists>k. bm_get (wg_nodes g) (root_key r) = Some k \<and> extends g [root_step r k] p \<and> answers g requested p} \<union>
     why_paths g requested rs"
  by (auto simp: why_paths_def)

lemma search_roots_correct:
  "length (ss_paths st) \<le> MAX_PATHS \<Longrightarrow>
   (\<exists>ps. ss_paths (search_roots g requested rs st) = ss_paths st @ ps \<and> set ps \<subseteq> why_paths g requested rs) \<and>
   length (ss_paths (search_roots g requested rs st)) \<le> MAX_PATHS \<and>
   (\<not> ss_truncated (search_roots g requested rs st) \<longrightarrow> why_paths g requested rs \<subseteq> set (ss_paths (search_roots g requested rs st)))"
proof (induction rs arbitrary: st)
  case Nil
  then show ?case by (simp add: why_paths_def)
next
  case (Cons r rs)
  show ?case
  proof (cases "bm_get (wg_nodes g) (root_key r)")
    case None
    with Cons show ?thesis by (simp add: why_paths_Cons)
  next
    case (Some k)
    define st1 where "st1 = search_paths g requested (root_key r) (bs_insert (root_key r) bs_empty) [root_step r k] st 0"
    have "search_done g requested [root_step r k] st st1"
      using search_correct(1) [of "[root_step r k]" "root_key r" "bs_insert (root_key r) bs_empty" g requested st 0] Some
      unfolding st1_def by (simp add: root_step_def)
    then have c: "search_sound g requested [root_step r k] st st1"
      "\<not> ss_truncated st1 \<Longrightarrow> extends g [root_step r k] q \<Longrightarrow> answers g requested q \<Longrightarrow> q \<in> set (ss_paths st1)" for q
      unfolding search_done_def by blast+
    from c(1) obtain ps where ps: "ss_paths st1 = ss_paths st @ ps" "\<forall>p\<in>set ps. extends g [root_step r k] p \<and> answers g requested p"
      "length (ss_paths st1) \<le> MAX_PATHS"
      using Cons.prems unfolding search_sound_def by blast
    then have sub: "set ps \<subseteq> why_paths g requested (r # rs)" using Some by (auto simp: why_paths_Cons)
    have r: "search_roots g requested (r # rs) st = (if ss_truncated st1 then st1 else search_roots g requested rs st1)"
      by (simp add: Some st1_def Let_def)
    show ?thesis
    proof (cases "ss_truncated st1")
      case True
      with ps(1,3) sub r show ?thesis by simp
    next
      case False
      from Cons.IH [OF ps(3)] obtain qs where "ss_paths (search_roots g requested rs st1) = ss_paths st1 @ qs"
        "set qs \<subseteq> why_paths g requested rs" by blast
      moreover have "why_paths g requested (r # rs) \<subseteq> set (ss_paths st1) \<union> why_paths g requested rs"
        using c(2) [OF False] Some by (auto simp: why_paths_Cons)
      moreover have "why_paths g requested rs \<subseteq> why_paths g requested (r # rs)" by (simp add: why_paths_Cons)
      ultimately show ?thesis using Cons.IH [OF ps(3)] ps(1) sub False unfolding r by fastforce
    qed
  qed
qed

section \<open>The graph\<close>

definition locked_dependencies :: "lockfile \<Rightarrow> string \<Rightarrow> (string, string) btree_map" where
  "locked_dependencies l key =
     (case bm_get (lf_workspace_packages l) key of
        Some p \<Rightarrow> lw_dependencies p
      | None \<Rightarrow> (case bm_get (lf_packages l) key of Some p \<Rightarrow> lp_dependencies p | None \<Rightarrow> bm_empty))"

lemma typed_entries_ok:
  "(\<And>s p. (s, p) \<in> set es \<Longrightarrow> \<exists>k. key_from_str C s = Inr k) \<Longrightarrow>
   \<exists>ts. typed_entries C es = Inr ts \<and> map (\<lambda>(k, p). (key_to_string C k, p)) ts = es \<and>
     (\<forall>(k, p)\<in>set ts. key_from_str C (key_to_string C k) = Inr k)"
proof (induction es)
  case (Cons e es)
  obtain s p where e: "e = (s, p)" by (cases e)
  with Cons.prems obtain k where k: "key_from_str C s = Inr k" by auto
  with Cons e key_text_of_parse [OF k] show ?case by fastforce
qed simp

lemma add_nodes_extend:
  "wg_nodes (add_nodes C ts g) = bm_extend (wg_nodes g) (map (\<lambda>(k, _). (key_to_string C k, k)) ts)"
  "wg_edges (add_nodes C ts g) = bm_extend (wg_edges g) (map (\<lambda>(k, ds). (key_to_string C k, dependency_edges_of ds)) ts)"
  by (induction ts arbitrary: g) auto

definition peers_at :: "('v::linorder) crates \<Rightarrow> 'v lockfile_package_key \<Rightarrow> 'v peer_context" where
  "peers_at C k = (case key_peer_context C k of Inr ctx \<Rightarrow> ctx | Inl _ \<Rightarrow> bm_empty)"

lemma key_from_str_peers:
  "key_from_str C s = Inr k \<Longrightarrow> key_peer_context C k = Inr (peers_at C k)"
proof -
  assume k: "key_from_str C s = Inr k"
  then have "\<exists>ctx. decode_peer_context C (key_peer k) s = Inr ctx"
    by (auto simp: key_from_str_def Let_def result_simps split: list.splits if_splits)
  then show ?thesis using key_text_of_parse [OF k] by (auto simp: key_peer_context_def peers_at_def)
qed

lemma add_peers_ok:
  assumes "distinct (map fst es)" "\<And>s k. (s, k) \<in> set es \<Longrightarrow> key_peer_context C k = Inr (peers_at C k) \<and> s \<in> dom (bm_get edges)"
  shows "\<exists>edges'. add_peers C nodes es edges = Inr edges' \<and>
    (\<forall>s. bm_get edges' s = map_option (\<lambda>present. present @
       (case map_of es s of None \<Rightarrow> [] | Some k \<Rightarrow> peer_edges C nodes k (peers_at C k))) (bm_get edges s))"
  using assms
proof (induction es arbitrary: edges)
  case Nil
  then show ?case by (simp add: option.map_ident)
next
  case (Cons e es)
  obtain s k where e: "e = (s, k)" by (cases e)
  with Cons.prems(2) have k: "key_peer_context C k = Inr (peers_at C k)" "s \<in> dom (bm_get edges)" by auto
  then obtain present where present: "bm_get edges s = Some present" by auto
  let ?new = "peer_edges C nodes k (peers_at C k)"
  define edges1 where "edges1 = (if ?new = [] then edges else bm_insert s (present @ ?new) edges)"
  have push: "push_edges s ?new edges = Inr edges1" by (simp add: push_edges_def present edges1_def)
  have get: "bm_get edges1 = (bm_get edges)(s \<mapsto> present @ ?new)" using present by (auto simp: edges1_def)
  obtain edges' where "add_peers C nodes es edges1 = Inr edges'"
    "\<And>s. bm_get edges' s = map_option (\<lambda>present. present @
       (case map_of es s of None \<Rightarrow> [] | Some k \<Rightarrow> peer_edges C nodes k (peers_at C k))) (bm_get edges1 s)"
    using Cons.IH [of edges1] Cons.prems by (fastforce simp: get e)
  moreover have "map_of es s = None" using Cons.prems(1) by (simp add: e map_of_eq_None_iff)
  ultimately show ?case using k push present by (auto simp: e get)
qed


lemma locked_keys_parse:
  assumes C: "semver_contract C" "url_contract C" and l: "entries_ok C l"
  shows "bm_get (lf_packages l) s = Some p \<Longrightarrow> \<exists>k. key_from_str C s = Inr k"
    "bm_get (lf_workspace_packages l) s = Some w \<Longrightarrow> \<exists>k. key_from_str C s = Inr k"
proof -
  assume p: "bm_get (lf_packages l) s = Some p"
  with l have v: "lp_validate C p = Inr ()" "lp_key C p = Inr s" by (auto simp: entries_ok_def)
  obtain k where "lp_key C p = Inr (key_to_string C k)" "key_ok C k" using lp_key_ok [OF C(1) v(1)] .
  with v(2) key_roundtrip [OF C] show "\<exists>k. key_from_str C s = Inr k" by auto
next
  assume w: "bm_get (lf_workspace_packages l) s = Some w"
  with l have v: "lw_validate C w = Inr ()" "lw_key C w = Inr s" by (auto simp: entries_ok_def)
  obtain k where "lw_key C w = Inr (key_to_string C k)" "key_ok C k" using lw_key_ok [OF C(1) v(1)] .
  with v(2) key_roundtrip [OF C] show "\<exists>k. key_from_str C s = Inr k" by auto
qed

text \<open>A key is that of a package or of a workspace member, never of both.\<close>

lemma lock_keys_disjoint:
  assumes C: "semver_contract C" "url_contract C" and l: "entries_ok C l"
    and "bm_get (lf_packages l) s = Some p"
  shows "bm_get (lf_workspace_packages l) s = None"
proof (rule ccontr)
  assume "bm_get (lf_workspace_packages l) s \<noteq> None"
  then obtain w where w: "bm_get (lf_workspace_packages l) s = Some w" by blast
  have v: "lp_validate C p = Inr ()" "lp_key C p = Inr s" "lw_validate C w = Inr ()" "lw_key C w = Inr s"
    using l assms(4) w by (auto simp: entries_ok_def)
  obtain k where k: "lp_key C p = Inr (key_to_string C k)" "key_ok C k" "workspace_of (key_source k) = None"
    using lp_key_source [OF C(1) v(1)] by metis
  obtain j where j: "lw_key C w = Inr (key_to_string C j)" "key_ok C j" "key_source j = Workspace (lw_source w)"
    using lw_key_ok [OF C(1) v(3)] by metis
  have same: "key_to_string C k = key_to_string C j" using k(1) j(1) v(2,4) by simp
  have "k = j" using key_roundtrip [OF C k(2)] unfolding same key_roundtrip [OF C j(2)] by simp
  then show False using k(3) j(3) by (simp add: workspace_of_def)
qed

text \<open>The nodes and edges before the peers are added.\<close>

lemma typed_nodes:
  assumes "typed_entries C (bm_entries m) = Inr ts" "map (\<lambda>(k, p). (key_to_string C k, p)) ts = bm_entries m"
    "\<forall>(k, p)\<in>set ts. key_from_str C (key_to_string C k) = Inr k"
  shows "bm_get (bm_extend b (map (\<lambda>(k, _). (key_to_string C k, k)) ts)) s =
      (if s \<in> dom (bm_get m) then (case key_from_str C s of Inr k \<Rightarrow> Some k | Inl _ \<Rightarrow> None) else bm_get b s)"
    "bm_get (bm_extend e (map (\<lambda>(k, p). (key_to_string C k, f p)) ts)) s =
      (case bm_get m s of Some p \<Rightarrow> Some (f p) | None \<Rightarrow> bm_get e s)"
proof -
  have fst: "map fst (bm_entries m) = map (\<lambda>(k, _). key_to_string C k) ts"
    unfolding assms(2) [symmetric] by (simp add: comp_def case_prod_unfold)
  have d: "distinct (map (\<lambda>(k, _). key_to_string C k) ts)"
    using al_sorted_distinct [OF bm_entries_sorted, of m] by (simp add: fst [symmetric])
  have keys: "dom (bm_get m) = (\<lambda>(k, _). key_to_string C k) ` set ts"
    using arg_cong [OF fst, of set] by (simp add: bm_get_entries dom_map_of_conv_image_fst)
  show "bm_get (bm_extend b (map (\<lambda>(k, _). (key_to_string C k, k)) ts)) s =
      (if s \<in> dom (bm_get m) then (case key_from_str C s of Inr k \<Rightarrow> Some k | Inl _ \<Rightarrow> None) else bm_get b s)"
  proof (cases "s \<in> dom (bm_get m)")
    case True
    then obtain k p where kp: "(k, p) \<in> set ts" "s = key_to_string C k" by (auto simp: keys)
    then have "(s, k) \<in> set (map (\<lambda>(k, _). (key_to_string C k, k)) ts)" by force
    then have "bm_get (bm_extend b (map (\<lambda>(k, _). (key_to_string C k, k)) ts)) s = Some k"
      using d by (intro bm_extend_facts(3)) (simp_all add: comp_def case_prod_unfold)
    with True kp assms(3) show ?thesis by auto
  next
    case False
    then have "s \<notin> fst ` set (map (\<lambda>(k, _). (key_to_string C k, k)) ts)" by (simp add: keys image_image case_prod_unfold)
    with False show ?thesis
      by (simp add: bm_extend_facts(1) map_add_def map_of_eq_None_iff [THEN iffD2] split: option.splits)
  qed
  show "bm_get (bm_extend e (map (\<lambda>(k, p). (key_to_string C k, f p)) ts)) s =
      (case bm_get m s of Some p \<Rightarrow> Some (f p) | None \<Rightarrow> bm_get e s)"
  proof (cases "bm_get m s")
    case (Some p)
    then have "(s, p) \<in> set (map (\<lambda>(k, p). (key_to_string C k, p)) ts)" by (simp add: assms(2) bm_get_in_entries)
    then have "(s, f p) \<in> set (map (\<lambda>(k, p). (key_to_string C k, f p)) ts)" by force
    then have "bm_get (bm_extend e (map (\<lambda>(k, p). (key_to_string C k, f p)) ts)) s = Some (f p)"
      using d by (intro bm_extend_facts(3)) (simp_all add: comp_def case_prod_unfold)
    with Some show ?thesis by simp
  next
    case None
    then have "s \<notin> dom (bm_get m)" by auto
    then have "s \<notin> fst ` set (map (\<lambda>(k, p). (key_to_string C k, f p)) ts)" by (simp add: keys image_image case_prod_unfold)
    with None show ?thesis
      by (simp add: bm_extend_facts(1) map_add_def map_of_eq_None_iff [THEN iffD2] split: option.splits)
  qed
qed


text \<open>What the graph is built from: the nodes and edges before the peers, and the peers.\<close>

definition graph_of :: "('v::linorder) crates \<Rightarrow> lockfile \<Rightarrow> 'v why_graph \<Rightarrow> bool" where
  "graph_of C l g \<longleftrightarrow>
     dom (bm_get (wg_nodes g)) = dom (bm_get (lf_packages l)) \<union> dom (bm_get (lf_workspace_packages l)) \<and>
     (\<forall>s k. bm_get (wg_nodes g) s = Some k \<longrightarrow> key_from_str C s = Inr k \<and>
        edges_of g s = dependency_edges_of (locked_dependencies l s) @ peer_edges C (wg_nodes g) k (peers_at C k))"

lemma base_graph:
  assumes C: "semver_contract C" "url_contract C" and l: "lockfile_ok C l"
  obtains ps ws g where "packages_typed C l = Inr ps" "workspace_packages_typed C l = Inr ws"
    "g = add_nodes C (map (\<lambda>(key, p). (key, lw_dependencies p)) ws)
       (add_nodes C (map (\<lambda>(key, p). (key, lp_dependencies p)) ps) \<lparr>wg_edges = bm_empty, wg_nodes = bm_empty\<rparr>)"
    "\<And>s. bm_get (wg_nodes g) s =
      (if s \<in> dom (bm_get (lf_workspace_packages l)) \<union> dom (bm_get (lf_packages l))
       then (case key_from_str C s of Inr k \<Rightarrow> Some k | Inl _ \<Rightarrow> None) else None)"
    "\<And>s. bm_get (wg_edges g) s =
      (if s \<in> dom (bm_get (lf_workspace_packages l)) \<union> dom (bm_get (lf_packages l))
       then Some (dependency_edges_of (locked_dependencies l s)) else None)"
proof -
  have "entries_ok C l" using l by (simp add: lockfile_ok_def)
  note keys = locked_keys_parse [OF C this]
  obtain ps where ps: "typed_entries C (bm_entries (lf_packages l)) = Inr ps"
    "map (\<lambda>(k, p). (key_to_string C k, p)) ps = bm_entries (lf_packages l)"
    "\<forall>(k, p)\<in>set ps. key_from_str C (key_to_string C k) = Inr k"
    using typed_entries_ok [of "bm_entries (lf_packages l)" C] keys(1) by (auto simp: bm_get_in_entries)
  obtain ws where ws: "typed_entries C (bm_entries (lf_workspace_packages l)) = Inr ws"
    "map (\<lambda>(k, p). (key_to_string C k, p)) ws = bm_entries (lf_workspace_packages l)"
    "\<forall>(k, p)\<in>set ws. key_from_str C (key_to_string C k) = Inr k"
    using typed_entries_ok [of "bm_entries (lf_workspace_packages l)" C] keys(2) by (auto simp: bm_get_in_entries)
  define g where "g = add_nodes C (map (\<lambda>(key, p). (key, lw_dependencies p)) ws)
    (add_nodes C (map (\<lambda>(key, p). (key, lp_dependencies p)) ps) \<lparr>wg_edges = bm_empty, wg_nodes = bm_empty\<rparr>)"
  have nodes: "bm_get (wg_nodes g) s =
      (if s \<in> dom (bm_get (lf_workspace_packages l)) \<union> dom (bm_get (lf_packages l))
       then (case key_from_str C s of Inr k \<Rightarrow> Some k | Inl _ \<Rightarrow> None) else None)" for s
    by (simp add: g_def add_nodes_extend comp_def case_prod_unfold
        typed_nodes(1) [OF ws, unfolded case_prod_unfold] typed_nodes(1) [OF ps, unfolded case_prod_unfold])
  have edges: "bm_get (wg_edges g) s =
      (if s \<in> dom (bm_get (lf_workspace_packages l)) \<union> dom (bm_get (lf_packages l))
       then Some (dependency_edges_of (locked_dependencies l s)) else None)" for s
    by (auto simp add: g_def add_nodes_extend comp_def case_prod_unfold locked_dependencies_def
        typed_nodes(2) [OF ws, of _ "\<lambda>p. dependency_edges_of (lw_dependencies p)", unfolded case_prod_unfold]
        typed_nodes(2) [OF ps, of _ "\<lambda>p. dependency_edges_of (lp_dependencies p)", unfolded case_prod_unfold] split: option.splits)
  show ?thesis
    by (rule that [OF _ _ g_def nodes edges]) (simp_all add: packages_typed_def workspace_packages_typed_def ps(1) ws(1))
qed

lemma why_graph_ok:
  assumes C: "semver_contract C" "url_contract C" and l: "lockfile_ok C l"
  shows "\<exists>g. why_graph_of C l = Inr g \<and> graph_of C l g"
proof -
  have "entries_ok C l" using l by (simp add: lockfile_ok_def)
  note keys = locked_keys_parse [OF C this]
  obtain ps ws g where typed: "packages_typed C l = Inr ps" "workspace_packages_typed C l = Inr ws"
    and g_def: "g = add_nodes C (map (\<lambda>(key, p). (key, lw_dependencies p)) ws)
       (add_nodes C (map (\<lambda>(key, p). (key, lp_dependencies p)) ps) \<lparr>wg_edges = bm_empty, wg_nodes = bm_empty\<rparr>)"
    and nodes: "\<And>s. bm_get (wg_nodes g) s =
      (if s \<in> dom (bm_get (lf_workspace_packages l)) \<union> dom (bm_get (lf_packages l))
       then (case key_from_str C s of Inr k \<Rightarrow> Some k | Inl _ \<Rightarrow> None) else None)"
    and edges: "\<And>s. bm_get (wg_edges g) s =
      (if s \<in> dom (bm_get (lf_workspace_packages l)) \<union> dom (bm_get (lf_packages l))
       then Some (dependency_edges_of (locked_dependencies l s)) else None)"
    by (rule base_graph [OF assms]) (rule that; simp only:)
  have parse: "\<exists>k. key_from_str C s = Inr k" if "s \<in> dom (bm_get (lf_workspace_packages l)) \<union> dom (bm_get (lf_packages l))" for s
    using that keys by auto
  have dom: "dom (bm_get (wg_nodes g)) = dom (bm_get (lf_packages l)) \<union> dom (bm_get (lf_workspace_packages l))"
    using parse by (fastforce simp: nodes dom_def split: if_splits)
  have key: "key_from_str C s = Inr k" if "bm_get (wg_nodes g) s = Some k" for s k
    using that by (auto simp: nodes split: if_splits sum.splits)
  have "\<exists>edges'. add_peers C (wg_nodes g) (bm_entries (wg_nodes g)) (wg_edges g) = Inr edges' \<and>
    (\<forall>s. bm_get edges' s = map_option (\<lambda>present. present @
       (case map_of (bm_entries (wg_nodes g)) s of None \<Rightarrow> [] | Some k \<Rightarrow> peer_edges C (wg_nodes g) k (peers_at C k)))
       (bm_get (wg_edges g) s))"
  proof (rule add_peers_ok)
    show "distinct (map fst (bm_entries (wg_nodes g)))" using al_sorted_distinct [OF bm_entries_sorted] .
    fix s k assume "(s, k) \<in> set (bm_entries (wg_nodes g))"
    then have "bm_get (wg_nodes g) s = Some k" by (simp add: bm_get_in_entries)
    moreover from this have "s \<in> dom (bm_get (lf_packages l)) \<union> dom (bm_get (lf_workspace_packages l))"
      unfolding dom [symmetric] by blast
    then have "s \<in> dom (bm_get (wg_edges g))" by (auto simp: edges)
    ultimately show "key_peer_context C k = Inr (peers_at C k) \<and> s \<in> dom (bm_get (wg_edges g))"
      using key key_from_str_peers by blast
  qed
  then obtain edges' where edges': "add_peers C (wg_nodes g) (bm_entries (wg_nodes g)) (wg_edges g) = Inr edges'"
    "\<And>s. bm_get edges' s = map_option (\<lambda>present. present @
       (case bm_get (wg_nodes g) s of None \<Rightarrow> [] | Some k \<Rightarrow> peer_edges C (wg_nodes g) k (peers_at C k)))
       (bm_get (wg_edges g) s)"
    by (auto simp: bm_get_entries [symmetric])
  have "why_graph_of C l = Inr (g\<lparr>wg_edges := edges'\<rparr>)"
    by (simp add: why_graph_of_def typed g_def [symmetric] edges'(1) Let_def)
  moreover have "graph_of C l (g\<lparr>wg_edges := edges'\<rparr>)"
    unfolding graph_of_def
  proof (intro conjI allI impI)
    fix s k assume k: "bm_get (wg_nodes (g\<lparr>wg_edges := edges'\<rparr>)) s = Some k"
    then show "key_from_str C s = Inr k" by (simp add: key)
    have "s \<in> dom (bm_get (lf_workspace_packages l)) \<union> dom (bm_get (lf_packages l))" using k dom by auto
    with k show "edges_of (g\<lparr>wg_edges := edges'\<rparr>) s =
        dependency_edges_of (locked_dependencies l s) @ peer_edges C (wg_nodes (g\<lparr>wg_edges := edges'\<rparr>)) k (peers_at C k)"
      by (simp add: edges_of_def edges'(2) edges)
  qed (simp add: dom)
  ultimately show ?thesis by blast
qed

lemma graph_targets:
  assumes g: "graph_of C l g" and l: "lockfile_ok C l" and k: "bm_get (wg_nodes g) s = Some k" and e: "e \<in> set (edges_of g s)"
  shows "we_target e \<in> dom (bm_get (wg_nodes g))"
proof -
  have dom: "dom (bm_get (wg_nodes g)) = dom (bm_get (lf_packages l)) \<union> dom (bm_get (lf_workspace_packages l))"
    and es: "edges_of g s = dependency_edges_of (locked_dependencies l s) @ peer_edges C (wg_nodes g) k (peers_at C k)"
    using g k by (auto simp: graph_of_def)
  from e es consider name where "bm_get (locked_dependencies l s) name = Some (we_target e)"
    | target where "target \<in> set (bm_values (wg_nodes g))" "we_target e = key_to_string C target"
    by (force simp: dependency_edges_of_def peer_edges_def providers_of_def bm_get_in_entries)
  then show ?thesis
  proof cases
    case (1 name)
    have "edges_ok C l" using l by (simp add: lockfile_ok_def)
    with 1 have "contains_package_key l (we_target e)"
      unfolding edges_ok_def edge_target_ok_def locked_dependencies_def by (auto split: option.splits)
    then show ?thesis by (auto simp: dom contains_package_key_def bm_contains_key_iff)
  next
    case (2 target)
    then obtain s' where "bm_get (wg_nodes g) s' = Some target" by (auto simp: set_bm_values ran_def)
    moreover from this g have "key_to_string C target = s'" by (metis graph_of_def key_text_of_parse)
    ultimately show ?thesis using 2 by auto
  qed
qed

text \<open>The edges of a node, one by one, over what the lockfile records.\<close>

lemma locked_dependencies_iff:
  assumes "semver_contract C" "url_contract C" and "lockfile_ok C l"
  shows "bm_get (locked_dependencies l s) name = Some target \<longleftrightarrow>
    (\<exists>p. bm_get (lf_packages l) s = Some p \<and> bm_get (lp_dependencies p) name = Some target) \<or>
    (\<exists>p. bm_get (lf_workspace_packages l) s = Some p \<and> bm_get (lw_dependencies p) name = Some target)"
  using lock_keys_disjoint [OF assms(1,2), of l s] assms(3)
  by (auto simp: locked_dependencies_def lockfile_ok_def split: option.splits)

lemma dependency_edge_iff:
  "\<lparr>we_name = name, we_target = target, we_kind = kind\<rparr> \<in> set (dependency_edges_of deps) \<longleftrightarrow>
   kind = ''dependency'' \<and> bm_get deps name = Some target"
  by (auto simp: dependency_edges_of_def bm_get_in_entries [symmetric])

lemma peer_edges_iff:
  assumes "\<And>s q. bm_get nodes s = Some q \<Longrightarrow> key_to_string C q = s"
  shows "\<lparr>we_name = name, we_target = target, we_kind = kind\<rparr> \<in> set (peer_edges C nodes k ctx) \<longleftrightarrow>
    kind = ''peer'' \<and> (\<exists>v q. bm_get ctx name = Some v \<and> bm_get nodes target = Some q \<and>
      key_source q = key_source k \<and> key_name q = name \<and> key_version q = v)" (is "?e \<in> _ \<longleftrightarrow> ?r")
proof -
  have n: "bm_get nodes target = Some q \<longleftrightarrow> q \<in> set (bm_values nodes) \<and> target = key_to_string C q" for q
    using assms by (auto simp: set_bm_values ran_def)
  have "?e \<in> set (peer_edges C nodes k ctx) \<longleftrightarrow>
      (\<exists>n v q. (n, v) \<in> set (bm_entries ctx) \<and> q \<in> set (providers_of nodes (key_source k) n v) \<and>
        ?e = \<lparr>we_name = n, we_target = key_to_string C q, we_kind = ''peer''\<rparr>)"
    unfolding peer_edges_def by auto
  also have "\<dots> \<longleftrightarrow> ?r" unfolding n bm_get_in_entries [symmetric] providers_of_def by auto
  finally show ?thesis .
qed

text \<open>
  What the lockfile records of a node \<open>s\<close> with key \<open>k\<close>: a dependency, by its name, or a peer, which any
  package of the lockfile from the node's source with the peer's name and version provides.
\<close>

definition recorded_edge ::
  "('v::linorder) crates \<Rightarrow> lockfile \<Rightarrow> 'v why_graph \<Rightarrow> string \<Rightarrow> 'v lockfile_package_key \<Rightarrow> string \<Rightarrow> string \<Rightarrow> string \<Rightarrow> bool" where
  "recorded_edge C l g s k name target kind \<longleftrightarrow>
     kind = ''dependency'' \<and>
       ((\<exists>p. bm_get (lf_packages l) s = Some p \<and> bm_get (lp_dependencies p) name = Some target) \<or>
        (\<exists>p. bm_get (lf_workspace_packages l) s = Some p \<and> bm_get (lw_dependencies p) name = Some target)) \<or>
     kind = ''peer'' \<and>
       (\<exists>ctx v q. key_peer_context C k = Inr ctx \<and> bm_get ctx name = Some v \<and> bm_get (wg_nodes g) target = Some q \<and>
          key_source q = key_source k \<and> key_name q = name \<and> key_version q = v)"

lemma graph_edges:
  assumes C: "semver_contract C" "url_contract C" and l: "lockfile_ok C l" and g: "graph_of C l g"
    and k: "bm_get (wg_nodes g) s = Some k"
  shows "\<lparr>we_name = name, we_target = target, we_kind = kind\<rparr> \<in> set (edges_of g s) \<longleftrightarrow>
    recorded_edge C l g s k name target kind"
proof -
  have printed: "key_to_string C q = t" if "bm_get (wg_nodes g) t = Some q" for t q
    using g that key_text_of_parse [of C t q] by (simp add: graph_of_def)
  have e: "edges_of g s = dependency_edges_of (locked_dependencies l s) @ peer_edges C (wg_nodes g) k (peers_at C k)"
    and s: "key_from_str C s = Inr k"
    using g k by (auto simp: graph_of_def)
  have "\<lparr>we_name = name, we_target = target, we_kind = kind\<rparr> \<in> set (peer_edges C (wg_nodes g) k (peers_at C k)) \<longleftrightarrow>
      kind = ''peer'' \<and> (\<exists>v q. bm_get (peers_at C k) name = Some v \<and> bm_get (wg_nodes g) target = Some q \<and>
        key_source q = key_source k \<and> key_name q = name \<and> key_version q = v)"
    by (rule peer_edges_iff) (rule printed)
  then show ?thesis
    unfolding e recorded_edge_def key_from_str_peers [OF s] set_append Un_iff dependency_edge_iff locked_dependencies_iff [OF C l]
    by simp
qed

end
