(* ===== verification/Why_Properties.thy ===== *)
theory Why_Properties
  imports Why_Facts Lockfile_Properties
begin

text \<open>
  The properties of the \<open>why\<close> command, each with a concrete graph or lockfile.
\<close>

section \<open>Inputs for the witnesses\<close>

text \<open>Two packages that need each other, and a direct dependency on the first.\<close>

definition why_key :: "string \<Rightarrow> rversion lockfile_package_key" where
  "why_key name = LockfilePackageKey (Registry ''r'') name (RVersion 1 0 0 []) [] []"

definition loop_graph :: "rversion why_graph" where
  "loop_graph =
     \<lparr>wg_edges = bm_of_list [(''ka'', [\<lparr>we_name = ''b'', we_target = ''kb'', we_kind = ''dependency''\<rparr>]),
        (''kb'', [\<lparr>we_name = ''a'', we_target = ''ka'', we_kind = ''dependency''\<rparr>])],
      wg_nodes = bm_of_list [(''ka'', why_key ''a''), (''kb'', why_key ''b'')]\<rparr>"

definition loop_roots :: "why_root list" where
  "loop_roots = [\<lparr>root_key = ''ka'', root_name = ''a'', root_kind = ''dependencies''\<rparr>]"

section \<open>Properties\<close>

text \<open>
  C35. The answer of \<open>why\<close> is exact. Every reported path starts at a direct dependency,
  follows edges of the lockfile's graph without repeating a package and ends at the requested
  package; at most fifty are reported; and unless the answer says that it was cut off, the
  reported paths are all such paths, so that a package is reported as not found exactly when
  no path leads to it.
\<close>

theorem why_answer_exact:
  "set (wr_paths (explain_roots g requested roots)) \<subseteq> why_paths g requested roots \<and>
   length (wr_paths (explain_roots g requested roots)) \<le> 50 \<and>
   (wr_outcome (explain_roots g requested roots) \<noteq> ''partial'' \<longrightarrow>
      set (wr_paths (explain_roots g requested roots)) = why_paths g requested roots) \<and>
   (wr_outcome (explain_roots g requested roots) = ''not_found'' \<longrightarrow> why_paths g requested roots = {}) \<and>
   (wr_outcome (explain_roots g requested roots) = ''success'' \<longrightarrow> why_paths g requested roots \<noteq> {})"
proof -
  let ?s = "search_roots g requested roots \<lparr>ss_paths = [], ss_truncated = False, ss_visits = 0\<rparr>"
  have c: "set (ss_paths ?s) \<subseteq> why_paths g requested roots" "length (ss_paths ?s) \<le> 50"
    "\<not> ss_truncated ?s \<Longrightarrow> why_paths g requested roots \<subseteq> set (ss_paths ?s)"
    using search_roots_correct [of "\<lparr>ss_paths = [], ss_truncated = False, ss_visits = 0\<rparr>" g requested roots]
    by (auto simp: MAX_PATHS_def)
  then show ?thesis by (auto simp: explain_roots_def Let_def)
qed

theorem why_answer_exact_witness:
  "wr_outcome (explain_roots loop_graph ''b'' loop_roots) = ''success'' \<and>
   card (why_paths loop_graph ''b'' loop_roots) = 1 \<and> why_paths loop_graph ''c'' loop_roots = {}"
proof -
  have b: "wr_outcome (explain_roots loop_graph ''b'' loop_roots) = ''success''"
    "length (wr_paths (explain_roots loop_graph ''b'' loop_roots)) = 1"
    "wr_outcome (explain_roots loop_graph ''c'' loop_roots) = ''not_found''" by code_simp+
  then have "set (wr_paths (explain_roots loop_graph ''b'' loop_roots)) = why_paths loop_graph ''b'' loop_roots"
    using why_answer_exact [of loop_graph "''b''" loop_roots] by simp
  moreover obtain p where "wr_paths (explain_roots loop_graph ''b'' loop_roots) = [p]"
    using b(2) by (auto simp: length_Suc_conv)
  ultimately have "why_paths loop_graph ''b'' loop_roots = {p}" by simp
  with b why_answer_exact [of loop_graph "''c''" loop_roots] show ?thesis by simp
qed

text \<open>
  C36. The graph of a valid lockfile is built without an error and is the lockfile's: its
  nodes are exactly the locked packages and workspace members; an edge of a node is either one of
  the dependencies that the lockfile records for it, or leads to a package of the lockfile with the
  node's source and the name and version of one of the peers in the node's peer context, and all of
  these are edges; and every edge leads to a node. So neither the parsing of the keys nor the
  \<open>expect\<close> on an indexed node can fail.
\<close>

theorem why_graph_faithful:
  assumes C: "semver_contract C" "url_contract C" and l: "lockfile_ok C l"
  shows "\<exists>g. why_graph_of C l = Inr g \<and>
    dom (bm_get (wg_nodes g)) = dom (bm_get (lf_packages l)) \<union> dom (bm_get (lf_workspace_packages l)) \<and>
    (\<forall>s k. bm_get (wg_nodes g) s = Some k \<longrightarrow> key_from_str C s = Inr k \<and>
       (\<forall>name target kind. \<lparr>we_name = name, we_target = target, we_kind = kind\<rparr> \<in> set (edges_of g s) \<longleftrightarrow>
          recorded_edge C l g s k name target kind) \<and>
       (\<forall>e\<in>set (edges_of g s). we_target e \<in> dom (bm_get (wg_nodes g))))"
proof -
  obtain g where g: "why_graph_of C l = Inr g" "graph_of C l g" using why_graph_ok [OF assms] by blast
  have "key_from_str C s = Inr k \<and>
       (\<forall>name target kind. \<lparr>we_name = name, we_target = target, we_kind = kind\<rparr> \<in> set (edges_of g s) \<longleftrightarrow>
          recorded_edge C l g s k name target kind) \<and>
       (\<forall>e\<in>set (edges_of g s). we_target e \<in> dom (bm_get (wg_nodes g)))" if k: "bm_get (wg_nodes g) s = Some k" for s k
    using graph_edges [OF C l g(2) k] graph_targets [OF g(2) l k] g(2) k by (simp add: graph_of_def)
  moreover have "dom (bm_get (wg_nodes g)) = dom (bm_get (lf_packages l)) \<union> dom (bm_get (lf_workspace_packages l))"
    using g(2) by (simp add: graph_of_def)
  ultimately show ?thesis using g(1) by blast
qed

theorem why_graph_faithful_witness:
  "\<exists>l g. sample_build = Inr l \<and> why_graph_of reference_crates l = Inr g \<and>
     dom (bm_get (wg_nodes g)) = dom (bm_get (lf_packages l)) \<union> dom (bm_get (lf_workspace_packages l))"
proof -
  obtain l where l: "sample_build = Inr l" using sample_build_ok by (auto simp: ok_result_iff)
  have "lockfile_ok reference_crates l" by (rule sample_lockfile_ok [OF l])
  from why_graph_faithful [OF reference_semver reference_url this] l show ?thesis by blast
qed

end
