(* ===== verification/Archive.thy ===== *)
theory Archive
  imports Rust_Path
begin

text \<open>
  The crate \<open>tapid-archive\<close>, first part: the validation of archive entries by their
  metadata alone. Portable paths, collisions, entry kinds and cumulative limits; on Unix
  paths, with \<open>usize\<close> of 64 bits.
\<close>

section \<open>Data\<close>

datatype archive_format = Tar | TarGz

datatype entry_kind = File_Kind | Directory_Kind | Symlink_Kind | Hardlink_Kind | Other_Kind

record archive_entry =
  ae_path :: string
  ae_kind :: entry_kind
  ae_size :: u64
  ae_link_target :: "string option"

definition entry_file :: "string \<Rightarrow> u64 \<Rightarrow> archive_entry" where
  "entry_file path bytes = \<lparr>ae_path = path, ae_kind = File_Kind, ae_size = bytes, ae_link_target = None\<rparr>"

definition entry_directory :: "string \<Rightarrow> archive_entry" where
  "entry_directory path = \<lparr>ae_path = path, ae_kind = Directory_Kind, ae_size = 0, ae_link_target = None\<rparr>"

definition entry_symlink :: "string \<Rightarrow> string \<Rightarrow> archive_entry" where
  "entry_symlink path target =
     \<lparr>ae_path = path, ae_kind = Symlink_Kind, ae_size = 0, ae_link_target = Some target\<rparr>"

record validation_limits =
  max_entries :: u64
  max_entry_size :: u64
  max_total_size :: u64
  max_path_bytes :: u64

definition default_validation_limits :: validation_limits where
  "default_validation_limits =
     \<lparr>max_entries = 100000, max_entry_size = 512 * 1024 * 1024, max_total_size = 2 * 1024 * 1024 * 1024,
      max_path_bytes = 4096\<rparr>"

record archive_limits =
  al_validation :: validation_limits
  max_archive_bytes :: u64

definition default_archive_limits :: archive_limits where
  "default_archive_limits = \<lparr>al_validation = default_validation_limits, max_archive_bytes = 512 * 1024 * 1024\<rparr>"

datatype validation_error =
    TooManyEntries
  | EntryTooLarge string u64
  | TotalSizeExceeded
  | PathTooLong
  | AbsolutePath string
  | Traversal string
  | InvalidPath string
  | DuplicatePath string
  | CaseCollision string
  | SpecialFile string
  | SymlinkEscape string

fun validation_error_to_string :: "validation_error \<Rightarrow> string" where
  "validation_error_to_string TooManyEntries = ''archive has too many entries''"
| "validation_error_to_string (EntryTooLarge path bytes) =
     ''archive entry '' @ path @ '' is too large ('' @ dec_string (unat bytes) @ '' bytes)''"
| "validation_error_to_string TotalSizeExceeded = ''archive total size limit exceeded''"
| "validation_error_to_string PathTooLong = ''archive path is too long''"
| "validation_error_to_string (AbsolutePath path) = ''absolute archive path: '' @ path"
| "validation_error_to_string (Traversal path) = ''archive path traversal: '' @ path"
| "validation_error_to_string (InvalidPath path) = ''invalid archive path: '' @ path"
| "validation_error_to_string (DuplicatePath path) = ''duplicate archive path: '' @ path"
| "validation_error_to_string (CaseCollision path) = ''case-colliding archive path: '' @ path"
| "validation_error_to_string (SpecialFile path) = ''special archive file: '' @ path"
| "validation_error_to_string (SymlinkEscape path) = ''symlink escapes archive root: '' @ path"

section \<open>Paths\<close>

definition slashes :: "string \<Rightarrow> string" where
  "slashes value = map (\<lambda>c. if c = CHR 0x5C then CHR ''/'' else c) value"

definition has_drive_prefix :: "string \<Rightarrow> bool" where
  "has_drive_prefix path =
     (case path of c # d # _ \<Rightarrow> d = CHR '':'' \<and> is_ascii_alphabetic c | _ \<Rightarrow> False)"

text \<open>
  On Unix a path is absolute when it starts with a slash; its components are the names
  between slashes, without empty and single-dot ones, the first parent component ends the loop.
\<close>

definition normalized_path :: "string \<Rightarrow> (validation_error, string) result" where
  "normalized_path value0 =
     (if value0 = [] \<or> CHR 0x00 \<in> set value0 then Inl (InvalidPath value0)
      else (let value = slashes value0; output = names_of value in
        if prefix ''/'' value \<or> has_drive_prefix value then Inl (AbsolutePath value)
        else if ''..'' \<in> set output then Inl (Traversal value)
        else if output = [] then Inl (InvalidPath value)
        else Inr (join ''/'' output)))"

text \<open>The depth is an \<open>i32\<close>; no target has as many parts as would overflow it.\<close>

fun target_leaves :: "int \<Rightarrow> string list \<Rightarrow> bool" where
  "target_leaves depth [] = False"
| "target_leaves depth (part # rest) =
     (if part = [] \<or> part = ''.'' then target_leaves depth rest
      else if part = ''..'' then (if depth - 1 < 0 then True else target_leaves (depth - 1) rest)
      else target_leaves (depth + 1) rest)"

definition symlink_target_escapes :: "string \<Rightarrow> string \<Rightarrow> bool" where
  "symlink_target_escapes link0 target0 =
     (let link = slashes link0; target = slashes target0 in
      if target = [] \<or> CHR 0x00 \<in> set target then True
      else if prefix ''/'' target \<or> has_drive_prefix target then True
      else target_leaves (int (length (filter (\<lambda>s. s \<noteq> []) (split_char (CHR ''/'') link)) - 1))
        (split_char (CHR ''/'') target))"

section \<open>The validator\<close>

record entry_validator =
  ev_limits :: validation_limits
  ev_count :: u64
  ev_total :: u64
  ev_exact :: "string btree_set"
  ev_folded :: "string btree_set"

definition validator_new :: "validation_limits \<Rightarrow> entry_validator" where
  "validator_new limits =
     \<lparr>ev_limits = limits, ev_count = 0, ev_total = 0, ev_exact = bs_empty, ev_folded = bs_empty\<rparr>"

definition check_kind ::
  "archive_entry \<Rightarrow> string \<Rightarrow> entry_validator \<Rightarrow> (validation_error, entry_validator) result" where
  "check_kind entry normalized v =
     (case ae_kind entry of
        File_Kind \<Rightarrow>
          if max_entry_size (ev_limits v) < ae_size entry then Inl (EntryTooLarge (ae_path entry) (ae_size entry))
          else and_then (ok_or TotalSizeExceeded (checked_add (ev_total v) (ae_size entry))) (\<lambda>total.
            if max_total_size (ev_limits v) < total then Inl TotalSizeExceeded else Inr (v\<lparr>ev_total := total\<rparr>))
      | Directory_Kind \<Rightarrow>
          if ae_size entry \<noteq> 0 then Inl (EntryTooLarge (ae_path entry) (ae_size entry)) else Inr v
      | Symlink_Kind \<Rightarrow>
          and_then (ok_or (InvalidPath (ae_path entry)) (ae_link_target entry)) (\<lambda>target.
            if symlink_target_escapes normalized target then Inl (SymlinkEscape (ae_path entry)) else Inr v)
      | _ \<Rightarrow> Inl (SpecialFile (ae_path entry)))"

definition validator_push ::
  "archive_entry \<Rightarrow> entry_validator \<Rightarrow> (validation_error, entry_validator) result" where
  "validator_push entry v =
     and_then (ok_or TooManyEntries (checked_add (ev_count v) 1)) (\<lambda>count.
     if max_entries (ev_limits v) < count then Inl TooManyEntries
     else if unat (max_path_bytes (ev_limits v)) < length (ae_path entry) then Inl PathTooLong
     else and_then (normalized_path (ae_path entry)) (\<lambda>normalized.
       if bs_contains (ev_exact v) normalized then Inl (DuplicatePath (ae_path entry))
       else if bs_contains (ev_folded v) (to_ascii_lowercase normalized) then Inl (CaseCollision (ae_path entry))
       else check_kind entry normalized
         (v\<lparr>ev_count := count, ev_exact := bs_insert normalized (ev_exact v),
            ev_folded := bs_insert (to_ascii_lowercase normalized) (ev_folded v)\<rparr>)))"

fun push_all ::
  "archive_entry list \<Rightarrow> entry_validator \<Rightarrow> (validation_error, entry_validator) result" where
  "push_all [] v = Inr v"
| "push_all (entry # rest) v = and_then (validator_push entry v) (push_all rest)"

definition validate_entries :: "archive_entry list \<Rightarrow> validation_limits \<Rightarrow> (validation_error, unit) result" where
  "validate_entries entries limits = and_then (push_all entries (validator_new limits)) (\<lambda>_. Inr ())"

end
