(* ===== verification/File_Tree.thy ===== *)
theory File_Tree
  imports Rust_Path
begin

text \<open>
  Prelude, part four: a directory tree of the file system, with the calls of \<open>std::fs\<close>
  that the archive crate makes below one directory. A tree maps the names that lead from
  its root to a node; failures of the device, limits of the file system on names and
  concurrent changes are not modelled, and no call below follows a symbolic link.
\<close>

type_synonym io_error = string

datatype fs_node = Dir_Node | File_Node (node_mode: u32) (node_bytes: string) | Link_Node | Special_Node

type_synonym file_tree = "(string list, fs_node) btree_map"

text \<open>\<open>fs::create_dir_all\<close>: the missing directories on the way are created.\<close>

fun create_dirs :: "string list \<Rightarrow> string list \<Rightarrow> file_tree \<Rightarrow> (io_error, file_tree) result" where
  "create_dirs up [] t = Inr t"
| "create_dirs up (name # names) t =
     (case bm_get t (up @ [name]) of
        None \<Rightarrow> create_dirs (up @ [name]) names (bm_insert (up @ [name]) Dir_Node t)
      | Some Dir_Node \<Rightarrow> create_dirs (up @ [name]) names t
      | Some _ \<Rightarrow> Inl ''not a directory'')"

definition create_dir_all :: "string list \<Rightarrow> file_tree \<Rightarrow> (io_error, file_tree) result" where
  "create_dir_all path t = create_dirs [] path t"

text \<open>Opening with \<open>create_new\<close>, writing all bytes, and the permissions the file ends with.\<close>

definition create_new :: "string list \<Rightarrow> u32 \<Rightarrow> string \<Rightarrow> file_tree \<Rightarrow> (io_error, file_tree) result" where
  "create_new path mode bytes t =
     (if path = [] \<or> bm_contains_key t path then Inl ''already exists''
      else if butlast path \<noteq> [] \<and> bm_get t (butlast path) \<noteq> Some Dir_Node then Inl ''no such directory''
      else Inr (bm_insert path (File_Node mode bytes) t))"

text \<open>The names in a directory, in an order that only the file system knows.\<close>

definition child_names :: "file_tree \<Rightarrow> string list \<Rightarrow> string list" where
  "child_names t p = map last (filter (\<lambda>q. q \<noteq> [] \<and> butlast q = p) (bm_keys t))"

text \<open>Every node of a tree is below a directory of the tree.\<close>

definition tree_closed :: "file_tree \<Rightarrow> bool" where
  "tree_closed t \<longleftrightarrow> list_all (\<lambda>q. q \<noteq> [] \<and> (butlast q = [] \<or> bm_get t (butlast q) = Some Dir_Node)) (bm_keys t)"

section \<open>Lemmas\<close>

lemma create_dirs_free:
  "create_dirs up names t = Inr t' \<Longrightarrow> prefix q names \<Longrightarrow> q \<noteq> [] \<Longrightarrow>
   bm_get t (up @ q) \<in> {None, Some Dir_Node}"
proof (induction up names t arbitrary: t' q rule: create_dirs.induct)
  case (2 up name names t)
  then obtain q' where q: "q = name # q'" "prefix q' names" by (cases q) auto
  show ?case
  proof (cases "q' = []")
    case True
    then show ?thesis using 2(3) q by (auto split: option.splits fs_node.splits)
  next
    case False
    then have "bm_get t (up @ [name]) = None \<Longrightarrow> bm_get t ((up @ [name]) @ q') \<in> {None, Some Dir_Node}"
      using 2(1) [of t' q'] 2(3) q by (auto split: if_splits)
    moreover have "bm_get t (up @ [name]) = Some Dir_Node \<Longrightarrow> bm_get t ((up @ [name]) @ q') \<in> {None, Some Dir_Node}"
      using 2(2) [of Dir_Node t' q'] 2(3) q False by simp
    ultimately show ?thesis using 2(3) q by (auto split: option.splits fs_node.splits)
  qed
qed simp

lemma create_dirs_get:
  "create_dirs up names t = Inr t' \<Longrightarrow>
   bm_get t' p = (if \<exists>q. p = up @ q \<and> prefix q names \<and> q \<noteq> [] then Some Dir_Node else bm_get t p)"
proof (induction up names t arbitrary: t' rule: create_dirs.induct)
  case (2 up name names t)
  let ?p = "up @ [name]"
  have ex: "(\<exists>q. p = up @ q \<and> prefix q (name # names) \<and> q \<noteq> []) \<longleftrightarrow>
      p = ?p \<or> (\<exists>q. p = ?p @ q \<and> prefix q names \<and> q \<noteq> [])"
    by (auto simp: prefix_Cons)
  show ?case
  proof (cases "bm_get t ?p")
    case None
    then show ?thesis unfolding ex using 2(1) [of t'] 2(3) by auto
  next
    case (Some n)
    then show ?thesis unfolding ex using 2(2) [of n t'] 2(3) by (auto split: fs_node.splits)
  qed
qed (auto simp: prefix_def)

lemma create_dir_all_get:
  "create_dir_all path t = Inr t' \<Longrightarrow>
   bm_get t' p = (if prefix p path \<and> p \<noteq> [] then Some Dir_Node else bm_get t p)"
  using create_dirs_get [of "[]" path t t' p] by (simp add: create_dir_all_def)

lemma create_dir_all_free:
  "create_dir_all path t = Inr t' \<Longrightarrow> prefix q path \<Longrightarrow> q \<noteq> [] \<Longrightarrow> bm_get t q \<in> {None, Some Dir_Node}"
  using create_dirs_free [of "[]" path t t' q] by (simp add: create_dir_all_def)

lemma create_dirs_succeeds:
  "(\<And>q. prefix q names \<Longrightarrow> q \<noteq> [] \<Longrightarrow> bm_get t (up @ q) \<in> {None, Some Dir_Node}) \<Longrightarrow>
   \<exists>t'. create_dirs up names t = Inr t'"
proof (induction up names t rule: create_dirs.induct)
  case (2 up name names t)
  have here: "bm_get t (up @ [name]) \<in> {None, Some Dir_Node}" using 2(3) [of "[name]"] by simp
  have deeper: "bm_get t ((up @ [name]) @ q) \<in> {None, Some Dir_Node}" if "prefix q names" for q
    using 2(3) [of "name # q"] that by simp
  show ?case
  proof (cases "bm_get t (up @ [name])")
    case None
    then show ?thesis using 2(1) deeper by (auto simp del: append_assoc)
  next
    case (Some n)
    then show ?thesis using 2(2) [of n] deeper here by (auto simp del: append_assoc)
  qed
qed simp

lemma create_new_Inr:
  "create_new path mode bytes t = Inr t' \<longleftrightarrow>
   path \<noteq> [] \<and> bm_get t path = None \<and> (butlast path = [] \<or> bm_get t (butlast path) = Some Dir_Node) \<and>
   t' = bm_insert path (File_Node mode bytes) t"
  by (auto simp: create_new_def bm_contains_key_iff)

lemma tree_closed_iff:
  "tree_closed t \<longleftrightarrow> (\<forall>q n. bm_get t q = Some n \<longrightarrow> q \<noteq> [] \<and> (butlast q = [] \<or> bm_get t (butlast q) = Some Dir_Node))"
  by (auto simp: tree_closed_def list_all_iff set_bm_keys dom_def)

lemma tree_closed_empty [simp]: "tree_closed bm_empty"
  by (simp add: tree_closed_iff)

lemma butlast_prefix: "prefix q p \<Longrightarrow> prefix (butlast q) p"
  by (metis prefix_order.trans prefixeq_butlast)

lemma tree_closed_create_dir_all:
  assumes "tree_closed t" and "create_dir_all path t = Inr t'"
  shows "tree_closed t'"
  using assms by (auto simp: tree_closed_iff create_dir_all_get butlast_prefix split: if_splits)

lemma tree_closed_create_new:
  assumes "tree_closed t" and "create_new path mode bytes t = Inr t'"
  shows "tree_closed t'"
proof -
  have new: "path \<noteq> []" "bm_get t path = None" "butlast path = [] \<or> bm_get t (butlast path) = Some Dir_Node"
    and t': "t' = bm_insert path (File_Node mode bytes) t"
    using assms(2) by (auto simp: create_new_Inr)
  have "butlast path \<noteq> path" using new(1) by (cases path rule: rev_cases) auto
  then show ?thesis using assms(1) new by (auto simp: tree_closed_iff t' split: if_splits)
qed

lemma set_child_names:
  "name \<in> set (child_names t p) \<longleftrightarrow> bm_get t (p @ [name]) \<noteq> None"
proof
  assume "name \<in> set (child_names t p)"
  then obtain q where "q \<in> dom (bm_get t)" "q \<noteq> []" "butlast q = p" "name = last q"
    by (auto simp: child_names_def set_bm_keys)
  then show "bm_get t (p @ [name]) \<noteq> None" by (metis append_butlast_last_id domIff)
qed (force simp: child_names_def set_bm_keys dom_def image_iff)

lemma distinct_bm_keys [simp]: "distinct (bm_keys t)"
  using bm_keys_sorted strict_sorted_iff by blast

lemma distinct_child_names: "distinct (child_names t p)"
  unfolding child_names_def by (auto simp: distinct_map inj_on_def) (metis append_butlast_last_id)

end
