(* ===== verification/Archive_Extract.thy ===== *)
theory Archive_Extract
  imports Archive File_Tree
begin

text \<open>
  The crate \<open>tapid-archive\<close>, second part: reading an archive in bounded passes and writing
  its entries below a new directory. The tar and gzip readers are parameters: what a raw
  pass, one step of the pass with a budget, and an unbounded pass yield.
\<close>

unbundle bit_operations_syntax

section \<open>What the tar reader yields\<close>

datatype tar_type = Regular_Type | Directory_Type | Symlink_Type | Hard_Link_Type
  | Gnu_Long_Name | Gnu_Long_Link | Pax_Local | Pax_Global | Other_Type

text \<open>
  One logical entry: the bytes of its path and of its link name, the effective size, the fields
  of its header, the PAX records it carries and the bytes of its payload,
  each with the error that reading it gives.
\<close>

record tar_entry =
  te_type :: tar_type
  te_path :: "(string, string) result"
  te_size :: u64
  te_header_size :: "(io_error, u64) result"
  te_link_name :: "(string, string option) result"
  te_mode :: "(io_error, u32) result"
  te_pax :: "(io_error, (io_error, string \<times> string) result list option) result"
  te_body :: "(io_error, string) result"

type_synonym tar_item = "(io_error, tar_entry) result"

text \<open>
  The bounded pass is a state machine of the reader: a step gets the budget of bytes for
  this advance and yields an item, or nothing at the end of the archive.
\<close>

record 's tar_crate =
  raw_entries :: "archive_format \<Rightarrow> string \<Rightarrow> (io_error, (io_error, tar_type \<times> u64) result list) result"
  budget_open :: "archive_format \<Rightarrow> string \<Rightarrow> (io_error, 's) result"
  budget_next :: "'s \<Rightarrow> nat \<Rightarrow> tar_item option \<times> 's"
  plain_entries :: "archive_format \<Rightarrow> string \<Rightarrow> (io_error, tar_item list) result"

datatype extract_error = ExIo io_error | ExInvalid validation_error | ExInvalidArchive string | ArchiveTooLarge

fun extract_error_to_string :: "extract_error \<Rightarrow> string" where
  "extract_error_to_string (ExIo e) = ''archive I/O error: '' @ e"
| "extract_error_to_string (ExInvalid e) = validation_error_to_string e"
| "extract_error_to_string (ExInvalidArchive e) = ''invalid archive: '' @ e"
| "extract_error_to_string ArchiveTooLarge = ''archive compressed size limit exceeded''"

definition executable_manifest :: string where
  "executable_manifest = ''.tapid-executable-modes''"

definition parser_metadata_limit :: nat where
  "parser_metadata_limit = 64 * 1024"

section \<open>Validation passes\<close>

text \<open>The leading extension declarations, without traversing any payload.\<close>

definition is_extension :: "tar_type \<Rightarrow> bool" where
  "is_extension kind \<longleftrightarrow> kind = Gnu_Long_Name \<or> kind = Gnu_Long_Link \<or> kind = Pax_Local \<or> kind = Pax_Global"

definition extension_maximum :: "validation_limits \<Rightarrow> tar_type \<Rightarrow> nat" where
  "extension_maximum limits kind =
     (if kind = Gnu_Long_Name \<or> kind = Gnu_Long_Link then saturating_add (unat (max_path_bytes limits)) 1
      else if kind = Pax_Global then 1024 else 64 * 1024)"

fun check_initial :: "validation_limits \<Rightarrow> (io_error, tar_type \<times> u64) result list \<Rightarrow> (extract_error, unit) result" where
  "check_initial limits [] = Inr ()"
| "check_initial limits (Inl e # items) = Inr ()"
| "check_initial limits (Inr (kind, bytes) # items) =
     (if is_extension kind then
        if extension_maximum limits kind < unat bytes
        then Inl (ExInvalidArchive ''archive parser metadata limit exceeded'')
        else check_initial limits items
      else Inr ())"

definition validate_initial_metadata ::
  "'s tar_crate \<Rightarrow> archive_format \<Rightarrow> string \<Rightarrow> validation_limits \<Rightarrow> (extract_error, unit) result" where
  "validate_initial_metadata P format bytes limits =
     and_then (map_err ExIo (raw_entries P format bytes)) (check_initial limits)"

text \<open>Git's commit archives carry one global PAX comment, which holds the commit's name.\<close>

definition commit_value :: "string \<Rightarrow> bool" where
  "commit_value v \<longleftrightarrow> (length v = 40 \<or> length v = 64) \<and> list_all is_lower_hex v"

definition git_commit_comment :: "tar_entry \<Rightarrow> (extract_error, bool) result" where
  "git_commit_comment e =
     (if te_type e \<noteq> Pax_Global then Inr False
      else and_then (map_err ExIo (te_header_size e)) (\<lambda>bytes.
        if 1024 < unat bytes then Inl (ExInvalidArchive ''global PAX metadata is too large'')
        else and_then (map_err ExIo (te_pax e)) (\<lambda>found.
          case found of
            None \<Rightarrow> Inl (ExInvalidArchive ''missing global PAX metadata'')
          | Some [] \<Rightarrow> Inl (ExInvalidArchive ''empty global PAX metadata'')
          | Some (first # others) \<Rightarrow> and_then (map_err ExIo first) (\<lambda>(key, v).
              if key \<noteq> ''comment'' \<or> \<not> commit_value v \<or> others \<noteq> []
              then Inl (ExInvalidArchive ''unsupported global PAX metadata'') else Inr True))))"

definition kind_of :: "tar_type \<Rightarrow> entry_kind" where
  "kind_of ty =
     (if ty = Directory_Type then Directory_Kind else if ty = Regular_Type then File_Kind
      else if ty = Symlink_Type then Symlink_Kind else if ty = Hard_Link_Type then Hardlink_Kind
      else Other_Kind)"

definition entry_metadata :: "tar_entry \<Rightarrow> (extract_error, archive_entry) result" where
  "entry_metadata e =
     and_then (map_err ExInvalidArchive (te_path e)) (\<lambda>path.
     and_then (if kind_of (te_type e) = Symlink_Kind then map_err ExInvalidArchive (te_link_name e) else Inr None)
       (\<lambda>target. Inr \<lparr>ae_path = to_string_lossy path, ae_kind = kind_of (te_type e), ae_size = te_size e,
          ae_link_target = map_option to_string_lossy target\<rparr>))"

lemma check_kind_frame:
  "check_kind entry n v = Inr v' \<Longrightarrow> ev_limits v' = ev_limits v \<and> ev_count v' = ev_count v \<and>
   ev_exact v' = ev_exact v \<and> ev_folded v' = ev_folded v"
  by (auto simp: check_kind_def result_simps split: entry_kind.splits if_splits)

lemma validator_push_count:
  assumes "validator_push entry v = Inr v'"
  shows "ev_limits v' = ev_limits v" and "unat (ev_count v') = Suc (unat (ev_count v))"
    and "unat (ev_count v') \<le> unat (max_entries (ev_limits v))"
  using assms
  by (auto simp: validator_push_def result_simps checked_add_Some unat_add_u64 word_less_nat_alt
    dest!: check_kind_frame split: if_splits)

text \<open>
  Each logical header is validated before the pass advances through its payload. The pass ends
  for every reader: an advance is a counted entry, or the only comment.
\<close>

function validate_loop ::
  "('s \<Rightarrow> nat \<Rightarrow> tar_item option \<times> 's) \<Rightarrow> 's \<Rightarrow> entry_validator \<Rightarrow> bool \<Rightarrow> u64 \<Rightarrow> (extract_error, unit) result" where
  "validate_loop advance s v comment_seen previous_payload =
     (case advance s (saturating_add (unat previous_payload) parser_metadata_limit) of
        (None, s') \<Rightarrow> Inr ()
      | (Some (Inl e), s') \<Rightarrow> Inl (ExIo e)
      | (Some (Inr e), s') \<Rightarrow>
          and_then (git_commit_comment e) (\<lambda>comment.
          if comment then
            if comment_seen then Inl (ExInvalidArchive ''duplicate global commit comment'')
            else validate_loop advance s' v True 0
          else and_then (entry_metadata e) (\<lambda>entry.
            and_then (map_err ExInvalid (validator_push entry v)) (\<lambda>v'.
            if ae_kind entry = Symlink_Kind then Inl (ExInvalid (SpecialFile (ae_path entry)))
            else validate_loop advance s' v' comment_seen (te_size e)))))"
  by pat_completeness auto
termination
proof (relation "measure (\<lambda>(advance, s, v, seen, p).
    2 * (unat (max_entries (ev_limits v)) - unat (ev_count v)) + (if seen then 0 else 1))", goal_cases)
  case 3
  then show ?case using validator_push_count by (fastforce simp: map_err_Inr)
qed auto

definition validate_archive ::
  "'s tar_crate \<Rightarrow> archive_format \<Rightarrow> string \<Rightarrow> validation_limits \<Rightarrow> (extract_error, unit) result" where
  "validate_archive P format bytes limits =
     and_then (map_err ExIo (budget_open P format bytes)) (\<lambda>s.
       validate_loop (budget_next P) s (validator_new limits) False 0)"

declare validate_loop.simps [simp del]

text \<open>
  The reader under the tar reader charges the bytes it delivers against the budget; the reader
  it wraps is a parameter that gets its state and the size of the buffer.
\<close>

definition budget_read ::
  "('r \<Rightarrow> nat \<Rightarrow> (io_error, string) result \<times> 'r) \<Rightarrow> nat \<Rightarrow> nat \<times> 'r \<Rightarrow> (io_error, string) result \<times> nat \<times> 'r" where
  "budget_read reader buffer = (\<lambda>(remaining, r).
     if buffer = 0 then (Inr [], remaining, r)
     else if remaining = 0 then (Inl ''archive parser metadata limit exceeded'', remaining, r)
     else (case reader r (min buffer remaining) of
        (Inl e, r') \<Rightarrow> (Inl e, remaining, r')
      | (Inr bytes, r') \<Rightarrow> (Inr bytes, remaining - length bytes, r')))"

section \<open>Extraction\<close>

definition executable_mode :: "u32 \<Rightarrow> bool" where
  "executable_mode mode \<longleftrightarrow> mode AND 73 \<noteq> 0"

definition portable_file_mode :: "u32 \<Rightarrow> u32" where
  "portable_file_mode archive_mode = (if executable_mode archive_mode then 493 else 420)"

text \<open>
  One entry below the destination; \<open>fresh\<close> is the mode a newly created file gets. The open call
  creates the file, the copy fills it, and the portable mode replaces the fresh one. The modes
  are the octal numbers 111, 755 and 644.
\<close>

definition extract_file ::
  "u32 \<Rightarrow> tar_entry \<Rightarrow> u32 \<Rightarrow> string list \<Rightarrow> file_tree \<Rightarrow> (extract_error, file_tree) result" where
  "extract_file fresh e mode target t =
     and_then (map_err ExIo (create_dir_all (butlast target) t)) (\<lambda>t1.
     and_then (map_err ExIo (create_new target fresh [] t1)) (\<lambda>t2.
     and_then (map_err ExIo (te_body e)) (\<lambda>body.
       Inr (bm_insert target (File_Node (portable_file_mode mode) body) t2))))"

definition extract_entry ::
  "u32 \<Rightarrow> tar_entry \<Rightarrow> file_tree \<times> string list \<Rightarrow> (extract_error, file_tree \<times> string list) result" where
  "extract_entry fresh e = (\<lambda>(t, executable_paths).
     and_then (git_commit_comment e) (\<lambda>comment.
     if comment then Inr (t, executable_paths)
     else and_then (map_err ExInvalidArchive (te_path e)) (\<lambda>raw.
       and_then (map_err ExInvalid (normalized_path (to_string_lossy raw))) (\<lambda>normalized.
       if normalized = executable_manifest
       then Inl (ExInvalidArchive ''archive uses a reserved Tapid metadata path'')
       else and_then (map_err ExIo (te_mode e)) (\<lambda>mode.
         if executable_mode mode \<and> (CHR 0x0A \<in> set normalized \<or> CHR 0x0D \<in> set normalized)
         then Inl (ExInvalidArchive ''executable entry path contains a line break'')
         else let target = split_char (CHR ''/'') normalized in
           if te_type e = Directory_Type then
             and_then (map_err ExIo (create_dir_all target t)) (\<lambda>t'. Inr (t', executable_paths))
           else if te_type e \<noteq> Regular_Type then Inl (ExInvalidArchive ''non-regular entry after validation'')
           else and_then (extract_file fresh e mode target t) (\<lambda>t'.
             Inr (t', if executable_mode mode then executable_paths @ [normalized] else executable_paths)))))))"

fun extract_items ::
  "u32 \<Rightarrow> tar_item list \<Rightarrow> file_tree \<times> string list \<Rightarrow> (extract_error, file_tree \<times> string list) result" where
  "extract_items fresh [] st = Inr st"
| "extract_items fresh (Inl e # items) st = Inl (ExIo e)"
| "extract_items fresh (Inr e # items) st = and_then (extract_entry fresh e st) (extract_items fresh items)"

definition extract_entries ::
  "'s tar_crate \<Rightarrow> u32 \<Rightarrow> archive_format \<Rightarrow> string \<Rightarrow> (extract_error, file_tree \<times> string list) result" where
  "extract_entries P fresh format bytes =
     and_then (map_err ExIo (plain_entries P format bytes)) (\<lambda>items.
     and_then (extract_items fresh items (bm_empty, [])) (\<lambda>(t, executable_paths).
       Inr (t, sort executable_paths)))"

definition manifest_text :: "string list \<Rightarrow> string" where
  "manifest_text executable_paths =
     (let contents = join [CHR 0x0A] executable_paths in
      if contents \<noteq> [] then contents @ [CHR 0x0A] else contents)"

definition write_executable_manifest ::
  "u32 \<Rightarrow> file_tree \<Rightarrow> string list \<Rightarrow> (io_error, file_tree) result" where
  "write_executable_manifest fresh t executable_paths =
     create_new [executable_manifest] fresh (manifest_text executable_paths) t"

definition extract_inner ::
  "'s tar_crate \<Rightarrow> u32 \<Rightarrow> string \<Rightarrow> archive_format \<Rightarrow> archive_limits \<Rightarrow> (extract_error, file_tree) result" where
  "extract_inner P fresh bytes format limits =
     and_then (validate_initial_metadata P format bytes (al_validation limits)) (\<lambda>_.
     and_then (validate_archive P format bytes (al_validation limits)) (\<lambda>_.
     and_then (extract_entries P fresh format bytes) (\<lambda>(t, executable_paths).
       map_err ExIo (write_executable_manifest fresh t executable_paths))))"

text \<open>
  The destination is a tree, or absent. The outcome of \<open>fs::create_dir\<close> depends on the parent
  of the destination, and the clean-up may fail: what they give are the arguments \<open>created\<close>
  and \<open>remnant\<close>, the latter absent after a clean-up that succeeds.
\<close>

definition extract_to ::
  "'s tar_crate \<Rightarrow> u32 \<Rightarrow> (io_error, unit) result \<Rightarrow> file_tree option \<Rightarrow> string \<Rightarrow> archive_format \<Rightarrow>
   file_tree option \<Rightarrow> archive_limits \<Rightarrow> (extract_error, unit) result \<times> file_tree option" where
  "extract_to P fresh created remnant bytes format destination limits =
     (if unat (max_archive_bytes limits) < length bytes then (Inl ArchiveTooLarge, destination)
      else if destination \<noteq> None then (Inl (ExInvalidArchive ''destination already exists''), destination)
      else (case created of
          Inl e \<Rightarrow> (Inl (ExIo e), None)
        | Inr _ \<Rightarrow> (case extract_inner P fresh bytes format limits of
            Inl e \<Rightarrow> (Inl e, remnant)
          | Inr t \<Rightarrow> (Inr (), Some t))))"

end
