(* ===== verification/Tree_Digest.thy ===== *)
theory Tree_Digest
  imports Archive_Extract
begin

text \<open>
  The crate \<open>tapid-archive\<close>, third part: the canonical digest of a directory tree, the
  manifest of executable paths it reads, and the bounds a generated tree has to keep. The
  order in which a directory is listed and the pieces in which a file is read are choices
  of the operating system, and so parameters; the hexadecimal SHA-256 of a message is one too.
\<close>

record tree_io =
  dir_order :: "string list \<Rightarrow> string list \<Rightarrow> string list"
  open_file :: "string list \<Rightarrow> string \<Rightarrow> (io_error, (io_error, string) result list) result"

definition read_dir :: "tree_io \<Rightarrow> file_tree \<Rightarrow> string list \<Rightarrow> string list" where
  "read_dir io t p = dir_order io p (child_names t p)"

section \<open>The manifest of executable paths\<close>

text \<open>\<open>str::lines\<close>: a carriage return before the line feed belongs to the line ending.\<close>

definition strip_cr :: "string \<Rightarrow> string" where
  "strip_cr s = (if s \<noteq> [] \<and> last s = CHR 0x0D then butlast s else s)"

definition str_lines :: "string \<Rightarrow> string list" where
  "str_lines s = (let parts = split_char (CHR 0x0A) s in
     map strip_cr (butlast parts) @ (if last parts = [] then [] else [last parts]))"

fun read_manifest_lines ::
  "file_tree \<Rightarrow> string list \<Rightarrow> string option \<Rightarrow> string btree_set \<Rightarrow> (io_error, string btree_set) result" where
  "read_manifest_lines t [] previous paths = Inr paths"
| "read_manifest_lines t (value # rest) previous paths =
     and_then (map_err (\<lambda>_. ''invalid executable path'') (normalized_path value)) (\<lambda>normalized.
     if normalized \<noteq> value \<or> (case previous of None \<Rightarrow> False | Some q \<Rightarrow> value \<le> q)
     then Inl ''executable mode manifest is not canonical''
     else (case bm_get t (split_char (CHR ''/'') value) of
        None \<Rightarrow> Inl ''entity not found''
      | Some (File_Node mode bytes) \<Rightarrow> read_manifest_lines t rest (Some value) (bs_insert value paths)
      | Some _ \<Rightarrow> Inl ''executable mode manifest references a non-regular file''))"

definition read_executable_manifest :: "file_tree \<Rightarrow> (io_error, string btree_set option) result" where
  "read_executable_manifest t =
     (case bm_get t [executable_manifest] of
        None \<Rightarrow> Inr None
      | Some (File_Node mode contents) \<Rightarrow>
          if 4 * 1024 * 1024 < length contents then Inl ''executable mode manifest is oversized''
          else if \<not> utf8_valid contents then Inl ''stream did not contain valid UTF-8''
          else if contents \<noteq> [] \<and> last contents \<noteq> CHR 0x0A
          then Inl ''executable mode manifest is not newline terminated''
          else and_then (read_manifest_lines t (str_lines contents) None bs_empty) (\<lambda>paths. Inr (Some paths))
      | Some _ \<Rightarrow> Inl ''executable mode manifest is not a regular file'')"

section \<open>Collecting the tree\<close>

datatype tree_payload = Payload_Bytes string | Payload_File "string list" nat

type_synonym tree_file = "string \<times> nat \<times> tree_payload"

definition portable_file_kind :: "u32 \<Rightarrow> nat" where
  "portable_file_kind mode = (if executable_mode mode then 2 else 0)"

definition file_kind :: "string btree_set option \<Rightarrow> string \<Rightarrow> u32 \<Rightarrow> nat" where
  "file_kind executable_paths rel mode =
     (case executable_paths of
        None \<Rightarrow> portable_file_kind mode
      | Some paths \<Rightarrow> if bs_contains paths rel then 2 else 0)"

definition rel_name :: "string list \<Rightarrow> string" where
  "rel_name p = slashes (to_string_lossy (join ''/'' p))"

definition skipped :: "string option \<Rightarrow> string \<Rightarrow> bool" where
  "skipped excluded rel \<longleftrightarrow> rel = ''.tapid-tree'' \<or> rel = executable_manifest \<or> excluded = Some rel"

definition tree_depth :: "file_tree \<Rightarrow> nat" where
  "tree_depth t = foldr max (map length (bm_keys t)) 0"

lemma length_le_depth: "bm_get t p = Some n \<Longrightarrow> length p \<le> tree_depth t"
proof -
  have "x \<in> set xs \<Longrightarrow> x \<le> foldr max xs 0" for x and xs :: "nat list" by (induction xs) auto
  then show "bm_get t p = Some n \<Longrightarrow> length p \<le> tree_depth t"
    unfolding tree_depth_def by (auto simp: set_bm_keys dom_def)
qed

text \<open>The loop over one listing; a directory is listed after its own line is out.\<close>

function collect_names ::
  "tree_io \<Rightarrow> file_tree \<Rightarrow> string btree_set option \<Rightarrow> string option \<Rightarrow> string list \<Rightarrow> string list \<Rightarrow>
   tree_file list \<Rightarrow> (io_error, tree_file list) result" where
  "collect_names io t executable_paths excluded current [] out = Inr out"
| "collect_names io t executable_paths excluded current (name # rest) out =
     (let p = current @ [name]; rel = rel_name p in
      if skipped excluded rel then collect_names io t executable_paths excluded current rest out
      else (case bm_get t p of
          None \<Rightarrow> Inl ''entity not found''
        | Some Link_Node \<Rightarrow> Inl ''symlink in extracted tree''
        | Some Special_Node \<Rightarrow> Inl ''special file in extracted tree''
        | Some Dir_Node \<Rightarrow>
            and_then (collect_names io t executable_paths excluded p (read_dir io t p)
                (out @ [(rel, 1, Payload_Bytes [])]))
              (collect_names io t executable_paths excluded current rest)
        | Some (File_Node mode bytes) \<Rightarrow>
            let kind = file_kind executable_paths rel mode in
            if executable_paths \<noteq> None \<and> kind \<noteq> portable_file_kind mode
            then Inl ''file executable mode differs from the canonical manifest''
            else collect_names io t executable_paths excluded current rest
              (out @ [(rel, kind, Payload_File p (length bytes))])))"
  by pat_completeness auto
termination
  by (relation "measures [\<lambda>(io, t, ex, d, current, names, out). Suc (tree_depth t) - length current,
      \<lambda>(io, t, ex, d, current, names, out). length names]")
    (auto dest!: length_le_depth)

definition collect_tree ::
  "tree_io \<Rightarrow> file_tree \<Rightarrow> string btree_set option \<Rightarrow> string option \<Rightarrow> (io_error, tree_file list) result" where
  "collect_tree io t executable_paths excluded =
     collect_names io t executable_paths excluded [] (read_dir io t []) []"

section \<open>Hashing\<close>

text \<open>
  A reader is the list of what its next reads give; a read never returns more than the buffer
  holds, and the end of the list is the end of the file.
\<close>

fun read_buffer :: "nat \<Rightarrow> (io_error, string) result list \<Rightarrow> (io_error, string) result \<times> (io_error, string) result list" where
  "read_buffer n [] = (Inr [], [])"
| "read_buffer n (Inl e # later) = (Inl e, later)"
| "read_buffer n (Inr bytes # later) =
     (if length bytes \<le> n then (Inr bytes, later) else (Inr (take n bytes), Inr (drop n bytes) # later))"

lemma read_buffer_le: "read_buffer n r = (Inr bytes, r') \<Longrightarrow> length bytes \<le> n"
  by (cases "(n, r)" rule: read_buffer.cases) (auto split: if_splits)

function hash_file_contents ::
  "(io_error, string) result list \<Rightarrow> nat \<Rightarrow> string \<Rightarrow> (io_error, string) result" where
  "hash_file_contents reader remaining hasher =
     (if remaining \<noteq> 0 then
        (case read_buffer (min remaining 65536) reader of
           (Inl e, _) \<Rightarrow> Inl e
         | (Inr bytes, reader') \<Rightarrow>
             if bytes = [] then Inl ''tree file changed during hashing''
             else hash_file_contents reader' (remaining - length bytes) (hasher @ bytes))
      else (case read_buffer 1 reader of
           (Inl e, _) \<Rightarrow> Inl e
         | (Inr bytes, _) \<Rightarrow> if bytes \<noteq> [] then Inl ''tree file grew during hashing'' else Inr hasher))"
  by pat_completeness auto
termination
  by (relation "measure (\<lambda>(r, n, h). n)") auto

declare hash_file_contents.simps [simp del]

text \<open>\<open>u64::to_be_bytes\<close>.\<close>

definition to_be_bytes :: "nat \<Rightarrow> string" where
  "to_be_bytes n = map (\<lambda>i. char_of (n div 256 ^ (7 - i))) [0..<8]"

definition hash_entry :: "tree_io \<Rightarrow> file_tree \<Rightarrow> tree_file \<Rightarrow> string \<Rightarrow> (io_error, string) result" where
  "hash_entry io t = (\<lambda>(path, kind, payload) h.
     let h1 = h @ to_be_bytes (length path) @ path @ [char_of kind] in
     (case payload of
        Payload_Bytes bytes \<Rightarrow> Inr (h1 @ to_be_bytes (length bytes) @ bytes)
      | Payload_File p len \<Rightarrow>
          (case bm_get t p of
             Some (File_Node mode bytes) \<Rightarrow> and_then (open_file io p bytes) (\<lambda>reader.
               hash_file_contents reader len (h1 @ to_be_bytes len))
           | _ \<Rightarrow> Inl ''entity not found'')))"

fun hash_entries :: "tree_io \<Rightarrow> file_tree \<Rightarrow> tree_file list \<Rightarrow> string \<Rightarrow> (io_error, string) result" where
  "hash_entries io t [] h = Inr h"
| "hash_entries io t (f # fs) h = and_then (hash_entry io t f h) (hash_entries io t fs)"

definition retain_unexcluded :: "string option \<Rightarrow> string btree_set \<Rightarrow> string btree_set" where
  "retain_unexcluded excluded paths =
     (case excluded of
        None \<Rightarrow> paths
      | Some entry \<Rightarrow> bs_of_list (filter (\<lambda>path. path \<noteq> entry \<and> \<not> prefix (entry @ ''/'') path) (bs_elems paths)))"

definition manifest_line :: "string btree_set option \<Rightarrow> tree_file list" where
  "manifest_line executable_paths =
     (case executable_paths of
        None \<Rightarrow> []
      | Some paths \<Rightarrow> [(executable_manifest, 3, Payload_Bytes (manifest_text (bs_elems paths)))])"

definition tree_digest ::
  "(string \<Rightarrow> string) \<Rightarrow> tree_io \<Rightarrow> file_tree \<Rightarrow> string option \<Rightarrow> (io_error, string) result" where
  "tree_digest sha256 io t excluded =
     and_then (read_executable_manifest t) (\<lambda>found.
     let executable_paths = map_option (retain_unexcluded excluded) found in
     and_then (collect_tree io t executable_paths excluded) (\<lambda>files.
     and_then (hash_entries io t (sort_key (\<lambda>(path, kind, _). (path, kind)) (files @ manifest_line executable_paths)) [])
       (\<lambda>message. Inr (''sha256-'' @ sha256 message))))"

definition canonical_tree_digest ::
  "(string \<Rightarrow> string) \<Rightarrow> tree_io \<Rightarrow> file_tree \<Rightarrow> (io_error, string) result" where
  "canonical_tree_digest sha256 io t = tree_digest sha256 io t None"

definition canonical_tree_digest_without_root_entry ::
  "(string \<Rightarrow> string) \<Rightarrow> tree_io \<Rightarrow> file_tree \<Rightarrow> string \<Rightarrow> (io_error, string) result" where
  "canonical_tree_digest_without_root_entry sha256 io t entry =
     (if entry = [] \<or> entry = ''.'' \<or> entry = ''..'' \<or>
         list_ex (\<lambda>c. c \<in> set [CHR 0x00, CHR ''/'', CHR 0x5C, CHR '':'']) entry
      then Inl ''excluded tree entry must be one filename''
      else tree_digest sha256 io t (Some entry))"

section \<open>Generated trees\<close>

text \<open>A generated tree keeps the portable bounds of an archive before it is hashed or published.\<close>

definition generated_entry ::
  "validation_limits \<Rightarrow> string list \<Rightarrow> fs_node option \<Rightarrow> archive_entry list \<Rightarrow> (extract_error, archive_entry) result" where
  "generated_entry limits p node entries =
     (let name = join ''/'' p in
      if unat (max_entries limits) \<le> length entries then Inl (ExInvalid TooManyEntries)
      else if \<not> utf8_valid name then Inl (ExInvalidArchive ''generated path is not UTF-8'')
      else if unat (max_path_bytes limits) < length name then Inl (ExInvalid PathTooLong)
      else and_then (map_err ExInvalid (normalized_path name)) (\<lambda>normalized.
        if normalized \<noteq> name then Inl (ExInvalid (InvalidPath name))
        else if name = ''.tapid-tree'' \<or> name = executable_manifest
        then Inl (ExInvalidArchive ''generated tree contains reserved store metadata'')
        else (case node of
            None \<Rightarrow> Inl (ExIo ''entity not found'')
          | Some (File_Node mode bytes) \<Rightarrow> Inr (entry_file name (word_of_nat (length bytes)))
          | Some Dir_Node \<Rightarrow> Inr (entry_directory name)
          | Some _ \<Rightarrow> Inl (ExInvalid (SpecialFile name)))))"

function collect_generated ::
  "tree_io \<Rightarrow> file_tree \<Rightarrow> validation_limits \<Rightarrow> string list \<Rightarrow> string list \<Rightarrow> archive_entry list \<Rightarrow>
   (extract_error, archive_entry list) result" where
  "collect_generated io t limits current [] entries = Inr entries"
| "collect_generated io t limits current (name # rest) entries =
     (let p = current @ [name] in
      and_then (generated_entry limits p (bm_get t p) entries) (\<lambda>entry.
      if bm_get t p = Some Dir_Node then
        and_then (collect_generated io t limits p (read_dir io t p) (entries @ [entry]))
          (collect_generated io t limits current rest)
      else collect_generated io t limits current rest (entries @ [entry])))"
  by pat_completeness auto
termination
  by (relation "measures [\<lambda>(io, t, l, current, names, out). Suc (tree_depth t) - length current,
      \<lambda>(io, t, l, current, names, out). length names]")
    (auto dest!: length_le_depth)

definition validate_tree ::
  "tree_io \<Rightarrow> fs_node option \<Rightarrow> file_tree \<Rightarrow> validation_limits \<Rightarrow> (extract_error, unit) result" where
  "validate_tree io root t limits =
     (case root of
        None \<Rightarrow> Inl (ExIo ''entity not found'')
      | Some Dir_Node \<Rightarrow>
          and_then (collect_generated io t limits [] (read_dir io t []) []) (\<lambda>entries.
            map_err ExInvalid (validate_entries entries limits))
      | Some _ \<Rightarrow> Inl (ExInvalidArchive ''generated tree root must be a directory''))"

end
