(* ===== verification/Archive_Facts.thy ===== *)
theory Archive_Facts
  imports Archive_Extract
begin

text \<open>
  Facts on the archive reader: what a normalized path is, the invariant of the entry
  validator, what the bounded pass has seen when it accepts, and the tree that extraction
  leaves behind.
\<close>

section \<open>Normalized paths\<close>

definition safe_name :: "string \<Rightarrow> bool" where
  "safe_name s \<longleftrightarrow> s \<noteq> [] \<and> s \<noteq> ''.'' \<and> s \<noteq> ''..'' \<and> CHR ''/'' \<notin> set s \<and> CHR 0x5C \<notin> set s \<and> CHR 0x00 \<notin> set s"

lemma slashes_facts [simp]: "CHR 0x5C \<notin> set (slashes s)" "CHR 0x00 \<in> set (slashes s) \<longleftrightarrow> CHR 0x00 \<in> set s"
  by (auto simp: slashes_def)

lemma slashes_id: "CHR 0x5C \<notin> set s \<Longrightarrow> slashes s = s"
  unfolding slashes_def by (rule map_idI) auto

lemma names_of_parts:
  assumes "p \<in> set (names_of s)"
  shows "p \<noteq> []" "p \<noteq> ''.''" "CHR ''/'' \<notin> set p" "set p \<subseteq> set s"
  using assms split_char_parts_no_sep set_split_char by (fastforce simp: names_of_def)+

lemma normalized_path_Inr:
  assumes "normalized_path v = Inr n"
  shows "n = join ''/'' (names_of (slashes v))" and "names_of (slashes v) \<noteq> []"
    and "list_all safe_name (names_of (slashes v))" and "split_char (CHR ''/'') n = names_of (slashes v)"
proof -
  show n: "n = join ''/'' (names_of (slashes v))" and ne: "names_of (slashes v) \<noteq> []"
    using assms by (auto simp: normalized_path_def Let_def split: if_splits)
  have "''..'' \<notin> set (names_of (slashes v))" "CHR 0x00 \<notin> set v"
    using assms by (auto simp: normalized_path_def Let_def split: if_splits)
  then show "list_all safe_name (names_of (slashes v))"
    unfolding list_all_iff safe_name_def using names_of_parts slashes_facts by (metis subsetD)
  show "split_char (CHR ''/'') n = names_of (slashes v)"
    unfolding n using ne by (intro split_char_join) (auto dest: names_of_parts)
qed

lemma safe_names_normalized:
  assumes "list_all safe_name ps" and "ps \<noteq> []" and "\<not> has_drive_prefix (join ''/'' ps)"
  shows "normalized_path (join ''/'' ps) = Inr (join ''/'' ps)"
proof -
  have sep: "\<And>p. p \<in> set ps \<Longrightarrow> CHR ''/'' \<notin> set p" using assms(1) by (auto simp: list_all_iff safe_name_def)
  have set: "set (join ''/'' ps) \<subseteq> {CHR ''/''} \<union> \<Union> (set ` set ps)" using set_join [of "''/''" ps] by simp
  have id: "slashes (join ''/'' ps) = join ''/'' ps" "CHR 0x00 \<notin> set (join ''/'' ps)"
    using set assms(1) by (auto intro!: slashes_id simp: list_all_iff safe_name_def)
  have ne: "join ''/'' ps \<noteq> []" using assms(1,2) by (subst join_eq_Nil) (auto simp: list_all_iff safe_name_def)
  have names: "names_of (join ''/'' ps) = ps"
    unfolding names_of_def using assms(1,2) sep
    by (subst split_char_join) (auto simp: list_all_iff safe_name_def intro!: filter_True)
  have "hd (join ''/'' ps) = hd (hd ps)" "hd ps \<noteq> []"
    using assms(1,2) by (cases ps; cases "tl ps"; auto simp: safe_name_def)+
  then have "\<not> prefix ''/'' (join ''/'' ps)"
    using assms(2) sep by (metis hd_in_set prefix_single)
  then show ?thesis
    using ne id names assms by (auto simp: normalized_path_def Let_def list_all_iff safe_name_def)
qed

section \<open>The validator\<close>

definition entry_ok :: "validation_limits \<Rightarrow> archive_entry \<Rightarrow> bool" where
  "entry_ok l e \<longleftrightarrow> length (ae_path e) \<le> unat (max_path_bytes l) \<and>
     list_all safe_name (names_of (slashes (ae_path e))) \<and> names_of (slashes (ae_path e)) \<noteq> [] \<and>
     (case ae_kind e of
        File_Kind \<Rightarrow> ae_size e \<le> max_entry_size l
      | Directory_Kind \<Rightarrow> ae_size e = 0
      | Symlink_Kind \<Rightarrow> (\<exists>target. ae_link_target e = Some target \<and>
          \<not> symlink_target_escapes (join ''/'' (names_of (slashes (ae_path e)))) target)
      | _ \<Rightarrow> False)"

definition entry_names :: "archive_entry \<Rightarrow> string list" where
  "entry_names e = names_of (slashes (ae_path e))"

definition file_bytes :: "archive_entry list \<Rightarrow> nat" where
  "file_bytes es = sum_list (map (\<lambda>e. unat (ae_size e)) (filter (\<lambda>e. ae_kind e = File_Kind) es))"

definition folded_paths :: "archive_entry list \<Rightarrow> string list" where
  "folded_paths es = map (\<lambda>e. to_ascii_lowercase (join ''/'' (entry_names e))) es"

definition validated :: "validation_limits \<Rightarrow> archive_entry list \<Rightarrow> entry_validator \<Rightarrow> bool" where
  "validated l es v \<longleftrightarrow> ev_limits v = l \<and> unat (ev_count v) = length es \<and> length es \<le> unat (max_entries l) \<and>
     unat (ev_total v) = file_bytes es \<and> file_bytes es \<le> unat (max_total_size l) \<and>
     bs_set (ev_folded v) = set (folded_paths es) \<and> distinct (folded_paths es) \<and> list_all (entry_ok l) es"

lemma file_bytes_snoc [simp]:
  "file_bytes (es @ [e]) = file_bytes es + (if ae_kind e = File_Kind then unat (ae_size e) else 0)"
  by (simp add: file_bytes_def)

lemma folded_paths_snoc [simp]:
  "folded_paths (es @ [e]) = folded_paths es @ [to_ascii_lowercase (join ''/'' (entry_names e))]"
  by (simp add: folded_paths_def)

lemma validated_new: "validated l [] (validator_new l)"
  by (simp add: validated_def validator_new_def file_bytes_def folded_paths_def)

lemma check_kind_ok:
  assumes "check_kind e n v = Inr v'" and "unat (ev_total v) = b" and "b \<le> unat (max_total_size (ev_limits v))"
  shows "unat (ev_total v') = b + (if ae_kind e = File_Kind then unat (ae_size e) else 0)"
    and "unat (ev_total v') \<le> unat (max_total_size (ev_limits v))"
  using assms by (auto simp: check_kind_def result_simps checked_add_Some unat_add_u64 word_less_nat_alt
    split: entry_kind.splits if_splits)

lemma check_kind_entry_ok:
  assumes "check_kind e n v = Inr v'" and "normalized_path (ae_path e) = Inr n" and "ev_limits v = l"
    and "length (ae_path e) \<le> unat (max_path_bytes l)"
  shows "entry_ok l e"
  using assms normalized_path_Inr [OF assms(2)]
  by (auto simp: check_kind_def entry_ok_def result_simps not_less split: entry_kind.splits if_splits)

lemma validated_push:
  assumes inv: "validated l es v" and push: "validator_push e v = Inr v'"
  shows "validated l (es @ [e]) v'"
proof -
  obtain n count where n: "normalized_path (ae_path e) = Inr n" and path: "length (ae_path e) \<le> unat (max_path_bytes l)"
    and fresh: "to_ascii_lowercase n \<notin> bs_set (ev_folded v)"
    and kind: "check_kind e n (v\<lparr>ev_count := count, ev_exact := bs_insert n (ev_exact v),
      ev_folded := bs_insert (to_ascii_lowercase n) (ev_folded v)\<rparr>) = Inr v'" (is "check_kind e n ?v1 = _")
    using push inv by (auto simp: validator_push_def validated_def result_simps split: if_splits)
  have nm: "n = join ''/'' (entry_names e)" using normalized_path_Inr(1) [OF n] by (simp add: entry_names_def)
  have lim: "ev_limits ?v1 = l" using inv by (simp add: validated_def)
  show ?thesis
    using inv fresh check_kind_frame [OF kind] lim validator_push_count [OF push]
      check_kind_ok [OF kind, of "file_bytes es"] check_kind_entry_ok [OF kind n lim path]
    unfolding nm by (auto simp: validated_def)
qed

lemma validated_push_all:
  "push_all es v = Inr v' \<Longrightarrow> validated l done v \<Longrightarrow> validated l (done @ es) v'"
proof (induction es arbitrary: v "done")
  case (Cons e es)
  then obtain v1 where v1: "validator_push e v = Inr v1" "push_all es v1 = Inr v'" by (auto simp: result_simps)
  then show ?case using Cons.IH [OF v1(2) validated_push [OF Cons.prems(2) v1(1)]] by simp
qed simp

section \<open>The bounded pass\<close>

text \<open>What a pass sees: the budgets it grants, one for each advance, and the entries up to the end.\<close>

inductive yields :: "('s \<Rightarrow> nat \<Rightarrow> tar_item option \<times> 's) \<Rightarrow> 's \<Rightarrow> nat list \<Rightarrow> tar_entry list \<Rightarrow> bool"
  for advance where
  yields_end: "advance s b = (None, s') \<Longrightarrow> yields advance s [b] []"
| yields_entry: "advance s b = (Some (Inr e), s') \<Longrightarrow> yields advance s' bs es \<Longrightarrow> yields advance s (b # bs) (e # es)"

inductive_cases yields_NilE: "yields advance s bs []"
inductive_cases yields_ConsE: "yields advance s bs (e # es)"

definition logical :: "tar_entry list \<Rightarrow> tar_entry list" where
  "logical es = filter (\<lambda>e. te_type e \<noteq> Pax_Global) es"

definition metadata_of :: "tar_entry list \<Rightarrow> archive_entry list" where
  "metadata_of es = map (\<lambda>e. projr (entry_metadata e)) (logical es)"

definition regular_kind :: "archive_entry \<Rightarrow> bool" where
  "regular_kind m \<longleftrightarrow> ae_kind m = File_Kind \<or> ae_kind m = Directory_Kind"

text \<open>The state of a pass that has seen \<open>es\<close>: all of it validated, and at most one comment.\<close>

definition passing :: "validation_limits \<Rightarrow> tar_entry list \<Rightarrow> entry_validator \<Rightarrow> bool \<Rightarrow> bool" where
  "passing l es v seen \<longleftrightarrow> validated l (metadata_of es) v \<and> list_all regular_kind (metadata_of es) \<and>
     list_all (\<lambda>e. ok_result (entry_metadata e)) (logical es) \<and>
     length (filter (\<lambda>e. te_type e = Pax_Global) es) = (if seen then 1 else 0)"

definition loop_bound :: "entry_validator \<Rightarrow> bool \<Rightarrow> nat" where
  "loop_bound v seen = 2 * (unat (max_entries (ev_limits v)) - unat (ev_count v)) + (if seen then 0 else 1)"

lemma comment_kind: "git_commit_comment e = Inr b \<Longrightarrow> b \<longleftrightarrow> te_type e = Pax_Global"
  by (auto simp: git_commit_comment_def result_simps split: if_splits option.splits list.splits)
    (metis neq_Nil_conv)

lemma entry_metadata_Inr:
  "entry_metadata e = Inr m \<Longrightarrow> (\<exists>raw. te_path e = Inr raw \<and> ae_path m = to_string_lossy raw) \<and>
     ae_kind m = kind_of (te_type e) \<and> ae_size m = te_size e"
  by (auto simp: entry_metadata_def result_simps split: if_splits)

lemma validate_loop_accepts:
  assumes "validate_loop advance s v seen prev = Inr ()"
  obtains (stop) s' where "advance s (saturating_add (unat prev) parser_metadata_limit) = (None, s')"
  | (comment) e s' where "advance s (saturating_add (unat prev) parser_metadata_limit) = (Some (Inr e), s')"
      "te_type e = Pax_Global" "\<not> seen" "validate_loop advance s' v True 0 = Inr ()"
  | (entry) e s' m v' where "advance s (saturating_add (unat prev) parser_metadata_limit) = (Some (Inr e), s')"
      "te_type e \<noteq> Pax_Global" "entry_metadata e = Inr m" "validator_push m v = Inr v'"
      "ae_kind m \<noteq> Symlink_Kind" "validate_loop advance s' v' seen (te_size e) = Inr ()"
proof -
  obtain item s' where adv: "advance s (saturating_add (unat prev) parser_metadata_limit) = (item, s')"
    by (cases "advance s (saturating_add (unat prev) parser_metadata_limit)")
  consider "item = None" | x where "item = Some (Inl x)" | e where "item = Some (Inr e)"
    by (cases item) (metis old.sum.exhaust)+
  then show thesis
  proof cases
    case 1
    then show thesis using stop adv by simp
  next
    case 2
    then show thesis using assms adv by (simp add: validate_loop.simps [of advance s])
  next
    case (3 e)
    then obtain b where b: "git_commit_comment e = Inr b"
      using assms adv by (auto simp: validate_loop.simps [of advance s] result_simps)
    then show thesis
      using assms adv 3 comment [of e s'] entry [of e s'] comment_kind [OF b]
      by (auto simp: validate_loop.simps [of advance s] result_simps split: if_splits)
  qed
qed

lemma metadata_of_append [simp]: "metadata_of (es @ fs) = metadata_of es @ metadata_of fs"
  by (simp add: metadata_of_def logical_def)

lemma file_bytes_append [simp]: "file_bytes (es @ fs) = file_bytes es + file_bytes fs"
  by (simp add: file_bytes_def)

lemma passing_comment:
  "passing l es v False \<Longrightarrow> te_type e = Pax_Global \<Longrightarrow> passing l (es @ [e]) v True"
  by (simp add: passing_def metadata_of_def logical_def)

lemma passing_entry:
  assumes "passing l es v seen" and "te_type e \<noteq> Pax_Global" and m: "entry_metadata e = Inr m"
    and push: "validator_push m v = Inr v'" and "ae_kind m \<noteq> Symlink_Kind"
  shows "passing l (es @ [e]) v' seen" and "unat (te_size e) = file_bytes (metadata_of [e])"
proof -
  have one: "metadata_of [e] = [m]" using assms(2) m by (simp add: metadata_of_def logical_def)
  have v': "validated l (metadata_of es @ [m]) v'"
    using validated_push push assms(1) by (auto simp: passing_def)
  then have ok: "entry_ok l m" by (simp add: validated_def)
  then have kind: "regular_kind m" using assms(5) by (auto simp: entry_ok_def regular_kind_def split: entry_kind.splits)
  show "passing l (es @ [e]) v' seen"
    using assms(1,2) v' kind m one by (auto simp: passing_def logical_def ok_result_iff)
  show "unat (te_size e) = file_bytes (metadata_of [e])"
    using ok kind entry_metadata_Inr [OF m] unfolding one
    by (auto simp: file_bytes_def entry_ok_def regular_kind_def)
qed

lemma loop_bound_entry: "validator_push m v = Inr v' \<Longrightarrow> loop_bound v' seen < loop_bound v seen"
  using validator_push_count [of m v v'] by (auto simp: loop_bound_def)

text \<open>
  An accepting pass has seen a complete archive, and the bytes it may have read are bounded by
  the payloads it has validated and the metadata limit of each advance.
\<close>

lemma validate_loop_yields:
  "validate_loop advance s v seen prev = Inr () \<Longrightarrow> passing l seen_es v seen \<Longrightarrow>
   \<exists>bs es v' seen'. yields advance s bs es \<and> passing l (seen_es @ es) v' seen' \<and>
     sum_list bs \<le> unat prev + file_bytes (metadata_of es) + parser_metadata_limit * (length es + 1)"
proof (induction "loop_bound v seen" arbitrary: s v seen prev seen_es rule: less_induct)
  case less
  let ?b = "saturating_add (unat prev) parser_metadata_limit"
  have b: "?b \<le> unat prev + parser_metadata_limit" by (simp add: saturating_add_def)
  from less.prems(1) show ?case
  proof (cases rule: validate_loop_accepts)
    case (stop s')
    then show ?thesis using less.prems(2) b yields_end [of advance s ?b s'] by fastforce
  next
    case (comment e s')
    have "loop_bound v True < loop_bound v seen" "passing l (seen_es @ [e]) v True"
      using comment less.prems(2) by (auto simp: loop_bound_def passing_comment)
    then obtain bs es v' seen' where y: "yields advance s' bs es" "passing l ((seen_es @ [e]) @ es) v' seen'"
      "sum_list bs \<le> unat (0 :: u64) + file_bytes (metadata_of es) + parser_metadata_limit * (length es + 1)"
      using less.hyps comment(4) by blast
    have "metadata_of (e # es) = metadata_of es" using comment by (simp add: metadata_of_def logical_def)
    then show ?thesis using y b yields_entry [OF comment(1) y(1)]
      by (intro exI [of _ "?b # bs"] exI [of _ "e # es"] exI [of _ v'] exI [of _ seen']) auto
  next
    case (entry e s' m v1)
    have next_state: "passing l (seen_es @ [e]) v1 seen" "unat (te_size e) = file_bytes (metadata_of [e])"
      using passing_entry [OF less.prems(2) entry(2-5)] by auto
    then obtain bs es v' seen' where y: "yields advance s' bs es" "passing l ((seen_es @ [e]) @ es) v' seen'"
      "sum_list bs \<le> unat (te_size e) + file_bytes (metadata_of es) + parser_metadata_limit * (length es + 1)"
      using less.hyps [OF loop_bound_entry [OF entry(4)] entry(6)] by blast
    have "file_bytes (metadata_of (e # es)) = unat (te_size e) + file_bytes (metadata_of es)"
      using next_state(2) metadata_of_append [of "[e]" es] by simp
    then show ?thesis using y b yields_entry [OF entry(1) y(1)]
      by (intro exI [of _ "?b # bs"] exI [of _ "e # es"] exI [of _ v'] exI [of _ seen']) auto
  qed
qed

lemma validate_archive_yields:
  assumes "validate_archive P format bytes l = Inr ()"
  obtains s bs es v seen where "budget_open P format bytes = Inr s" "yields (budget_next P) s bs es"
    "passing l es v seen"
    "sum_list bs \<le> file_bytes (metadata_of es) + parser_metadata_limit * (length es + 1)"
proof -
  obtain s where s: "budget_open P format bytes = Inr s"
    "validate_loop (budget_next P) s (validator_new l) False 0 = Inr ()"
    using assms by (auto simp: validate_archive_def result_simps)
  have "passing l [] (validator_new l) False"
    by (simp add: passing_def metadata_of_def logical_def validated_new)
  from validate_loop_yields [OF s(2) this] show thesis using that [OF s(1)] by auto
qed

lemma logical_length: "length es = length (logical es) + length (filter (\<lambda>e. te_type e = Pax_Global) es)"
  using sum_length_filter_compl [of "\<lambda>e. te_type e = Pax_Global" es] by (simp add: logical_def)

lemma passing_length: "passing l es v seen \<Longrightarrow> length es \<le> unat (max_entries l) + 1"
  using logical_length [of es] by (auto simp: passing_def validated_def metadata_of_def split: if_splits)

end
