(* ===== verification/Extract_Facts.thy ===== *)
theory Extract_Facts
  imports Archive_Facts
begin

text \<open>
  Facts on extraction: the tree that extraction leaves, described entry by entry.
\<close>

section \<open>What an entry contributes to the tree\<close>

definition target_names :: "tar_entry \<Rightarrow> string list" where
  "target_names e = (case te_path e of Inr raw \<Rightarrow> names_of (slashes (to_string_lossy raw)) | Inl _ \<Rightarrow> [])"

definition is_regular :: "tar_entry \<Rightarrow> bool" where
  "is_regular e \<longleftrightarrow> te_type e = Regular_Type"

definition is_executable :: "tar_entry \<Rightarrow> bool" where
  "is_executable e \<longleftrightarrow> is_regular e \<and> executable_mode (projr (te_mode e))"

definition entry_node :: "tar_entry \<Rightarrow> fs_node" where
  "entry_node e = File_Node (portable_file_mode (projr (te_mode e))) (projr (te_body e))"

definition entry_dirs :: "tar_entry \<Rightarrow> string list" where
  "entry_dirs e = (if te_type e = Directory_Type then target_names e
     else if is_regular e then butlast (target_names e) else [])"

definition writes_entry :: "tar_entry \<Rightarrow> string list \<Rightarrow> fs_node \<Rightarrow> bool" where
  "writes_entry e p n \<longleftrightarrow> is_regular e \<and> p = target_names e \<and> n = entry_node e \<or>
     n = Dir_Node \<and> p \<noteq> [] \<and> prefix p (entry_dirs e)"

definition executables :: "tar_entry list \<Rightarrow> string list" where
  "executables es = map (\<lambda>e. join ''/'' (target_names e)) (filter is_executable es)"

definition entry_safe :: "tar_entry \<Rightarrow> bool" where
  "entry_safe e \<longleftrightarrow> ok_result (te_path e) \<and> (te_type e = Directory_Type \<or> is_regular e \<and> ok_result (te_body e)) \<and>
     target_names e \<noteq> [] \<and> list_all safe_name (target_names e) \<and> target_names e \<noteq> [executable_manifest] \<and>
     ok_result (te_mode e) \<and>
     (is_executable e \<longrightarrow> CHR 0x0A \<notin> set (join ''/'' (target_names e)) \<and> CHR 0x0D \<notin> set (join ''/'' (target_names e)))"

definition written :: "tar_entry list \<Rightarrow> file_tree \<Rightarrow> bool" where
  "written es t \<longleftrightarrow> (\<forall>p n. bm_get t p = Some n \<longleftrightarrow> (\<exists>e\<in>set es. writes_entry e p n)) \<and>
     distinct (map target_names (filter is_regular es)) \<and> list_all entry_safe (logical es) \<and> tree_closed t"

section \<open>One entry\<close>

lemma extract_entry_cases:
  assumes "extract_entry fresh e (t, exe) = Inr (t', exe')"
  obtains (comment) "te_type e = Pax_Global" "t' = t" "exe' = exe"
  | (directory) "te_type e = Directory_Type" "entry_safe e" "create_dir_all (target_names e) t = Inr t'" "exe' = exe"
  | (regular) t1 t2 where "is_regular e" "entry_safe e" "create_dir_all (butlast (target_names e)) t = Inr t1"
      "create_new (target_names e) fresh [] t1 = Inr t2" "t' = bm_insert (target_names e) (entry_node e) t2"
      "exe' = exe @ executables [e]"
proof (cases "te_type e = Pax_Global")
  case True
  then show thesis using comment assms comment_kind
    by (fastforce simp: extract_entry_def result_simps split: if_splits)
next
  case False
  have plain: "git_commit_comment e = Inr False"
    using False by (simp add: git_commit_comment_def)
  obtain raw n mode where r: "te_path e = Inr raw" "normalized_path (to_string_lossy raw) = Inr n" "n \<noteq> executable_manifest"
    "te_mode e = Inr mode" "executable_mode mode \<Longrightarrow> CHR 0x0A \<notin> set n \<and> CHR 0x0D \<notin> set n"
    using assms plain by (fastforce simp: extract_entry_def result_simps split: if_splits)
  note n = normalized_path_Inr [OF r(2)]
  have names: "target_names e = split_char (CHR ''/'') n" "join ''/'' (target_names e) = n"
    "list_all safe_name (target_names e)" "target_names e \<noteq> []"
    using n r(1) by (simp_all add: target_names_def)
  have reserved: "target_names e \<noteq> [executable_manifest]" using r(3) names(2) by auto
  have "te_type e = Directory_Type \<Longrightarrow> thesis"
    using assms r names reserved directory plain
    by (auto simp: extract_entry_def result_simps Let_def entry_safe_def ok_result_iff is_executable_def is_regular_def split: if_splits)
  moreover have "te_type e \<noteq> Directory_Type \<Longrightarrow> thesis"
    using assms r names reserved regular plain
    by (auto simp: extract_entry_def extract_file_def result_simps Let_def entry_safe_def ok_result_iff
      is_executable_def is_regular_def executables_def entry_node_def split: if_splits)
  ultimately show thesis by blast
qed

lemma safe_target_nonempty: "entry_safe e \<Longrightarrow> target_names e \<noteq> []"
  by (simp add: entry_safe_def)

lemma written_directory:
  assumes inv: "written es t" and dir: "te_type e = Directory_Type" and safe: "entry_safe e"
    and made: "create_dir_all (target_names e) t = Inr t'"
  shows "written (es @ [e]) t'"
proof -
  have e: "\<not> is_regular e" "entry_dirs e = target_names e" "logical [e] = [e]"
    using dir by (auto simp: is_regular_def entry_dirs_def logical_def)
  have "bm_get t' p = Some n \<longleftrightarrow> (\<exists>f\<in>set es. writes_entry f p n) \<or> writes_entry e p n" for p n
  proof (cases "prefix p (target_names e) \<and> p \<noteq> []")
    case True
    have "bm_get t p \<in> {None, Some Dir_Node}" using create_dir_all_free [OF made] True by blast
    moreover have "(\<exists>f\<in>set es. writes_entry f p n) \<longleftrightarrow> bm_get t p = Some n" using inv by (auto simp: written_def)
    ultimately show ?thesis using True create_dir_all_get [OF made, of p] e by (auto simp: writes_entry_def)
  next
    case False
    then show ?thesis using inv create_dir_all_get [OF made, of p] e by (auto simp: written_def writes_entry_def)
  qed
  then show ?thesis
    using inv e safe tree_closed_create_dir_all [OF _ made] by (auto simp: written_def logical_def)
qed

lemma file_node_fresh:
  assumes "written es t" and "bm_get t p = None"
  shows "p \<notin> target_names ` set (filter is_regular es)"
  using assms by (auto simp: written_def writes_entry_def) (metis option.distinct(1))

lemma written_regular:
  assumes inv: "written es t" and reg: "is_regular e" and safe: "entry_safe e"
    and made: "create_dir_all (butlast (target_names e)) t = Inr t1"
    and opened: "create_new (target_names e) fresh [] t1 = Inr t2"
  shows "written (es @ [e]) (bm_insert (target_names e) (entry_node e) t2)" (is "written _ ?t'")
proof -
  let ?p = "target_names e"
  have e: "te_type e \<noteq> Directory_Type" "entry_dirs e = butlast ?p" "logical [e] = [e]"
    using reg by (auto simp: is_regular_def entry_dirs_def logical_def)
  have new: "?p \<noteq> []" "bm_get t1 ?p = None" "t2 = bm_insert ?p (File_Node fresh []) t1"
    using opened by (auto simp: create_new_Inr)
  have strict: "\<not> prefix ?p (butlast ?p)" using new(1) prefix_length_le [of ?p "butlast ?p"] by (cases ?p) auto
  have old: "bm_get t ?p = None" using create_dir_all_get [OF made, of ?p] new(2) by (auto split: if_splits)
  have "bm_get ?t' p = Some n \<longleftrightarrow> (\<exists>f\<in>set es. writes_entry f p n) \<or> writes_entry e p n" for p n
  proof -
    have t: "(\<exists>f\<in>set es. writes_entry f p n) \<longleftrightarrow> bm_get t p = Some n" using inv by (auto simp: written_def)
    have free: "prefix p (butlast ?p) \<Longrightarrow> p \<noteq> [] \<Longrightarrow> bm_get t p \<in> {None, Some Dir_Node}"
      using create_dir_all_free [OF made] by blast
    show ?thesis unfolding t using create_dir_all_get [OF made, of p] new strict old reg e free
      by (auto simp: writes_entry_def)
  qed
  moreover have "tree_closed t1" using inv tree_closed_create_dir_all [OF _ made] by (simp add: written_def)
  then have "tree_closed ?t'"
    using tree_closed_create_new [of t1 ?p] opened unfolding new(3)
    by (metis bm_eqI bm_get_insert create_new_Inr fun_upd_upd entry_node_def)
  moreover have "?p \<notin> target_names ` set (filter is_regular es)" by (rule file_node_fresh [OF inv old])
  ultimately show ?thesis using inv reg safe e by (auto simp: written_def logical_def)
qed

lemma written_comment: "written es t \<Longrightarrow> te_type e = Pax_Global \<Longrightarrow> written (es @ [e]) t"
  by (auto simp: written_def writes_entry_def is_regular_def entry_dirs_def logical_def)

lemma written_extract_entry:
  assumes "written es t" and "extract_entry fresh e (t, executables es) = Inr (t', exe')"
  shows "written (es @ [e]) t' \<and> exe' = executables (es @ [e])"
  using assms(2)
proof (cases rule: extract_entry_cases)
  case comment
  then show ?thesis using assms(1) written_comment [of es t e]
    by (auto simp: executables_def is_executable_def is_regular_def)
next
  case directory
  then show ?thesis using assms(1) written_directory by (auto simp: executables_def is_executable_def is_regular_def)
next
  case (regular t1 t2)
  then show ?thesis using assms(1) written_regular by (auto simp: executables_def)
qed

lemma written_extract_items:
  "extract_items fresh items (t, executables es) = Inr (t', exe') \<Longrightarrow> written es t \<Longrightarrow>
   \<exists>fs. items = map Inr fs \<and> written (es @ fs) t' \<and> exe' = executables (es @ fs)"
proof (induction items arbitrary: t es)
  case (Cons item items)
  obtain e where item: "item = Inr e" using Cons.prems(1) by (cases item) auto
  obtain t1 exe1 where step: "extract_entry fresh e (t, executables es) = Inr (t1, exe1)"
    "extract_items fresh items (t1, exe1) = Inr (t', exe')"
    using Cons.prems(1) item by (auto simp: result_simps)
  have w: "written (es @ [e]) t1" "exe1 = executables (es @ [e])"
    using written_extract_entry [OF Cons.prems(2) step(1)] by auto
  obtain fs where "items = map Inr fs" "written ((es @ [e]) @ fs) t'" "exe' = executables ((es @ [e]) @ fs)"
    using Cons.IH [of t1 "es @ [e]"] step(2) w by auto
  then show ?case using item by (intro exI [of _ "e # fs"]) simp
qed auto

lemma extract_entries_written:
  assumes "extract_entries P fresh format bytes = Inr (t, exe)"
  obtains es where "plain_entries P format bytes = Inr (map Inr es)" "written es t" "exe = sort (executables es)"
proof -
  obtain items exe0 where i: "plain_entries P format bytes = Inr items"
    "extract_items fresh items (bm_empty, []) = Inr (t, exe0)" "exe = sort exe0"
    using assms by (auto simp: extract_entries_def result_simps)
  have "written [] bm_empty" by (simp add: written_def logical_def)
  then show thesis
    using written_extract_items [of fresh items bm_empty "[]" t exe0] i that by (auto simp: executables_def)
qed

end
