(* ===== verification/Tree_Facts.thy ===== *)
theory Tree_Facts
  imports Tree_Digest Extract_Facts
begin

text \<open>
  Facts on the tree digest: which nodes a collection visits, that neither the order of the
  listings nor the pieces of the reads matter, and that the framing of the hashed message
  loses nothing.
\<close>

section \<open>Paths of a closed tree\<close>

definition safe_tree :: "file_tree \<Rightarrow> bool" where
  "safe_tree t \<longleftrightarrow> tree_closed t \<and> list_all (list_all safe_name) (bm_keys t)"

text \<open>Trees whose names are texts, so that the conversion of a path to a string loses nothing.\<close>

definition text_tree :: "file_tree \<Rightarrow> bool" where
  "text_tree t \<longleftrightarrow> safe_tree t \<and> list_all (list_all utf8_valid) (bm_keys t)"

definition honest_io :: "tree_io \<Rightarrow> bool" where
  "honest_io io \<longleftrightarrow>
     (\<forall>p names. distinct names \<longrightarrow> distinct (dir_order io p names) \<and> set (dir_order io p names) = set names) \<and>
     (\<forall>p bytes. \<exists>pieces. open_file io p bytes = Inr (map Inr pieces) \<and> [] \<notin> set pieces \<and> concat pieces = bytes)"

lemma read_dir_honest:
  "honest_io io \<Longrightarrow> distinct (read_dir io t p) \<and> set (read_dir io t p) = set (child_names t p)"
  by (simp add: honest_io_def read_dir_def distinct_child_names)

lemma tree_closed_prefix:
  assumes "tree_closed t" and "bm_get t p = Some n" and "prefix q p" and "q \<noteq> []"
  shows "q = p \<or> bm_get t q = Some Dir_Node"
  using assms(2,3)
proof (induction p arbitrary: n rule: rev_induct)
  case (snoc x p)
  show ?case
  proof (cases "q = p @ [x]")
    case False
    then have q: "prefix q p" using snoc.prems(2) by auto
    then have "p \<noteq> []" using assms(4) by auto
    then have "bm_get t p = Some Dir_Node" using assms(1) snoc.prems(1) by (auto simp: tree_closed_iff)
    then show ?thesis using snoc.IH q by blast
  qed simp
qed (use assms(4) in simp)

lemma child_names_file:
  "tree_closed t \<Longrightarrow> p \<noteq> [] \<Longrightarrow> bm_get t p \<noteq> Some Dir_Node \<Longrightarrow> child_names t p = []"
  using set_child_names [of "hd (child_names t p)" t p]
  by (cases "child_names t p") (auto simp: tree_closed_iff)

section \<open>What a collection visits\<close>

definition seen_from :: "(string \<Rightarrow> bool) \<Rightarrow> string list \<Rightarrow> string list \<Rightarrow> bool" where
  "seen_from skip current p \<longleftrightarrow>
     (\<forall>q. prefix q p \<and> length current < length q \<longrightarrow> \<not> skip (rel_name q))"

lemma seen_from_code [code]:
  "seen_from skip current p \<longleftrightarrow> list_all (\<lambda>q. length current < length q \<longrightarrow> \<not> skip (rel_name q)) (prefixes p)"
  by (auto simp: seen_from_def list_all_iff)

definition region :: "file_tree \<Rightarrow> (string \<Rightarrow> bool) \<Rightarrow> string list \<Rightarrow> string list \<Rightarrow> string list set" where
  "region t skip current names =
     {p. bm_get t p \<noteq> None \<and> (\<exists>name\<in>set names. prefix (current @ [name]) p) \<and> seen_from skip current p}"

lemma prefix_take: "prefix q p \<Longrightarrow> take (length q) p = q"
  by (auto simp: prefix_def)

lemma seen_from_step:
  assumes "prefix (current @ [name]) p"
  shows "seen_from skip current p \<longleftrightarrow> \<not> skip (rel_name (current @ [name])) \<and> seen_from skip (current @ [name]) p"
proof -
  have eq: "q = current @ [name]" if "prefix q p" "length q = Suc (length current)" for q
    using prefix_take [OF that(1)] prefix_take [OF assms] unfolding that(2) by simp
  have split: "(prefix q p \<and> length current < length q) \<longleftrightarrow>
      q = current @ [name] \<or> (prefix q p \<and> length (current @ [name]) < length q)" for q
  proof (cases "length q = Suc (length current)")
    case True
    then show ?thesis using eq [of q] assms by (cases "prefix q p") auto
  next
    case False
    then show ?thesis by (cases "q = current @ [name]") auto
  qed
  show ?thesis unfolding seen_from_def split by auto
qed

lemma region_Nil [simp]: "region t skip current [] = {}"
  by (simp add: region_def)

lemma region_Cons: "region t skip current (name # rest) = region t skip current [name] \<union> region t skip current rest"
  by (auto simp: region_def)

lemma region_skipped: "skip (rel_name (current @ [name])) \<Longrightarrow> region t skip current [name] = {}"
  by (auto simp: region_def seen_from_step)

lemma region_node:
  assumes "tree_closed t" and "\<not> skip (rel_name (current @ [name]))" and "bm_get t (current @ [name]) \<noteq> None"
  shows "region t skip current [name] =
    insert (current @ [name]) (region t skip (current @ [name]) (child_names t (current @ [name])))" (is "?l = insert ?c ?r")
proof -
  have "p \<in> ?l \<longleftrightarrow> p = ?c \<or> p \<in> ?r" for p
  proof (cases "prefix ?c p")
    case False
    then have "\<not> prefix (?c @ [x]) p" for x by (metis append_prefixD)
    then show ?thesis using False by (auto simp: region_def)
  next
    case True
    then obtain more where p: "p = ?c @ more" by (auto simp: prefix_def)
    show ?thesis
    proof (cases more)
      case Nil
      have "seen_from skip ?c ?c" by (auto simp: seen_from_def dest: prefix_length_le)
      then show ?thesis using assms p Nil by (auto simp: region_def seen_from_step)
    next
      case (Cons x xs)
      have "bm_get t p \<noteq> None \<Longrightarrow> bm_get t (?c @ [x]) \<noteq> None"
        using tree_closed_prefix [OF assms(1), of p _ "?c @ [x]"] p Cons by (auto simp: prefix_def)
      then have "p \<in> ?r \<longleftrightarrow> bm_get t p \<noteq> None \<and> seen_from skip ?c p"
        using p Cons by (auto simp: region_def set_child_names prefix_def)
      then show ?thesis using seen_from_step [of current name p skip] True assms(2) p Cons by (auto simp: region_def)
    qed
  qed
  then show ?thesis by blast
qed

lemma region_disjoint:
  assumes "name \<notin> set rest"
  shows "region t skip current [name] \<inter> region t skip current rest = {}"
proof -
  have "name = other" if "prefix (current @ [name]) p" "prefix (current @ [other]) p" for p other
    using that by (auto simp: prefix_def)
  then show ?thesis using assms by (auto simp: region_def)
qed

lemma read_dir_exists:
  "honest_io io \<Longrightarrow> name \<in> set (read_dir io t p) \<Longrightarrow> bm_get t (p @ [name]) \<noteq> None"
  using read_dir_honest [of io t p] by (simp add: set_child_names)

lemma region_read_dir:
  "honest_io io \<Longrightarrow> region t skip p (read_dir io t p) = region t skip p (child_names t p)"
  using read_dir_honest [of io t p] by (simp add: region_def)

lemma deeper: "bm_get t (current @ [name]) \<noteq> None \<Longrightarrow>
  Suc (tree_depth t) - length (current @ [name]) < Suc (tree_depth t) - length current"
  using length_le_depth [of t "current @ [name]"] by auto

lemma distinct_region_parts:
  assumes "distinct qs" and "set qs = region t skip c names" and "distinct rs" and "set rs = region t skip current rest"
    and "name \<notin> set rest" and "region t skip current [name] = insert c (set qs)"
  shows "distinct (c # qs @ rs)"
proof -
  have "c \<notin> set qs" using assms(2) by (auto simp: region_def dest: prefix_length_le)
  moreover have "insert c (set qs) \<inter> set rs = {}"
    using region_disjoint [OF assms(5), of t skip current] assms(4,6) by simp
  ultimately show ?thesis using assms(1,3) by auto
qed

text \<open>
  A walk in preorder: it fails on a node that is not in order, and otherwise adds the line of the
  node and goes on with the listing of the node and the rest of its own listing. Both traversals
  of the crate are such walks, and visit the nodes of a region once each.
\<close>

locale tree_walk =
  fixes walk :: "tree_io \<Rightarrow> file_tree \<Rightarrow> string list \<Rightarrow> string list \<Rightarrow> 'o list \<Rightarrow> ('e, 'o list) result"
    and line :: "file_tree \<Rightarrow> string list \<Rightarrow> 'o"
    and node_fine :: "file_tree \<Rightarrow> string list \<Rightarrow> bool"
    and skip :: "string \<Rightarrow> bool"
  assumes walk_Nil: "walk io t current [] out = Inr out"
    and walk_skip: "skip (rel_name (current @ [name])) \<Longrightarrow>
      walk io t current (name # rest) out = walk io t current rest out"
    and walk_node: "tree_closed t \<Longrightarrow> honest_io io \<Longrightarrow> \<not> skip (rel_name (current @ [name])) \<Longrightarrow>
      walk io t current (name # rest) out = Inr out' \<Longrightarrow>
      node_fine t (current @ [name]) \<and>
      (\<exists>mid. walk io t (current @ [name]) (read_dir io t (current @ [name])) (out @ [line t (current @ [name])]) = Inr mid \<and>
        walk io t current rest mid = Inr out')"
begin

lemma walk_region:
  assumes closed: "tree_closed t" and io: "honest_io io"
  shows "walk io t current names out = Inr out' \<Longrightarrow> distinct names \<Longrightarrow>
    (\<And>name. name \<in> set names \<Longrightarrow> bm_get t (current @ [name]) \<noteq> None) \<Longrightarrow>
    \<exists>ps. out' = out @ map (line t) ps \<and> distinct ps \<and> set ps = region t skip current names \<and>
      list_all (node_fine t) ps"
proof (induction "Suc (tree_depth t) - length current" arbitrary: current names out out' rule: less_induct)
  case (less current)
  note nested = less.hyps
  from less.prems show ?case
  proof (induction names arbitrary: out)
    case (Cons name rest)
    let ?c = "current @ [name]"
    have c: "bm_get t ?c \<noteq> None" using Cons.prems(3) by simp
    show ?case
    proof (cases "skip (rel_name ?c)")
      case True
      then show ?thesis
        using Cons region_skipped [of skip, OF True, of t] walk_skip
        by (simp add: region_Cons [of t skip current name rest])
    next
      case False
      obtain mid where step: "node_fine t ?c" "walk io t ?c (read_dir io t ?c) (out @ [line t ?c]) = Inr mid"
        "walk io t current rest mid = Inr out'"
        using walk_node [OF closed io False Cons.prems(1)] by blast
      obtain qs where qs: "mid = (out @ [line t ?c]) @ map (line t) qs" "distinct qs"
        "set qs = region t skip ?c (read_dir io t ?c)" "list_all (node_fine t) qs"
        using nested [OF deeper [OF c] step(2)] read_dir_honest [OF io] read_dir_exists [OF io] by blast
      obtain rs where rs: "out' = mid @ map (line t) rs" "distinct rs"
        "set rs = region t skip current rest" "list_all (node_fine t) rs"
        using Cons.IH [OF step(3)] Cons.prems(2,3) by auto
      have all: "region t skip current [name] = insert ?c (set qs)"
        using region_node [of t skip, OF closed False c] qs(3) region_read_dir [OF io] by simp
      show ?thesis
        using qs rs step(1) all distinct_region_parts [OF qs(2,3) rs(2,3) _ all] Cons.prems(2)
        by (intro exI [of _ "?c # qs @ rs"]) (auto simp: region_Cons [of t skip current name rest])
    qed
  qed (auto simp: walk_Nil)
qed

lemma walk_root:
  assumes "tree_closed t" and "honest_io io" and "walk io t [] (read_dir io t []) [] = Inr out"
  obtains ps where "out = map (line t) ps" "distinct ps" "list_all (node_fine t) ps"
    "set ps = region t skip [] (child_names t [])"
  using walk_region [OF assms] read_dir_honest [OF assms(2), of t "[]"] read_dir_exists [OF assms(2), of _ t "[]"]
    region_read_dir [OF assms(2), of t skip "[]"] that by auto

end

definition tree_line :: "file_tree \<Rightarrow> string btree_set option \<Rightarrow> string list \<Rightarrow> tree_file" where
  "tree_line t ex p = (case bm_get t p of
     Some (File_Node mode bytes) \<Rightarrow> (rel_name p, file_kind ex (rel_name p) mode, Payload_File p (length bytes))
   | _ \<Rightarrow> (rel_name p, 1, Payload_Bytes []))"

definition node_ok :: "file_tree \<Rightarrow> string btree_set option \<Rightarrow> string list \<Rightarrow> bool" where
  "node_ok t ex p = (case bm_get t p of
     Some Dir_Node \<Rightarrow> True
   | Some (File_Node mode bytes) \<Rightarrow> ex = None \<or> file_kind ex (rel_name p) mode = portable_file_kind mode
   | _ \<Rightarrow> False)"

text \<open>One step of the loop, with a file and a directory handled alike.\<close>

lemma collect_names_Cons:
  assumes "tree_closed t" and "honest_io io" and "\<not> skipped d (rel_name (current @ [name]))"
  shows "collect_names io t ex d current (name # rest) out = Inr out' \<longleftrightarrow>
    node_ok t ex (current @ [name]) \<and>
    (\<exists>mid. collect_names io t ex d (current @ [name]) (read_dir io t (current @ [name]))
        (out @ [tree_line t ex (current @ [name])]) = Inr mid \<and>
      collect_names io t ex d current rest mid = Inr out')"
proof -
  have "read_dir io t (current @ [name]) = []" if "bm_get t (current @ [name]) = Some (File_Node mode bytes)" for mode bytes
    using child_names_file [OF assms(1), of "current @ [name]"] read_dir_honest [OF assms(2), of t "current @ [name]"] that
    by simp
  then show ?thesis
    using assms(3) by (auto simp: Let_def node_ok_def tree_line_def result_simps split: option.splits fs_node.splits)
qed

interpretation digest_walk: tree_walk "\<lambda>io t. collect_names io t ex d" "\<lambda>t. tree_line t ex" "\<lambda>t. node_ok t ex" "skipped d"
  for ex d
  by unfold_locales (simp, simp add: Let_def, rule collect_names_Cons [THEN iffD1])

lemma collect_names_succeeds:
  assumes closed: "tree_closed t" and io: "honest_io io"
  shows "(\<And>p. p \<in> region t (skipped d) current names \<Longrightarrow> node_ok t ex p) \<Longrightarrow>
    (\<And>name. name \<in> set names \<Longrightarrow> bm_get t (current @ [name]) \<noteq> None) \<Longrightarrow>
    \<exists>out'. collect_names io t ex d current names out = Inr out'"
proof (induction "Suc (tree_depth t) - length current" arbitrary: current names out rule: less_induct)
  case (less current)
  note nested = less.hyps
  from less.prems show ?case
  proof (induction names arbitrary: out)
    case (Cons name rest)
    let ?c = "current @ [name]"
    have c: "bm_get t ?c \<noteq> None" using Cons.prems(2) by simp
    have ok: "p \<in> region t (skipped d) current [name] \<Longrightarrow> node_ok t ex p" "p \<in> region t (skipped d) current rest \<Longrightarrow> node_ok t ex p" for p
      using Cons.prems(1) by (auto simp: region_Cons [of t "skipped d" current name rest])
    show ?case
    proof (cases "skipped d (rel_name ?c)")
      case True
      then show ?thesis using Cons ok(2) by (simp add: Let_def)
    next
      case False
      note all = region_node [of t "skipped d", OF closed False c, folded region_read_dir [OF io]]
      obtain mid where "collect_names io t ex d ?c (read_dir io t ?c) (out @ [tree_line t ex ?c]) = Inr mid"
        using nested [OF deeper [OF c], of "read_dir io t ?c"] ok(1) read_dir_exists [OF io] all by blast
      moreover obtain out' where "collect_names io t ex d current rest mid = Inr out'"
        using Cons.IH [of mid] Cons.prems(2) ok(2) by auto
      ultimately show ?thesis
        unfolding collect_names_Cons [OF closed io False] using ok(1) all by blast
    qed
  qed auto
qed

end
