(* ===== verification/Digest_Facts.thy ===== *)
theory Digest_Facts
  imports Tree_Facts
begin

text \<open>
  Facts on the hashed message: reading in pieces, the framing and its injectivity, and the
  digest as a function of the tree alone.
\<close>

section \<open>Reading in pieces\<close>

lemma hash_file_step:
  assumes "n \<noteq> 0" and "b \<noteq> []" and "[] \<notin> set later"
  obtains front rest where "front \<noteq> []" "length front \<le> n" "[] \<notin> set rest" "front @ concat rest = b @ concat later"
    "hash_file_contents (map Inr (b # later)) n h = hash_file_contents (map Inr rest) (n - length front) (h @ front)"
proof (cases "length b \<le> min n 65536")
  case True
  then show thesis using assms by (intro that [of b later]) (simp_all add: hash_file_contents.simps [of "Inr b # _"])
next
  case False
  let ?k = "min n 65536"
  show thesis
    using False assms
    by (intro that [of "take ?k b" "drop ?k b # later"]) (auto simp: hash_file_contents.simps [of "Inr b # _"])
qed

lemma hash_file_pieces:
  "[] \<notin> set pieces \<Longrightarrow> hash_file_contents (map Inr pieces) n h =
    (if length (concat pieces) < n then Inl ''tree file changed during hashing''
     else if n < length (concat pieces) then Inl ''tree file grew during hashing''
     else Inr (h @ concat pieces))"
proof (induction n arbitrary: pieces h rule: less_induct)
  case (less n)
  show ?case
  proof (cases pieces)
    case Nil
    then show ?thesis by (simp add: hash_file_contents.simps [of "[]"])
  next
    case (Cons b later)
    have b: "b \<noteq> []" "[] \<notin> set later" using less.prems Cons by auto
    show ?thesis
    proof (cases "n = 0")
      case True
      then show ?thesis using b Cons by (subst hash_file_contents.simps) auto
    next
      case False
      obtain front rest where step: "front \<noteq> []" "length front \<le> n" "[] \<notin> set rest" "front @ concat rest = b @ concat later"
        "hash_file_contents (map Inr (b # later)) n h = hash_file_contents (map Inr rest) (n - length front) (h @ front)"
        using hash_file_step [OF False b] by blast
      have "length (concat pieces) = length front + length (concat rest)"
        using arg_cong [OF step(4), of length] Cons by simp
      moreover have "n - length front < n" using step(1,2) False by (cases front) auto
      then have "hash_file_contents (map Inr pieces) n h =
          (if length (concat rest) < n - length front then Inl ''tree file changed during hashing''
           else if n - length front < length (concat rest) then Inl ''tree file grew during hashing''
           else Inr ((h @ front) @ concat rest))"
        unfolding Cons step(5) using step(3) by (rule less.IH)
      ultimately show ?thesis using step(2,4) Cons by simp arith
    qed
  qed
qed

section \<open>Framing\<close>

lemma length_to_be_bytes [simp]: "length (to_be_bytes n) = 8"
  by (simp add: to_be_bytes_def)

lemma digits_mod:
  fixes m n b :: nat
  shows "(\<And>k. k < j \<Longrightarrow> m div b ^ k mod b = n div b ^ k mod b) \<Longrightarrow> m mod b ^ j = n mod b ^ j"
proof (induction j)
  case (Suc j)
  have "x mod b ^ Suc j = b ^ j * (x div b ^ j mod b) + x mod b ^ j" for x
    using mod_mult2_eq [of x "b ^ j" b] by (simp add: mult.commute)
  then show ?case using Suc by simp
qed simp

lemma to_be_bytes_inject:
  assumes "to_be_bytes m = to_be_bytes n" and "m < 2 ^ 64" and "n < 2 ^ 64"
  shows "m = n"
proof -
  have "m div 256 ^ k mod 256 = n div 256 ^ k mod 256" if "k < 8" for k
  proof -
    have "[0..<8] ! (7 - k) = 7 - k" by (subst nth_upt) auto
    moreover have "to_be_bytes m ! (7 - k) = to_be_bytes n ! (7 - k)" using assms(1) by simp
    ultimately have "(char_of (m div 256 ^ k) :: char) = char_of (n div 256 ^ k)" using that by (simp add: to_be_bytes_def)
    then show ?thesis by (metis of_char_of)
  qed
  then have "m mod 256 ^ 8 = n mod 256 ^ 8" by (rule digits_mod)
  then show ?thesis using assms(2,3) by simp
qed

definition frame :: "string \<times> nat \<times> string \<Rightarrow> string" where
  "frame = (\<lambda>(path, kind, bytes).
     to_be_bytes (length path) @ path @ [char_of kind] @ to_be_bytes (length bytes) @ bytes)"

definition frameable :: "string \<times> nat \<times> string \<Rightarrow> bool" where
  "frameable = (\<lambda>(path, kind, bytes). length path < 2 ^ 64 \<and> kind < 256 \<and> length bytes < 2 ^ 64)"

lemma append_8: "length a = 8 \<Longrightarrow> length b = 8 \<Longrightarrow> a @ x = b @ y \<longleftrightarrow> a = b \<and> x = y"
  by (rule append_eq_append_conv) simp

lemma frame_inject:
  assumes "frame f @ xs = frame g @ ys" and "frameable f" and "frameable g"
  shows "f = g \<and> xs = ys"
proof -
  obtain p k b q l c where f: "f = (p, k, b)" and g: "g = (q, l, c)" by (cases f; cases g)
  have "to_be_bytes (length p) = to_be_bytes (length q)"
    and rest: "p @ char_of k # to_be_bytes (length b) @ b @ xs = q @ char_of l # to_be_bytes (length c) @ c @ ys"
    using assms(1) by (auto simp: f g frame_def append_8)
  then have len: "length p = length q" using to_be_bytes_inject assms(2,3) by (simp add: f g frameable_def)
  then have pq: "p = q" and kind: "(char_of k :: char) = char_of l"
    and "to_be_bytes (length b) @ b @ xs = to_be_bytes (length c) @ c @ ys"
    using rest by auto
  then have "to_be_bytes (length b) = to_be_bytes (length c)" and bodies: "b @ xs = c @ ys"
    by (auto simp: append_8)
  then have "length b = length c" using to_be_bytes_inject assms(2,3) by (simp add: f g frameable_def)
  then have "b = c" "xs = ys" using bodies by auto
  moreover have "k = l" using arg_cong [OF kind, of byte] assms(2,3) by (simp add: f g frameable_def)
  ultimately show ?thesis using f g pq by simp
qed

lemma frame_not_Nil: "frame f \<noteq> []"
  by (cases f) (simp add: frame_def)

lemma frames_inject:
  "concat (map frame fs) = concat (map frame gs) \<Longrightarrow> list_all frameable fs \<Longrightarrow> list_all frameable gs \<Longrightarrow> fs = gs"
proof (induction fs arbitrary: gs)
  case Nil
  then show ?case using frame_not_Nil by (cases gs) auto
next
  case (Cons f fs)
  obtain g gs' where gs: "gs = g # gs'" using Cons.prems(1) frame_not_Nil by (cases gs) auto
  then have "f = g \<and> concat (map frame fs) = concat (map frame gs')"
    using Cons.prems by (intro frame_inject) auto
  then show ?case using Cons gs by auto
qed

section \<open>The digest as a function of the tree\<close>

text \<open>The lines that are hashed, with the contents they stand for, in the order of their names.\<close>

definition tree_key :: "tree_file \<Rightarrow> string \<times> nat" where
  "tree_key = (\<lambda>(path, kind, _). (path, kind))"

definition content_of :: "file_tree \<Rightarrow> tree_file \<Rightarrow> string \<times> nat \<times> string" where
  "content_of t = (\<lambda>(path, kind, payload). (path, kind,
     case payload of Payload_Bytes bytes \<Rightarrow> bytes
     | Payload_File p len \<Rightarrow> (case bm_get t p of Some (File_Node mode bytes) \<Rightarrow> bytes | _ \<Rightarrow> [])))"

definition visible :: "file_tree \<Rightarrow> string option \<Rightarrow> string list list" where
  "visible t excluded = filter (seen_from (skipped excluded) []) (bm_keys t)"

definition canonical_lines ::
  "file_tree \<Rightarrow> string btree_set option \<Rightarrow> string option \<Rightarrow> (string \<times> nat \<times> string) list" where
  "canonical_lines t ex excluded =
     map (content_of t) (sort_key tree_key (map (tree_line t ex) (visible t excluded) @ manifest_line ex))"

definition payload_ok :: "file_tree \<Rightarrow> tree_file \<Rightarrow> bool" where
  "payload_ok t = (\<lambda>(path, kind, payload).
     case payload of Payload_Bytes bytes \<Rightarrow> True
     | Payload_File p len \<Rightarrow> (\<exists>mode bytes. bm_get t p = Some (File_Node mode bytes) \<and> len = length bytes))"

lemma hash_entry_frame:
  assumes io: "honest_io io" and "payload_ok t f"
  shows "hash_entry io t f h = Inr (h @ frame (content_of t f))"
proof -
  obtain path kind payload where f: "f = (path, kind, payload)" by (cases f)
  show ?thesis
  proof (cases payload)
    case (Payload_File p len)
    then obtain mode bytes where b: "bm_get t p = Some (File_Node mode bytes)" "len = length bytes"
      using assms(2) f by (auto simp: payload_ok_def)
    obtain pieces where "open_file io p bytes = Inr (map Inr pieces)" "[] \<notin> set pieces" "concat pieces = bytes"
      using io unfolding honest_io_def by blast
    then show ?thesis using b hash_file_pieces [of pieces]
      by (simp add: f Payload_File hash_entry_def content_of_def frame_def)
  qed (simp add: f hash_entry_def content_of_def frame_def)
qed

lemma hash_entries_frames:
  "honest_io io \<Longrightarrow> list_all (payload_ok t) fs \<Longrightarrow>
   hash_entries io t fs h = Inr (h @ concat (map frame (map (content_of t) fs)))"
  by (induction fs arbitrary: h) (simp_all add: hash_entry_frame)

lemma sort_key_unique:
  assumes "set xs = set ys" and "distinct (map key xs)" and "distinct (map key ys)"
  shows "sort_key key xs = sort_key key ys"
proof -
  have inj: "inj_on key (set xs)" using assms(2) by (simp add: distinct_map)
  have "distinct (map key (sort_key key zs))" if "distinct (map key zs)" for zs
    using that by (simp add: distinct_map)
  then have "map key (sort_key key xs) = map key (sort_key key ys)"
    using assms by (intro sorted_distinct_set_unique) simp_all
  then show ?thesis using map_inj_on [of key "sort_key key xs" "sort_key key ys"] inj assms(1) by simp
qed

lemma safe_tree_names: "safe_tree t \<Longrightarrow> bm_get t p = Some n \<Longrightarrow> list_all safe_name p \<and> p \<noteq> []"
  by (auto simp: safe_tree_def list_all_iff set_bm_keys tree_closed_iff dom_def)

lemma text_tree_safe: "text_tree t \<Longrightarrow> safe_tree t"
  by (simp add: text_tree_def)

lemma text_tree_names: "text_tree t \<Longrightarrow> bm_get t p = Some n \<Longrightarrow> list_all safe_name p \<and> list_all utf8_valid p \<and> p \<noteq> []"
  using safe_tree_names by (auto simp: text_tree_def list_all_iff set_bm_keys)

lemma utf8_join: "utf8_valid sep \<Longrightarrow> list_all utf8_valid p \<Longrightarrow> utf8_valid (join sep p)"
  by (induction sep p rule: join.induct) (simp_all add: utf8_append)

lemma rel_name_safe:
  assumes "list_all safe_name p" and "list_all utf8_valid p"
  shows "rel_name p = join ''/'' p"
proof -
  have "CHR 0x5C \<notin> set (join ''/'' p)"
    using set_join [of "''/''" p] assms by (auto simp: list_all_iff safe_name_def)
  moreover have "utf8_valid (join ''/'' p)" by (rule utf8_join [OF _ assms(2)]) code_simp
  ultimately show ?thesis by (simp add: rel_name_def to_string_lossy_id slashes_id)
qed

lemma join_inject:
  assumes "join ''/'' p = join ''/'' q" and "list_all safe_name p" "p \<noteq> []" and "list_all safe_name q" "q \<noteq> []"
  shows "p = q"
proof -
  have "split_char (CHR ''/'') (join ''/'' r) = r" if "list_all safe_name r" "r \<noteq> []" for r
    using that by (intro split_char_join) (auto simp: list_all_iff safe_name_def)
  then show ?thesis using assms by metis
qed

lemma rel_name_inj: "text_tree t \<Longrightarrow> inj_on rel_name (dom (bm_get t))"
  by (intro inj_onI) (metis domD join_inject rel_name_safe text_tree_names)

lemma visible_not_skipped: "p \<in> set (visible t d) \<Longrightarrow> safe_tree t \<Longrightarrow> \<not> skipped d (rel_name p)"
  using safe_tree_names [of t p] by (auto simp: visible_def seen_from_def set_bm_keys dom_def)

lemma tree_key_line: "fst (tree_key (tree_line t ex p)) = rel_name p"
  by (auto simp: tree_key_def tree_line_def split: option.splits fs_node.splits)

lemma distinct_lines:
  assumes safe: "text_tree t" and "distinct ps" and sub: "set ps = set (visible t d)"
  shows "distinct (map tree_key (map (tree_line t ex) ps @ manifest_line ex))"
proof -
  have dom: "set ps \<subseteq> dom (bm_get t)" using sub by (auto simp: visible_def set_bm_keys)
  have "inj_on (tree_key \<circ> tree_line t ex) (set ps)"
    using inj_on_subset [OF rel_name_inj [OF safe] dom] by (intro inj_onI) (metis comp_apply inj_onD tree_key_line)
  moreover have "rel_name p \<noteq> executable_manifest" if "p \<in> set ps" for p
    using visible_not_skipped [OF _ text_tree_safe [OF safe]] sub that by (auto simp: skipped_def)
  ultimately show ?thesis
    using assms(2) tree_key_line [of t ex]
    by (auto simp: distinct_map comp_inj_on_iff manifest_line_def tree_key_def split: option.splits)
      (metis fst_conv)+
qed

lemma region_top:
  assumes "tree_closed t"
  shows "region t skip [] (child_names t []) = {p \<in> dom (bm_get t). seen_from skip [] p}"
proof -
  have "\<exists>name\<in>set (child_names t []). prefix ([] @ [name]) p" if node: "bm_get t p = Some n" for p n
  proof -
    obtain x xs where p: "p = x # xs" using assms node by (cases p) (auto simp: tree_closed_iff)
    have "bm_get t [x] \<noteq> None" using tree_closed_prefix [of t p n "[x]"] assms node p by auto
    then show ?thesis using p by (auto simp: set_child_names)
  qed
  then show ?thesis by (auto simp: region_def)
qed

lemma region_visible: "safe_tree t \<Longrightarrow> region t (skipped d) [] (child_names t []) = set (visible t d)"
  by (auto simp: region_top safe_tree_def visible_def set_bm_keys)

lemma lines_payload_ok:
  "set ps \<subseteq> dom (bm_get t) \<Longrightarrow> list_all (payload_ok t) (map (tree_line t ex) ps @ manifest_line ex)"
  by (auto simp: list_all_iff payload_ok_def tree_line_def manifest_line_def split: option.splits fs_node.splits)

definition tree_message :: "file_tree \<Rightarrow> string btree_set option \<Rightarrow> string option \<Rightarrow> string" where
  "tree_message t ex excluded = concat (map frame (canonical_lines t ex excluded))"

lemma hash_lines:
  assumes safe: "text_tree t" and io: "honest_io io" and ps: "distinct ps" "set ps = set (visible t d)"
  shows "hash_entries io t (sort_key tree_key (map (tree_line t ex) ps @ manifest_line ex)) [] = Inr (tree_message t ex d)"
proof -
  have "distinct (visible t d)" by (simp add: visible_def)
  then have "sort_key tree_key (map (tree_line t ex) ps @ manifest_line ex) =
      sort_key tree_key (map (tree_line t ex) (visible t d) @ manifest_line ex)"
    using distinct_lines [OF safe] ps by (intro sort_key_unique) auto
  moreover have "set ps \<subseteq> dom (bm_get t)" using ps(2) by (auto simp: visible_def set_bm_keys)
  then have "list_all (payload_ok t) (sort_key tree_key (map (tree_line t ex) ps @ manifest_line ex))"
    using lines_payload_ok [of ps t ex] by (simp add: list_all_iff)
  ultimately show ?thesis
    using hash_entries_frames [OF io] by (simp add: tree_message_def canonical_lines_def)
qed

lemma collect_tree_iff:
  assumes safe: "text_tree t" and io: "honest_io io"
  shows "(\<exists>files. collect_tree io t ex d = Inr files \<and>
      hash_entries io t (sort_key tree_key (files @ manifest_line ex)) [] = Inr m) \<longleftrightarrow>
    list_all (node_ok t ex) (visible t d) \<and> m = tree_message t ex d" (is "?l \<longleftrightarrow> ?r")
proof -
  have closed: "tree_closed t" using safe by (simp add: text_tree_def safe_tree_def)
  have top: "region t (skipped d) [] (read_dir io t []) = set (visible t d)"
    using region_visible [OF text_tree_safe [OF safe]] region_read_dir [OF io] by simp
  note found = hash_lines [OF safe io, of _ d ex]
  note seen = digest_walk.walk_root [OF closed io, of ex d, folded collect_tree_def, unfolded region_visible [OF text_tree_safe [OF safe]]]
  show ?thesis
  proof
    assume ?l
    then obtain files where l: "collect_tree io t ex d = Inr files"
      "hash_entries io t (sort_key tree_key (files @ manifest_line ex)) [] = Inr m" by blast
    from seen [OF l(1)] obtain ps where "files = map (tree_line t ex) ps" "distinct ps"
      "list_all (node_ok t ex) ps" "set ps = set (visible t d)" .
    then show ?r using found [of ps] l(2) by (auto simp: list_all_iff)
  next
    assume r: ?r
    then obtain files where l: "collect_tree io t ex d = Inr files"
      using collect_names_succeeds [OF closed io, of d "[]" "read_dir io t []" ex "[]"] top
        read_dir_exists [OF io, of _ t "[]"]
      by (auto simp: collect_tree_def list_all_iff)
    from seen [OF l] obtain ps where "files = map (tree_line t ex) ps" "distinct ps" "set ps = set (visible t d)" .
    then show ?l using l found [of ps] r by auto
  qed
qed

lemma tree_digest_iff:
  assumes "text_tree t" and "honest_io io"
  shows "tree_digest sha256 io t d = Inr dg \<longleftrightarrow>
    (\<exists>found. read_executable_manifest t = Inr found \<and>
      list_all (node_ok t (map_option (retain_unexcluded d) found)) (visible t d) \<and>
      dg = ''sha256-'' @ sha256 (tree_message t (map_option (retain_unexcluded d) found) d))"
proof -
  have "tree_digest sha256 io t d = Inr dg \<longleftrightarrow>
    (\<exists>found. read_executable_manifest t = Inr found \<and>
      (\<exists>m. (\<exists>files. collect_tree io t (map_option (retain_unexcluded d) found) d = Inr files \<and>
          hash_entries io t (sort_key tree_key (files @ manifest_line (map_option (retain_unexcluded d) found))) [] = Inr m) \<and>
        dg = ''sha256-'' @ sha256 m))"
    unfolding tree_digest_def Let_def tree_key_def [symmetric] by (auto simp: result_simps)
  then show ?thesis unfolding collect_tree_iff [OF assms] by auto
qed

end
