(* ===== verification/Manifest_Facts.thy ===== *)
theory Manifest_Facts
  imports Digest_Facts
begin

text \<open>
  Facts on the manifest of executable paths: what is written is read back, and its text
  determines the paths; and the tree of a successful extraction, which can be digested.
\<close>

section \<open>The text of the manifest\<close>

definition line_ok :: "string \<Rightarrow> bool" where
  "line_ok s \<longleftrightarrow> s \<noteq> [] \<and> CHR 0x0A \<notin> set s \<and> last s \<noteq> CHR 0x0D"

lemma join_snoc_Nil: "xs \<noteq> [] \<Longrightarrow> join sep (xs @ [[]]) = join sep xs @ sep"
  by (induction sep xs rule: join.induct) auto

lemma split_manifest_text:
  assumes "list_all (\<lambda>s. s \<noteq> [] \<and> CHR 0x0A \<notin> set s) xs"
  shows "split_char (CHR 0x0A) (manifest_text xs) = xs @ [[]]"
proof (cases "xs = []")
  case False
  have "join [CHR 0x0A] xs \<noteq> []" using assms False by (subst join_eq_Nil) (auto simp: list_all_iff)
  then have "manifest_text xs = join [CHR 0x0A] (xs @ [[]])"
    using False by (simp add: manifest_text_def join_snoc_Nil)
  then show ?thesis using assms by (simp only:) (rule split_char_join, auto simp: list_all_iff)
qed (simp add: manifest_text_def)

lemma str_lines_manifest:
  assumes "list_all line_ok xs"
  shows "str_lines (manifest_text xs) = xs"
proof -
  have "list_all (\<lambda>s. s \<noteq> [] \<and> CHR 0x0A \<notin> set s) xs" using assms by (auto simp: list_all_iff line_ok_def)
  moreover have "map strip_cr xs = xs"
    using assms by (intro map_idI) (auto simp: list_all_iff line_ok_def strip_cr_def)
  ultimately show ?thesis by (simp add: str_lines_def split_manifest_text Let_def)
qed

lemma manifest_text_end: "manifest_text xs \<noteq> [] \<Longrightarrow> last (manifest_text xs) = CHR 0x0A"
  by (auto simp: manifest_text_def Let_def split: if_splits)

lemma manifest_text_inject:
  assumes "manifest_text xs = manifest_text ys"
    and "list_all (\<lambda>s. s \<noteq> [] \<and> CHR 0x0A \<notin> set s) xs" "list_all (\<lambda>s. s \<noteq> [] \<and> CHR 0x0A \<notin> set s) ys"
  shows "xs = ys"
  using split_manifest_text [OF assms(2), unfolded assms(1)]
  unfolding split_manifest_text [OF assms(3)] by simp

section \<open>Reading it back\<close>

definition names_file :: "file_tree \<Rightarrow> string \<Rightarrow> bool" where
  "names_file t s \<longleftrightarrow> normalized_path s = Inr s \<and>
     (\<exists>mode bytes. bm_get t (split_char (CHR ''/'') s) = Some (File_Node mode bytes))"

lemma read_manifest_lines_sorted:
  "sorted_wrt (<) xs \<Longrightarrow> list_all (names_file t) xs \<Longrightarrow> (case previous of None \<Rightarrow> True | Some q \<Rightarrow> list_all ((<) q) xs) \<Longrightarrow>
   read_manifest_lines t xs previous paths = Inr (bs_extend paths xs)"
proof (induction xs arbitrary: previous paths)
  case (Cons x xs)
  have "\<not> (case previous of None \<Rightarrow> False | Some q \<Rightarrow> x \<le> q)"
    using Cons.prems(3) by (auto split: option.splits)
  moreover have "list_all ((<) x) xs" using Cons.prems(1) by (simp add: list_all_iff)
  ultimately show ?case
    using Cons.prems(1,2) Cons.IH [of "Some x" "bs_insert x paths"] by (auto simp: names_file_def)
qed simp

lemma read_manifest_back:
  assumes "bm_get t [executable_manifest] = Some (File_Node mode (manifest_text xs))"
    and "sorted_wrt (<) xs" and "list_all (names_file t) xs" and "list_all line_ok xs"
    and "length (manifest_text xs) \<le> 4 * 1024 * 1024" and "utf8_valid (manifest_text xs)"
  shows "read_executable_manifest t = Inr (Some (bs_of_list xs))"
proof -
  have "read_manifest_lines t xs None bs_empty = Inr (bs_of_list xs)"
    using read_manifest_lines_sorted [of xs t None bs_empty] assms(2,3) by (simp add: bs_of_list_def)
  then show ?thesis
    using assms(1,5,6) manifest_text_end [of xs]
    by (auto simp: read_executable_manifest_def str_lines_manifest [OF assms(4)])
qed

lemma read_manifest_lines_elements:
  "read_manifest_lines t xs previous paths = Inr paths' \<Longrightarrow> bs_set paths' = bs_set paths \<union> set xs \<and>
   (\<forall>x\<in>set xs. x \<noteq> [])"
proof (induction xs arbitrary: previous paths)
  case (Cons x xs)
  then show ?case
    by (auto simp: result_simps normalized_path_def split: if_splits option.splits fs_node.splits)
qed simp

lemma str_lines_no_newline: "x \<in> set (str_lines s) \<Longrightarrow> CHR 0x0A \<notin> set x"
proof -
  have "set (strip_cr y) \<subseteq> set y" for y by (auto simp: strip_cr_def dest: in_set_butlastD)
  then show "x \<in> set (str_lines s) \<Longrightarrow> CHR 0x0A \<notin> set x"
    using split_char_parts_no_sep [of _ "CHR 0x0A" s] last_in_set [of "split_char (CHR 0x0A) s"]
    by (fastforce simp: str_lines_def Let_def dest: in_set_butlastD split: if_splits)
qed

lemma read_manifest_elements:
  assumes "read_executable_manifest t = Inr (Some paths)"
  shows "list_all (\<lambda>s. s \<noteq> [] \<and> CHR 0x0A \<notin> set s) (bs_elems paths)"
proof -
  obtain contents where "read_manifest_lines t (str_lines contents) None bs_empty = Inr paths"
    using assms by (auto simp: read_executable_manifest_def result_simps split: option.splits fs_node.splits if_splits)
  then show ?thesis
    using read_manifest_lines_elements str_lines_no_newline by (fastforce simp: list_all_iff)
qed

section \<open>The extracted tree\<close>

lemma extract_inner_written:
  assumes "extract_inner P fresh bytes format limits = Inr t"
  obtains es t0 where "plain_entries P format bytes = Inr (map Inr es)" "written es t0"
    "bm_get t0 [executable_manifest] = None"
    "t = bm_insert [executable_manifest] (File_Node fresh (manifest_text (sort (executables es)))) t0"
    "validate_archive P format bytes (al_validation limits) = Inr ()"
proof -
  obtain t0 exe where i: "validate_archive P format bytes (al_validation limits) = Inr ()"
    "extract_entries P fresh format bytes = Inr (t0, exe)" "write_executable_manifest fresh t0 exe = Inr t"
    using assms by (auto simp: extract_inner_def result_simps)
  from extract_entries_written [OF i(2)] obtain es
    where es: "plain_entries P format bytes = Inr (map Inr es)" "written es t0" "exe = sort (executables es)" .
  then show thesis
    using i(1,3) that by (auto simp: write_executable_manifest_def create_new_Inr)
qed

lemma executable_mode_portable [simp]: "executable_mode (portable_file_mode m) \<longleftrightarrow> executable_mode m"
  by (simp add: portable_file_mode_def executable_mode_def)

lemma safe_manifest_name: "safe_name executable_manifest"
  by code_simp

lemma regular_safe: "written es t \<Longrightarrow> e \<in> set es \<Longrightarrow> is_regular e \<Longrightarrow> entry_safe e"
  by (auto simp: written_def list_all_iff logical_def is_regular_def)

lemma written_dirs_safe: "written es t \<Longrightarrow> e \<in> set es \<Longrightarrow> list_all safe_name (entry_dirs e)"
  by (auto simp: written_def list_all_iff logical_def entry_dirs_def entry_safe_def is_regular_def
    dest!: in_set_butlastD)

lemma written_names:
  assumes "written es t" and "bm_get t p = Some n"
  shows "list_all safe_name p"
proof -
  obtain e where e: "e \<in> set es" "writes_entry e p n" using assms by (auto simp: written_def)
  show ?thesis
    using e(2) written_dirs_safe [OF assms(1) e(1)] regular_safe [OF assms(1) e(1)]
    by (auto simp: writes_entry_def entry_safe_def list_all_iff dest: set_mono_prefix)
qed

text \<open>The names an extraction writes are texts, since they come from the lossy conversion.\<close>

lemma utf8_slashes: "utf8_valid s \<Longrightarrow> utf8_valid (slashes s)"
proof (induction s rule: to_string_lossy.induct)
  case (2 a cs)
  show ?case
  proof (cases "byte a < 128")
    case True
    have "byte (CHR ''/'') < 128" by code_simp
    then have "byte (if a = CHR 0x5C then CHR ''/'' else a) < 128" using True by simp
    then show ?thesis using 2(1,3) True by (simp add: slashes_def utf8_valid_step del: utf8_valid.simps(2))
  next
    case False
    then have v: "0 < utf8_more a" "utf8_run a cs = utf8_more a" "utf8_valid (drop (utf8_more a) cs)"
      using 2(3) by (simp_all add: utf8_valid_step del: utf8_valid.simps(2))
    have "map (\<lambda>c. if c = CHR 0x5C then CHR ''/'' else c) (take (utf8_more a) cs) = take (utf8_more a) cs"
    proof (rule map_idI)
      fix x assume "x \<in> set (take (utf8_more a) cs)"
      then have "128 \<le> byte x" by (rule utf8_run_full(2) [OF v(2,1)])
      moreover have "byte (CHR 0x5C) < 128" by code_simp
      ultimately show "(if x = CHR 0x5C then CHR ''/'' else x) = x" by auto
    qed
    then have "take (utf8_more a) (slashes cs) = take (utf8_more a) cs" by (simp add: slashes_def take_map)
    then have "utf8_run a (slashes cs) = utf8_more a" using v(2) utf8_run_cong by metis
    moreover have "utf8_valid (drop (utf8_more a) (slashes cs))" using 2(2) [OF False refl] v by (simp add: slashes_def drop_map)
    moreover have "byte (CHR 0x5C) < 128" by code_simp
    then have "slashes (a # cs) = a # slashes cs" using False by (auto simp: slashes_def)
    ultimately show ?thesis using False v(1) by (simp add: utf8_valid_step del: utf8_valid.simps(2))
  qed
qed (simp add: slashes_def)

lemma target_names_utf8: "list_all utf8_valid (target_names e)"
proof -
  have "utf8_valid x" if "x \<in> set (split_char (CHR ''/'') (slashes (to_string_lossy raw)))" for x raw
    by (rule utf8_pieces [OF utf8_slashes [OF to_string_lossy_valid] _ that]) code_simp
  then show ?thesis by (auto simp: target_names_def names_of_def list_all_iff split: sum.splits)
qed

lemma written_utf8:
  assumes "written es t" and "bm_get t p = Some n"
  shows "list_all utf8_valid p"
proof -
  obtain e where e: "writes_entry e p n" using assms by (auto simp: written_def)
  have "set (entry_dirs e) \<subseteq> set (target_names e)" by (auto simp: entry_dirs_def dest: in_set_butlastD)
  then show ?thesis
    using e target_names_utf8 [of e] by (auto simp: writes_entry_def list_all_iff dest: set_mono_prefix)
qed

lemma written_safe_tree:
  assumes "written es t0" and "bm_get t0 [executable_manifest] = None"
  shows "safe_tree (bm_insert [executable_manifest] (File_Node fresh text) t0)" (is "safe_tree ?t")
proof -
  have "create_new [executable_manifest] fresh text t0 = Inr ?t" using assms(2) by (simp add: create_new_Inr)
  then have "tree_closed ?t" using assms(1) tree_closed_create_new by (auto simp: written_def)
  then show ?thesis
    using written_names [OF assms(1)] safe_manifest_name by (auto simp: safe_tree_def list_all_iff set_bm_keys dom_def)
qed

lemma written_text_tree:
  assumes "written es t0" and "bm_get t0 [executable_manifest] = None"
  shows "text_tree (bm_insert [executable_manifest] (File_Node fresh text) t0)"
proof -
  have "utf8_valid executable_manifest" by code_simp
  then show ?thesis
    using written_safe_tree [OF assms] written_utf8 [OF assms(1)]
    by (auto simp: text_tree_def list_all_iff set_bm_keys dom_def)
qed

lemma manifest_text_utf8: "utf8_valid (manifest_text (sort (executables es)))"
proof -
  have n: "utf8_valid [CHR 0x0A]" "utf8_valid ''/''" by code_simp+
  have "list_all utf8_valid (sort (executables es))"
    using utf8_join [OF n(2) target_names_utf8] by (auto simp: executables_def list_all_iff)
  then have "utf8_valid (join [CHR 0x0A] (sort (executables es)))" by (rule utf8_join [OF n(1)])
  then show ?thesis using utf8_append [OF _ n(1)] by (simp add: manifest_text_def Let_def)
qed

lemma executables_distinct:
  assumes "written es t"
  shows "distinct (executables es)"
proof -
  have sub: "filter is_executable es = filter is_executable (filter is_regular es)"
    by (induction es) (auto simp: is_executable_def)
  have "distinct (map target_names (filter is_regular es))" using assms by (simp add: written_def)
  then have "distinct (map target_names (filter is_executable es))"
    unfolding sub by (rule distinct_map_filter)
  moreover have "inj_on (join ''/'') (set (map target_names (filter is_executable es)))"
  proof (rule inj_onI)
    fix p q
    assume "p \<in> set (map target_names (filter is_executable es))" "q \<in> set (map target_names (filter is_executable es))"
      and eq: "join ''/'' p = join ''/'' q"
    then have "list_all safe_name p \<and> p \<noteq> []" "list_all safe_name q \<and> q \<noteq> []"
      using regular_safe [OF assms] by (auto simp: is_executable_def entry_safe_def)
    then show "p = q" using join_inject [OF eq] by simp
  qed
  moreover have "executables es = map (join ''/'') (map target_names (filter is_executable es))"
    by (simp add: executables_def)
  ultimately show ?thesis by (simp only: distinct_map simp_thms)
qed

lemma executables_iff:
  assumes w: "written es t" and e: "e \<in> set es" "is_regular e"
  shows "join ''/'' (target_names e) \<in> set (executables es) \<longleftrightarrow> is_executable e"
proof
  assume "join ''/'' (target_names e) \<in> set (executables es)"
  then obtain f where f: "f \<in> set es" "is_executable f" "join ''/'' (target_names e) = join ''/'' (target_names f)"
    by (auto simp: executables_def)
  then have reg: "is_regular f" by (simp add: is_executable_def)
  have "target_names e = target_names f"
    using f(3) regular_safe [OF w e] regular_safe [OF w f(1) reg] by (auto simp: entry_safe_def intro: join_inject)
  then have "e = f" using w e f(1) reg by (auto simp: written_def distinct_map dest: inj_onD)
  then show "is_executable e" using f(2) by simp
qed (use e in \<open>auto simp: executables_def\<close>)

lemma regular_node: "written es t \<Longrightarrow> e \<in> set es \<Longrightarrow> is_regular e \<Longrightarrow> bm_get t (target_names e) = Some (entry_node e)"
  by (auto simp: written_def writes_entry_def)

lemma file_node_entry:
  assumes "written es t" and "bm_get t p = Some (File_Node mode bytes)"
  obtains e where "e \<in> set es" "is_regular e" "p = target_names e" "File_Node mode bytes = entry_node e"
  using assms by (auto simp: written_def writes_entry_def)

lemma executable_entry:
  assumes w: "written es t" and s: "s \<in> set (executables es)"
  obtains e where "e \<in> set es" "is_executable e" "is_regular e" "entry_safe e" "s = join ''/'' (target_names e)"
proof -
  obtain e where e: "e \<in> set es" "is_executable e" "s = join ''/'' (target_names e)"
    using s by (auto simp: executables_def)
  then show thesis using that [of e] regular_safe [OF w e(1)] by (simp add: is_executable_def)
qed

lemma executable_line_ok:
  assumes "written es t" and "s \<in> set (executables es)"
  shows "line_ok s"
proof -
  obtain e where e: "is_executable e" "entry_safe e" "s = join ''/'' (target_names e)"
    using executable_entry [OF assms] by metis
  have ne: "s \<noteq> []" unfolding e(3)
    using e(2) by (subst join_eq_Nil) (auto simp: entry_safe_def list_all_iff safe_name_def)
  have "CHR 0x0A \<notin> set s" "CHR 0x0D \<notin> set s" using e by (auto simp: entry_safe_def)
  then show ?thesis unfolding line_ok_def using ne last_in_set [OF ne] by metis
qed

lemma executable_names_file:
  assumes w: "written es t" and s: "s \<in> set (executables es)" and drive: "\<not> has_drive_prefix s"
  shows "names_file (bm_insert [executable_manifest] node t) s"
proof -
  obtain e where e: "e \<in> set es" "is_regular e" "entry_safe e" "s = join ''/'' (target_names e)"
    using executable_entry [OF w s] by metis
  then have names: "split_char (CHR ''/'') s = target_names e" unfolding e(4)
    by (intro split_char_join) (auto simp: entry_safe_def list_all_iff safe_name_def)
  have "normalized_path s = Inr s" unfolding e(4)
    using e drive by (intro safe_names_normalized) (auto simp: entry_safe_def)
  moreover have "target_names e \<noteq> [executable_manifest]" using e(3) by (simp add: entry_safe_def)
  ultimately show ?thesis
    using names regular_node [OF w e(1,2)] by (auto simp: names_file_def entry_node_def)
qed

lemma extracted_manifest_read:
  assumes w: "written es t0" and free: "bm_get t0 [executable_manifest] = None"
    and t: "t = bm_insert [executable_manifest] (File_Node fresh (manifest_text (sort (executables es)))) t0"
    and fits: "length (manifest_text (sort (executables es))) \<le> 4 * 1024 * 1024"
    and drives: "list_all (\<lambda>s. \<not> has_drive_prefix s) (executables es)"
  shows "read_executable_manifest t = Inr (Some (bs_of_list (sort (executables es))))"
proof (rule read_manifest_back [OF _ _ _ _ fits manifest_text_utf8])
  show "bm_get t [executable_manifest] = Some (File_Node fresh (manifest_text (sort (executables es))))" by (simp add: t)
  show "sorted_wrt (<) (sort (executables es))" using executables_distinct [OF w] by (simp add: strict_sorted_iff)
  show "list_all (names_file t) (sort (executables es))" "list_all line_ok (sort (executables es))"
    using executable_names_file [OF w] executable_line_ok [OF w] drives by (auto simp: list_all_iff t)
qed

lemma extracted_node_ok:
  assumes w: "written es t0" and free: "bm_get t0 [executable_manifest] = None"
    and t: "t = bm_insert [executable_manifest] (File_Node fresh (manifest_text (sort (executables es)))) t0"
  shows "list_all (node_ok t (Some (bs_of_list (sort (executables es))))) (visible t d)"
  unfolding list_all_iff
proof
  fix p assume p: "p \<in> set (visible t d)"
  have safe: "safe_tree t" using written_safe_tree [OF w free] by (simp add: t)
  have "rel_name [executable_manifest] = executable_manifest" by code_simp
  then have "p \<noteq> [executable_manifest]" using visible_not_skipped [OF p safe] by (auto simp: skipped_def)
  then obtain n where n: "bm_get t0 p = Some n" "bm_get t p = Some n"
    using p by (auto simp: visible_def set_bm_keys t)
  show "node_ok t (Some (bs_of_list (sort (executables es)))) p"
  proof (cases n)
    case (File_Node mode bytes)
    then obtain e where e: "e \<in> set es" "is_regular e" "p = target_names e" "File_Node mode bytes = entry_node e"
      using file_node_entry [OF w] n(1) by metis
    have "rel_name p = join ''/'' p" using written_names [OF w n(1)] written_utf8 [OF w n(1)] by (rule rel_name_safe)
    then show ?thesis
      using e n File_Node executables_iff [OF w e(1,2)]
      by (simp add: node_ok_def file_kind_def portable_file_kind_def entry_node_def is_executable_def)
  qed (use n w in \<open>auto simp: node_ok_def written_def writes_entry_def entry_node_def\<close>)
qed

end
