(* ===== verification/Archive_Properties.thy ===== *)
theory Archive_Properties
  imports Manifest_Facts
begin

text \<open>
  Properties of the archive crate: what a validated archive may contain and how much of it is
  read, what extraction leaves in the destination, and what the tree digest stands for.
\<close>

section \<open>A reader over a list of entries\<close>

definition list_next :: "tar_entry list \<Rightarrow> nat \<Rightarrow> tar_item option \<times> tar_entry list" where
  "list_next es budget = (case es of [] \<Rightarrow> (None, []) | e # rest \<Rightarrow> (Some (Inr e), rest))"

definition list_crate :: "tar_entry list \<Rightarrow> tar_entry list tar_crate" where
  "list_crate es = \<lparr>raw_entries = (\<lambda>f b. Inr (map (\<lambda>e. Inr (te_type e, te_size e)) es)),
     budget_open = (\<lambda>f b. Inr es), budget_next = list_next, plain_entries = (\<lambda>f b. Inr (map Inr es))\<rparr>"

definition sample_entry :: "tar_type \<Rightarrow> string \<Rightarrow> u32 \<Rightarrow> string \<Rightarrow> tar_entry" where
  "sample_entry ty path mode body = \<lparr>te_type = ty, te_path = Inr path, te_size = word_of_nat (length body),
     te_header_size = Inr (word_of_nat (length body)), te_link_name = Inr None, te_mode = Inr mode,
     te_pax = Inr None, te_body = Inr body\<rparr>"

definition sample_entries :: "tar_entry list" where
  "sample_entries = [sample_entry Directory_Type ''pkg/'' 493 [], sample_entry Regular_Type ''pkg/bin/run'' 493 ''go'',
     sample_entry Regular_Type ''./pkg/readme'' 420 ''hello'']"

definition sample_limits :: archive_limits where
  "sample_limits = \<lparr>al_validation = \<lparr>max_entries = 10, max_entry_size = 100, max_total_size = 1000, max_path_bytes = 50\<rparr>,
     max_archive_bytes = 100\<rparr>"

definition sample_tree :: file_tree where
  "sample_tree = bm_of_list [([''pkg''], Dir_Node), ([''pkg'', ''bin''], Dir_Node),
     ([''pkg'', ''bin'', ''run''], File_Node 493 ''go''), ([''pkg'', ''readme''], File_Node 420 ''hello''),
     ([''.tapid-executable-modes''], File_Node 420 (''pkg/bin/run'' @ [CHR 0x0A]))]"

lemma sample_extraction:
  "extract_to (list_crate sample_entries) 420 (Inr ()) None ''x'' Tar None sample_limits = (Inr (), Some sample_tree)"
  by code_simp

lemma sample_validation:
  "validate_archive (list_crate sample_entries) Tar ''x'' (al_validation sample_limits) = Inr ()"
  by code_simp

section \<open>Validation\<close>

definition portable_entry :: "validation_limits \<Rightarrow> archive_entry \<Rightarrow> bool" where
  "portable_entry l m \<longleftrightarrow> regular_kind m \<and> length (ae_path m) \<le> unat (max_path_bytes l) \<and>
     entry_names m \<noteq> [] \<and> list_all safe_name (entry_names m) \<and>
     (if ae_kind m = File_Kind then ae_size m \<le> max_entry_size l else ae_size m = 0)"

lemma entry_ok_portable: "entry_ok l m \<Longrightarrow> regular_kind m \<Longrightarrow> portable_entry l m"
  by (auto simp: portable_entry_def entry_ok_def entry_names_def regular_kind_def)

lemma passing_portable: "passing l es v seen \<Longrightarrow> list_all (portable_entry l) (metadata_of es)"
  by (simp add: passing_def validated_def list_all_iff entry_ok_portable)

text \<open>
  C11. Validated archives. When the bounded pass accepts, the reader has come to the end of the
  archive, and the entries it yielded (without Git's comment) are files and directories only,
  no more than the limit; every path is relative, below its bound and made of safe names; no
  two paths are equal up to the case of ASCII letters; and the sizes of the files, each
  within the bound for one entry, add up to no more than the total limit, without overflow.
\<close>

theorem validated_archive_portable:
  assumes "validate_archive P format bytes l = Inr ()"
  shows "\<exists>s bs es. budget_open P format bytes = Inr s \<and> yields (budget_next P) s bs es \<and>
    length (metadata_of es) \<le> unat (max_entries l) \<and> list_all (portable_entry l) (metadata_of es) \<and>
    distinct (folded_paths (metadata_of es)) \<and> file_bytes (metadata_of es) \<le> unat (max_total_size l)"
proof -
  obtain s bs es v seen where y: "budget_open P format bytes = Inr s" "yields (budget_next P) s bs es" "passing l es v seen"
    using validate_archive_yields [OF assms] by metis
  then have "validated l (metadata_of es) v" by (simp add: passing_def)
  then show ?thesis using y passing_portable [OF y(3)] by (auto simp: validated_def)
qed

lemma validated_archive_portable_witness:
  "\<exists>s bs es. budget_open (list_crate sample_entries) Tar ''x'' = Inr s \<and>
    yields (budget_next (list_crate sample_entries)) s bs es \<and>
    length (metadata_of es) \<le> 10 \<and> list_all (portable_entry (al_validation sample_limits)) (metadata_of es) \<and>
    distinct (folded_paths (metadata_of es)) \<and> file_bytes (metadata_of es) \<le> 1000"
  using validated_archive_portable [OF sample_validation] by (simp add: sample_limits_def)

lemma yields_length: "yields advance s bs es \<Longrightarrow> length bs = Suc (length es)"
  by (induction rule: yields.induct) auto

lemma endless_never_yields:
  assumes "\<forall>s b. \<exists>e s'. advance s b = (Some (Inr e), s')"
  shows "\<not> yields advance s bs es"
proof
  assume "yields advance s bs es"
  then show False by (induction rule: yields.induct) (metis assms option.distinct(1) prod.inject)+
qed

text \<open>
  C14. Bounded work. Validation always returns, also for a reader that never reaches the end
  of its archive, which is refused with an error. When it accepts, the reader was advanced at
  most two times more than the entry limit, and the budgets granted to it, and with them
  the bytes that were decompressed, add up to no more than the limit on the payload and 64 KiB
  for each advance.
\<close>

theorem validation_work_bounded:
  "((\<forall>s b. \<exists>e s'. budget_next P s b = (Some (Inr e), s')) \<longrightarrow> (\<exists>x. validate_archive P format bytes l = Inl x)) \<and>
   (validate_archive P format bytes l = Inr () \<longrightarrow>
     (\<exists>s bs es. budget_open P format bytes = Inr s \<and> yields (budget_next P) s bs es \<and>
       length bs \<le> unat (max_entries l) + 2 \<and>
       sum_list bs \<le> unat (max_total_size l) + 65536 * (unat (max_entries l) + 2)))"
proof (intro conjI impI)
  show bound: "\<exists>s bs es. budget_open P format bytes = Inr s \<and> yields (budget_next P) s bs es \<and>
     length bs \<le> unat (max_entries l) + 2 \<and>
     sum_list bs \<le> unat (max_total_size l) + 65536 * (unat (max_entries l) + 2)"
    if ok: "validate_archive P format bytes l = Inr ()"
  proof -
    obtain s bs es v seen where y: "budget_open P format bytes = Inr s" "yields (budget_next P) s bs es" "passing l es v seen"
      "sum_list bs \<le> file_bytes (metadata_of es) + parser_metadata_limit * (length es + 1)"
      using validate_archive_yields [OF ok] by metis
    have "file_bytes (metadata_of es) \<le> unat (max_total_size l)" "length es \<le> unat (max_entries l) + 1"
      using y(3) passing_length by (auto simp: passing_def validated_def)
    then show ?thesis using y yields_length [OF y(2)]
      by (intro exI [of _ s] exI [of _ bs] exI [of _ es]) (auto simp: parser_metadata_limit_def)
  qed
  assume "\<forall>s b. \<exists>e s'. budget_next P s b = (Some (Inr e), s')"
  then have "\<not> yields (budget_next P) s bs es" for s bs es by (rule endless_never_yields)
  then show "\<exists>x. validate_archive P format bytes l = Inl x"
    using bound by (cases "validate_archive P format bytes l") auto
qed

definition endless_crate :: "nat tar_crate" where
  "endless_crate = \<lparr>raw_entries = (\<lambda>f b. Inr []), budget_open = (\<lambda>f b. Inr 0),
     budget_next = (\<lambda>n b. (Some (Inr (sample_entry Regular_Type (dec_string n) 420 [])), Suc n)),
     plain_entries = (\<lambda>f b. Inr [])\<rparr>"

lemma validation_work_bounded_witness:
  "(\<exists>x. validate_archive endless_crate Tar ''x'' (al_validation sample_limits) = Inl x) \<and>
   (\<exists>s bs es. budget_open (list_crate sample_entries) Tar ''x'' = Inr s \<and>
      yields (budget_next (list_crate sample_entries)) s bs es \<and> length bs \<le> 12 \<and> sum_list bs \<le> 787432)"
proof
  have "\<forall>s b. \<exists>e s'. budget_next endless_crate s b = (Some (Inr e), s')" by (simp add: endless_crate_def)
  then show "\<exists>x. validate_archive endless_crate Tar ''x'' (al_validation sample_limits) = Inl x"
    using validation_work_bounded by blast
  show "\<exists>s bs es. budget_open (list_crate sample_entries) Tar ''x'' = Inr s \<and>
      yields (budget_next (list_crate sample_entries)) s bs es \<and> length bs \<le> 12 \<and> sum_list bs \<le> 787432"
    using validation_work_bounded [of "list_crate sample_entries" Tar "''x''" "al_validation sample_limits"] sample_validation
    by (simp add: sample_limits_def)
qed

section \<open>Extraction\<close>

lemma extract_to_Inr:
  "extract_to P fresh created remnant bytes format destination limits = (Inr (), after) \<Longrightarrow>
   destination = None \<and> length bytes \<le> unat (max_archive_bytes limits) \<and>
   (\<exists>t. after = Some t \<and> extract_inner P fresh bytes format limits = Inr t)"
  by (auto simp: extract_to_def split: if_splits sum.splits)

text \<open>
  C9. Extraction. When extraction succeeds, the destination did not exist, and the tree it leaves
  consists of exactly the manifest of executable paths, one file with the payload and the
  portable mode for every regular entry of the archive, and the directories that the entries
  name or lie in: nothing else is written and nothing is written twice. Every name on a
  path of the tree is a plain file name, so no node lies outside the destination.
\<close>

theorem extraction_writes_entries:
  assumes "extract_to P fresh created remnant bytes format destination limits = (Inr (), after)"
  shows "destination = None \<and> (\<exists>es t. plain_entries P format bytes = Inr (map Inr es) \<and> after = Some t \<and>
    (\<forall>p n. bm_get t p = Some n \<longleftrightarrow>
       p = [executable_manifest] \<and> n = File_Node fresh (manifest_text (sort (executables es))) \<or>
       list_ex (\<lambda>e. writes_entry e p n) es) \<and>
    distinct (map target_names (filter is_regular es)) \<and> safe_tree t)"
proof -
  obtain t where t: "destination = None" "after = Some t" "extract_inner P fresh bytes format limits = Inr t"
    using extract_to_Inr [OF assms] by blast
  from extract_inner_written [OF t(3)] obtain es t0 where es: "plain_entries P format bytes = Inr (map Inr es)"
    "written es t0" "bm_get t0 [executable_manifest] = None"
    "t = bm_insert [executable_manifest] (File_Node fresh (manifest_text (sort (executables es)))) t0" .
  have old: "list_ex (\<lambda>e. writes_entry e p n) es \<longleftrightarrow> bm_get t0 p = Some n" for p n
    using es(2) by (simp add: written_def list_ex_iff)
  have "bm_get t p = Some n \<longleftrightarrow>
      p = [executable_manifest] \<and> n = File_Node fresh (manifest_text (sort (executables es))) \<or>
      list_ex (\<lambda>e. writes_entry e p n) es" for p n
    unfolding old using es(3) by (auto simp: es(4))
  moreover have "safe_tree t" using written_safe_tree [OF es(2,3)] by (simp add: es(4))
  ultimately show ?thesis using t(1,2) es(1,2) unfolding written_def by blast
qed

lemma extraction_writes_entries_witness:
  "\<exists>es t. plain_entries (list_crate sample_entries) Tar ''x'' = Inr (map Inr es) \<and> Some sample_tree = Some t \<and>
    (\<forall>p n. bm_get t p = Some n \<longleftrightarrow>
       p = [executable_manifest] \<and> n = File_Node 420 (manifest_text (sort (executables es))) \<or>
       list_ex (\<lambda>e. writes_entry e p n) es) \<and>
    distinct (map target_names (filter is_regular es)) \<and> safe_tree t"
  using extraction_writes_entries [OF sample_extraction] by simp

text \<open>
  The tar reader: a bounded pass that comes to the end has seen what an unbounded pass sees, and
  the payload of an entry is as long as its effective size.
\<close>

definition tar_contract :: "'s tar_crate \<Rightarrow> bool" where
  "tar_contract P \<longleftrightarrow> (\<forall>format bytes s bs es. budget_open P format bytes = Inr s \<and> yields (budget_next P) s bs es \<longrightarrow>
     plain_entries P format bytes = Inr (map Inr es) \<and>
     (\<forall>e body. e \<in> set es \<and> te_body e = Inr body \<longrightarrow> length body = unat (te_size e)))"

definition node_size :: "fs_node \<Rightarrow> nat" where
  "node_size n = (case n of File_Node mode bytes \<Rightarrow> length bytes | _ \<Rightarrow> 0)"

definition tree_files :: "file_tree \<Rightarrow> string list set" where
  "tree_files t = {p. \<exists>mode bytes. bm_get t p = Some (File_Node mode bytes)}"

lemma tree_files_written:
  assumes w: "written es t0" and free: "bm_get t0 [executable_manifest] = None"
  shows "tree_files (bm_insert [executable_manifest] (File_Node m c) t0) =
    insert [executable_manifest] (target_names ` set (filter is_regular es))"
    and "[executable_manifest] \<notin> target_names ` set (filter is_regular es)"
proof -
  have f: "(\<exists>mode bytes. bm_get t0 p = Some (File_Node mode bytes)) \<longleftrightarrow> p \<in> target_names ` set (filter is_regular es)" for p
    using w by (auto simp: written_def writes_entry_def entry_node_def)
  then show "tree_files (bm_insert [executable_manifest] (File_Node m c) t0) =
      insert [executable_manifest] (target_names ` set (filter is_regular es))"
    by (auto simp: tree_files_def)
  show "[executable_manifest] \<notin> target_names ` set (filter is_regular es)"
    unfolding f [symmetric] using free by simp
qed

lemma file_bytes_regular:
  assumes "passing l es v seen"
  shows "file_bytes (metadata_of es) = sum_list (map (\<lambda>e. unat (te_size e)) (filter is_regular es))"
proof -
  have "ok_result (entry_metadata e)" if "e \<in> set es" "te_type e \<noteq> Pax_Global" for e
    using assms that by (auto simp: passing_def list_all_iff logical_def)
  then show ?thesis
  proof (induction es)
    case (Cons e es)
    have split: "metadata_of (e # es) = metadata_of [e] @ metadata_of es" using metadata_of_append [of "[e]" es] by simp
    have "file_bytes (metadata_of [e]) = (if is_regular e then unat (te_size e) else 0)"
      using Cons.prems [of e] entry_metadata_Inr [of e]
      by (auto simp: metadata_of_def logical_def file_bytes_def is_regular_def kind_of_def ok_result_iff split: if_splits)
    then show ?case unfolding split using Cons by simp
  qed (simp add: metadata_of_def logical_def file_bytes_def)
qed

lemma folded_regular:
  assumes "passing l es v seen"
  shows "inj_on (\<lambda>e. to_ascii_lowercase (join ''/'' (target_names e))) (set (filter is_regular es))"
proof -
  have "folded_paths (metadata_of es) = map (\<lambda>e. to_ascii_lowercase (join ''/'' (target_names e))) (logical es)"
    using assms entry_metadata_Inr
    by (fastforce simp: folded_paths_def metadata_of_def passing_def list_all_iff ok_result_iff entry_names_def target_names_def)
  then have "inj_on (\<lambda>e. to_ascii_lowercase (join ''/'' (target_names e))) (set (logical es))"
    using assms by (simp add: passing_def validated_def distinct_map)
  then show ?thesis by (rule inj_on_subset) (auto simp: logical_def is_regular_def)
qed

lemma regular_count:
  assumes "passing l es v seen"
  shows "length (filter is_regular es) \<le> unat (max_entries l)"
proof -
  have "filter is_regular es = filter is_regular (logical es)"
    by (auto simp: logical_def is_regular_def intro!: filter_cong)
  then have "length (filter is_regular es) \<le> length (metadata_of es)" by (simp add: metadata_of_def)
  then show ?thesis using assms by (simp add: passing_def validated_def)
qed

text \<open>The manifest holds one line, no longer than a path may be, for each executable file.\<close>

lemma length_join: "xs \<noteq> [] \<Longrightarrow> length (join sep xs) + length sep = sum_list (map (\<lambda>x. length x + length sep) xs)"
  by (induction sep xs rule: join.induct) simp_all

lemma length_join_filter: "length (join sep (filter P xs)) \<le> length (join sep xs)"
proof (cases "filter P xs = []")
  case False
  have "sum_list (map (\<lambda>x. length x + length sep) (filter P xs)) \<le> sum_list (map (\<lambda>x. length x + length sep) xs)"
    by (rule sum_list_filter_le_nat)
  moreover have "xs \<noteq> []" using False by auto
  ultimately show ?thesis using length_join [OF False, of sep] length_join [of xs sep] by linarith
qed simp

lemma length_names_of: "length (join ''/'' (names_of s)) \<le> length s"
  using length_join_filter [of "''/''" "\<lambda>p. p \<noteq> [] \<and> p \<noteq> ''.''" "split_char (CHR ''/'') s"] join_split_char [of "CHR ''/''" s]
  by (simp add: names_of_def)

lemma length_manifest_text:
  assumes "\<And>x. x \<in> set xs \<Longrightarrow> length x \<le> b"
  shows "length (manifest_text xs) \<le> length xs * Suc b"
proof (cases "xs = []")
  case False
  have "length (manifest_text xs) \<le> sum_list (map (\<lambda>x. Suc (length x)) xs)"
    using length_join [OF False, of "[CHR 0x0A]"] by (simp add: manifest_text_def Let_def)
  also have "\<dots> \<le> sum_list (map (\<lambda>x. Suc b) xs)" by (rule sum_list_mono) (simp add: assms)
  finally show ?thesis by (simp add: sum_list_triv)
qed (simp add: manifest_text_def)

lemma executable_length:
  assumes "passing l es v seen" and "s \<in> set (executables es)"
  shows "length s \<le> unat (max_path_bytes l)"
proof -
  obtain e where e: "e \<in> set es" "is_regular e" "s = join ''/'' (target_names e)"
    using assms(2) by (auto simp: executables_def is_executable_def)
  then have "e \<in> set (logical es)" by (auto simp: logical_def is_regular_def)
  then obtain m where m: "entry_metadata e = Inr m" "m \<in> set (metadata_of es)"
    using assms(1) by (force simp: passing_def list_all_iff ok_result_iff metadata_of_def)
  have "length (ae_path m) \<le> unat (max_path_bytes l)"
    using passing_portable [OF assms(1)] m(2) by (auto simp: list_all_iff portable_entry_def)
  moreover obtain raw where "te_path e = Inr raw" "ae_path m = to_string_lossy raw" using entry_metadata_Inr [OF m(1)] by blast
  then have "s = join ''/'' (names_of (slashes (ae_path m)))" by (simp add: e(3) target_names_def)
  ultimately show ?thesis using length_names_of [of "slashes (ae_path m)"] by (simp add: slashes_def)
qed

lemma executables_count: "length (executables es) \<le> length (filter is_regular es)"
proof -
  have "length (filter is_executable es) \<le> length (filter is_regular es)"
    by (induction es) (auto simp: is_executable_def)
  then show ?thesis by (simp add: executables_def)
qed

text \<open>For such a reader the entries that are written are the ones that were validated.\<close>

lemma extraction_passed:
  assumes "extract_to P fresh created remnant bytes format destination limits = (Inr (), Some t)" and "tar_contract P"
  obtains es t0 v seen where "written es t0" "bm_get t0 [executable_manifest] = None"
    "t = bm_insert [executable_manifest] (File_Node fresh (manifest_text (sort (executables es)))) t0"
    "passing (al_validation limits) es v seen"
    "\<And>e. e \<in> set es \<Longrightarrow> is_regular e \<Longrightarrow> length (projr (te_body e)) = unat (te_size e)"
proof -
  have "extract_inner P fresh bytes format limits = Inr t" using extract_to_Inr [OF assms(1)] by simp
  from extract_inner_written [OF this] obtain es t0 where es: "plain_entries P format bytes = Inr (map Inr es)"
    "written es t0" "bm_get t0 [executable_manifest] = None"
    "t = bm_insert [executable_manifest] (File_Node fresh (manifest_text (sort (executables es)))) t0"
    "validate_archive P format bytes (al_validation limits) = Inr ()" .
  from validate_archive_yields [OF es(5)] obtain s bs es' v seen where y: "budget_open P format bytes = Inr s"
    "yields (budget_next P) s bs es'" "passing (al_validation limits) es' v seen" by metis
  have "map Inr es = (map Inr es' :: tar_item list)" using assms(2) y(1,2) es(1) unfolding tar_contract_def by fastforce
  then have same: "es' = es" by (simp add: inj_map_eq_map)
  have "length (projr (te_body e)) = unat (te_size e)" if "e \<in> set es" "is_regular e" for e
    using assms(2) y(1,2) regular_safe [OF es(2)] that unfolding tar_contract_def same
    by (fastforce simp: entry_safe_def is_regular_def ok_result_iff)
  then show thesis using that es(2-4) y(3) unfolding same by blast
qed


lemma list_yields: "yields list_next s bs es \<Longrightarrow> es = s"
  by (induction rule: yields.induct) (auto simp: list_next_def split: list.splits)

lemma sample_contract: "tar_contract (list_crate sample_entries)"
  unfolding tar_contract_def
proof (intro allI impI conjI)
  fix format bytes s bs es
  assume "budget_open (list_crate sample_entries) format bytes = Inr s \<and> yields (budget_next (list_crate sample_entries)) s bs es"
  then have es: "es = sample_entries" using list_yields by (auto simp: list_crate_def)
  then show "plain_entries (list_crate sample_entries) format bytes = Inr (map Inr es)" by (simp add: list_crate_def)
  fix e body assume "e \<in> set es \<and> te_body e = Inr body"
  then show "length body = unat (te_size e)" by (auto simp: es sample_entries_def sample_entry_def)
qed


text \<open>
  The reserved name is compared as it is written: an entry whose name differs from it in letter case only is
  extracted beside the manifest, although the two are one file on a case-insensitive file system.
\<close>

lemma manifest_name_collides_folded:
  "extract_to (list_crate [sample_entry Regular_Type ''.TAPID-EXECUTABLE-MODES'' 420 ''x'']) 420 (Inr ()) None ''x'' Tar None sample_limits =
     (Inr (), Some (bm_of_list [([''.TAPID-EXECUTABLE-MODES''], File_Node 420 ''x''), ([executable_manifest], File_Node 420 [])])) \<and>
   to_ascii_lowercase ''.TAPID-EXECUTABLE-MODES'' = executable_manifest"
  by code_simp

end
