(* ===== verification/Generated_Facts.thy ===== *)
theory Generated_Facts
  imports Digest_Facts
begin

text \<open>Facts on generated trees: the walk of the tree validation visits every node once.\<close>

definition generated_node :: "file_tree \<Rightarrow> string list \<Rightarrow> archive_entry" where
  "generated_node t p = (case bm_get t p of
     Some (File_Node mode bytes) \<Rightarrow> entry_file (join ''/'' p) (word_of_nat (length bytes))
   | _ \<Rightarrow> entry_directory (join ''/'' p))"

definition generated_ok :: "file_tree \<Rightarrow> string list \<Rightarrow> bool" where
  "generated_ok t p \<longleftrightarrow> normalized_path (join ''/'' p) = Inr (join ''/'' p) \<and>
     utf8_valid (join ''/'' p) \<and> join ''/'' p \<noteq> ''.tapid-tree'' \<and> join ''/'' p \<noteq> executable_manifest \<and>
     (case bm_get t p of Some Dir_Node \<Rightarrow> True | Some (File_Node mode bytes) \<Rightarrow> True | _ \<Rightarrow> False)"

lemma generated_entry_Inr:
  "generated_entry l p (bm_get t p) entries = Inr e \<Longrightarrow> generated_ok t p \<and> e = generated_node t p"
  by (auto simp: generated_entry_def generated_ok_def generated_node_def result_simps Let_def
    split: if_splits option.splits fs_node.splits)

lemma collect_generated_Cons:
  assumes "tree_closed t" and "honest_io io"
    and "collect_generated io t l current (name # rest) entries = Inr out"
  shows "generated_ok t (current @ [name]) \<and>
    (\<exists>mid. collect_generated io t l (current @ [name]) (read_dir io t (current @ [name]))
        (entries @ [generated_node t (current @ [name])]) = Inr mid \<and>
      collect_generated io t l current rest mid = Inr out)"
proof -
  have leaf: "read_dir io t (current @ [name]) = []" if "bm_get t (current @ [name]) \<noteq> Some Dir_Node"
    using child_names_file [OF assms(1), of "current @ [name]"] read_dir_honest [OF assms(2), of t "current @ [name]"] that
    by simp
  show ?thesis
    using assms(3) generated_entry_Inr [of l "current @ [name]" t entries] leaf
    by (auto simp: result_simps Let_def split: if_splits)
qed

interpretation generated_walk: tree_walk "\<lambda>io t. collect_generated io t l" generated_node generated_ok "\<lambda>_. False"
  for l
  by unfold_locales (simp, simp, rule collect_generated_Cons)

text \<open>What any file system guarantees of a tree.\<close>

definition fs_name :: "string \<Rightarrow> bool" where
  "fs_name s \<longleftrightarrow> s \<noteq> [] \<and> s \<noteq> ''.'' \<and> s \<noteq> ''..'' \<and> CHR ''/'' \<notin> set s \<and> CHR 0x00 \<notin> set s"

definition fs_tree :: "file_tree \<Rightarrow> bool" where
  "fs_tree t \<longleftrightarrow> tree_closed t \<and> list_all (list_all fs_name) (bm_keys t) \<and>
     list_all (\<lambda>n. length (case n of File_Node mode bytes \<Rightarrow> bytes | _ \<Rightarrow> []) < 2 ^ 64) (bm_values t)"

lemma generated_ok_safe:
  assumes "generated_ok t p" and "list_all fs_name p" and "p \<noteq> []"
  shows "list_all safe_name p" and "list_all utf8_valid p"
proof -
  have n: "normalized_path (join ''/'' p) = Inr (join ''/'' p)" using assms(1) by (simp add: generated_ok_def)
  have s: "split_char (CHR ''/'') (join ''/'' p) = p"
    using assms(2,3) by (intro split_char_join) (auto simp: list_all_iff fs_name_def)
  then show "list_all safe_name p" using normalized_path_Inr(3,4) [OF n] by simp
  have "utf8_valid (join ''/'' p)" "byte (CHR ''/'') < 128" using assms(1) by (simp add: generated_ok_def, code_simp)
  from utf8_pieces [OF this] show "list_all utf8_valid p" unfolding s by (simp add: list_all_iff)
qed

lemma validate_tree_Inr:
  assumes "validate_tree io root t l = Inr ()" and tree: "fs_tree t" and io: "honest_io io"
  obtains ps v where "root = Some Dir_Node" "distinct ps" "set ps = dom (bm_get t)" "list_all (generated_ok t) ps"
    "validated l (map (generated_node t) ps) v"
proof -
  have closed: "tree_closed t" using tree by (simp add: fs_tree_def)
  obtain entries v where e: "root = Some Dir_Node" "collect_generated io t l [] (read_dir io t []) [] = Inr entries"
    "push_all entries (validator_new l) = Inr v"
    using assms(1) by (auto simp: validate_tree_def validate_entries_def result_simps split: option.splits fs_node.splits)
  from generated_walk.walk_root [OF closed io e(2)] obtain ps where ps: "entries = map (generated_node t) ps" "distinct ps"
    "list_all (generated_ok t) ps" "set ps = region t (\<lambda>_. False) [] (child_names t [])" .
  then have "set ps = dom (bm_get t)" by (simp add: region_top [OF closed] seen_from_def)
  then show thesis
    using that [OF e(1) ps(2) _ ps(3)] validated_push_all [OF e(3) validated_new] ps(1) by simp
qed

end
