(* ===== verification/Tree_Properties.thy ===== *)
theory Tree_Properties
  imports Archive_Properties Generated_Facts
begin

text \<open>
  Properties of the tree digest and of generated trees.
\<close>

section \<open>Two operating systems\<close>

text \<open>One lists a directory in its own order and reads a file at once, the other in reverse and by bytes.\<close>

definition whole_io :: tree_io where
  "whole_io = \<lparr>dir_order = (\<lambda>p names. names), open_file = (\<lambda>p bytes. Inr (if bytes = [] then [] else [Inr bytes]))\<rparr>"

definition bytewise_io :: tree_io where
  "bytewise_io = \<lparr>dir_order = (\<lambda>p names. rev names), open_file = (\<lambda>p bytes. Inr (map (\<lambda>c. Inr [c]) bytes))\<rparr>"

lemma whole_io_honest: "honest_io whole_io"
proof -
  have "\<exists>pieces. open_file whole_io p bytes = Inr (map Inr pieces) \<and> [] \<notin> set pieces \<and> concat pieces = bytes" for p bytes
    by (rule exI [of _ "if bytes = [] then [] else [bytes]"]) (simp add: whole_io_def)
  then show ?thesis by (simp add: honest_io_def whole_io_def)
qed

lemma bytewise_io_honest: "honest_io bytewise_io"
proof -
  have "\<exists>pieces. open_file bytewise_io p bytes = Inr (map Inr pieces) \<and> [] \<notin> set pieces \<and> concat pieces = bytes" for p bytes
    by (rule exI [of _ "map (\<lambda>c. [c]) bytes"]) (auto simp: bytewise_io_def)
  then show ?thesis by (simp add: honest_io_def bytewise_io_def)
qed

lemma sample_tree_safe: "text_tree sample_tree"
  by code_simp

text \<open>
  Without this condition the digest says less: the conversion of names to text replaces what is not
  UTF-8, so that trees with different names share a digest.
\<close>

lemma lossy_names_share_digest:
  "tree_digest sha256 whole_io (bm_of_list [([[CHR 0xFF]], File_Node 420 ''x'')]) None =
   tree_digest sha256 whole_io (bm_of_list [([[CHR 0xFE]], File_Node 420 ''x'')]) None"
  by code_simp

section \<open>The digest\<close>



section \<open>What the digest stands for\<close>

text \<open>The portable view of a tree: kinds and contents of the visible nodes.\<close>

definition portable_view :: "file_tree \<Rightarrow> string option \<Rightarrow> string list \<Rightarrow> (nat \<times> string) option" where
  "portable_view t d p =
     (if p \<in> set (visible t d) then
        (case bm_get t p of Some (File_Node mode bytes) \<Rightarrow> Some (portable_file_kind mode, bytes) | _ \<Rightarrow> Some (1, []))
      else None)"

lemma content_line:
  assumes "node_ok t ex p" and "p \<in> set (visible t d)"
  shows "\<exists>k b. content_of t (tree_line t ex p) = (rel_name p, k, b) \<and> portable_view t d p = Some (k, b) \<and> k \<le> 2"
proof -
  obtain n where n: "bm_get t p = Some n" using assms(2) by (auto simp: visible_def set_bm_keys)
  have "file_kind ex (rel_name p) mode = portable_file_kind mode" if "n = File_Node mode bytes" for mode bytes
    using assms(1) that n by (cases ex) (auto simp: node_ok_def file_kind_def)
  then show ?thesis
    using assms n by (cases n) (auto simp: node_ok_def content_of_def tree_line_def portable_view_def portable_file_kind_def)
qed

lemma content_of_bytes [simp]: "content_of t (path, kind, Payload_Bytes bytes) = (path, kind, bytes)"
  by (simp add: content_of_def)

lemma set_canonical_lines:
  "set (canonical_lines t ex d) = (\<lambda>q. content_of t (tree_line t ex q)) ` set (visible t d) \<union>
    (case ex of None \<Rightarrow> {} | Some paths \<Rightarrow> {(executable_manifest, 3, manifest_text (bs_elems paths))})"
  by (cases ex) (auto simp: canonical_lines_def manifest_line_def)

lemma canonical_line_iff:
  assumes "text_tree t" and ok: "list_all (node_ok t ex) (visible t d)"
    and "list_all safe_name p" "list_all utf8_valid p" "p \<noteq> []" and "k \<le> 2"
  shows "(join ''/'' p, k, b) \<in> set (canonical_lines t ex d) \<longleftrightarrow> portable_view t d p = Some (k, b)"
proof -
  have "(join ''/'' p, k, b) \<in> set (canonical_lines t ex d) \<longleftrightarrow>
      (\<exists>q\<in>set (visible t d). content_of t (tree_line t ex q) = (join ''/'' p, k, b))"
    using assms(6) unfolding set_canonical_lines by (cases ex) (auto intro: rev_image_eqI)
  also have "\<dots> \<longleftrightarrow> portable_view t d p = Some (k, b)"
  proof
    assume "\<exists>q\<in>set (visible t d). content_of t (tree_line t ex q) = (join ''/'' p, k, b)"
    then obtain q where q: "q \<in> set (visible t d)" "content_of t (tree_line t ex q) = (join ''/'' p, k, b)" by blast
    obtain n where "bm_get t q = Some n" using q(1) by (auto simp: visible_def set_bm_keys)
    then have names: "list_all safe_name q" "list_all utf8_valid q" "q \<noteq> []" using text_tree_names [OF assms(1)] by auto
    have "node_ok t ex q" using ok q(1) by (simp add: list_all_iff)
    from content_line [OF this q(1)] have "rel_name q = join ''/'' p" "portable_view t d q = Some (k, b)" using q(2) by auto
    then show "portable_view t d p = Some (k, b)" using join_inject names assms(3,5) rel_name_safe by metis
  next
    assume view: "portable_view t d p = Some (k, b)"
    then have p: "p \<in> set (visible t d)" by (auto simp: portable_view_def split: if_splits)
    then have "node_ok t ex p" using ok by (simp add: list_all_iff)
    from content_line [OF this p] view show "\<exists>q\<in>set (visible t d). content_of t (tree_line t ex q) = (join ''/'' p, k, b)"
      using p rel_name_safe [OF assms(3,4)] by auto
  qed
  finally show ?thesis .
qed

text \<open>The set of executable paths and the lines that a digest of the tree covers.\<close>

definition digest_paths :: "file_tree \<Rightarrow> string option \<Rightarrow> string btree_set option" where
  "digest_paths t d = map_option (retain_unexcluded d) (projr (read_executable_manifest t))"

definition digest_lines :: "file_tree \<Rightarrow> string option \<Rightarrow> (string \<times> nat \<times> string) list" where
  "digest_lines t d = canonical_lines t (digest_paths t d) d"

lemma digest_facts:
  assumes "text_tree t" and "honest_io io" and "tree_digest sha256 io t d = Inr dg"
  shows "dg = ''sha256-'' @ sha256 (concat (map frame (digest_lines t d)))"
    and "list_all (node_ok t (digest_paths t d)) (visible t d)"
    and "digest_paths t d = Some paths \<Longrightarrow> list_all (\<lambda>s. s \<noteq> [] \<and> CHR 0x0A \<notin> set s) (bs_elems paths)"
proof -
  obtain found where f: "read_executable_manifest t = Inr found"
    "list_all (node_ok t (map_option (retain_unexcluded d) found)) (visible t d)"
    "dg = ''sha256-'' @ sha256 (tree_message t (map_option (retain_unexcluded d) found) d)"
    using assms(3) unfolding tree_digest_iff [OF assms(1,2)] by blast
  have paths: "digest_paths t d = map_option (retain_unexcluded d) found" using f(1) by (simp add: digest_paths_def)
  show "dg = ''sha256-'' @ sha256 (concat (map frame (digest_lines t d)))"
    using f(3) by (simp add: digest_lines_def paths tree_message_def)
  show "list_all (node_ok t (digest_paths t d)) (visible t d)" using f(2) by (simp add: paths)
  show "list_all (\<lambda>s. s \<noteq> [] \<and> CHR 0x0A \<notin> set s) (bs_elems paths)" if "digest_paths t d = Some paths"
  proof -
    obtain all where "found = Some all" "paths = retain_unexcluded d all"
      using \<open>digest_paths t d = Some paths\<close> paths by auto
    then show ?thesis
      using read_manifest_elements [of t all] f(1) by (cases d) (auto simp: retain_unexcluded_def list_all_iff)
  qed
qed

lemma manifest_line_iff:
  assumes "list_all (node_ok t ex) (visible t d)"
  shows "(executable_manifest, 3, x) \<in> set (canonical_lines t ex d) \<longleftrightarrow> (\<exists>paths. ex = Some paths \<and> x = manifest_text (bs_elems paths))"
proof -
  have "(executable_manifest, 3, x) \<noteq> content_of t (tree_line t ex q)" if "q \<in> set (visible t d)" for q
    using content_line [of t ex q d] assms that by (auto simp: list_all_iff)
  then show ?thesis unfolding set_canonical_lines by (auto split: option.splits)
qed

lemma same_paths:
  assumes "set (canonical_lines t1 (Some p1) d) = set (canonical_lines t2 ex2 d)"
    and "list_all (node_ok t1 (Some p1)) (visible t1 d)" and "list_all (node_ok t2 ex2) (visible t2 d)"
    and "list_all (\<lambda>s. s \<noteq> [] \<and> CHR 0x0A \<notin> set s) (bs_elems p1)"
    and "\<And>p2. ex2 = Some p2 \<Longrightarrow> list_all (\<lambda>s. s \<noteq> [] \<and> CHR 0x0A \<notin> set s) (bs_elems p2)"
  shows "ex2 = Some p1"
proof -
  obtain p2 where p2: "ex2 = Some p2" "manifest_text (bs_elems p1) = manifest_text (bs_elems p2)"
    using assms(1) manifest_line_iff [OF assms(2)] manifest_line_iff [OF assms(3)] by blast
  then have "bs_elems p1 = bs_elems p2" using manifest_text_inject assms(4,5) by blast
  then show ?thesis using p2(1) bs_eqI by (metis set_bs_elems)
qed

lemma same_view:
  assumes safe: "text_tree t1" "text_tree t2" and ok: "list_all (node_ok t1 ex1) (visible t1 d)" "list_all (node_ok t2 ex2) (visible t2 d)"
    and lines: "canonical_lines t1 ex1 d = canonical_lines t2 ex2 d" and view: "portable_view t1 d p = Some kb"
  shows "portable_view t2 d p = Some kb"
proof -
  have p: "p \<in> set (visible t1 d)" using view by (auto simp: portable_view_def split: if_splits)
  then have names: "list_all safe_name p" "list_all utf8_valid p" "p \<noteq> []"
    using text_tree_names [OF safe(1)] by (auto simp: visible_def set_bm_keys)
  have "node_ok t1 ex1 p" using ok(1) p by (simp add: list_all_iff)
  from content_line [OF this p] obtain k b where kb: "kb = (k, b)" "k \<le> 2" using view by auto
  show ?thesis
    using canonical_line_iff [OF safe(1) ok(1) names kb(2)] canonical_line_iff [OF safe(2) ok(2) names kb(2)]
      view lines by (simp add: kb(1))
qed


definition group_tree :: file_tree where
  "group_tree = bm_of_list [([''pkg''], Dir_Node), ([''pkg'', ''bin''], Dir_Node),
     ([''pkg'', ''bin'', ''run''], File_Node 509 ''go''), ([''pkg'', ''readme''], File_Node 384 ''hello''),
     ([''.tapid-tree''], File_Node 420 ''marker''),
     ([''.tapid-executable-modes''], File_Node 384 (''pkg/bin/run'' @ [CHR 0x0A]))]"

lemma group_tree_facts:
  "text_tree group_tree" "list_all frameable (digest_lines sample_tree None)" "list_all frameable (digest_lines group_tree None)"
  by code_simp+

lemma group_tree_digest:
  "tree_digest (\<lambda>m. m) whole_io sample_tree None = Inr (''sha256-'' @ concat (map frame (digest_lines sample_tree None)))"
  "tree_digest (\<lambda>m. m) bytewise_io group_tree None = Inr (''sha256-'' @ concat (map frame (digest_lines sample_tree None)))"
  by code_simp+




section \<open>Generated trees and normalized paths\<close>

lemma file_bytes_generated:
  assumes "\<And>p. p \<in> set ps \<Longrightarrow> \<exists>n. bm_get t p = Some n \<and> node_size n < 2 ^ 64 \<and> (n = Dir_Node \<or> (\<exists>m b. n = File_Node m b))"
  shows "file_bytes (map (generated_node t) ps) = sum_list (map (\<lambda>p. node_size (the (bm_get t p))) ps)"
  using assms
proof (induction ps)
  case (Cons p ps)
  obtain n where n: "bm_get t p = Some n" "node_size n < 2 ^ 64" "n = Dir_Node \<or> (\<exists>m b. n = File_Node m b)"
    using Cons.prems [of p] by auto
  have "file_bytes [generated_node t p] = node_size n"
    using n by (auto simp: file_bytes_def generated_node_def node_size_def entry_file_def entry_directory_def
      unat_of_nat take_bit_eq_mod unsigned_of_nat)
  then show ?case using Cons n(1) file_bytes_append [of "[generated_node t p]"] by simp
qed (simp add: file_bytes_def)

lemma fs_tree_size: "fs_tree t \<Longrightarrow> bm_get t p = Some n \<Longrightarrow> node_size n < 2 ^ 64"
proof -
  assume "fs_tree t" "bm_get t p = Some n"
  then have "length (case n of File_Node mode bytes \<Rightarrow> bytes | _ \<Rightarrow> []) < 2 ^ 64"
    by (auto simp: fs_tree_def list_all_iff set_bm_values ran_def)
  then show "node_size n < 2 ^ 64" by (simp add: node_size_def split: fs_node.splits)
qed

lemma folded_generated:
  assumes "list_all (generated_ok t) ps"
  shows "folded_paths (map (generated_node t) ps) = map (\<lambda>p. to_ascii_lowercase (join ''/'' p)) ps"
proof -
  have "join ''/'' (names_of (slashes (join ''/'' p))) = join ''/'' p" if "generated_ok t p" for p
    using normalized_path_Inr(1) that by (metis generated_ok_def)
  moreover have "ae_path (generated_node t p) = join ''/'' p" for p
    by (auto simp: generated_node_def entry_file_def entry_directory_def split: option.splits fs_node.splits)
  ultimately show ?thesis using assms by (auto simp: folded_paths_def entry_names_def list_all_iff)
qed

lemma generated_digest:
  assumes safe: "text_tree t" and "honest_io io" and ok: "\<And>p. p \<in> dom (bm_get t) \<Longrightarrow> generated_ok t p"
  shows "ok_result (canonical_tree_digest sha256 io t)"
proof -
  have "bm_get t [executable_manifest] = None" using ok [of "[executable_manifest]"] by (auto simp: generated_ok_def)
  then have read: "read_executable_manifest t = Inr None" by (simp add: read_executable_manifest_def)
  have "list_all (node_ok t None) (visible t None)"
    using ok by (fastforce simp: list_all_iff visible_def set_bm_keys generated_ok_def node_ok_def split: option.splits fs_node.splits)
  then show ?thesis
    using read tree_digest_iff [OF safe assms(2), of sha256 None] by (auto simp: canonical_tree_digest_def ok_result_iff)
qed

text \<open>
  C16. Generated trees. A generated tree that passes validation is a directory of plain files and
  directories with safe names, within the limits on entries and bytes, in which no two
  paths differ only in the case of letters and no reserved name occurs; and such a tree always
  has a digest.
\<close>

theorem validated_tree_publishable:
  assumes "fs_tree t" and "honest_io io" and "validate_tree io root t limits = Inr ()"
  shows "root = Some Dir_Node \<and> safe_tree t \<and> card (dom (bm_get t)) \<le> unat (max_entries limits) \<and>
    (\<Sum>p\<in>dom (bm_get t). node_size (the (bm_get t p))) \<le> unat (max_total_size limits) \<and>
    inj_on (\<lambda>p. to_ascii_lowercase (join ''/'' p)) (dom (bm_get t)) \<and>
    ok_result (canonical_tree_digest sha256 io t)"
proof -
  from validate_tree_Inr [OF assms(3,1,2)] obtain ps v where ps: "root = Some Dir_Node" "distinct ps"
    "set ps = dom (bm_get t)" "list_all (generated_ok t) ps" "validated limits (map (generated_node t) ps) v" .
  have ok: "generated_ok t p" if "p \<in> dom (bm_get t)" for p using ps(3,4) that by (auto simp: list_all_iff)
  have names: "list_all safe_name p" "list_all utf8_valid p" if "p \<in> dom (bm_get t)" for p
    using generated_ok_safe [OF ok [OF that]] assms(1) that by (auto simp: fs_tree_def list_all_iff set_bm_keys tree_closed_iff)
  then have safe: "safe_tree t" using assms(1) by (simp add: safe_tree_def fs_tree_def list_all_iff set_bm_keys)
  then have texts: "text_tree t" using names by (simp add: text_tree_def list_all_iff set_bm_keys)
  have kinds: "n = Dir_Node \<or> (\<exists>m b. n = File_Node m b)" if "bm_get t p = Some n" for p n
    using ok [of p] that by (cases n) (auto simp: generated_ok_def)
  have "file_bytes (map (generated_node t) ps) = (\<Sum>p\<in>dom (bm_get t). node_size (the (bm_get t p)))"
    using file_bytes_generated [of ps t] fs_tree_size [OF assms(1)] kinds ps(2,3)
    by (force simp: sum_list_distinct_conv_sum_set)
  then have bounds: "(\<Sum>p\<in>dom (bm_get t). node_size (the (bm_get t p))) \<le> unat (max_total_size limits)"
    "card (dom (bm_get t)) \<le> unat (max_entries limits)"
    using ps(2,3,5) distinct_card [OF ps(2)] by (auto simp: validated_def)
  have "distinct (map (\<lambda>p. to_ascii_lowercase (join ''/'' p)) ps)"
    using ps(4,5) folded_generated [of t ps] by (simp add: validated_def)
  then have "inj_on (\<lambda>p. to_ascii_lowercase (join ''/'' p)) (dom (bm_get t))"
    using ps(3) by (simp add: distinct_map)
  moreover have "ok_result (canonical_tree_digest sha256 io t)" by (rule generated_digest [OF texts assms(2) ok])
  ultimately show ?thesis using ps(1) safe bounds by blast
qed

definition built_tree :: file_tree where
  "built_tree = bm_of_list [([''build''], Dir_Node), ([''build'', ''addon.node''], File_Node 493 ''ELF'')]"

lemma validated_tree_publishable_witness:
  "safe_tree built_tree \<and> card (dom (bm_get built_tree)) \<le> 10 \<and>
   (\<Sum>p\<in>dom (bm_get built_tree). node_size (the (bm_get built_tree p))) \<le> 1000 \<and>
   ok_result (canonical_tree_digest (\<lambda>m. m) whole_io built_tree)"
proof -
  have "fs_tree built_tree" by code_simp
  moreover have "validate_tree whole_io (Some Dir_Node) built_tree (al_validation sample_limits) = Inr ()" by code_simp
  ultimately show ?thesis
    using validated_tree_publishable [OF _ whole_io_honest, of built_tree "Some Dir_Node" "al_validation sample_limits" "\<lambda>m. m"]
    by (simp add: sample_limits_def)
qed

text \<open>
  Normalized paths. Normalizing a path that normalization produced changes nothing, unless the
  result starts like a Windows drive: then it is refused as absolute. The drive check looks at
  the text before a leading \<open>./\<close> is dropped, so such a result does occur.
\<close>

lemma normalized_path_stable:
  assumes "normalized_path v = Inr n"
  shows "normalized_path n = (if has_drive_prefix n then Inl (AbsolutePath n) else Inr n)"
proof -
  note n = normalized_path_Inr [OF assms]
  have set: "CHR 0x5C \<notin> set n" "CHR 0x00 \<notin> set n"
    using set_join [of "''/''" "names_of (slashes v)"] n(1,3) by (auto simp: list_all_iff safe_name_def)
  have "n \<noteq> []" unfolding n(1) using n(2,3) by (subst join_eq_Nil) (auto simp: list_all_iff safe_name_def)
  then have "has_drive_prefix n \<Longrightarrow> normalized_path n = Inl (AbsolutePath n)"
    using set by (simp add: normalized_path_def slashes_id Let_def)
  then show ?thesis using safe_names_normalized [OF n(3,2), folded n(1)] by simp
qed

lemma normalized_path_stable_witness:
  "normalized_path ''./C:/tool'' = Inr ''C:/tool'' \<and> normalized_path ''C:/tool'' = Inl (AbsolutePath ''C:/tool'')"
proof
  show n: "normalized_path ''./C:/tool'' = Inr ''C:/tool''" by code_simp
  have "has_drive_prefix ''C:/tool''" by code_simp
  then show "normalized_path ''C:/tool'' = Inl (AbsolutePath ''C:/tool'')" using normalized_path_stable [OF n] by simp
qed

end
