(* ===== verification/Inspection.thy ===== *)
theory Inspection
  imports Lockfile
begin

text \<open>
  The crate \<open>tapid-lockfile\<close>, inspection of native lockfiles: snapshots read from explicit
  bytes, their inventory, selection by scope, and the comparison of two snapshots. Snapshots
  imported from npm lockfiles are handed on and not modelled. An \<open>expect\<close> or a map
  index of the source that could fail is \<open>None\<close>.
\<close>

section \<open>Data\<close>

definition MAX_INPUT_BYTES :: nat where
  "MAX_INPUT_BYTES = 32 * 1024 * 1024"

definition MAX_INSTANCES :: nat where
  "MAX_INSTANCES = 100000"

definition MAX_RELATIONSHIPS :: nat where
  "MAX_RELATIONSHIPS = 500000"

datatype snapshot_error = InputLimit | AnalysisLimit | InvalidSnapshot | UnsupportedFormat | InvalidScope

fun snapshot_error_to_string :: "snapshot_error \<Rightarrow> string" where
  "snapshot_error_to_string InputLimit = ''snapshot exceeds the input byte limit''"
| "snapshot_error_to_string AnalysisLimit = ''snapshot exceeds the graph analysis limit''"
| "snapshot_error_to_string InvalidSnapshot = ''snapshot failed lockfile validation''"
| "snapshot_error_to_string UnsupportedFormat = ''snapshot format is unsupported''"
| "snapshot_error_to_string InvalidScope = ''snapshot scope exceeds the filter limits''"

record graph_snapshot =
  gs_lock :: lockfile
  gs_schema :: nat
  gs_named_root_bindings :: bool
  gs_digest :: string

record graph_instance =
  gi_reference :: string
  gi_identity :: string
  gi_name :: string
  gi_version :: string
  gi_placement :: "string option"

record graph_relationship =
  gr_kind :: string
  gr_parent :: "string option"
  gr_local_name :: "string option"
  gr_target :: string

record graph_availability =
  explicit_roots :: bool
  named_root_bindings :: bool
  exact_scripts :: bool
  host_toolchain :: bool
  derived_outputs :: bool
  verification_receipts :: bool
  declaration_requirements :: bool
  peer_provider_targets :: bool

record graph_coverage =
  analysis_complete :: bool
  total_instances :: nat
  total_relationships :: nat
  excluded_instances :: nat
  excluded_relationships :: nat

datatype graph_scope = Scope_All | Scope_Packages "string list" | Scope_Instances "string list"

record graph_inspection =
  gx_schema :: nat
  gx_snapshot_digest :: string
  gx_scope :: graph_scope
  gx_availability :: graph_availability
  gx_coverage :: graph_coverage
  gx_instances :: "graph_instance list"
  gx_relationships :: "graph_relationship list"

definition unavailable_reasons :: "graph_availability \<Rightarrow> (string, string) btree_map" where
  "unavailable_reasons a =
     bm_of_list (map snd (filter (\<lambda>(available, _). \<not> available)
       [(explicit_roots a, ''explicit_roots'', ''not_recorded''),
        (named_root_bindings a, ''named_root_bindings'', ''not_recorded''),
        (exact_scripts a, ''exact_scripts'', ''not_recorded''),
        (host_toolchain a, ''host_toolchain'', ''not_recorded''),
        (derived_outputs a, ''derived_outputs'', ''format_does_not_record''),
        (verification_receipts a, ''verification_receipts'', ''format_does_not_record''),
        (declaration_requirements a, ''declaration_requirements'', ''digest_evidence_only''),
        (peer_provider_targets a, ''peer_provider_targets'', ''context_does_not_identify_provider_placement'')]))"

section \<open>Scopes\<close>

definition normalize_values :: "string list \<Rightarrow> (snapshot_error, string list) result" where
  "normalize_values values =
     (if 64 < length values \<or> list_ex (\<lambda>v. 4096 < length v) values then Inl InvalidScope
      else Inr (dedup (sort values)))"

fun scope_normalized :: "graph_scope \<Rightarrow> (snapshot_error, graph_scope) result" where
  "scope_normalized Scope_All = Inr Scope_All"
| "scope_normalized (Scope_Packages values) = and_then (normalize_values values) (\<lambda>vs. Inr (Scope_Packages vs))"
| "scope_normalized (Scope_Instances values) = and_then (normalize_values values) (\<lambda>vs. Inr (Scope_Instances vs))"

text \<open>The binary search runs on sorted values, where it finds exactly the members.\<close>

fun scope_includes :: "graph_scope \<Rightarrow> graph_instance \<Rightarrow> bool" where
  "scope_includes Scope_All i = True"
| "scope_includes (Scope_Packages values) i \<longleftrightarrow> gi_name i \<in> set values"
| "scope_includes (Scope_Instances values) i \<longleftrightarrow> gi_reference i \<in> set values"

section \<open>Reading a snapshot\<close>

text \<open>
  What the JSON reader finds in a text: a document that may break off. A sequence or an object
  says whether it was closed, and a member may be an error of the syntax.
\<close>

datatype json_node = J_Scalar | J_Seq "json_node list" bool | J_Map "(string \<times> json_node) list" bool | J_Error

datatype preflight_role = Root_Role | Instances_Role | Instance_Role | Relationships_Role | Other_Role

text \<open>The counts of instances and relationships so far.\<close>

type_synonym preflight_counts = "nat \<times> nat"

fun preflight_count :: "preflight_role \<Rightarrow> preflight_counts \<Rightarrow> (snapshot_error, preflight_counts) result" where
  "preflight_count role (instances, relationships) =
     (let counts = (if role = Instances_Role then (instances + 1, relationships)
                    else if role = Relationships_Role then (instances, relationships + 1)
                    else (instances, relationships)) in
      if MAX_INSTANCES < fst counts \<or> MAX_RELATIONSHIPS < snd counts then Inl AnalysisLimit else Inr counts)"

definition child_role :: "preflight_role \<Rightarrow> string \<Rightarrow> preflight_role" where
  "child_role role key =
     (if role = Root_Role \<and> key = ''npmLock'' then Root_Role
      else if role = Root_Role \<and> (key = ''packages'' \<or> key = ''workspacePackages'') then Instances_Role
      else if role = Root_Role \<and> (key = ''roots'' \<or> key = ''rootBindings'') then Relationships_Role
      else if role = Instances_Role then Instance_Role
      else if role = Instance_Role \<and> (key = ''dependencies'' \<or> key = ''optionalDependencies'' \<or> key = ''peerDependencies'')
      then Relationships_Role
      else Other_Role)"

fun preflight_node :: "preflight_role \<Rightarrow> nat \<Rightarrow> json_node \<Rightarrow> preflight_counts \<Rightarrow> (snapshot_error, preflight_counts) result"
  and preflight_members :: "preflight_role \<Rightarrow> nat \<Rightarrow> (string \<times> json_node) list \<Rightarrow> preflight_counts \<Rightarrow>
    (snapshot_error, preflight_counts) result"
  and preflight_elements :: "preflight_role \<Rightarrow> nat \<Rightarrow> json_node list \<Rightarrow> preflight_counts \<Rightarrow>
    (snapshot_error, preflight_counts) result" where
  "preflight_node role depth node counts =
     (if 128 \<le> depth then Inl InvalidSnapshot
      else (case node of
          J_Scalar \<Rightarrow> Inr counts
        | J_Error \<Rightarrow> Inl InvalidSnapshot
        | J_Map members closed \<Rightarrow>
            and_then (preflight_members role depth members counts) (\<lambda>c. if closed then Inr c else Inl InvalidSnapshot)
        | J_Seq elements closed \<Rightarrow>
            and_then (preflight_elements role depth elements counts) (\<lambda>c. if closed then Inr c else Inl InvalidSnapshot)))"
| "preflight_members role depth [] counts = Inr counts"
| "preflight_members role depth ((key, member) # rest) counts =
     and_then (preflight_count role counts) (\<lambda>c.
     and_then (preflight_node (child_role role key) (depth + 1) member c) (preflight_members role depth rest))"
| "preflight_elements role depth [] counts = Inr counts"
| "preflight_elements role depth (element # rest) counts =
     and_then (preflight_node Other_Role (depth + 1) element counts) (\<lambda>c.
     and_then (preflight_count role c) (preflight_elements role depth rest))"

text \<open>The second component says whether the text ends after the document.\<close>

definition preflight_check :: "json_node \<times> bool \<Rightarrow> (snapshot_error, unit) result" where
  "preflight_check = (\<lambda>(document, ends).
     and_then (preflight_node Root_Role 0 document (0, 0)) (\<lambda>_. ensure ends InvalidSnapshot))"

text \<open>The JSON reader's view of the format fields, absent where the text is not such a document.\<close>

record snapshot_json =
  sj_format :: "string \<Rightarrow> (nat option \<times> bool) option"
  sj_document :: "string \<Rightarrow> json_node \<times> bool"
  sj_lockfile :: json

datatype snapshot = Native_Snapshot graph_snapshot | Imported_Snapshot string

definition recorded_relationships :: "lockfile \<Rightarrow> nat" where
  "recorded_relationships l =
     length (lf_roots l) + bm_len (lf_root_bindings l) +
     sum_list (map (\<lambda>p. bm_len (lp_dependencies p)) (bm_values (lf_packages l))) +
     sum_list (map (\<lambda>p. bm_len (lw_dependencies p)) (bm_values (lf_workspace_packages l)))"

definition snapshot_from_bytes ::
  "('v::linorder) crates \<Rightarrow> (string \<Rightarrow> string) \<Rightarrow> snapshot_json \<Rightarrow> string \<Rightarrow> (snapshot_error, snapshot) result" where
  "snapshot_from_bytes C sha256 J bytes =
     (if MAX_INPUT_BYTES < length bytes then Inl InputLimit
      else and_then (ok_or InvalidSnapshot (sj_format J bytes)) (\<lambda>(lockfile_version, has_bindings).
        and_then (ok_or UnsupportedFormat lockfile_version) (\<lambda>schema.
        if schema < 4 \<or> 10 < schema then Inl UnsupportedFormat
        else and_then (preflight_check (sj_document J bytes)) (\<lambda>_.
          if \<not> utf8_valid bytes then Inl InvalidSnapshot
          else if schema = 8 then Inr (Imported_Snapshot bytes)
          else and_then (map_err (\<lambda>_. InvalidSnapshot) (from_json C (sj_lockfile J) bytes)) (\<lambda>l.
            if MAX_INSTANCES < bm_len (lf_packages l) + bm_len (lf_workspace_packages l) \<or>
               MAX_RELATIONSHIPS < recorded_relationships l
            then Inl AnalysisLimit
            else Inr (Native_Snapshot
              \<lparr>gs_lock = l, gs_schema = schema, gs_named_root_bindings = has_bindings,
               gs_digest = ''sha256-'' @ sha256 bytes\<rparr>))))))"

section \<open>Inventory\<close>

definition reference_for :: "(string \<Rightarrow> string) \<Rightarrow> string \<Rightarrow> string \<Rightarrow> string" where
  "reference_for sha256 format ident =
     ''instance-v1-'' @ sha256 (''tapid-lock-graph-instance-v1'' @ [CHR 0x00] @ format @ [CHR 0x00] @ ident)"

definition reference :: "(string \<Rightarrow> string) \<Rightarrow> string \<Rightarrow> string" where
  "reference sha256 ident = reference_for sha256 ''native'' ident"

text \<open>The packages of a lockfile in the order in which they are visited, with their dependencies.\<close>

definition native_entries :: "lockfile \<Rightarrow> (string \<times> (string, string) btree_map) list" where
  "native_entries l =
     map (\<lambda>(key, p). (key, lp_dependencies p)) (bm_entries (lf_packages l)) @
     map (\<lambda>(key, p). (key, lw_dependencies p)) (bm_entries (lf_workspace_packages l))"

definition dependency_relationship :: "(string \<Rightarrow> string) \<Rightarrow> string \<Rightarrow> string \<times> string \<Rightarrow> graph_relationship" where
  "dependency_relationship sha256 ident = (\<lambda>(name, target).
     \<lparr>gr_kind = ''dependency'', gr_parent = Some (reference sha256 ident), gr_local_name = Some name,
      gr_target = reference sha256 target\<rparr>)"

fun inspect_entries ::
  "('v::linorder) crates \<Rightarrow> (string \<Rightarrow> string) \<Rightarrow> (string \<times> (string, string) btree_map) list \<Rightarrow>
   (graph_instance list \<times> graph_relationship list) option" where
  "inspect_entries C sha256 [] = Some ([], [])"
| "inspect_entries C sha256 ((ident, dependencies) # rest) =
     (case key_from_str C ident of
        Inl _ \<Rightarrow> None
      | Inr key \<Rightarrow> (case inspect_entries C sha256 rest of
            None \<Rightarrow> None
          | Some (instances, relationships) \<Rightarrow> Some
              (\<lparr>gi_reference = reference sha256 ident, gi_identity = ident, gi_name = key_name key,
                gi_version = sv_to_string C (key_version key), gi_placement = None\<rparr> # instances,
               map (dependency_relationship sha256 ident) (bm_entries dependencies) @ relationships)))"

definition relationship_order ::
  "graph_relationship \<Rightarrow> (string, string) btree_map \<Rightarrow> (nat \<times> string option \<times> string option \<times> string) option" where
  "relationship_order edge identities =
     (case (case gr_parent edge of None \<Rightarrow> Some None | Some p \<Rightarrow> map_option Some (bm_get identities p)) of
        None \<Rightarrow> None
      | Some parent \<Rightarrow> (case bm_get identities (gr_target edge) of
            None \<Rightarrow> None
          | Some target \<Rightarrow> Some
              (if gr_kind edge = ''root'' then 0 else if gr_kind edge = ''root_binding'' then 1 else 2,
               parent, gr_local_name edge, target)))"

definition identities_of :: "graph_instance list \<Rightarrow> (string, string) btree_map" where
  "identities_of instances = bm_of_list (map (\<lambda>p. (gi_reference p, gi_identity p)) instances)"

text \<open>A sort whose comparison could fail: it compares when there are two elements or more.\<close>

definition sort_by_order :: "('a \<Rightarrow> 'k::linorder option) \<Rightarrow> 'a list \<Rightarrow> 'a list option" where
  "sort_by_order order xs =
     (if length xs < 2 \<or> list_all (\<lambda>x. order x \<noteq> None) xs then Some (sort_key (\<lambda>x. the (order x)) xs) else None)"

definition sort_relationships ::
  "graph_relationship list \<Rightarrow> graph_instance list \<Rightarrow> graph_relationship list option" where
  "sort_relationships relationships instances =
     sort_by_order (\<lambda>e. relationship_order e (identities_of instances)) relationships"

definition root_relationships :: "(string \<Rightarrow> string) \<Rightarrow> lockfile \<Rightarrow> graph_relationship list" where
  "root_relationships sha256 l =
     map (\<lambda>target. \<lparr>gr_kind = ''root'', gr_parent = None, gr_local_name = None, gr_target = reference sha256 target\<rparr>)
       (lf_roots l) @
     map (\<lambda>(name, target). \<lparr>gr_kind = ''root_binding'', gr_parent = None, gr_local_name = Some name,
         gr_target = reference sha256 target\<rparr>) (bm_entries (lf_root_bindings l))"

definition snapshot_availability :: "graph_snapshot \<Rightarrow> graph_availability" where
  "snapshot_availability s =
     \<lparr>explicit_roots = 5 \<le> gs_schema s \<or> lf_roots (gs_lock s) \<noteq> [], named_root_bindings = gs_named_root_bindings s,
      exact_scripts = False, host_toolchain = False, derived_outputs = 9 \<le> gs_schema s, verification_receipts = False,
      declaration_requirements = False, peer_provider_targets = False\<rparr>"

definition inspect :: "('v::linorder) crates \<Rightarrow> (string \<Rightarrow> string) \<Rightarrow> graph_snapshot \<Rightarrow> graph_inspection option" where
  "inspect C sha256 s =
     (case inspect_entries C sha256 (native_entries (gs_lock s)) of
        None \<Rightarrow> None
      | Some (unsorted, relationships) \<Rightarrow>
          let instances = sort_key gi_identity unsorted in
          map_option (\<lambda>edges.
            \<lparr>gx_schema = gs_schema s, gx_snapshot_digest = gs_digest s, gx_scope = Scope_All,
             gx_availability = snapshot_availability s,
             gx_coverage = \<lparr>analysis_complete = True, total_instances = length instances,
               total_relationships = length edges, excluded_instances = 0, excluded_relationships = 0\<rparr>,
             gx_instances = instances, gx_relationships = edges\<rparr>)
            (sort_relationships (relationships @ root_relationships sha256 (gs_lock s)) instances))"

definition edge_touches :: "string btree_set \<Rightarrow> graph_relationship \<Rightarrow> bool" where
  "edge_touches selected edge \<longleftrightarrow> bs_contains selected (gr_target edge) \<or>
     (case gr_parent edge of None \<Rightarrow> False | Some p \<Rightarrow> bs_contains selected p)"

text \<open>The whole inventory first, then the selection; the outer option is the panic of the inventory.\<close>

definition select_scope :: "graph_scope \<Rightarrow> graph_inspection \<Rightarrow> graph_inspection" where
  "select_scope scope r =
     (let instances = filter (scope_includes scope) (gx_instances r);
          selected = bs_of_list (map gi_reference instances);
          edges = filter (edge_touches selected) (gx_relationships r) in
      r\<lparr>gx_instances := instances, gx_relationships := edges,
        gx_coverage := (gx_coverage r)\<lparr>excluded_instances := total_instances (gx_coverage r) - length instances,
          excluded_relationships := total_relationships (gx_coverage r) - length edges\<rparr>,
        gx_scope := scope\<rparr>)"

definition inspect_scope ::
  "('v::linorder) crates \<Rightarrow> (string \<Rightarrow> string) \<Rightarrow> graph_snapshot \<Rightarrow> graph_scope \<Rightarrow> (snapshot_error, graph_inspection) result option" where
  "inspect_scope C sha256 s scope0 =
     (case scope_normalized scope0 of
        Inl e \<Rightarrow> Some (Inl e)
      | Inr scope \<Rightarrow> map_option (\<lambda>r. Inr (select_scope scope r)) (inspect C sha256 s))"

end
