(* ===== verification/Comparison.thy ===== *)
theory Comparison
  imports Inspection
begin

text \<open>
  The crate \<open>tapid-lockfile\<close>, comparison of two native snapshots: instances, selection sites
  and evidence. Two native snapshots always support the comparison of their selections; the branches
  with an imported snapshot are not modelled.
\<close>

record relationship_change =
  rc_before :: "graph_relationship option"
  rc_after :: "graph_relationship option"

record evidence_change =
  ec_dimension :: string
  ec_subject :: "string option"
  ec_before :: "(string, string) btree_map"
  ec_after :: "(string, string) btree_map"
  ec_attestation_changed :: bool

record graph_comparison =
  gc_selected_graph_supported :: bool
  gc_unsupported_reason :: "string option"
  gc_scope :: graph_scope
  gc_before_digest :: string
  gc_after_digest :: string
  gc_before_availability :: graph_availability
  gc_after_availability :: graph_availability
  gc_before_coverage :: graph_coverage
  gc_after_coverage :: graph_coverage
  gc_added_instances :: "graph_instance list"
  gc_removed_instances :: "graph_instance list"
  gc_changed_selections :: nat
  gc_relationship_changes :: "relationship_change list"
  gc_evidence_changes :: "evidence_change list"

section \<open>Evidence\<close>

definition artifact :: "locked_package \<Rightarrow> (string, string) btree_map" where
  "artifact p =
     (let evidence = bm_of_list [(''integrity'', lp_artifact_integrity p), (''tree_digest'', lp_tree_digest p),
            (''unpacked_digest'', lp_unpacked_digest p)];
          evidence1 = (case lp_artifact_url p of None \<Rightarrow> evidence | Some v \<Rightarrow> bm_insert ''url'' v evidence) in
      (case lp_registry_integrity_declared p of
         None \<Rightarrow> evidence1
       | Some v \<Rightarrow> bm_insert ''registry_integrity_declared'' (if v then ''true'' else ''false'') evidence1))"

fun derived_from :: "nat \<Rightarrow> derived_hook_output list \<Rightarrow> (string, string) btree_map \<Rightarrow> (string, string) btree_map" where
  "derived_from index [] evidence = evidence"
| "derived_from index (hook # rest) evidence =
     derived_from (Suc index) rest
       (bm_insert (dec_string index @ ''.tree_digest'') (dh_tree_digest hook)
         (bm_insert (dec_string index @ ''.recipe_key'') (dh_key hook)
           (bm_insert (dec_string index @ ''.hook'') (dh_hook hook) evidence)))"

definition derived :: "locked_package \<Rightarrow> (string, string) btree_map" where
  "derived p = derived_from 0 (lp_derived_hooks p) bm_empty"

definition record_evidence ::
  "string \<Rightarrow> string option \<Rightarrow> (string, string) btree_map \<Rightarrow> (string, string) btree_map \<Rightarrow> bool \<Rightarrow> evidence_change list" where
  "record_evidence dimension subject before after attestation_changed =
     (if before \<noteq> after \<or> attestation_changed
      then [\<lparr>ec_dimension = dimension, ec_subject = subject, ec_before = before, ec_after = after,
             ec_attestation_changed = attestation_changed\<rparr>]
      else [])"

definition manifest_evidence :: "string \<Rightarrow> (string, string) btree_map" where
  "manifest_evidence d = bm_of_list [(''manifest_digest'', d)]"

text \<open>The packages that both maps hold, in the order of their keys.\<close>

definition common_entries :: "(string, 'p) btree_map \<Rightarrow> (string, 'p) btree_map \<Rightarrow> (string \<times> 'p \<times> 'p) list" where
  "common_entries before after =
     concat (map (\<lambda>(key, p). case bm_get after key of None \<Rightarrow> [] | Some q \<Rightarrow> [(key, p, q)]) (bm_entries before))"

definition attestations :: "locked_package \<Rightarrow> (string \<times> string) list" where
  "attestations p = map (\<lambda>h. (dh_hook h, dh_attestation h)) (lp_derived_hooks p)"

definition evidence_changes :: "(string \<Rightarrow> string) \<Rightarrow> lockfile \<Rightarrow> lockfile \<Rightarrow> evidence_change list" where
  "evidence_changes sha256 before after =
     record_evidence ''declarations'' None (manifest_evidence (lf_root_manifest_digest before))
       (manifest_evidence (lf_root_manifest_digest after)) False @
     concat (map (\<lambda>(key, p, q). record_evidence ''declarations'' (Some (reference sha256 key))
         (manifest_evidence (lw_manifest_digest p)) (manifest_evidence (lw_manifest_digest q)) False)
       (common_entries (lf_workspace_packages before) (lf_workspace_packages after))) @
     concat (map (\<lambda>(key, p, q). record_evidence ''source_artifact'' (Some (reference sha256 key)) (artifact p) (artifact q) False)
       (common_entries (lf_packages before) (lf_packages after))) @
     concat (map (\<lambda>(key, p, q). record_evidence ''derived_outputs'' (Some (reference sha256 key)) (derived p) (derived q)
         (attestations p \<noteq> attestations q))
       (common_entries (lf_packages before) (lf_packages after)))"

definition evidence_key :: "(string, string) btree_map \<Rightarrow> evidence_change \<Rightarrow> nat \<times> string" where
  "evidence_key identities c =
     (if ec_dimension c = ''declarations'' then 0 else if ec_dimension c = ''source_artifact'' then 1
      else if ec_dimension c = ''verification_receipts'' then 2 else 3,
      case ec_subject c of None \<Rightarrow> [] | Some p \<Rightarrow> (case bm_get identities p of None \<Rightarrow> [] | Some i \<Rightarrow> i))"

section \<open>Selections\<close>

type_synonym site = "string \<times> string option \<times> string option \<times> string option"

text \<open>A named relationship is a selection site; an unnamed one is identified by its target too.\<close>

definition site_of :: "(string, string) btree_map \<Rightarrow> graph_relationship \<Rightarrow> site" where
  "site_of placements edge =
     (gr_kind edge,
      map_option (\<lambda>p. case bm_get placements p of None \<Rightarrow> p | Some q \<Rightarrow> q) (gr_parent edge),
      gr_local_name edge,
      if gr_local_name edge = None then Some (gr_target edge) else None)"

definition placements_of :: "graph_instance list \<Rightarrow> (string, string) btree_map" where
  "placements_of instances =
     bm_of_list (concat (map (\<lambda>p. case gi_placement p of None \<Rightarrow> [] | Some path \<Rightarrow> [(gi_reference p, path)]) instances))"

definition comparable :: "graph_availability \<Rightarrow> graph_availability \<Rightarrow> graph_relationship \<Rightarrow> bool" where
  "comparable before after edge =
     (if gr_kind edge = ''root_binding'' then named_root_bindings before \<and> named_root_bindings after
      else if gr_kind edge = ''root'' then explicit_roots before \<and> explicit_roots after
      else True)"

definition edges_by_site ::
  "graph_availability \<Rightarrow> graph_availability \<Rightarrow> (string, string) btree_map \<Rightarrow> graph_relationship list \<Rightarrow>
   (site, graph_relationship) btree_map" where
  "edges_by_site before after placements edges =
     bm_of_list (map (\<lambda>e. (site_of placements e, e)) (filter (comparable before after) edges))"

definition changes_at ::
  "(site, graph_relationship) btree_map \<Rightarrow> (site, graph_relationship) btree_map \<Rightarrow> site list \<Rightarrow> (site \<times> relationship_change) list" where
  "changes_at old new sites =
     map (\<lambda>s. (s, \<lparr>rc_before = bm_get old s, rc_after = bm_get new s\<rparr>))
       (filter (\<lambda>s. bm_get old s \<noteq> bm_get new s) sites)"

definition change_order ::
  "(string, string) btree_map \<Rightarrow> relationship_change \<Rightarrow> (nat \<times> string option \<times> string option \<times> string) option" where
  "change_order identities c =
     (case rc_before c of
        Some e \<Rightarrow> relationship_order e identities
      | None \<Rightarrow> (case rc_after c of Some e \<Rightarrow> relationship_order e identities | None \<Rightarrow> None))"

definition instances_by_identity :: "graph_instance list \<Rightarrow> (string, graph_instance) btree_map" where
  "instances_by_identity instances = bm_of_list (map (\<lambda>p. (gi_identity p, p)) instances)"

definition missing_instances ::
  "(string, graph_instance) btree_map \<Rightarrow> (string, graph_instance) btree_map \<Rightarrow> graph_instance list" where
  "missing_instances from there = map snd (filter (\<lambda>(key, _). \<not> bm_contains_key there key) (bm_entries from))"

definition compare_inspections ::
  "evidence_change list \<Rightarrow> graph_inspection \<Rightarrow> graph_inspection \<Rightarrow> graph_comparison option" where
  "compare_inspections evidence before after =
     (let both = gx_instances before @ gx_instances after;
          placements = placements_of both;
          old = instances_by_identity (gx_instances before);
          new = instances_by_identity (gx_instances after);
          old_edges = edges_by_site (gx_availability before) (gx_availability after) placements (gx_relationships before);
          new_edges = edges_by_site (gx_availability before) (gx_availability after) placements (gx_relationships after);
          sites = dedup (sort (bm_keys old_edges @ bm_keys new_edges));
          changes = changes_at old_edges new_edges sites;
          identities = identities_of both in
      map_option (\<lambda>sorted_changes.
        \<lparr>gc_selected_graph_supported = True, gc_unsupported_reason = None,
         gc_scope = Scope_All, gc_before_digest = gx_snapshot_digest before, gc_after_digest = gx_snapshot_digest after,
         gc_before_availability = gx_availability before, gc_after_availability = gx_availability after,
         gc_before_coverage = gx_coverage before, gc_after_coverage = gx_coverage after,
         gc_added_instances = missing_instances new old, gc_removed_instances = missing_instances old new,
         gc_changed_selections = length (filter (\<lambda>(s, _). fst (snd (snd s)) \<noteq> None) changes),
         gc_relationship_changes = sorted_changes,
         gc_evidence_changes = sort_key (evidence_key identities) evidence\<rparr>)
        (sort_by_order (change_order identities) (map snd changes)))"

definition compare ::
  "('v::linorder) crates \<Rightarrow> (string \<Rightarrow> string) \<Rightarrow> graph_snapshot \<Rightarrow> graph_snapshot \<Rightarrow> graph_comparison option" where
  "compare C sha256 before after =
     (case (inspect C sha256 before, inspect C sha256 after) of
        (Some b, Some a) \<Rightarrow> compare_inspections (evidence_changes sha256 (gs_lock before) (gs_lock after)) b a
      | _ \<Rightarrow> None)"

section \<open>Scoped comparison\<close>

definition restrict_comparison :: "graph_inspection \<Rightarrow> graph_inspection \<Rightarrow> graph_comparison \<Rightarrow> graph_comparison" where
  "restrict_comparison before_scope after_scope r =
     (let selected = bs_of_list (map gi_reference (gx_instances before_scope @ gx_instances after_scope));
          touches = (\<lambda>e. case e of None \<Rightarrow> False | Some edge \<Rightarrow> edge_touches selected edge);
          changes = filter (\<lambda>c. touches (rc_before c) \<or> touches (rc_after c)) (gc_relationship_changes r) in
      r\<lparr>gc_added_instances := filter (\<lambda>p. bs_contains selected (gi_reference p)) (gc_added_instances r),
        gc_removed_instances := filter (\<lambda>p. bs_contains selected (gi_reference p)) (gc_removed_instances r),
        gc_relationship_changes := changes,
        gc_changed_selections := length (filter (\<lambda>c.
          case (case rc_before c of Some e \<Rightarrow> Some e | None \<Rightarrow> rc_after c) of
            None \<Rightarrow> False | Some e \<Rightarrow> gr_local_name e \<noteq> None) changes),
        gc_evidence_changes := filter (\<lambda>c. case ec_subject c of None \<Rightarrow> True | Some p \<Rightarrow> bs_contains selected p)
          (gc_evidence_changes r),
        gc_before_coverage := gx_coverage before_scope, gc_after_coverage := gx_coverage after_scope,
        gc_scope := gx_scope before_scope\<rparr>)"

definition compare_scope ::
  "('v::linorder) crates \<Rightarrow> (string \<Rightarrow> string) \<Rightarrow> graph_snapshot \<Rightarrow> graph_snapshot \<Rightarrow> graph_scope \<Rightarrow>
   (snapshot_error, graph_comparison) result option" where
  "compare_scope C sha256 before after scope =
     (case inspect_scope C sha256 before scope of
        None \<Rightarrow> None
      | Some (Inl e) \<Rightarrow> Some (Inl e)
      | Some (Inr before_scope) \<Rightarrow> (case inspect_scope C sha256 after scope of
            None \<Rightarrow> None
          | Some (Inl e) \<Rightarrow> Some (Inl e)
          | Some (Inr after_scope) \<Rightarrow>
              map_option (\<lambda>r. Inr (restrict_comparison before_scope after_scope r)) (compare C sha256 before after)))"

end
