(* ===== verification/Inspection_Facts.thy ===== *)
theory Inspection_Facts
  imports Comparison Why_Facts
begin

text \<open>
  Facts on inspection: the inventory of a valid lockfile never panics and holds exactly what
  the lockfile records.
\<close>

section \<open>The keys and edges of a lockfile\<close>

definition lock_keys :: "lockfile \<Rightarrow> string set" where
  "lock_keys l = dom (bm_get (lf_packages l)) \<union> dom (bm_get (lf_workspace_packages l))"

definition lock_edges :: "lockfile \<Rightarrow> (string \<times> string \<times> string) set" where
  "lock_edges l = {(key, name, target).
     (\<exists>p. bm_get (lf_packages l) key = Some p \<and> bm_get (lp_dependencies p) name = Some target) \<or>
     (\<exists>p. bm_get (lf_workspace_packages l) key = Some p \<and> bm_get (lw_dependencies p) name = Some target)}"

lemma lock_edges_entries:
  "(key, name, target) \<in> lock_edges l \<longleftrightarrow> (\<exists>deps. (key, deps) \<in> set (native_entries l) \<and> bm_get deps name = Some target)"
  by (force simp: lock_edges_def native_entries_def bm_get_in_entries)

lemma fst_bm_entries: "fst ` set (bm_entries m) = dom (bm_get m)"
  using set_bm_keys [of m] by (simp add: bm_keys_def)

lemma native_entries_keys: "fst ` set (native_entries l) = lock_keys l"
  by (simp add: native_entries_def lock_keys_def image_Un image_image case_prod_beta fst_bm_entries)

text \<open>A map collected from pairs in which a key has one value only.\<close>

lemma dom_bm_of_list: "dom (bm_get (bm_of_list es)) = fst ` set es"
  by (simp add: bm_of_list_def bm_extend_facts(2))

lemma bm_of_list_functional:
  assumes "\<And>k v w. (k, v) \<in> set es \<Longrightarrow> (k, w) \<in> set es \<Longrightarrow> v = w"
  shows "bm_get (bm_of_list es) k = Some v \<longleftrightarrow> (k, v) \<in> set es"
proof -
  have get: "bm_get (bm_of_list es) k = map_of (rev es) k" by (simp add: bm_of_list_def bm_extend_facts(1))
  show ?thesis
  proof
    assume "(k, v) \<in> set es"
    then obtain w where "map_of (rev es) k = Some w" by (metis map_of_eq_None_iff not_Some_eq set_rev image_eqI fst_conv)
    then show "bm_get (bm_of_list es) k = Some v" using assms [of k v w] \<open>(k, v) \<in> set es\<close> get map_of_SomeD [of "rev es"] by auto
  qed (auto simp: get dest: map_of_SomeD)
qed

lemma lock_keys_contains: "key \<in> lock_keys l \<longleftrightarrow> contains_package_key l key"
  by (auto simp: lock_keys_def contains_package_key_def bm_contains_key_iff)

lemma lock_edges_targets:
  assumes "lockfile_ok C l" and "(key, name, target) \<in> lock_edges l"
  shows "key \<in> lock_keys l \<and> target \<in> lock_keys l"
proof -
  obtain deps where d: "(key, deps) \<in> set (native_entries l)" "bm_get deps name = Some target"
    using assms(2) by (auto simp: lock_edges_entries)
  then have "key \<in> lock_keys l" using native_entries_keys [of l] by force
  moreover have "contains_package_key l target"
    using d assms(1) by (auto simp: native_entries_def lockfile_ok_def edges_ok_def edge_target_ok_def
      simp flip: bm_get_in_entries)
  ultimately show ?thesis by (simp add: lock_keys_contains)
qed

lemma lock_roots_targets:
  assumes "lockfile_ok C l"
  shows "root \<in> set (lf_roots l) \<Longrightarrow> root \<in> lock_keys l"
    and "bm_get (lf_root_bindings l) name = Some target \<Longrightarrow> target \<in> lock_keys l"
proof -
  show root: "root \<in> lock_keys l" if "root \<in> set (lf_roots l)" for root
    using assms that unfolding lock_keys_contains
    by (fastforce simp: lockfile_ok_def roots_ok_def check_root_def result_simps split: if_splits)
  assume b: "bm_get (lf_root_bindings l) name = Some target"
  then have "lf_root_bindings l \<noteq> bm_empty" by auto
  then have "set_root_bindings C (lf_root_bindings l) l = Inr l" using assms by (simp add: lockfile_ok_def roots_ok_def)
  then have "for_each (check_binding C l) (bm_entries (lf_root_bindings l)) = Inr ()"
    by (auto simp: set_root_bindings_def result_simps)
  then have "check_binding C l (name, target) = Inr ()" using b by (simp add: for_each_Inr bm_get_in_entries)
  then have "target \<in> set (lf_roots l)" by (auto simp: check_binding_def result_simps split: if_splits)
  then show "target \<in> lock_keys l" by (rule root)
qed

section \<open>The inventory\<close>

lemma inspect_entries_ok:
  "(\<And>key. key \<in> fst ` set es \<Longrightarrow> \<exists>k. key_from_str C key = Inr k) \<Longrightarrow>
   \<exists>is rs. inspect_entries C sha256 es = Some (is, rs) \<and> map gi_identity is = map fst es \<and>
     list_all (\<lambda>i. gi_reference i = reference sha256 (gi_identity i) \<and> gi_placement i = None \<and>
       (\<exists>k. key_from_str C (gi_identity i) = Inr k \<and> gi_name i = key_name k)) is \<and>
     rs = concat (map (\<lambda>(key, deps). map (dependency_relationship sha256 key) (bm_entries deps)) es)"
proof (induction es)
  case (Cons e es)
  obtain key deps where e: "e = (key, deps)" by (cases e)
  obtain k where k: "key_from_str C key = Inr k" using Cons.prems [of key] e by auto
  obtain "is" rs where "inspect_entries C sha256 es = Some (is, rs)" "map gi_identity is = map fst es"
    "list_all (\<lambda>i. gi_reference i = reference sha256 (gi_identity i) \<and> gi_placement i = None \<and>
       (\<exists>k. key_from_str C (gi_identity i) = Inr k \<and> gi_name i = key_name k)) is"
    "rs = concat (map (\<lambda>(key, deps). map (dependency_relationship sha256 key) (bm_entries deps)) es)"
    using Cons by auto
  then show ?case using e k by simp
qed simp

definition edge_of :: "(string \<Rightarrow> string) \<Rightarrow> string \<times> string \<times> string \<Rightarrow> graph_relationship" where
  "edge_of sha256 = (\<lambda>(key, name, target).
     \<lparr>gr_kind = ''dependency'', gr_parent = Some (reference sha256 key), gr_local_name = Some name,
      gr_target = reference sha256 target\<rparr>)"

lemma dependency_edges:
  "set (concat (map (\<lambda>(key, deps). map (dependency_relationship sha256 key) (bm_entries deps)) (native_entries l))) =
   edge_of sha256 ` lock_edges l"
proof -
  have e: "edge_of sha256 = (\<lambda>(key, name, target). dependency_relationship sha256 key (name, target))"
    by (simp add: fun_eq_iff dependency_relationship_def edge_of_def)
  have l: "lock_edges l = {(key, name, target). \<exists>deps. (key, deps) \<in> set (native_entries l) \<and> bm_get deps name = Some target}"
    using lock_edges_entries by blast
  show ?thesis unfolding e l by (fastforce simp: bm_get_in_entries image_iff)
qed

definition native_instance :: "(string \<Rightarrow> string) \<Rightarrow> graph_instance \<Rightarrow> bool" where
  "native_instance sha256 i \<longleftrightarrow> gi_reference i = reference sha256 (gi_identity i) \<and> gi_placement i = None"

lemma identities_cover:
  "list_all (native_instance sha256) is \<Longrightarrow> key \<in> gi_identity ` set is \<Longrightarrow>
   reference sha256 key \<in> dom (bm_get (identities_of is))"
  unfolding identities_of_def dom_bm_of_list by (auto simp: list_all_iff native_instance_def image_image)

definition root_edge :: "(string \<Rightarrow> string) \<Rightarrow> string \<Rightarrow> graph_relationship" where
  "root_edge sha256 target = \<lparr>gr_kind = ''root'', gr_parent = None, gr_local_name = None, gr_target = reference sha256 target\<rparr>"

definition binding_edge :: "(string \<Rightarrow> string) \<Rightarrow> string \<times> string \<Rightarrow> graph_relationship" where
  "binding_edge sha256 = (\<lambda>(name, target).
     \<lparr>gr_kind = ''root_binding'', gr_parent = None, gr_local_name = Some name, gr_target = reference sha256 target\<rparr>)"

definition lock_relationships :: "(string \<Rightarrow> string) \<Rightarrow> lockfile \<Rightarrow> graph_relationship set" where
  "lock_relationships sha256 l = edge_of sha256 ` lock_edges l \<union> root_edge sha256 ` set (lf_roots l) \<union>
     binding_edge sha256 ` set (bm_entries (lf_root_bindings l))"

lemma root_relationships_set:
  "set (root_relationships sha256 l) = root_edge sha256 ` set (lf_roots l) \<union> binding_edge sha256 ` set (bm_entries (lf_root_bindings l))"
  by (simp add: root_relationships_def root_edge_def binding_edge_def)

lemma relationship_order_defined:
  assumes "lockfile_ok C l" and "e \<in> lock_relationships sha256 l"
    and "\<And>key. key \<in> lock_keys l \<Longrightarrow> reference sha256 key \<in> dom (bm_get ids)"
  shows "relationship_order e ids \<noteq> None"
proof -
  consider key name target where "(key, name, target) \<in> lock_edges l" "e = edge_of sha256 (key, name, target)"
    | root where "root \<in> set (lf_roots l)" "e = root_edge sha256 root"
    | name target where "bm_get (lf_root_bindings l) name = Some target" "e = binding_edge sha256 (name, target)"
    using assms(2) by (auto simp: lock_relationships_def bm_get_in_entries)
  then show ?thesis
  proof cases
    case 1
    then have "reference sha256 key \<in> dom (bm_get ids)" "reference sha256 target \<in> dom (bm_get ids)"
      using lock_edges_targets [OF assms(1)] assms(3) by auto
    then show ?thesis using 1(2) by (auto simp: edge_of_def dependency_relationship_def relationship_order_def)
  next
    case 2
    then have "reference sha256 root \<in> dom (bm_get ids)" using lock_roots_targets(1) [OF assms(1)] assms(3) by auto
    then show ?thesis using 2(2) by (auto simp: root_edge_def relationship_order_def)
  next
    case 3
    then have "reference sha256 target \<in> dom (bm_get ids)" using lock_roots_targets(2) [OF assms(1)] assms(3) by auto
    then show ?thesis using 3(2) by (auto simp: binding_edge_def relationship_order_def)
  qed
qed

lemma sort_by_order_defined:
  "(\<And>x. x \<in> set xs \<Longrightarrow> order x \<noteq> None) \<Longrightarrow> sort_by_order order xs = Some (sort_key (\<lambda>x. the (order x)) xs)"
  by (auto simp: sort_by_order_def list_all_iff)

lemma recorded_relationships_length:
  "length (concat (map (\<lambda>(key, deps). map (dependency_relationship sha256 key) (bm_entries deps)) (native_entries l)) @
     root_relationships sha256 l) = recorded_relationships l"
  by (simp add: recorded_relationships_def root_relationships_def native_entries_def length_concat bm_len_def bm_values_def
    comp_def case_prod_beta)

text \<open>The inventory of a valid lockfile.\<close>

lemma inspect_ok:
  assumes C: "semver_contract C" "url_contract C" and l: "lockfile_ok C (gs_lock s)"
  obtains r where "inspect C sha256 s = Some r" "gx_availability r = snapshot_availability s"
    "gx_snapshot_digest r = gs_digest s"
    "map gi_identity (gx_instances r) = sort (map fst (native_entries (gs_lock s)))"
    "list_all (native_instance sha256) (gx_instances r)"
    "\<And>i. i \<in> set (gx_instances r) \<Longrightarrow> \<exists>k. key_from_str C (gi_identity i) = Inr k \<and> gi_name i = key_name k"
    "set (gx_relationships r) = lock_relationships sha256 (gs_lock s)"
    "gx_coverage r = \<lparr>analysis_complete = True, total_instances = length (native_entries (gs_lock s)),
       total_relationships = recorded_relationships (gs_lock s), excluded_instances = 0, excluded_relationships = 0\<rparr>"
    "length (gx_relationships r) = recorded_relationships (gs_lock s)"
proof -
  let ?l = "gs_lock s"
  have parse: "\<exists>k. key_from_str C key = Inr k" if "key \<in> fst ` set (native_entries ?l)" for key
    using locked_keys_parse [OF C, of ?l key] l that by (auto simp: native_entries_keys lock_keys_def lockfile_ok_def)
  obtain "is" rs where i: "inspect_entries C sha256 (native_entries ?l) = Some (is, rs)"
    "map gi_identity is = map fst (native_entries ?l)"
    "list_all (\<lambda>i. gi_reference i = reference sha256 (gi_identity i) \<and> gi_placement i = None \<and>
       (\<exists>k. key_from_str C (gi_identity i) = Inr k \<and> gi_name i = key_name k)) is"
    "rs = concat (map (\<lambda>(key, deps). map (dependency_relationship sha256 key) (bm_entries deps)) (native_entries ?l))"
    using inspect_entries_ok [OF parse] by blast
  let ?is = "sort_key gi_identity is" and ?es = "rs @ root_relationships sha256 ?l"
  have edges: "set ?es = lock_relationships sha256 ?l"
    unfolding i(4) by (simp only: set_append dependency_edges root_relationships_set lock_relationships_def Un_assoc)
  have native: "list_all (native_instance sha256) ?is" using i(3) by (auto simp: list_all_iff native_instance_def)
  have keys: "gi_identity ` set ?is = lock_keys ?l"
    using arg_cong [OF i(2), of set] native_entries_keys [of ?l] by simp
  have "relationship_order e (identities_of ?is) \<noteq> None" if e: "e \<in> set ?es" for e
  proof (rule relationship_order_defined [OF l])
    show "e \<in> lock_relationships sha256 ?l" using e unfolding edges .
    show "reference sha256 key \<in> dom (bm_get (identities_of ?is))" if "key \<in> lock_keys ?l" for key
      using identities_cover [OF native, of key] that unfolding keys .
  qed
  then have sorted: "sort_relationships ?es ?is = Some (sort_key (\<lambda>e. the (relationship_order e (identities_of ?is))) ?es)"
    unfolding sort_relationships_def by (rule sort_by_order_defined)
  have ids: "map gi_identity ?is = sort (map fst (native_entries ?l))" using i(2) by (simp add: map_sort_key)
  have len: "length is = length (native_entries ?l)" using arg_cong [OF i(2), of length] by simp
  have count: "length ?es = recorded_relationships ?l" unfolding i(4) by (rule recorded_relationships_length)
  have r: "inspect C sha256 s = Some
    \<lparr>gx_schema = gs_schema s, gx_snapshot_digest = gs_digest s, gx_scope = Scope_All,
     gx_availability = snapshot_availability s,
     gx_coverage = \<lparr>analysis_complete = True, total_instances = length ?is,
       total_relationships = length (sort_key (\<lambda>e. the (relationship_order e (identities_of ?is))) ?es),
       excluded_instances = 0, excluded_relationships = 0\<rparr>,
     gx_instances = ?is, gx_relationships = sort_key (\<lambda>e. the (relationship_order e (identities_of ?is))) ?es\<rparr>"
    by (simp only: inspect_def i(1) option.case prod.case Let_def sorted option.map)
  show thesis
    by (rule that [OF r]) (use i(3) native ids edges len count in \<open>auto simp: list_all_iff\<close>)
qed

end
