(* ===== verification/Comparison_Facts.thy ===== *)
theory Comparison_Facts
  imports Inspection_Facts
begin

text \<open>
  Facts on comparison: a selection site determines a relationship, so that the maps by site
  hold the relationships of a lockfile and their difference is exact.
\<close>

section \<open>Selection sites\<close>

lemma native_entries_functional:
  assumes "semver_contract C" "url_contract C" and "entries_ok C l"
    and "(key, deps) \<in> set (native_entries l)" "(key, deps') \<in> set (native_entries l)"
  shows "deps = deps'"
  using assms(4,5) lock_keys_disjoint [OF assms(1-3)]
  by (auto simp: native_entries_def simp flip: bm_get_in_entries)

lemma lock_edges_functional:
  assumes "semver_contract C" "url_contract C" and "lockfile_ok C l"
    and "(key, name, a) \<in> lock_edges l" "(key, name, b) \<in> lock_edges l"
  shows "a = b"
  using assms(4,5) native_entries_functional [OF assms(1,2), of l key] assms(3)
  by (fastforce simp: lock_edges_entries lockfile_ok_def)

text \<open>A relationship of a lockfile, by its kind.\<close>

lemma lock_relationshipE:
  assumes "e \<in> lock_relationships sha256 l"
  obtains (dependency) key name target where "(key, name, target) \<in> lock_edges l" "e = edge_of sha256 (key, name, target)"
    | (root) target where "target \<in> set (lf_roots l)" "e = root_edge sha256 target"
    | (binding) name target where "bm_get (lf_root_bindings l) name = Some target" "e = binding_edge sha256 (name, target)"
  using assms by (auto simp: lock_relationships_def bm_get_in_entries)

lemmas edge_defs = edge_of_def dependency_relationship_def root_edge_def binding_edge_def

lemma site_determines_edge:
  assumes C: "semver_contract C" "url_contract C" and l: "lockfile_ok C l" and inj: "inj_on (reference sha256) (lock_keys l)"
    and e: "e \<in> lock_relationships sha256 l" and f: "f \<in> lock_relationships sha256 l"
    and site: "site_of bm_empty e = site_of bm_empty f"
  shows "e = f"
  using e
proof (cases rule: lock_relationshipE)
  case (dependency key name target)
  note d = dependency
  from f show ?thesis
  proof (cases rule: lock_relationshipE)
    case (dependency key' name' target')
    have "key' = key" "name' = name"
      using site d(2) dependency(2) lock_edges_targets [OF l d(1)] lock_edges_targets [OF l dependency(1)] inj
      by (auto simp: site_of_def edge_defs dest: inj_onD)
    then show ?thesis using lock_edges_functional [OF C l, of key name target target'] d dependency by simp
  qed (use site d in \<open>auto simp: site_of_def edge_defs\<close>)
next
  case (root target)
  with f site show ?thesis by (cases rule: lock_relationshipE) (auto simp: site_of_def edge_defs)
next
  case (binding name target)
  with f site show ?thesis by (cases rule: lock_relationshipE) (auto simp: site_of_def edge_defs)
qed

lemma edges_by_site_get:
  assumes "\<And>e f. e \<in> set es \<Longrightarrow> f \<in> set es \<Longrightarrow> site_of p e = site_of p f \<Longrightarrow> e = f"
  shows "bm_get (edges_by_site a b p es) s = Some e \<longleftrightarrow> e \<in> set es \<and> comparable a b e \<and> site_of p e = s"
proof -
  have "bm_get (edges_by_site a b p es) s = Some e \<longleftrightarrow>
      (s, e) \<in> set (map (\<lambda>e. (site_of p e, e)) (filter (comparable a b) es))"
    unfolding edges_by_site_def by (rule bm_of_list_functional) (use assms in auto)
  then show ?thesis by auto
qed

lemma edges_by_site_dom: "dom (bm_get (edges_by_site a b p es)) = site_of p ` {e \<in> set es. comparable a b e}"
  by (simp add: edges_by_site_def dom_bm_of_list image_image)

text \<open>No change is reported exactly when the two sides hold the same comparable relationships.\<close>

lemma changes_at_Nil:
  fixes a b :: graph_availability
  assumes "\<And>e f. e \<in> set es \<Longrightarrow> f \<in> set es \<Longrightarrow> site_of p e = site_of p f \<Longrightarrow> e = f"
    and "\<And>e f. e \<in> set fs \<Longrightarrow> f \<in> set fs \<Longrightarrow> site_of p e = site_of p f \<Longrightarrow> e = f"
  defines "old \<equiv> edges_by_site a b p es" and "new \<equiv> edges_by_site a b p fs"
  shows "changes_at old new (dedup (sort (bm_keys old @ bm_keys new))) = [] \<longleftrightarrow>
    {e \<in> set es. comparable a b e} = {e \<in> set fs. comparable a b e}"
proof -
  have get: "bm_get old s = Some e \<longleftrightarrow> e \<in> set es \<and> comparable a b e \<and> site_of p e = s"
    "bm_get new s = Some e \<longleftrightarrow> e \<in> set fs \<and> comparable a b e \<and> site_of p e = s" for s e
    unfolding old_def new_def by (rule edges_by_site_get, use assms(1,2) in blast)+
  have "changes_at old new (dedup (sort (bm_keys old @ bm_keys new))) = [] \<longleftrightarrow> (\<forall>s. bm_get old s = bm_get new s)"
    by (auto simp: changes_at_def filter_empty_conv set_bm_keys)
  also have "\<dots> \<longleftrightarrow> (\<forall>s e. bm_get old s = Some e \<longleftrightarrow> bm_get new s = Some e)"
    by (metis not_Some_eq)
  also have "\<dots> \<longleftrightarrow> {e \<in> set es. comparable a b e} = {e \<in> set fs. comparable a b e}"
    unfolding get by blast
  finally show ?thesis .
qed

section \<open>Equal relationships\<close>

lemma edge_kinds:
  "gr_kind (edge_of sha256 x) = ''dependency''" "gr_kind (root_edge sha256 y) = ''root''"
  "gr_kind (binding_edge sha256 z) = ''root_binding''"
  by (cases x; cases z; simp add: edge_defs)+

lemma lock_relationships_eq:
  assumes a: "lockfile_ok C a" and b: "lockfile_ok C b"
    and inj: "inj_on (reference sha256) (lock_keys a \<union> lock_keys b)"
  shows "edge_of sha256 ` lock_edges a = edge_of sha256 ` lock_edges b \<longleftrightarrow> lock_edges a = lock_edges b" (is ?edges)
    and "root_edge sha256 ` set (lf_roots a) = root_edge sha256 ` set (lf_roots b) \<longleftrightarrow> lf_roots a = lf_roots b" (is ?roots)
    and "binding_edge sha256 ` set (bm_entries (lf_root_bindings a)) = binding_edge sha256 ` set (bm_entries (lf_root_bindings b)) \<longleftrightarrow>
      lf_root_bindings a = lf_root_bindings b" (is ?bindings)
proof -
  let ?K = "lock_keys a \<union> lock_keys b"
  have "inj_on (edge_of sha256) (?K \<times> UNIV \<times> ?K)"
    using inj by (auto simp: inj_on_def edge_defs)
  moreover have "lock_edges a \<subseteq> ?K \<times> UNIV \<times> ?K" "lock_edges b \<subseteq> ?K \<times> UNIV \<times> ?K"
    using lock_edges_targets [OF a] lock_edges_targets [OF b] by auto
  ultimately show ?edges by (rule inj_on_image_eq_iff)
  have "inj_on (root_edge sha256) ?K" using inj by (auto simp: inj_on_def edge_defs)
  moreover have "set (lf_roots a) \<subseteq> ?K" "set (lf_roots b) \<subseteq> ?K"
    using lock_roots_targets(1) [OF a] lock_roots_targets(1) [OF b] by auto
  ultimately have "root_edge sha256 ` set (lf_roots a) = root_edge sha256 ` set (lf_roots b) \<longleftrightarrow>
      set (lf_roots a) = set (lf_roots b)" by (rule inj_on_image_eq_iff)
  moreover have "set (lf_roots a) = set (lf_roots b) \<longleftrightarrow> lf_roots a = lf_roots b"
    using a b by (auto simp: lockfile_ok_def roots_ok_def strict_sorted_iff intro: sorted_distinct_set_unique)
  ultimately show ?roots by simp
  have "inj_on (binding_edge sha256) (UNIV \<times> ?K)" using inj by (auto simp: inj_on_def edge_defs)
  moreover have "set (bm_entries (lf_root_bindings a)) \<subseteq> UNIV \<times> ?K" "set (bm_entries (lf_root_bindings b)) \<subseteq> UNIV \<times> ?K"
    using lock_roots_targets(2) [OF a] lock_roots_targets(2) [OF b] by (auto simp flip: bm_get_in_entries)
  ultimately have "binding_edge sha256 ` set (bm_entries (lf_root_bindings a)) = binding_edge sha256 ` set (bm_entries (lf_root_bindings b)) \<longleftrightarrow>
      set (bm_entries (lf_root_bindings a)) = set (bm_entries (lf_root_bindings b))" by (rule inj_on_image_eq_iff)
  moreover have "bm_get (lf_root_bindings a) = bm_get (lf_root_bindings b)"
    if "set (bm_entries (lf_root_bindings a)) = set (bm_entries (lf_root_bindings b))"
    using that by (intro ext) (metis bm_get_in_entries not_Some_eq)
  ultimately show ?bindings using bm_eqI by metis
qed

text \<open>What is comparable: all dependencies, and roots and bindings where both sides record them.\<close>

lemma comparable_relationships:
  "{e \<in> lock_relationships sha256 l. comparable x y e} = edge_of sha256 ` lock_edges l \<union>
     (if explicit_roots x \<and> explicit_roots y then root_edge sha256 ` set (lf_roots l) else {}) \<union>
     (if named_root_bindings x \<and> named_root_bindings y
      then binding_edge sha256 ` set (bm_entries (lf_root_bindings l)) else {})"
  by (auto simp: lock_relationships_def comparable_def edge_kinds)

lemma comparable_relationships_eq:
  assumes "lockfile_ok C a" and "lockfile_ok C b" and "inj_on (reference sha256) (lock_keys a \<union> lock_keys b)"
  shows "{e \<in> lock_relationships sha256 a. comparable x y e} = {e \<in> lock_relationships sha256 b. comparable x y e} \<longleftrightarrow>
    lock_edges a = lock_edges b \<and> (explicit_roots x \<and> explicit_roots y \<longrightarrow> lf_roots a = lf_roots b) \<and>
    (named_root_bindings x \<and> named_root_bindings y \<longrightarrow> lf_root_bindings a = lf_root_bindings b)" (is "?A = ?B \<longleftrightarrow> ?same")
proof
  assume eq: "?A = ?B"
  have k: "{e \<in> ?A. gr_kind e = k} = {e \<in> ?B. gr_kind e = k}" for k using eq by simp
  have s: "{e \<in> {e \<in> lock_relationships sha256 l. comparable x y e}. gr_kind e = ''dependency''} = edge_of sha256 ` lock_edges l"
    "explicit_roots x \<and> explicit_roots y \<Longrightarrow>
      {e \<in> {e \<in> lock_relationships sha256 l. comparable x y e}. gr_kind e = ''root''} = root_edge sha256 ` set (lf_roots l)"
    "named_root_bindings x \<and> named_root_bindings y \<Longrightarrow>
      {e \<in> {e \<in> lock_relationships sha256 l. comparable x y e}. gr_kind e = ''root_binding''} =
      binding_edge sha256 ` set (bm_entries (lf_root_bindings l))" for l
    unfolding comparable_relationships by (auto simp: edge_kinds)
  have "edge_of sha256 ` lock_edges a = edge_of sha256 ` lock_edges b"
    using k [of "''dependency''"] unfolding s(1) .
  moreover have "root_edge sha256 ` set (lf_roots a) = root_edge sha256 ` set (lf_roots b)"
    if "explicit_roots x \<and> explicit_roots y"
    using k [of "''root''"] unfolding s(2) [OF that] .
  moreover have "binding_edge sha256 ` set (bm_entries (lf_root_bindings a)) = binding_edge sha256 ` set (bm_entries (lf_root_bindings b))"
    if "named_root_bindings x \<and> named_root_bindings y"
    using k [of "''root_binding''"] unfolding s(3) [OF that] .
  ultimately show ?same unfolding lock_relationships_eq [OF assms] by blast
next
  assume ?same
  then show "?A = ?B" unfolding comparable_relationships by auto
qed

section \<open>Evidence\<close>

lemma record_evidence_Nil [simp]: "record_evidence d s b a c = [] \<longleftrightarrow> b = a \<and> \<not> c"
  by (simp add: record_evidence_def)

lemma manifest_evidence_inject [simp]: "manifest_evidence a = manifest_evidence b \<longleftrightarrow> a = b"
proof -
  have "bm_get (manifest_evidence d) ''manifest_digest'' = Some d" for d by (simp add: manifest_evidence_def bm_of_list_def)
  then show ?thesis by (metis option.inject)
qed

lemma set_common_entries:
  "(key, p, q) \<in> set (common_entries before after) \<longleftrightarrow> bm_get before key = Some p \<and> bm_get after key = Some q"
  by (auto simp: common_entries_def bm_get_in_entries [symmetric] split: option.splits)

definition same_artifact :: "locked_package \<Rightarrow> locked_package \<Rightarrow> bool" where
  "same_artifact p q \<longleftrightarrow> lp_artifact_integrity p = lp_artifact_integrity q \<and> lp_tree_digest p = lp_tree_digest q \<and>
     lp_unpacked_digest p = lp_unpacked_digest q \<and> lp_artifact_url p = lp_artifact_url q \<and>
     lp_registry_integrity_declared p = lp_registry_integrity_declared q"

lemma artifact_get:
  "bm_get (artifact p) ''integrity'' = Some (lp_artifact_integrity p)"
  "bm_get (artifact p) ''tree_digest'' = Some (lp_tree_digest p)"
  "bm_get (artifact p) ''unpacked_digest'' = Some (lp_unpacked_digest p)"
  "bm_get (artifact p) ''url'' = lp_artifact_url p"
  "bm_get (artifact p) ''registry_integrity_declared'' =
     map_option (\<lambda>v. if v then ''true'' else ''false'') (lp_registry_integrity_declared p)"
  by (auto simp: artifact_def bm_of_list_def Let_def split: option.splits)

lemma artifact_eq: "artifact p = artifact q \<longleftrightarrow> same_artifact p q"
proof
  assume eq: "artifact p = artifact q"
  have "lp_registry_integrity_declared p = lp_registry_integrity_declared q"
    using artifact_get(5) [of p] artifact_get(5) [of q] unfolding eq by (auto simp: map_option_case split: option.splits if_splits)
  then show "same_artifact p q"
    using artifact_get(1-4) [of p] artifact_get(1-4) [of q] unfolding eq by (simp add: same_artifact_def)
qed (simp add: same_artifact_def artifact_def)

lemma dec_string_dot_inject:
  "dec_string i @ CHR ''.'' # x = dec_string j @ CHR ''.'' # y \<longleftrightarrow> i = j \<and> x = y"
proof -
  have "takeWhile (\<lambda>c. c \<noteq> CHR ''.'') (dec_string n @ CHR ''.'' # z) = dec_string n" for n z
    using dec_string_no [of "CHR ''.''" n] by (subst takeWhile_append2) auto
  then show ?thesis by (metis append_same_eq dec_string_inject list.inject same_append_eq)
qed

lemma derived_from_keep:
  "(\<And>j x. n \<le> j \<Longrightarrow> k \<noteq> dec_string j @ CHR ''.'' # x) \<Longrightarrow> bm_get (derived_from n hooks m) k = bm_get m k"
proof (induction hooks arbitrary: n m)
  case (Cons h hooks)
  have "k \<noteq> dec_string n @ ''.tree_digest''" "k \<noteq> dec_string n @ ''.recipe_key''" "k \<noteq> dec_string n @ ''.hook''"
    using Cons.prems [of n] by auto
  then show ?case using Cons.IH [of "Suc n"] Cons.prems by simp
qed simp

lemma derived_from_get:
  "i < length hooks \<Longrightarrow>
    bm_get (derived_from n hooks m) (dec_string (n + i) @ ''.recipe_key'') = Some (dh_key (hooks ! i)) \<and>
    bm_get (derived_from n hooks m) (dec_string (n + i) @ ''.tree_digest'') = Some (dh_tree_digest (hooks ! i))"
proof (induction hooks arbitrary: n m i)
  case (Cons h hooks)
  show ?case
  proof (cases i)
    case 0
    have "bm_get (derived_from (Suc n) hooks m') (dec_string n @ CHR ''.'' # x) = bm_get m' (dec_string n @ CHR ''.'' # x)" for m' x
      by (rule derived_from_keep) (auto simp: dec_string_dot_inject)
    then show ?thesis using 0 by (simp add: dec_string_dot_inject)
  next
    case (Suc j)
    then show ?thesis using Cons.IH [of j "Suc n"] Cons.prems by simp
  qed
qed simp

lemma derived_eq:
  "derived p = derived q \<and> attestations p = attestations q \<longleftrightarrow> lp_derived_hooks p = lp_derived_hooks q"
proof
  let ?p = "lp_derived_hooks p" and ?q = "lp_derived_hooks q"
  assume eq: "derived p = derived q \<and> attestations p = attestations q"
  then have len: "length ?p = length ?q" by (metis attestations_def length_map)
  have "?p ! i = ?q ! i" if i: "i < length ?p" for i
  proof -
    have "attestations p ! i = attestations q ! i" using eq by simp
    then have "dh_hook (?p ! i) = dh_hook (?q ! i)" "dh_attestation (?p ! i) = dh_attestation (?q ! i)"
      using i len by (simp_all add: attestations_def)
    moreover have "dh_key (?p ! i) = dh_key (?q ! i)" "dh_tree_digest (?p ! i) = dh_tree_digest (?q ! i)"
      using derived_from_get [of i ?p 0 bm_empty] derived_from_get [of i ?q 0 bm_empty] i len eq
      by (simp_all add: derived_def)
    ultimately show ?thesis by simp
  qed
  with len show "?p = ?q" by (rule nth_equalityI)
qed (simp add: derived_def attestations_def)

text \<open>What evidence two lockfiles share: all of it is compared for the packages that both hold.\<close>

definition same_evidence :: "lockfile \<Rightarrow> lockfile \<Rightarrow> bool" where
  "same_evidence a b \<longleftrightarrow> lf_root_manifest_digest a = lf_root_manifest_digest b \<and>
     (\<forall>key p q. bm_get (lf_workspace_packages a) key = Some p \<and> bm_get (lf_workspace_packages b) key = Some q \<longrightarrow>
        lw_manifest_digest p = lw_manifest_digest q) \<and>
     (\<forall>key p q. bm_get (lf_packages a) key = Some p \<and> bm_get (lf_packages b) key = Some q \<longrightarrow>
        same_artifact p q \<and> lp_derived_hooks p = lp_derived_hooks q)"

lemma concat_common_Nil:
  "concat (map (\<lambda>(key, p, q). f key p q) (common_entries m n)) = [] \<longleftrightarrow>
   (\<forall>key p q. bm_get m key = Some p \<and> bm_get n key = Some q \<longrightarrow> f key p q = [])"
proof -
  have "concat (map (\<lambda>(key, p, q). f key p q) (common_entries m n)) = [] \<longleftrightarrow>
      (\<forall>key p q. (key, p, q) \<in> set (common_entries m n) \<longrightarrow> f key p q = [])"
    unfolding concat_eq_Nil_conv by (force simp: split_beta)
  then show ?thesis by (simp only: set_common_entries)
qed

lemma evidence_changes_Nil: "evidence_changes sha256 a b = [] \<longleftrightarrow> same_evidence a b"
  unfolding evidence_changes_def same_evidence_def append_is_Nil_conv concat_common_Nil record_evidence_Nil
    manifest_evidence_inject artifact_eq
  using derived_eq by blast

section \<open>Instances\<close>

lemma instances_by_identity_dom: "dom (bm_get (instances_by_identity is)) = gi_identity ` set is"
  by (simp add: instances_by_identity_def dom_bm_of_list image_image)

lemma instances_by_identity_value:
  "bm_get (instances_by_identity is) key = Some i \<Longrightarrow> gi_identity i = key"
  by (auto simp: instances_by_identity_def bm_of_list_def bm_extend_facts(1) dest: map_of_SomeD)

lemma missing_instances_identities:
  "map gi_identity (missing_instances (instances_by_identity is) (instances_by_identity js)) =
   filter (\<lambda>key. key \<notin> gi_identity ` set js) (bm_keys (instances_by_identity is))"
proof -
  have "gi_identity (snd e) = fst e" if "e \<in> set (bm_entries (instances_by_identity is))" for e
    using instances_by_identity_value [of "is" "fst e" "snd e"] that by (simp add: bm_get_in_entries)
  then have ids: "map (\<lambda>e. gi_identity (snd e)) (filter P (bm_entries (instances_by_identity is))) =
      map fst (filter P (bm_entries (instances_by_identity is)))" for P
    by (intro map_cong) auto
  have "map gi_identity (missing_instances (instances_by_identity is) (instances_by_identity js)) =
      map (\<lambda>e. gi_identity (snd e)) (filter (\<lambda>e. fst e \<notin> gi_identity ` set js) (bm_entries (instances_by_identity is)))"
    by (simp add: missing_instances_def case_prod_unfold comp_def bm_contains_key_iff instances_by_identity_dom)
  also have "\<dots> = filter (\<lambda>key. key \<notin> gi_identity ` set js) (bm_keys (instances_by_identity is))"
    unfolding ids by (simp add: bm_keys_def filter_map comp_def)
  finally show ?thesis .
qed

lemma placements_native:
  assumes "list_all (native_instance sha256) is"
  shows "placements_of is = bm_empty"
proof -
  have "concat (map (\<lambda>p. case gi_placement p of None \<Rightarrow> [] | Some path \<Rightarrow> [(gi_reference p, path)]) is) = []"
    using assms by (auto simp: list_all_iff native_instance_def)
  then show ?thesis by (simp only: placements_of_def bm_of_list_def bm_extend.simps)
qed

section \<open>The comparison\<close>

lemma change_order_defined:
  assumes "\<And>e. e \<in> set es \<union> set fs \<Longrightarrow> relationship_order e ids \<noteq> None"
    and c: "c \<in> snd ` set (changes_at (edges_by_site a b p es) (edges_by_site a b p fs) sites)"
  shows "change_order ids c \<noteq> None"
proof -
  have "e \<in> set gs" if "bm_get (edges_by_site a b p gs) s = Some e" for gs s e
    using that by (auto simp: edges_by_site_def bm_of_list_def bm_extend_facts(1) dest!: map_of_SomeD)
  then show ?thesis
    using c assms(1) by (auto simp: changes_at_def change_order_def split: option.splits)
qed

lemma sort_key_Nil: "sort_key f xs = [] \<longleftrightarrow> xs = []"
  by (metis length_0_conv length_sort)

lemma set_filter_eq: "set (filter (\<lambda>x. x \<notin> B) xs) = set xs - B"
  by auto

lemma changes_sorted:
  assumes a: "lockfile_ok C a" and b: "lockfile_ok C b"
    and cover: "\<And>key. key \<in> lock_keys a \<union> lock_keys b \<Longrightarrow> reference sha256 key \<in> dom (bm_get ids)"
    and es: "set es = lock_relationships sha256 a" and fs: "set fs = lock_relationships sha256 b"
  shows "sort_by_order (change_order ids) (map snd (changes_at (edges_by_site v w p es) (edges_by_site v w p fs) sites)) =
    Some (sort_key (\<lambda>c. the (change_order ids c)) (map snd (changes_at (edges_by_site v w p es) (edges_by_site v w p fs) sites)))"
proof (rule sort_by_order_defined)
  have order: "relationship_order e ids \<noteq> None" if "e \<in> set es \<union> set fs" for e
    using relationship_order_defined [OF a, of e sha256 ids] relationship_order_defined [OF b, of e sha256 ids]
      cover that es fs by blast
  fix c assume "c \<in> set (map snd (changes_at (edges_by_site v w p es) (edges_by_site v w p fs) sites))"
  then show "change_order ids c \<noteq> None" using change_order_defined [OF order] by simp
qed

lemma compare_inspections_ok:
  assumes C: "semver_contract C" "url_contract C" and a: "lockfile_ok C a" and b: "lockfile_ok C b"
    and inj: "inj_on (reference sha256) (lock_keys a \<union> lock_keys b)"
    and x: "gi_identity ` set (gx_instances x) = lock_keys a" "list_all (native_instance sha256) (gx_instances x)"
      "set (gx_relationships x) = lock_relationships sha256 a"
    and y: "gi_identity ` set (gx_instances y) = lock_keys b" "list_all (native_instance sha256) (gx_instances y)"
      "set (gx_relationships y) = lock_relationships sha256 b"
  obtains r where "compare_inspections evidence x y = Some r"
    "set (map gi_identity (gc_added_instances r)) = lock_keys b - lock_keys a"
    "set (map gi_identity (gc_removed_instances r)) = lock_keys a - lock_keys b"
    "gc_relationship_changes r = [] \<longleftrightarrow>
      {e \<in> lock_relationships sha256 a. comparable (gx_availability x) (gx_availability y) e} =
      {e \<in> lock_relationships sha256 b. comparable (gx_availability x) (gx_availability y) e}"
    "gc_evidence_changes r = [] \<longleftrightarrow> evidence = []"
proof -
  let ?both = "gx_instances x @ gx_instances y"
  let ?old = "edges_by_site (gx_availability x) (gx_availability y) bm_empty (gx_relationships x)"
  let ?new = "edges_by_site (gx_availability x) (gx_availability y) bm_empty (gx_relationships y)"
  let ?changes = "changes_at ?old ?new (dedup (sort (bm_keys ?old @ bm_keys ?new)))"
  have both: "list_all (native_instance sha256) ?both" "gi_identity ` set ?both = lock_keys a \<union> lock_keys b"
    using x(1,2) y(1,2) by (simp_all add: image_Un)
  have cover: "reference sha256 key \<in> dom (bm_get (identities_of ?both))" if "key \<in> lock_keys a \<union> lock_keys b" for key
    using identities_cover [OF both(1), of key] that unfolding both(2) .
  have r: "sort_by_order (change_order (identities_of ?both)) (map snd ?changes) =
      Some (sort_key (\<lambda>c. the (change_order (identities_of ?both) c)) (map snd ?changes))"
    by (rule changes_sorted [OF a b cover x(3) y(3)])
  have sites: "changes_at ?old ?new (dedup (sort (bm_keys ?old @ bm_keys ?new))) = [] \<longleftrightarrow>
      {e \<in> set (gx_relationships x). comparable (gx_availability x) (gx_availability y) e} =
      {e \<in> set (gx_relationships y). comparable (gx_availability x) (gx_availability y) e}"
    using site_determines_edge [OF C a inj_on_subset [OF inj]] site_determines_edge [OF C b inj_on_subset [OF inj]]
    by (intro changes_at_Nil) (auto simp: x(3) y(3))
  obtain r where c: "compare_inspections evidence x y = Some r"
    "gc_added_instances r = missing_instances (instances_by_identity (gx_instances y)) (instances_by_identity (gx_instances x))"
    "gc_removed_instances r = missing_instances (instances_by_identity (gx_instances x)) (instances_by_identity (gx_instances y))"
    "gc_relationship_changes r = sort_key (\<lambda>c. the (change_order (identities_of ?both) c)) (map snd ?changes)"
    "gc_evidence_changes r = sort_key (evidence_key (identities_of ?both)) evidence"
    by (simp add: compare_inspections_def Let_def placements_native [OF both(1)] r)
  show thesis
  proof (rule that [OF c(1)])
    show "set (map gi_identity (gc_added_instances r)) = lock_keys b - lock_keys a"
      "set (map gi_identity (gc_removed_instances r)) = lock_keys a - lock_keys b"
      unfolding c(2,3) missing_instances_identities set_filter_eq set_bm_keys instances_by_identity_dom x(1) y(1) by simp_all
    show "gc_relationship_changes r = [] \<longleftrightarrow>
      {e \<in> lock_relationships sha256 a. comparable (gx_availability x) (gx_availability y) e} =
      {e \<in> lock_relationships sha256 b. comparable (gx_availability x) (gx_availability y) e}"
      unfolding c(4) sort_key_Nil map_is_Nil_conv sites x(3) y(3) ..
    show "gc_evidence_changes r = [] \<longleftrightarrow> evidence = []" unfolding c(5) sort_key_Nil ..
  qed
qed

end
