(* ===== verification/Inspection_Properties.thy ===== *)
theory Inspection_Properties
  imports Comparison_Facts Lockfile_Properties
begin

text \<open>
  Properties of inspection: a snapshot read from any bytes is inspected without a panic and
  completely, and a comparison of two snapshots reports exactly what differs.
\<close>

lemma snapshot_lockfile_ok:
  assumes "snapshot_from_bytes C sha256 J bytes = Inr (Native_Snapshot s)"
  shows "lockfile_ok C (gs_lock s)" and "length (native_entries (gs_lock s)) \<le> MAX_INSTANCES"
    and "recorded_relationships (gs_lock s) \<le> MAX_RELATIONSHIPS"
proof -
  obtain l where l: "from_json C (sj_lockfile J) bytes = Inr l" "gs_lock s = l"
    "bm_len (lf_packages l) + bm_len (lf_workspace_packages l) \<le> MAX_INSTANCES"
    "recorded_relationships l \<le> MAX_RELATIONSHIPS"
    using assms by (auto simp: snapshot_from_bytes_def result_simps not_less split: if_splits prod.splits)
  show "lockfile_ok C (gs_lock s)" using from_json_ok [OF l(1)] l(2) by simp
  show "length (native_entries (gs_lock s)) \<le> MAX_INSTANCES" "recorded_relationships (gs_lock s) \<le> MAX_RELATIONSHIPS"
    using l by (simp_all add: native_entries_def bm_len_def)
qed

lemma native_keys_distinct:
  assumes "semver_contract C" "url_contract C" and "lockfile_ok C l"
  shows "distinct (map fst (native_entries l))"
proof -
  have "distinct (map fst (bm_entries m))" for m :: "(string, 'p) btree_map"
    using al_sorted_distinct [OF bm_entries_sorted] .
  moreover have "fst ` set (bm_entries (lf_packages l)) \<inter> fst ` set (bm_entries (lf_workspace_packages l)) = {}"
    using lock_keys_disjoint [OF assms(1,2)] assms(3) by (force simp: fst_bm_entries lockfile_ok_def)
  ultimately show ?thesis
    by (simp add: native_entries_def comp_def case_prod_beta al_sorted_distinct [OF bm_entries_sorted])
qed

text \<open>
  C34. Inspection. Whatever bytes are given, if a native snapshot is read from them, its inspection
  does not panic on a key or a reference, lists every package of the lockfile once, in
  the order of the keys, and every recorded dependency, root and root binding, and counts them
  within the analysis limits.
\<close>

theorem inspection_complete:
  assumes "semver_contract C" "url_contract C"
    and "snapshot_from_bytes C sha256 J bytes = Inr (Native_Snapshot s)"
  shows "\<exists>r. inspect C sha256 s = Some r \<and> sorted_wrt (<) (map gi_identity (gx_instances r)) \<and>
    set (map gi_identity (gx_instances r)) = lock_keys (gs_lock s) \<and>
    set (gx_relationships r) = lock_relationships sha256 (gs_lock s) \<and>
    total_instances (gx_coverage r) = card (lock_keys (gs_lock s)) \<and> total_instances (gx_coverage r) \<le> 100000 \<and>
    total_relationships (gx_coverage r) = length (gx_relationships r) \<and> total_relationships (gx_coverage r) \<le> 500000"
proof -
  note s = snapshot_lockfile_ok [OF assms(3)]
  have distinct: "distinct (map fst (native_entries (gs_lock s)))" by (rule native_keys_distinct [OF assms(1,2) s(1)])
  have card: "card (lock_keys (gs_lock s)) = length (native_entries (gs_lock s))"
    using distinct_card [OF distinct] by (simp add: native_entries_keys)
  from inspect_ok [OF assms(1,2) s(1), of sha256] obtain r where r: "inspect C sha256 s = Some r"
    "map gi_identity (gx_instances r) = sort (map fst (native_entries (gs_lock s)))"
    "set (gx_relationships r) = lock_relationships sha256 (gs_lock s)"
    "gx_coverage r = \<lparr>analysis_complete = True, total_instances = length (native_entries (gs_lock s)),
       total_relationships = recorded_relationships (gs_lock s), excluded_instances = 0, excluded_relationships = 0\<rparr>"
    "length (gx_relationships r) = recorded_relationships (gs_lock s)" by metis
  have keys: "set (map gi_identity (gx_instances r)) = lock_keys (gs_lock s)" unfolding r(2) by (simp add: native_entries_keys)
  have "sorted_wrt (<) (map gi_identity (gx_instances r))" unfolding r(2) using distinct by (simp add: strict_sorted_iff)
  then show ?thesis
    using r(1,3-5) keys s(2,3) card by (auto simp: MAX_INSTANCES_def MAX_RELATIONSHIPS_def)
qed

definition sample_json :: "lockfile \<Rightarrow> snapshot_json" where
  "sample_json l = \<lparr>sj_format = (\<lambda>_. Some (Some 7, True)),
     sj_document = (\<lambda>_. (J_Map [(''roots'', J_Seq [J_Scalar] True), (''packages'', J_Map [(''k'', J_Scalar)] True)] True, True)),
     sj_lockfile = one_document l\<rparr>"

lemma sample_snapshot_read:
  assumes l: "sample_build = Inr l"
  shows "snapshot_from_bytes reference_crates (\<lambda>m. m) (sample_json l) (''{}'' @ [CHR 0x0A]) =
    Inr (Native_Snapshot \<lparr>gs_lock = l, gs_schema = 7, gs_named_root_bindings = True, gs_digest = ''sha256-{}'' @ [CHR 0x0A]\<rparr>)"
    and "lock_keys l \<noteq> {}"
proof -
  have size: "case sample_build of Inr l \<Rightarrow> lf_packages l \<noteq> bm_empty \<and> recorded_relationships l \<le> 10 \<and>
      bm_len (lf_packages l) + bm_len (lf_workspace_packages l) \<le> 10 | Inl _ \<Rightarrow> False" by code_simp
  note size = size [unfolded l sum.case]
  have "lf_packages l \<noteq> bm_empty" using size by simp
  then have "bm_get (lf_packages l) \<noteq> bm_get bm_empty" using bm_eqI by blast
  then show "lock_keys l \<noteq> {}" by (simp add: lock_keys_def)
  have "from_json reference_crates (one_document l) (''{}'' @ [CHR 0x0A]) = Inr l"
    using written_reads_back [OF reference_semver reference_url one_document_contract _ _ sample_written [OF l]]
      built_source_ok [OF sample_built [OF l]] sample_no_hooks [OF l] by (auto simp: list_ex_iff list_all_iff)
  moreover have "preflight_check (J_Map [(''roots'', J_Seq [J_Scalar] True), (''packages'', J_Map [(''k'', J_Scalar)] True)] True, True) = Inr ()"
    "utf8_valid (''{}'' @ [CHR 0x0A])" by code_simp+
  ultimately show "snapshot_from_bytes reference_crates (\<lambda>m. m) (sample_json l) (''{}'' @ [CHR 0x0A]) =
    Inr (Native_Snapshot \<lparr>gs_lock = l, gs_schema = 7, gs_named_root_bindings = True, gs_digest = ''sha256-{}'' @ [CHR 0x0A]\<rparr>)"
    using size by (simp add: snapshot_from_bytes_def sample_json_def MAX_INPUT_BYTES_def MAX_INSTANCES_def MAX_RELATIONSHIPS_def)
qed

lemma inspection_complete_witness:
  "\<exists>l s r. sample_build = Inr l \<and>
     snapshot_from_bytes reference_crates (\<lambda>m. m) (sample_json l) (''{}'' @ [CHR 0x0A]) = Inr (Native_Snapshot s) \<and>
     inspect reference_crates (\<lambda>m. m) s = Some r \<and> lock_keys l \<noteq> {} \<and> set (map gi_identity (gx_instances r)) = lock_keys l"
proof -
  obtain l where l: "sample_build = Inr l" using sample_build_ok by (auto simp: ok_result_iff)
  note s = sample_snapshot_read [OF l]
  from inspection_complete [OF reference_semver reference_url s(1)] s l show ?thesis by fastforce
qed

text \<open>A scope selects its instances and the relationships that touch them, and accounts for the rest.\<close>

lemma inspect_scope_exact:
  assumes "inspect C sha256 s = Some r" and "scope_normalized scope = Inr normal"
    and "total_instances (gx_coverage r) = length (gx_instances r)"
    and "total_relationships (gx_coverage r) = length (gx_relationships r)"
  shows "\<exists>r'. inspect_scope C sha256 s scope = Some (Inr r') \<and>
    set (gx_instances r') = {i \<in> set (gx_instances r). scope_includes normal i} \<and>
    set (gx_relationships r') = {e \<in> set (gx_relationships r).
      gr_target e \<in> gi_reference ` set (gx_instances r') \<or> (\<exists>p. gr_parent e = Some p \<and> p \<in> gi_reference ` set (gx_instances r'))} \<and>
    length (gx_instances r') + excluded_instances (gx_coverage r') = length (gx_instances r) \<and>
    length (gx_relationships r') + excluded_relationships (gx_coverage r') = length (gx_relationships r)"
  using assms by (auto simp: inspect_scope_def select_scope_def Let_def edge_touches_def split: option.splits)



end
