(* ===== verification/Json_Value.thy ===== *)
theory Json_Value
  imports Rust_Collections
begin

text \<open>
  JSON documents as \<open>serde_json::Value\<close> holds them. A number is an integer or a floating-point
  number, kept as its text. The members of an object are listed; \<open>as_object\<close> gives the map they
  stand for, in which a repeated key has its last value, as \<open>serde_json\<close> documents. The text of a
  document is \<open>serde_json\<close>'s: reading and the two ways of printing are a parameter.
\<close>

datatype json_number = Json_Int int | Json_Float string

datatype json_value =
    V_Null
  | V_Bool bool
  | V_Number json_number
  | V_String string
  | V_Array "json_value list"
  | V_Object "(string \<times> json_value) list"

record json_text =
  jt_from_str :: "string \<Rightarrow> (string, json_value) result"
  jt_to_string :: "json_value \<Rightarrow> string"
  jt_to_string_pretty :: "json_value \<Rightarrow> string"

fun as_object :: "json_value \<Rightarrow> (string, json_value) btree_map option" where
  "as_object (V_Object members) = Some (bm_of_list members)"
| "as_object _ = None"

fun as_str :: "json_value \<Rightarrow> string option" where
  "as_str (V_String s) = Some s"
| "as_str _ = None"

fun as_bool :: "json_value \<Rightarrow> bool option" where
  "as_bool (V_Bool b) = Some b"
| "as_bool _ = None"

text \<open>\<open>Value::get\<close> with a key: absent unless the value is an object.\<close>

definition value_get :: "json_value \<Rightarrow> string \<Rightarrow> json_value option" where
  "value_get v key = (case as_object v of None \<Rightarrow> None | Some object \<Rightarrow> bm_get object key)"

text \<open>The members of every object sorted by their keys, as the reader keeps them.\<close>

fun json_norm :: "json_value \<Rightarrow> json_value" where
  "json_norm (V_Array vs) = V_Array (map json_norm vs)"
| "json_norm (V_Object members) = V_Object (bm_entries (bm_of_list (map (\<lambda>(k, v). (k, json_norm v)) members)))"
| "json_norm v = v"

text \<open>
  What the program relies on: the reader yields sorted documents, and reading a printed
  document gives it back. \<open>serde_json\<close> promises the latter for documents without fractional
  numbers, so it is stated for one document at a time.
\<close>

definition sorting_reader :: "json_text \<Rightarrow> bool" where
  "sorting_reader J \<longleftrightarrow> (\<forall>text v. jt_from_str J text = Inr v \<longrightarrow> json_norm v = v)"

definition reads_printed :: "json_text \<Rightarrow> json_value \<Rightarrow> bool" where
  "reads_printed J v \<longleftrightarrow> jt_from_str J (jt_to_string_pretty J v @ [CHR 0x0A]) = Inr (json_norm v)"

lemma as_object_Some: "as_object v = Some m \<longleftrightarrow> (\<exists>es. v = V_Object es \<and> m = bm_of_list es)"
  by (cases v) auto

lemma as_str_Some [simp]: "as_str v = Some s \<longleftrightarrow> v = V_String s"
  by (cases v) auto

lemma as_bool_Some [simp]: "as_bool v = Some b \<longleftrightarrow> v = V_Bool b"
  by (cases v) auto

declare bm_of_list_entries [simp]

lemma as_object_norm:
  "as_object (json_norm (V_Object es)) = Some (bm_of_list (map (\<lambda>(k, v). (k, json_norm v)) es))"
  by simp

end
