(* ===== verification/Package_Manifest.thy ===== *)
theory Package_Manifest
  imports Json_Value Core_Types Rust_Path
begin

text \<open>
  The crate \<open>tapid-manifest\<close>: the manifest of a package, its parser, its editing operations, its
  printed form, the diagnostics of a refused manifest and the lifecycle commands of a
  dependency. A \<open>PathBuf\<close> that is only stored and printed is its text.
\<close>

section \<open>Data\<close>

datatype dependency_kind = Dependencies | DevDependencies | OptionalDependencies | PeerDependencies

fun field_name :: "dependency_kind \<Rightarrow> string" where
  "field_name Dependencies = ''dependencies''"
| "field_name DevDependencies = ''devDependencies''"
| "field_name OptionalDependencies = ''optionalDependencies''"
| "field_name PeerDependencies = ''peerDependencies''"

record bin_target =
  bt_command :: string
  bt_target :: string

record package_bin =
  pb_package_name :: string
  pb_targets :: "bin_target list"

definition command_names :: "package_bin \<Rightarrow> string list" where
  "command_names b = map bt_command (pb_targets b)"

record 'v package_manifest =
  pm_name :: string
  pm_version :: 'v
  pm_private :: bool
  pm_description :: "string option"
  pm_license :: "string option"
  pm_dependencies :: "(string, string) btree_map"
  pm_dev_dependencies :: "(string, string) btree_map"
  pm_optional_dependencies :: "(string, string) btree_map"
  pm_peer_dependencies :: "(string, string) btree_map"
  pm_overrides :: "(string, string) btree_map"
  pm_scripts :: "(string, string) btree_map"
  pm_bin :: "package_bin option"
  pm_extra :: "(string, json_value) btree_map"

datatype manifest_error =
    InvalidJson string
  | RootMustBeObject
  | RequiredString string
  | ExpectedString string
  | ExpectedBoolean string
  | ExpectedMap string
  | ExpectedMapValueString string string
  | Manifest_InvalidPackageName domain_error
  | Manifest_InvalidPackageVersion domain_error
  | InvalidDependencyName domain_error
  | DependencyNotDeclared string string
  | InvalidBin string string
  | ExpectedBinString string

fun manifest_error_to_string :: "manifest_error \<Rightarrow> string" where
  "manifest_error_to_string (InvalidJson e) = ''invalid package.json: '' @ e"
| "manifest_error_to_string RootMustBeObject = ''package.json root must be an object''"
| "manifest_error_to_string (RequiredString key) = ''package.json field '' @ [CHR 0x27] @ key @ [CHR 0x27] @ '' must be a string''"
| "manifest_error_to_string (ExpectedString key) = ''package.json field '' @ [CHR 0x27] @ key @ [CHR 0x27] @ '' must be a string''"
| "manifest_error_to_string (ExpectedBoolean key) = ''package.json field '' @ [CHR 0x27] @ key @ [CHR 0x27] @ '' must be a boolean''"
| "manifest_error_to_string (ExpectedMap key) = ''package.json field '' @ [CHR 0x27] @ key @ [CHR 0x27] @ '' must be an object''"
| "manifest_error_to_string (ExpectedMapValueString field key) =
     ''package.json field '' @ [CHR 0x27] @ field @ [CHR 0x27] @ '' entry '' @ [CHR 0x27] @ key @ [CHR 0x27] @ '' must be a string''"
| "manifest_error_to_string (DependencyNotDeclared field name) =
     ''dependency '' @ [CHR 0x27] @ name @ [CHR 0x27] @ '' is not declared in package.json field '' @ [CHR 0x27] @ field @ [CHR 0x27]"
| "manifest_error_to_string (Manifest_InvalidPackageName e) = domain_error_to_string e"
| "manifest_error_to_string (InvalidDependencyName e) = domain_error_to_string e"
| "manifest_error_to_string (Manifest_InvalidPackageVersion e) = domain_error_to_string e"
| "manifest_error_to_string (InvalidBin command target) =
     ''invalid package bin '' @ [CHR 0x27] @ command @ [CHR 0x27] @ '' -> '' @ [CHR 0x27] @ target @ [CHR 0x27]"
| "manifest_error_to_string (ExpectedBinString key) =
     ''package.json bin entry '' @ [CHR 0x27] @ key @ [CHR 0x27] @ '' must be a string''"

definition manifest_new :: "'v crates \<Rightarrow> string \<Rightarrow> string \<Rightarrow> bool \<Rightarrow> (manifest_error, 'v package_manifest) result" where
  "manifest_new C name version private =
     and_then (map_err Manifest_InvalidPackageName (package_name_from_str name)) (\<lambda>n.
     and_then (map_err Manifest_InvalidPackageVersion (package_version_from_str C version)) (\<lambda>v.
     Inr \<lparr>pm_name = n, pm_version = v, pm_private = private, pm_description = None, pm_license = None,
          pm_dependencies = bm_empty, pm_dev_dependencies = bm_empty, pm_optional_dependencies = bm_empty,
          pm_peer_dependencies = bm_empty, pm_overrides = bm_empty, pm_scripts = bm_empty, pm_bin = None,
          pm_extra = bm_empty\<rparr>))"

section \<open>Editing\<close>

text \<open>\<open>dependency_section_mut\<close>: the section of a kind, and the manifest with that section changed.\<close>

fun dependency_section :: "dependency_kind \<Rightarrow> 'v package_manifest \<Rightarrow> (string, string) btree_map" where
  "dependency_section Dependencies m = pm_dependencies m"
| "dependency_section DevDependencies m = pm_dev_dependencies m"
| "dependency_section OptionalDependencies m = pm_optional_dependencies m"
| "dependency_section PeerDependencies m = pm_peer_dependencies m"

fun dependency_section_mut ::
  "dependency_kind \<Rightarrow> ((string, string) btree_map \<Rightarrow> (string, string) btree_map) \<Rightarrow> 'v package_manifest \<Rightarrow> 'v package_manifest" where
  "dependency_section_mut Dependencies f m = m\<lparr>pm_dependencies := f (pm_dependencies m)\<rparr>"
| "dependency_section_mut DevDependencies f m = m\<lparr>pm_dev_dependencies := f (pm_dev_dependencies m)\<rparr>"
| "dependency_section_mut OptionalDependencies f m = m\<lparr>pm_optional_dependencies := f (pm_optional_dependencies m)\<rparr>"
| "dependency_section_mut PeerDependencies f m = m\<lparr>pm_peer_dependencies := f (pm_peer_dependencies m)\<rparr>"

text \<open>The name that is validated, without a registry prefix.\<close>

definition validation_name :: "string \<Rightarrow> string" where
  "validation_name name =
     (case strip_prefix ''npm:'' name of
        Some r \<Rightarrow> r
      | None \<Rightarrow> (case strip_prefix ''jsr:'' name of Some r \<Rightarrow> r | None \<Rightarrow> name))"

definition remove_everywhere :: "string \<Rightarrow> 'v package_manifest \<Rightarrow> 'v package_manifest" where
  "remove_everywhere name m =
     m\<lparr>pm_dependencies := bm_remove name (pm_dependencies m),
       pm_dev_dependencies := bm_remove name (pm_dev_dependencies m),
       pm_optional_dependencies := bm_remove name (pm_optional_dependencies m),
       pm_peer_dependencies := bm_remove name (pm_peer_dependencies m)\<rparr>"

definition set_dependency ::
  "dependency_kind \<Rightarrow> string \<Rightarrow> string \<Rightarrow> 'v package_manifest \<Rightarrow> (manifest_error, 'v package_manifest) result" where
  "set_dependency kind name requirement m =
     and_then (map_err Manifest_InvalidPackageName (package_name_from_str (validation_name name))) (\<lambda>_.
     Inr (dependency_section_mut kind (bm_insert name (trim requirement)) (remove_everywhere name m)))"

definition with_dependency ::
  "string \<Rightarrow> string \<Rightarrow> 'v package_manifest \<Rightarrow> (manifest_error, 'v package_manifest) result" where
  "with_dependency name requirement m = set_dependency Dependencies name requirement m"

definition with_dependency_kind ::
  "dependency_kind \<Rightarrow> string \<Rightarrow> string \<Rightarrow> 'v package_manifest \<Rightarrow> (manifest_error, 'v package_manifest) result" where
  "with_dependency_kind kind name requirement m = set_dependency kind name requirement m"

definition update_dependency_kind ::
  "dependency_kind \<Rightarrow> string \<Rightarrow> string \<Rightarrow> 'v package_manifest \<Rightarrow> (manifest_error, 'v package_manifest) result" where
  "update_dependency_kind kind name requirement m =
     (case bm_get (dependency_section kind m) name of
        None \<Rightarrow> Inl (DependencyNotDeclared (field_name kind) name)
      | Some _ \<Rightarrow> Inr (dependency_section_mut kind (bm_insert name (trim requirement)) m))"

definition without_dependency :: "string \<Rightarrow> 'v package_manifest \<Rightarrow> (manifest_error, 'v package_manifest) result" where
  "without_dependency name m =
     and_then (map_err Manifest_InvalidPackageName (package_name_from_str (validation_name name))) (\<lambda>_.
     Inr (remove_everywhere name m))"

definition dependency_sections :: "'v package_manifest \<Rightarrow> (dependency_kind \<times> (string, string) btree_map) list" where
  "dependency_sections m =
     [(Dependencies, pm_dependencies m), (DevDependencies, pm_dev_dependencies m),
      (OptionalDependencies, pm_optional_dependencies m), (PeerDependencies, pm_peer_dependencies m)]"

definition dependency_kind_of :: "'v package_manifest \<Rightarrow> string \<Rightarrow> dependency_kind option" where
  "dependency_kind_of m name =
     map_option fst (find (\<lambda>(_, section). bm_contains_key section name) (dependency_sections m))"

section \<open>Reading\<close>

definition required_string :: "(string, json_value) btree_map \<Rightarrow> string \<Rightarrow> (manifest_error, string) result" where
  "required_string object key =
     ok_or (RequiredString key) (case bm_get object key of None \<Rightarrow> None | Some v \<Rightarrow> as_str v)"

definition optional_bool :: "(string, json_value) btree_map \<Rightarrow> string \<Rightarrow> (manifest_error, bool) result" where
  "optional_bool object key =
     (case bm_get object key of None \<Rightarrow> Inr False | Some v \<Rightarrow> ok_or (ExpectedBoolean key) (as_bool v))"

definition optional_string :: "(string, json_value) btree_map \<Rightarrow> string \<Rightarrow> (manifest_error, string option) result" where
  "optional_string object key =
     (case bm_get object key of
        None \<Rightarrow> Inr None
      | Some v \<Rightarrow> ok_or (ExpectedString key) (map_option Some (as_str v)))"

text \<open>The reader strips the prefixes in the other order than the editing operations.\<close>

definition candidate_name :: "string \<Rightarrow> string" where
  "candidate_name name =
     (case strip_prefix ''jsr:'' name of
        Some r \<Rightarrow> r
      | None \<Rightarrow> (case strip_prefix ''npm:'' name of Some r \<Rightarrow> r | None \<Rightarrow> name))"

fun parse_entries ::
  "string \<Rightarrow> bool \<Rightarrow> (string \<times> json_value) list \<Rightarrow> (manifest_error, (string \<times> string) list) result" where
  "parse_entries field validate_names [] = Inr []"
| "parse_entries field validate_names ((name, version) # rest) =
     and_then (if validate_names
               then map_err InvalidDependencyName (map_sum id (\<lambda>_. ()) (package_name_from_str (candidate_name name)))
               else Inr ()) (\<lambda>_.
     and_then (ok_or (ExpectedMapValueString field name) (as_str version)) (\<lambda>v.
     and_then (parse_entries field validate_names rest) (\<lambda>es. Inr ((name, v) # es))))"

definition parse_string_map ::
  "json_value \<Rightarrow> string \<Rightarrow> bool \<Rightarrow> (manifest_error, (string, string) btree_map) result" where
  "parse_string_map value field validate_names =
     and_then (ok_or (ExpectedMap field) (as_object value)) (\<lambda>object.
     and_then (parse_entries field validate_names (bm_entries object)) (\<lambda>es. Inr (bm_of_list es)))"

definition optional_map ::
  "(string, json_value) btree_map \<Rightarrow> string \<Rightarrow> bool \<Rightarrow> (manifest_error, (string, string) btree_map) result" where
  "optional_map object field validate_names =
     (case bm_get object field of None \<Rightarrow> Inr bm_empty | Some v \<Rightarrow> parse_string_map v field validate_names)"

definition valid_command :: "string \<Rightarrow> bool" where
  "valid_command value \<longleftrightarrow> value \<noteq> [] \<and> value \<noteq> ''.'' \<and> value \<noteq> ''..'' \<and> CHR ''/'' \<notin> set value \<and>
     CHR 0x5C \<notin> set value \<and> \<not> any_control value"

text \<open>On Unix a path has no prefix component, and a root component exactly when it is absolute.\<close>

definition valid_target :: "string \<Rightarrow> bool" where
  "valid_target value \<longleftrightarrow>
     \<not> (value = [] \<or> CHR 0x00 \<in> set value \<or> CHR 0x5C \<in> set value) \<and>
     \<not> (2 \<le> length value \<and> is_ascii_alphabetic (value ! 0) \<and> value ! 1 = CHR '':'') \<and> \<not> prefix ''//'' value \<and>
     \<not> path_absolute (path_of value) \<and> \<not> has_parent_dir (path_of value)"

text \<open>\<open>trim_start_matches\<close> with \<open>./\<close>.\<close>

fun trim_dot_slash :: "string \<Rightarrow> string" where
  "trim_dot_slash (a # b # rest) = (if a = CHR ''.'' \<and> b = CHR ''/'' then trim_dot_slash rest else a # b # rest)"
| "trim_dot_slash s = s"

fun bin_strings :: "(string \<times> json_value) list \<Rightarrow> (manifest_error, (string \<times> string) list) result" where
  "bin_strings [] = Inr []"
| "bin_strings ((command, target) # rest) =
     and_then (ok_or (ExpectedBinString command) (as_str target)) (\<lambda>t.
     and_then (bin_strings rest) (\<lambda>es. Inr ((command, t) # es)))"

fun bin_targets :: "(string \<times> string) list \<Rightarrow> (manifest_error, bin_target list) result" where
  "bin_targets [] = Inr []"
| "bin_targets ((command, target) # rest) =
     (if \<not> valid_command command \<or> \<not> valid_target target then Inl (InvalidBin command target)
      else and_then (bin_targets rest) (\<lambda>ts. Inr (\<lparr>bt_command = command, bt_target = trim_dot_slash target\<rparr> # ts)))"

definition bin_entries :: "json_text \<Rightarrow> json_value \<Rightarrow> string \<Rightarrow> (manifest_error, (string \<times> string) list) result" where
  "bin_entries J value package_name =
     (case value of
        V_String target \<Rightarrow> Inr [(last (split_char (CHR ''/'') package_name), target)]
      | V_Object members \<Rightarrow>
          if bm_is_empty (bm_of_list members) then Inl (InvalidBin ''<bin>'' (jt_to_string J value))
          else bin_strings (bm_entries (bm_of_list members))
      | _ \<Rightarrow> Inl (InvalidBin ''<bin>'' (jt_to_string J value)))"

definition parse_bin :: "json_text \<Rightarrow> json_value \<Rightarrow> string \<Rightarrow> (manifest_error, package_bin) result" where
  "parse_bin J value package_name =
     and_then (bin_entries J value package_name) (\<lambda>entries.
     and_then (bin_targets entries) (\<lambda>targets.
     Inr \<lparr>pb_package_name = package_name, pb_targets = sort_key bt_command targets\<rparr>))"

definition known_fields :: "string list" where
  "known_fields =
     [''name'', ''version'', ''private'', ''description'', ''license'', ''dependencies'', ''devDependencies'',
      ''optionalDependencies'', ''peerDependencies'', ''overrides'', ''scripts'', ''bin'']"

definition parse_document ::
  "'v crates \<Rightarrow> json_text \<Rightarrow> (string, json_value) btree_map \<Rightarrow> (manifest_error, 'v package_manifest) result" where
  "parse_document C J object =
     and_then (required_string object ''name'') (\<lambda>name.
     and_then (required_string object ''version'') (\<lambda>version.
     and_then (optional_bool object ''private'') (\<lambda>private.
     and_then (manifest_new C name version private) (\<lambda>m.
     and_then (optional_string object ''description'') (\<lambda>description.
     and_then (optional_string object ''license'') (\<lambda>license.
     and_then (optional_map object ''dependencies'' True) (\<lambda>deps.
     and_then (optional_map object ''devDependencies'' True) (\<lambda>dev.
     and_then (optional_map object ''optionalDependencies'' True) (\<lambda>optional.
     and_then (optional_map object ''peerDependencies'' True) (\<lambda>peer.
     and_then (optional_map object ''overrides'' False) (\<lambda>overrides.
     and_then (optional_map object ''scripts'' False) (\<lambda>scripts.
     and_then (case bm_get object ''bin'' of
                 None \<Rightarrow> Inr None
               | Some value \<Rightarrow> map_sum id Some (parse_bin J value (pm_name m))) (\<lambda>bin.
     Inr (m\<lparr>pm_description := description, pm_license := license, pm_dependencies := deps,
            pm_dev_dependencies := dev, pm_optional_dependencies := optional, pm_peer_dependencies := peer,
            pm_overrides := overrides, pm_scripts := scripts, pm_bin := bin,
            pm_extra := bm_of_list (filter (\<lambda>(key, _). key \<notin> set known_fields) (bm_entries object))\<rparr>))))))))))))))"

definition manifest_parse :: "'v crates \<Rightarrow> json_text \<Rightarrow> string \<Rightarrow> (manifest_error, 'v package_manifest) result" where
  "manifest_parse C J input =
     and_then (map_err InvalidJson (jt_from_str J input)) (\<lambda>value.
     and_then (ok_or RootMustBeObject (as_object value)) (parse_document C J))"

section \<open>Printing\<close>

definition string_map_value :: "(string, string) btree_map \<Rightarrow> json_value" where
  "string_map_value m = V_Object (map (\<lambda>(k, v). (k, V_String v)) (bm_entries m))"

definition map_field :: "string \<Rightarrow> (string, string) btree_map \<Rightarrow> (string \<times> json_value) list" where
  "map_field field m = (if bm_is_empty m then [] else [(field, string_map_value m)])"

definition string_field :: "string \<Rightarrow> string option \<Rightarrow> (string \<times> json_value) list" where
  "string_field field s = (case s of None \<Rightarrow> [] | Some v \<Rightarrow> [(field, V_String v)])"

definition bin_field :: "package_bin option \<Rightarrow> (string \<times> json_value) list" where
  "bin_field b = (case b of
     None \<Rightarrow> []
   | Some bin \<Rightarrow> [(''bin'', string_map_value (bm_of_list (map (\<lambda>t. (bt_command t, bt_target t)) (pb_targets bin))))])"

text \<open>The members in the order of the fields of \<open>ManifestDocument\<close>, then the flattened rest.\<close>

definition manifest_document :: "'v crates \<Rightarrow> 'v package_manifest \<Rightarrow> json_value" where
  "manifest_document C m = V_Object
     ([(''name'', V_String (pm_name m)), (''version'', V_String (sv_to_string C (pm_version m))),
       (''private'', V_Bool (pm_private m))] @
      string_field ''description'' (pm_description m) @ string_field ''license'' (pm_license m) @
      map_field ''dependencies'' (pm_dependencies m) @ map_field ''devDependencies'' (pm_dev_dependencies m) @
      map_field ''optionalDependencies'' (pm_optional_dependencies m) @
      map_field ''peerDependencies'' (pm_peer_dependencies m) @ map_field ''overrides'' (pm_overrides m) @
      map_field ''scripts'' (pm_scripts m) @ bin_field (pm_bin m) @ bm_entries (pm_extra m))"

definition manifest_to_json :: "'v crates \<Rightarrow> json_text \<Rightarrow> 'v package_manifest \<Rightarrow> string" where
  "manifest_to_json C J m = jt_to_string_pretty J (manifest_document C m) @ [CHR 0x0A]"

section \<open>Diagnostics\<close>

record manifest_diagnostic =
  md_field :: "string option"
  md_key :: "string option"
  md_expected :: string
  md_observed :: string

definition dependency_fields :: "string list" where
  "dependency_fields = [''dependencies'', ''devDependencies'', ''optionalDependencies'', ''peerDependencies'']"

text \<open>\<open>find_map\<close> over the sections: the first one with a key that stands for the name.\<close>

fun find_named :: "json_value option \<Rightarrow> string \<Rightarrow> string list \<Rightarrow> (string \<times> string) option" where
  "find_named value name [] = None"
| "find_named value name (field # rest) =
     (case (case value of None \<Rightarrow> None | Some v \<Rightarrow>
              (case value_get v field of None \<Rightarrow> None | Some section \<Rightarrow>
                (case as_object section of None \<Rightarrow> None | Some object \<Rightarrow>
                  find (\<lambda>key. candidate_name key = name) (bm_keys object)))) of
        Some key \<Rightarrow> Some (field, key)
      | None \<Rightarrow> find_named value name rest)"

fun diagnostic_rule :: "json_value option \<Rightarrow> manifest_error \<Rightarrow> string option \<times> string option \<times> string" where
  "diagnostic_rule value (InvalidJson _) = (None, None, ''valid_json'')"
| "diagnostic_rule value RootMustBeObject = (None, None, ''object'')"
| "diagnostic_rule value (RequiredString field) = (Some field, None, ''string'')"
| "diagnostic_rule value (ExpectedString field) = (Some field, None, ''string'')"
| "diagnostic_rule value (ExpectedBoolean field) = (Some field, None, ''boolean'')"
| "diagnostic_rule value (ExpectedMap field) = (Some field, None, ''object'')"
| "diagnostic_rule value (ExpectedMapValueString field key) = (Some field, Some key, ''string'')"
| "diagnostic_rule value (Manifest_InvalidPackageName _) = (Some ''name'', None, ''package_name'')"
| "diagnostic_rule value (Manifest_InvalidPackageVersion _) = (Some ''version'', None, ''semver_version'')"
| "diagnostic_rule value (InvalidDependencyName (InvalidPackageName name)) =
     (case find_named value name dependency_fields of
        Some (field, key) \<Rightarrow> (Some field, Some key, ''dependency_name'')
      | None \<Rightarrow> (None, None, ''dependency_name''))"
| "diagnostic_rule value (DependencyNotDeclared field name) = (Some field, Some name, ''declared_dependency'')"
| "diagnostic_rule value (ExpectedBinString key) = (Some ''bin'', Some key, ''string'')"
| "diagnostic_rule value (InvalidBin command _) =
     (Some ''bin'',
      (case value of None \<Rightarrow> None | Some v \<Rightarrow>
        (case value_get v ''bin'' of None \<Rightarrow> None | Some b \<Rightarrow>
          (case as_object b of None \<Rightarrow> None | Some object \<Rightarrow>
            if bm_contains_key object command then Some command else None))),
      ''contained_bin_target'')"
| "diagnostic_rule value (InvalidDependencyName _) = (None, None, ''dependency_name'')"

fun observed_type :: "json_value option \<Rightarrow> string" where
  "observed_type None = ''missing''"
| "observed_type (Some V_Null) = ''null''"
| "observed_type (Some (V_Bool _)) = ''boolean''"
| "observed_type (Some (V_Number _)) = ''number''"
| "observed_type (Some (V_String _)) = ''string''"
| "observed_type (Some (V_Array _)) = ''array''"
| "observed_type (Some (V_Object _)) = ''object''"

definition observed_value :: "json_value \<Rightarrow> string option \<Rightarrow> string option \<Rightarrow> json_value option" where
  "observed_value value field key =
     (let observed = (case field of None \<Rightarrow> Some value | Some f \<Rightarrow> value_get value f) in
      case key of
        None \<Rightarrow> observed
      | Some k \<Rightarrow> (case observed of None \<Rightarrow> None | Some v \<Rightarrow> value_get v k))"

definition diagnostic :: "json_text \<Rightarrow> manifest_error \<Rightarrow> string \<Rightarrow> manifest_diagnostic" where
  "diagnostic J e input =
     (let value = (case jt_from_str J input of Inl _ \<Rightarrow> None | Inr v \<Rightarrow> Some v);
          (field, key, expected) = diagnostic_rule value e in
      \<lparr>md_field = field, md_key = key, md_expected = expected,
       md_observed = (case value of None \<Rightarrow> ''invalid_json'' | Some v \<Rightarrow> observed_type (observed_value v field key))\<rparr>)"

section \<open>Lifecycle\<close>

record lifecycle_plan =
  lc_commands :: "(string \<times> string) list"
  lc_implicit_install :: bool

definition lifecycle_hooks :: "string list" where
  "lifecycle_hooks =
     [''preinstall'', ''install'', ''postinstall'', ''prepublish'', ''preprepare'', ''prepare'', ''postprepare'']"

fun check_scripts :: "(string \<times> json_value) list \<Rightarrow> (manifest_error, unit) result" where
  "check_scripts [] = Inr ()"
| "check_scripts ((key, value) # rest) =
     (if as_str value = None then Inl (ExpectedMapValueString ''scripts'' key) else check_scripts rest)"

text \<open>The command of a hook, when its script has more than white space.\<close>

definition hook_command :: "(string, json_value) btree_map \<Rightarrow> string \<Rightarrow> (string \<times> string) list" where
  "hook_command scripts name =
     (case bm_get scripts name of
        Some (V_String command) \<Rightarrow> if trim command = [] then [] else [(name, command)]
      | _ \<Rightarrow> [])"

definition dependency_lifecycle_plan :: "json_text \<Rightarrow> string \<Rightarrow> bool \<Rightarrow> (manifest_error, lifecycle_plan) result" where
  "dependency_lifecycle_plan J input binding_gyp =
     and_then (map_err InvalidJson (jt_from_str J input)) (\<lambda>value.
     and_then (ok_or RootMustBeObject (as_object value)) (\<lambda>object.
     and_then (case bm_get object ''scripts'' of
                 Some v \<Rightarrow> ok_or (ExpectedMap ''scripts'') (as_object v)
               | None \<Rightarrow> Inr bm_empty) (\<lambda>scripts.
     and_then (check_scripts (bm_entries scripts)) (\<lambda>_.
     let commands = concat (map (hook_command scripts) lifecycle_hooks);
         implicit = binding_gyp \<and> \<not> bm_contains_key scripts ''install'' \<and> \<not> bm_contains_key scripts ''preinstall'' in
     Inr \<lparr>lc_commands = (if implicit then (''install'', ''node-gyp rebuild'') # commands else commands),
          lc_implicit_install = implicit\<rparr>))))"

definition dependency_lifecycle_commands :: "json_text \<Rightarrow> string \<Rightarrow> bool \<Rightarrow> (manifest_error, (string \<times> string) list) result" where
  "dependency_lifecycle_commands J input binding_gyp =
     map_sum id lc_commands (dependency_lifecycle_plan J input binding_gyp)"

definition dependency_lifecycle_hooks :: "json_text \<Rightarrow> string \<Rightarrow> (manifest_error, string list) result" where
  "dependency_lifecycle_hooks J input = map_sum id (map fst) (dependency_lifecycle_commands J input False)"

end
