(* ===== verification/Workspace.thy ===== *)
theory Workspace
  imports Package_Manifest
begin

text \<open>
  The crate \<open>tapid-manifest\<close>, discovery of workspaces. The calls of \<open>std::fs\<close> are a parameter: a
  record of what the operating system answers for a path, on Unix and without other writers, so that
  an answer does not change during a discovery. Budgets are naturals; the subtraction of the
  source that could underflow is an error of its own. The messages
  show a path by its components and do not give the position of a malformed byte.
\<close>

section \<open>Data\<close>

definition MAX_MANIFEST_BYTES :: nat where
  "MAX_MANIFEST_BYTES = 32 * 1024 * 1024"

datatype file_type = Regular_File | Directory | Symlink | Special_File

datatype fs_error = Not_Found string | Other_Io string

fun io_text :: "fs_error \<Rightarrow> string" where
  "io_text (Not_Found e) = e"
| "io_text (Other_Io e) = e"

text \<open>A directory entry with the answer for its type, and an opened file with its metadata and contents.\<close>

record directory_entry =
  de_path :: path
  de_file_type :: "(string, file_type) result"

record opened_file =
  of_metadata :: "(string, file_type \<times> nat) result"
  of_read :: "nat \<Rightarrow> (string, string) result"

record os_calls =
  os_canonicalize :: "path \<Rightarrow> (string, path) result"
  os_symlink_metadata :: "path \<Rightarrow> (fs_error, file_type) result"
  os_metadata :: "path \<Rightarrow> (string, file_type) result"
  os_read_dir :: "path \<Rightarrow> (string, (string, directory_entry) result list) result"
  os_open :: "path \<Rightarrow> (string, opened_file) result"

record 'v workspace_member =
  wm_name :: string
  wm_path :: path
  wm_manifest :: "'v package_manifest"

record 'v workspace =
  wk_root :: "'v package_manifest"
  wk_root_path :: path
  wk_members :: "'v workspace_member list"

datatype workspace_error =
    Discovery string
  | DiscoveryLimitExceeded
  | ManifestRead path string
  | Manifest path manifest_diagnostic manifest_error
  | Candidate_Underflow

definition display :: "path \<Rightarrow> string" where
  "display p = (if path_absolute p then ''/'' else []) @ join ''/'' (path_names p)"

fun workspace_error_to_string :: "workspace_error \<Rightarrow> string" where
  "workspace_error_to_string (Discovery message) = message"
| "workspace_error_to_string (ManifestRead _ message) = message"
| "workspace_error_to_string DiscoveryLimitExceeded = ''workspace discovery limit exceeded''"
| "workspace_error_to_string (Manifest path _ e) = ''invalid workspace manifest '' @ display path @ '': '' @ manifest_error_to_string e"
| "workspace_error_to_string Candidate_Underflow = ''attempt to subtract with overflow''"

section \<open>Files\<close>

definition contained_path :: "os_calls \<Rightarrow> path \<Rightarrow> path \<Rightarrow> (string, path) result" where
  "contained_path os root path =
     and_then (map_err (\<lambda>e. ''cannot canonicalize workspace path '' @ display path @ '': '' @ e) (os_canonicalize os path)) (\<lambda>canonical.
     if \<not> path_starts_with canonical root then Inl (''workspace path is outside project: '' @ display path)
     else Inr canonical)"

definition read_file :: "os_calls \<Rightarrow> path \<Rightarrow> (workspace_error, string) result" where
  "read_file os path =
     and_then (map_err (\<lambda>e. ManifestRead path (''cannot read '' @ display path @ '': '' @ e)) (os_open os path)) (\<lambda>file.
     and_then (map_err (\<lambda>e. ManifestRead path (''cannot inspect '' @ display path @ '': '' @ e)) (of_metadata file)) (\<lambda>(kind, len).
     if kind \<noteq> Regular_File \<or> MAX_MANIFEST_BYTES < len
     then Inl (ManifestRead path (''workspace manifest must be a regular file no larger than 32 MiB: '' @ display path))
     else and_then (map_err (\<lambda>e. ManifestRead path (''cannot read '' @ display path @ '': '' @ e)) (of_read file (MAX_MANIFEST_BYTES + 1))) (\<lambda>bytes.
       if MAX_MANIFEST_BYTES < length bytes then Inl (ManifestRead path (''workspace manifest exceeds 32 MiB: '' @ display path))
       else if utf8_valid bytes then Inr bytes
       else Inl (ManifestRead path (''cannot read '' @ display path @ '': invalid utf-8'')))))"

section \<open>Patterns\<close>

fun pattern_strings :: "json_value list \<Rightarrow> (string, string list) result" where
  "pattern_strings [] = Inr []"
| "pattern_strings (v # vs) =
     and_then (ok_or ''package.json workspace patterns must be strings'' (as_str v)) (\<lambda>s.
     and_then (pattern_strings vs) (\<lambda>ss. Inr (s # ss)))"

fun workspace_patterns :: "json_value option \<Rightarrow> (string, string list) result" where
  "workspace_patterns None = Inr []"
| "workspace_patterns (Some (V_String pattern)) = Inr [pattern]"
| "workspace_patterns (Some (V_Array values)) = pattern_strings values"
| "workspace_patterns (Some (V_Object members)) =
     (case bm_get (bm_of_list members) ''packages'' of
        Some (V_String pattern) \<Rightarrow> Inr [pattern]
      | Some (V_Array values) \<Rightarrow> pattern_strings values
      | _ \<Rightarrow> Inl ''package.json workspaces.packages must be a string or array'')"
| "workspace_patterns (Some _) = Inl ''package.json workspaces must be a string, array, or object''"

definition expansion_step :: "nat \<Rightarrow> (workspace_error, nat) result" where
  "expansion_step remaining = (if remaining = 0 then Inl DiscoveryLimitExceeded else Inr (remaining - 1))"

text \<open>\<open>Path::components\<close> of a relative pattern: a leading \<open>.\<close> is a component, any other vanishes.\<close>

definition pattern_components :: "string \<Rightarrow> string list" where
  "pattern_components pattern =
     (if hd (split_char (CHR ''/'') pattern) = ''.'' then [''.''] else []) @ names_of pattern"

definition unsupported_chars :: "char set" where
  "unsupported_chars = {CHR ''?'', CHR ''['', CHR '']'', CHR ''{'', CHR ''}'', CHR ''!'', CHR ''('', CHR '')'', CHR 0x5C}"

definition check_pattern :: "string \<Rightarrow> (workspace_error, unit) result" where
  "check_pattern pattern =
     (if path_absolute (path_of pattern) \<or> has_parent_dir (path_of pattern)
      then Inl (Discovery (''workspace pattern is outside project: '' @ pattern))
      else if names_of pattern = [] \<or> list_ex (\<lambda>c. c \<in> unsupported_chars) pattern \<or>
              list_ex (\<lambda>name. CHR ''*'' \<in> set name \<and> name \<noteq> ''*'') (pattern_components pattern)
      then Inl (Discovery (''unsupported workspace pattern '' @ [CHR 0x27] @ pattern @ [CHR 0x27] @
             ''; use a relative directory path or a whole path component '' @ [CHR 0x27, CHR ''*'', CHR 0x27] @
             '' for one directory level''))
      else Inr ())"

text \<open>One entry of a listed directory: \<open>None\<close> when it is passed over.\<close>

definition glob_entry :: "os_calls \<Rightarrow> path \<Rightarrow> (string, directory_entry) result \<Rightarrow> (workspace_error, path option) result" where
  "glob_entry os root entry =
     and_then (map_err (\<lambda>e. Discovery (''cannot inspect workspace directory: '' @ e)) entry) (\<lambda>d.
     and_then (map_err (\<lambda>e. Discovery (''cannot inspect workspace directory: '' @ e)) (de_file_type d)) (\<lambda>kind.
     and_then (if kind = Symlink
               then and_then (map_err (\<lambda>e. Discovery (''cannot inspect workspace symlink target '' @ display (de_path d) @ '': '' @ e))
                        (os_metadata os (de_path d))) (\<lambda>target.
                 if target = Regular_File then Inr False
                 else if target \<noteq> Directory
                 then Inl (Discovery (''workspace glob encountered an unsupported symlink target: '' @ display (de_path d)))
                 else Inr True)
               else Inr (kind = Directory)) (\<lambda>follow.
     if follow then map_sum id Some (map_err Discovery (contained_path os root (de_path d))) else Inr None)))"

fun glob_entries ::
  "os_calls \<Rightarrow> path \<Rightarrow> (string, directory_entry) result list \<Rightarrow> path list \<Rightarrow> nat \<Rightarrow> (workspace_error, path list \<times> nat) result" where
  "glob_entries os root [] next_paths remaining = Inr (next_paths, remaining)"
| "glob_entries os root (entry # rest) next_paths remaining =
     and_then (expansion_step remaining) (\<lambda>r.
     and_then (glob_entry os root entry) (\<lambda>found.
     glob_entries os root rest (next_paths @ (case found of None \<Rightarrow> [] | Some p \<Rightarrow> [p])) r))"

fun glob_paths :: "os_calls \<Rightarrow> path \<Rightarrow> path list \<Rightarrow> path list \<Rightarrow> nat \<Rightarrow> (workspace_error, path list \<times> nat) result" where
  "glob_paths os root [] next_paths remaining = Inr (next_paths, remaining)"
| "glob_paths os root (path # rest) next_paths remaining =
     and_then (map_err Discovery (contained_path os root path)) (\<lambda>contained.
     and_then (map_err (\<lambda>e. Discovery (''cannot read workspace directory '' @ display contained @ '': '' @ e)) (os_read_dir os contained)) (\<lambda>entries.
     and_then (glob_entries os root entries next_paths remaining) (\<lambda>(found, r).
     glob_paths os root rest found r)))"

fun push_paths :: "string \<Rightarrow> path list \<Rightarrow> nat \<Rightarrow> (workspace_error, path list \<times> nat) result" where
  "push_paths name [] remaining = Inr ([], remaining)"
| "push_paths name (path # rest) remaining =
     and_then (expansion_step remaining) (\<lambda>r.
     and_then (push_paths name rest r) (\<lambda>(ps, r'). Inr (path_push path name # ps, r')))"

fun expand_components ::
  "os_calls \<Rightarrow> path \<Rightarrow> string list \<Rightarrow> path list \<Rightarrow> nat \<Rightarrow> (workspace_error, path list \<times> nat) result" where
  "expand_components os root [] paths remaining = Inr (paths, remaining)"
| "expand_components os root (name # rest) paths remaining =
     and_then (expansion_step remaining) (\<lambda>r.
     and_then (if name = ''*'' then glob_paths os root paths [] r else push_paths name paths r) (\<lambda>(ps, r').
     expand_components os root rest ps r'))"

fun probe_manifests ::
  "os_calls \<Rightarrow> nat \<Rightarrow> path list \<Rightarrow> path list \<Rightarrow> nat \<Rightarrow> (workspace_error, path list \<times> nat) result" where
  "probe_manifests os max_candidates [] manifests remaining = Inr (manifests, remaining)"
| "probe_manifests os max_candidates (path # rest) manifests remaining =
     and_then (expansion_step remaining) (\<lambda>r.
     let manifest = path_push path ''package.json'' in
     case os_symlink_metadata os manifest of
       Inr _ \<Rightarrow> if length manifests = max_candidates then Inl DiscoveryLimitExceeded
               else probe_manifests os max_candidates rest (manifests @ [manifest]) r
     | Inl (Not_Found _) \<Rightarrow> probe_manifests os max_candidates rest manifests r
     | Inl (Other_Io e) \<Rightarrow> Inl (ManifestRead manifest (''cannot inspect workspace manifest '' @ display manifest @ '': '' @ e)))"

definition expand_pattern_bounded ::
  "os_calls \<Rightarrow> path \<Rightarrow> string \<Rightarrow> nat \<Rightarrow> nat \<Rightarrow> (workspace_error, path list \<times> nat) result" where
  "expand_pattern_bounded os root pattern max_candidates remaining =
     and_then (expansion_step remaining) (\<lambda>r.
     and_then (check_pattern pattern) (\<lambda>_.
     and_then (expand_components os root (pattern_components pattern) [root] r) (\<lambda>(paths, r').
     and_then (probe_manifests os max_candidates paths [] r') (\<lambda>(manifests, r'').
     Inr (sort manifests, r'')))))"

section \<open>Discovery\<close>

fun expand_patterns ::
  "os_calls \<Rightarrow> path \<Rightarrow> nat \<Rightarrow> string list \<Rightarrow> path list \<Rightarrow> nat \<Rightarrow> (workspace_error, path list) result" where
  "expand_patterns os root max_candidates [] paths remaining = Inr paths"
| "expand_patterns os root max_candidates (pattern # rest) paths remaining =
     (if max_candidates < length paths then Inl Candidate_Underflow
      else and_then (expand_pattern_bounded os root pattern (max_candidates - length paths) remaining) (\<lambda>(found, r).
        expand_patterns os root max_candidates rest (paths @ found) r))"

definition member_manifest_path :: "os_calls \<Rightarrow> path \<Rightarrow> path \<Rightarrow> (workspace_error, path) result" where
  "member_manifest_path os root path =
     and_then (map_err (\<lambda>e. ManifestRead path (''cannot inspect workspace manifest '' @ display path @ '': '' @ io_text e)) (os_symlink_metadata os path)) (\<lambda>kind.
     if kind \<noteq> Regular_File
     then Inl (ManifestRead path (''workspace manifest must be a regular file, not a symlink: '' @ display path))
     else map_err (ManifestRead path) (contained_path os root path))"

fun member_manifest_paths :: "os_calls \<Rightarrow> path \<Rightarrow> path list \<Rightarrow> (workspace_error, path list) result" where
  "member_manifest_paths os root [] = Inr []"
| "member_manifest_paths os root (path # rest) =
     and_then (member_manifest_path os root path) (\<lambda>p.
     and_then (member_manifest_paths os root rest) (\<lambda>ps. Inr (p # ps)))"

definition parse_at ::
  "'v crates \<Rightarrow> json_text \<Rightarrow> path \<Rightarrow> string \<Rightarrow> (workspace_error, 'v package_manifest) result" where
  "parse_at C J path text = map_err (\<lambda>e. Manifest path (diagnostic J e text) e) (manifest_parse C J text)"

text \<open>\<open>canonical.parent()\<close>, absent for the root directory, and its names below the project.\<close>

definition member_source ::
  "os_calls \<Rightarrow> path \<Rightarrow> path \<Rightarrow> (workspace_error, path \<times> string) result" where
  "member_source os root path =
     and_then (map_err (\<lambda>e. ManifestRead path (''cannot resolve workspace manifest '' @ display path @ '': '' @ e)) (os_canonicalize os path)) (\<lambda>canonical.
     if \<not> path_starts_with canonical root then Inl (Discovery (''workspace member escapes workspace root: '' @ display path))
     else if path_names canonical = [] then Inl (Discovery ''workspace member manifest has no parent'')
     else let member_root = Path (path_absolute canonical) (butlast (path_names canonical)) in
       if \<not> path_starts_with member_root root then Inl (Discovery (''workspace member escapes workspace root: '' @ display path))
       else if ''node_modules'' \<in> set (drop (length (path_names root)) (path_names member_root))
       then Inl (Discovery (''workspace member may not be inside root node_modules: '' @ display member_root))
       else and_then (read_file os canonical) (\<lambda>text. Inr (canonical, text)))"

text \<open>
  The loop over the members. The first component of the result is what the callback has observed,
  also when the loop ends with an error.
\<close>

fun discover_members ::
  "'v crates \<Rightarrow> json_text \<Rightarrow> os_calls \<Rightarrow> path \<Rightarrow> path list \<Rightarrow> string btree_set \<Rightarrow>
   (path \<times> string) list \<times> (workspace_error, 'v workspace_member list) result" where
  "discover_members C J os root [] names = ([], Inr [])"
| "discover_members C J os root (path # rest) names =
     (case and_then (member_source os root path) (\<lambda>(canonical, text).
             map_sum id (\<lambda>m. (canonical, text, m)) (parse_at C J canonical text)) of
        Inl e \<Rightarrow> ([], Inl e)
      | Inr (canonical, text, m) \<Rightarrow>
          if bs_contains names (pm_name m)
          then ([], Inl (Discovery (''duplicate workspace package name '' @ [CHR 0x27] @ pm_name m @ [CHR 0x27])))
          else (let (observed, members) = discover_members C J os root rest (bs_insert (pm_name m) names) in
            ((canonical, text) # observed,
             map_sum id ((#) \<lparr>wm_name = pm_name m, wm_path = canonical, wm_manifest = m\<rparr>) members)))"

definition workspace_root :: "os_calls \<Rightarrow> path \<Rightarrow> (workspace_error, path) result" where
  "workspace_root os project_dir =
     and_then (map_err (\<lambda>e. Discovery (''cannot resolve workspace root '' @ display project_dir @ '': '' @ e)) (os_canonicalize os project_dir)) (\<lambda>root.
     if os_metadata os root \<noteq> Inr Directory then Inl (Discovery (''workspace root is not a directory: '' @ display root))
     else Inr root)"

definition root_manifest ::
  "'v crates \<Rightarrow> json_text \<Rightarrow> os_calls \<Rightarrow> path \<Rightarrow> (workspace_error, path \<times> 'v package_manifest) result" where
  "root_manifest C J os root =
     (let path = path_push root ''package.json'' in
      and_then (map_err (\<lambda>e. ManifestRead path (''cannot inspect workspace root manifest: '' @ io_text e)) (os_symlink_metadata os path)) (\<lambda>kind.
      if kind \<noteq> Regular_File then Inl (ManifestRead path ''workspace root package.json must be a regular file'')
      else and_then (map_err (ManifestRead path) (contained_path os root path)) (\<lambda>root_path.
        and_then (read_file os root_path) (\<lambda>text.
        map_sum id (\<lambda>m. (root_path, m)) (parse_at C J root_path text)))))"

definition candidate_paths ::
  "'v crates \<Rightarrow> json_text \<Rightarrow> os_calls \<Rightarrow> path \<Rightarrow> nat \<Rightarrow> nat \<Rightarrow>
   (workspace_error, path \<times> path \<times> 'v package_manifest \<times> path list) result" where
  "candidate_paths C J os project_dir max_candidates max_expansion_steps =
     and_then (workspace_root os project_dir) (\<lambda>root.
     and_then (root_manifest C J os root) (\<lambda>(root_path, m).
     and_then (map_err Discovery (workspace_patterns (bm_get (pm_extra m) ''workspaces''))) (\<lambda>patterns.
     and_then (expand_patterns os root max_candidates patterns [] max_expansion_steps) (\<lambda>paths.
     and_then (member_manifest_paths os root paths) (\<lambda>contained.
     Inr (root, root_path, m, dedup (sort contained)))))))"

definition discover_bounded_with_member_source ::
  "'v crates \<Rightarrow> json_text \<Rightarrow> os_calls \<Rightarrow> path \<Rightarrow> nat \<Rightarrow> nat \<Rightarrow>
   (path \<times> string) list \<times> (workspace_error, 'v workspace) result" where
  "discover_bounded_with_member_source C J os project_dir max_candidates max_expansion_steps =
     (case candidate_paths C J os project_dir max_candidates max_expansion_steps of
        Inl e \<Rightarrow> ([], Inl e)
      | Inr (root, root_path, m, paths) \<Rightarrow>
          (let (observed, members) = discover_members C J os root paths (bs_of_list [pm_name m]) in
           (observed, map_sum id (\<lambda>ms. \<lparr>wk_root = m, wk_root_path = root_path,
              wk_members = sort_key (\<lambda>w. (wm_name w, wm_path w)) ms\<rparr>) members)))"

definition discover_bounded ::
  "'v crates \<Rightarrow> json_text \<Rightarrow> os_calls \<Rightarrow> path \<Rightarrow> nat \<Rightarrow> nat \<Rightarrow> (workspace_error, 'v workspace) result" where
  "discover_bounded C J os project_dir max_candidates max_expansion_steps =
     snd (discover_bounded_with_member_source C J os project_dir max_candidates max_expansion_steps)"

definition discover_typed :: "'v crates \<Rightarrow> json_text \<Rightarrow> os_calls \<Rightarrow> path \<Rightarrow> (workspace_error, 'v workspace) result" where
  "discover_typed C J os project_dir = discover_bounded C J os project_dir u64_max u64_max"

definition discover :: "'v crates \<Rightarrow> json_text \<Rightarrow> os_calls \<Rightarrow> path \<Rightarrow> (string, 'v workspace) result" where
  "discover C J os project_dir = map_err workspace_error_to_string (discover_typed C J os project_dir)"

definition select_member :: "'v workspace \<Rightarrow> string \<Rightarrow> (string, 'v workspace_member) result" where
  "select_member w name =
     (if name = [] then Inl ''workspace selector cannot be empty''
      else ok_or (''workspace member '' @ [CHR 0x27] @ name @ [CHR 0x27] @ '' was not found'')
        (find (\<lambda>m. wm_name m = name) (wk_members w)))"

fun workspace_select :: "'v workspace \<Rightarrow> string option \<Rightarrow> (string, 'v package_manifest) result" where
  "workspace_select w None = Inr (wk_root w)"
| "workspace_select w (Some name) = map_sum id wm_manifest (select_member w name)"

fun workspace_select_path :: "'v workspace \<Rightarrow> string option \<Rightarrow> (string, path) result" where
  "workspace_select_path w None = Inr (wk_root_path w)"
| "workspace_select_path w (Some name) = map_sum id wm_path (select_member w name)"

end
