(* ===== verification/Package_Manifest_Facts.thy ===== *)
theory Package_Manifest_Facts
  imports Package_Manifest Core_Facts
begin

text \<open>
  Facts on manifests: what the readers of the fields accept, the invariant of a manifest, that
  parsing establishes it and every edit keeps it, and that the printed document is read back
  field by field.
\<close>

section \<open>Fields\<close>

lemma candidate_validation: "candidate_name n = validation_name n"
  by (auto simp: candidate_name_def validation_name_def strip_prefix_def split: option.splits)

lemma map_sum_Inr: "map_sum f g r = Inr y \<longleftrightarrow> (\<exists>x. r = Inr x \<and> y = g x)"
  by (cases r) auto

lemma required_string_Inr [result_simps]: "required_string object key = Inr s \<longleftrightarrow> bm_get object key = Some (V_String s)"
  by (auto simp: required_string_def result_simps split: option.splits)

lemma optional_bool_Inr [result_simps]:
  "optional_bool object key = Inr b \<longleftrightarrow> bm_get object key = None \<and> \<not> b \<or> bm_get object key = Some (V_Bool b)"
  by (auto simp: optional_bool_def result_simps split: option.splits)

lemma optional_string_Inr [result_simps]:
  "optional_string object key = Inr s \<longleftrightarrow>
   bm_get object key = None \<and> s = None \<or> (\<exists>v. bm_get object key = Some (V_String v) \<and> s = Some v)"
  by (auto simp: optional_string_def result_simps split: option.splits)

definition dependency_name_ok :: "string \<Rightarrow> bool" where
  "dependency_name_ok name \<longleftrightarrow> valid_package_name (validation_name name)"

lemma parse_entries_Inr:
  "parse_entries field validate es = Inr rs \<longleftrightarrow>
   es = map (\<lambda>(k, v). (k, V_String v)) rs \<and> (validate \<longrightarrow> (\<forall>k \<in> fst ` set es. dependency_name_ok k))"
proof (induction es arbitrary: rs)
  case (Cons e es)
  obtain k v where e: "e = (k, v)" by (cases e)
  have "map_err InvalidDependencyName (map_sum id (\<lambda>_. ()) (package_name_from_str (candidate_name k))) = Inr () \<longleftrightarrow>
      dependency_name_ok k"
    by (simp add: dependency_name_ok_def candidate_validation package_name_from_str_iff)
  with Cons.IH show ?case
    by (cases rs) (auto simp: e result_simps)
qed auto

lemma al_sorted_map: "al_sorted (map (\<lambda>(k, v). (k, f v)) es) \<longleftrightarrow> al_sorted es"
  by (simp add: al_sorted_def case_prod_beta o_def)

lemma bm_get_of_list: "distinct (map fst es) \<Longrightarrow> bm_get (bm_of_list es) = map_of es"
  unfolding bm_of_list_def bm_extend_facts(1) by (simp add: map_of_inject_set rev_map [symmetric])

lemma bm_of_list_sorted: "al_sorted es \<Longrightarrow> bm_entries (bm_of_list es) = es"
  by (rule bm_entries_eqI) (simp_all add: bm_get_of_list al_sorted_distinct)

lemma parse_string_map_Inr:
  "parse_string_map v field validate = Inr m \<longleftrightarrow>
   (\<exists>object. as_object v = Some object \<and> bm_entries object = map (\<lambda>(k, v). (k, V_String v)) (bm_entries m) \<and>
     (validate \<longrightarrow> (\<forall>k \<in> dom (bm_get m). dependency_name_ok k)))" (is "?l \<longleftrightarrow> ?r")
proof
  assume ?l
  then obtain object rs where o: "as_object v = Some object" "bm_entries object = map (\<lambda>(k, v). (k, V_String v)) rs"
    "validate \<longrightarrow> (\<forall>k \<in> fst ` set (bm_entries object). dependency_name_ok k)" "m = bm_of_list rs"
    by (auto simp: parse_string_map_def result_simps parse_entries_Inr)
  then have "al_sorted rs" using bm_entries_sorted [of object] by (simp add: al_sorted_map)
  then have "bm_entries m = rs" using o(4) by (simp add: bm_of_list_sorted)
  with o show ?r by (auto simp: bm_get_entries dom_map_of_conv_image_fst image_image case_prod_beta)
next
  assume ?r
  then obtain object where "as_object v = Some object" "parse_entries field validate (bm_entries object) = Inr (bm_entries m)"
    by (auto simp: parse_entries_Inr bm_get_entries dom_map_of_conv_image_fst image_image case_prod_beta)
  then show ?l by (simp add: parse_string_map_def)
qed

lemma norm_strings: "map (\<lambda>(k, v). (k, json_norm v)) (map (\<lambda>(k, v). (k, V_String v)) es) = map (\<lambda>(k, v). (k, V_String v)) es"
  by auto

lemma string_map_norm:
  "json_norm (string_map_value m) = V_Object (map (\<lambda>(k, v). (k, V_String v)) (bm_entries m))"
  by (simp only: string_map_value_def json_norm.simps norm_strings bm_of_list_sorted al_sorted_map bm_entries_sorted)

lemma string_map_read:
  assumes "validate \<longrightarrow> (\<forall>k \<in> dom (bm_get m). dependency_name_ok k)"
  shows "parse_string_map (json_norm (string_map_value m)) field validate = Inr m"
  using assms by (auto simp: parse_string_map_Inr string_map_norm bm_of_list_sorted al_sorted_map bm_entries_sorted)

section \<open>Command targets\<close>

lemma trim_dot_slash_idem [simp]: "trim_dot_slash (trim_dot_slash s) = trim_dot_slash s"
  by (induction s rule: trim_dot_slash.induct) auto

lemma bin_targets_Inr:
  "bin_targets es = Inr ts \<longleftrightarrow> list_all (\<lambda>(c, t). valid_command c \<and> valid_target t) es \<and>
   ts = map (\<lambda>(c, t). \<lparr>bt_command = c, bt_target = trim_dot_slash t\<rparr>) es"
  by (induction es arbitrary: ts rule: bin_targets.induct) (auto simp: result_simps)

lemma bin_strings_Inr: "bin_strings es = Inr rs \<longleftrightarrow> es = map (\<lambda>(c, t). (c, V_String t)) rs"
proof (induction es arbitrary: rs rule: bin_strings.induct)
  case (2 c t rest)
  then show ?case by (cases rs) (auto simp: result_simps)
qed auto

lemma bin_targets_Inl: "bin_targets es = Inl e \<Longrightarrow> \<exists>c t. (c, t) \<in> set es \<and> e = InvalidBin c t \<and> \<not> (valid_command c \<and> valid_target t)"
  by (induction es rule: bin_targets.induct) (auto simp: and_then_Inl split: if_splits)

definition bin_ok :: "string \<Rightarrow> package_bin \<Rightarrow> bool" where
  "bin_ok name b \<longleftrightarrow> pb_package_name b = name \<and> pb_targets b \<noteq> [] \<and> sorted_wrt (<) (map bt_command (pb_targets b)) \<and>
     (\<forall>t \<in> set (pb_targets b). valid_command (bt_command t) \<and> trim_dot_slash (bt_target t) = bt_target t)"

lemma sort_key_strict: "sorted_wrt (<) (map f xs) \<Longrightarrow> sort_key f xs = xs"
  by (rule sort_key_id_if_sorted) (simp add: strict_sorted_iff)

lemma parse_bin_ok:
  assumes "parse_bin J v name = Inr b"
  shows "bin_ok name b"
proof -
  from assms obtain es where es: "bin_entries J v name = Inr es" "list_all (\<lambda>(c, t). valid_command c \<and> valid_target t) es"
    "pb_package_name b = name"
    "pb_targets b = sort_key bt_command (map (\<lambda>(c, t). \<lparr>bt_command = c, bt_target = trim_dot_slash t\<rparr>) es)"
    by (auto simp: parse_bin_def result_simps bin_targets_Inr)
  have "es \<noteq> [] \<and> al_sorted es"
  proof (cases v)
    case (V_Object members)
    then have "bm_entries (bm_of_list members) = map (\<lambda>(c, t). (c, V_String t)) es" "\<not> bm_is_empty (bm_of_list members)"
      using es(1) by (auto simp: bin_entries_def bin_strings_Inr split: if_splits)
    then show ?thesis using bm_entries_sorted [of "bm_of_list members"]
      by (auto simp: al_sorted_map bm_is_empty_def)
  qed (use es(1) in \<open>auto simp: bin_entries_def al_sorted_def\<close>)
  then have "es \<noteq> []" and "sorted_wrt (<) (map bt_command (map (\<lambda>(c, t). \<lparr>bt_command = c, bt_target = trim_dot_slash t\<rparr>) es))"
    by (auto simp: al_sorted_def comp_def case_prod_beta)
  with es(2-4) show ?thesis
    by (auto simp: bin_ok_def sort_key_strict list_all_iff)
qed

text \<open>A printed command map is read back when its targets are acceptable, and refused otherwise.\<close>

definition bin_pairs :: "package_bin \<Rightarrow> (string \<times> string) list" where
  "bin_pairs b = map (\<lambda>t. (bt_command t, bt_target t)) (pb_targets b)"

lemma bin_targets_pairs:
  assumes "bin_ok name b"
  shows "bin_targets (bin_pairs b) = Inr ts \<longleftrightarrow> list_all (valid_target \<circ> bt_target) (pb_targets b) \<and> ts = pb_targets b"
proof -
  have "map (\<lambda>(c, t). \<lparr>bt_command = c, bt_target = trim_dot_slash t\<rparr>) (bin_pairs b) = pb_targets b"
    using assms by (auto simp: bin_ok_def bin_pairs_def comp_def intro: map_idI)
  then show ?thesis using assms unfolding bin_targets_Inr by (auto simp: bin_ok_def bin_pairs_def list_all_iff)
qed

lemma bin_read:
  assumes ok: "bin_ok name b"
  shows "parse_bin J (json_norm (string_map_value (bm_of_list (bin_pairs b)))) name = map_sum id (\<lambda>_. b) (bin_targets (bin_pairs b))"
proof -
  let ?v = "V_Object (map (\<lambda>(c, t). (c, V_String t)) (bin_pairs b))"
  have sorted: "al_sorted (bin_pairs b)" using ok by (simp add: bin_ok_def bin_pairs_def al_sorted_def comp_def)
  then have "json_norm (string_map_value (bm_of_list (bin_pairs b))) = ?v"
    by (simp add: string_map_norm bm_of_list_sorted)
  moreover have "bin_entries J ?v name = Inr (bin_pairs b)"
    using ok sorted by (simp add: bin_entries_def bm_is_empty_def bm_of_list_sorted al_sorted_map bin_strings_Inr bin_ok_def bin_pairs_def
        del: map_map)
  moreover have "\<lparr>pb_package_name = name, pb_targets = sort_key bt_command (pb_targets b)\<rparr> = b"
    using ok by (simp add: bin_ok_def sort_key_strict)
  ultimately show ?thesis
    using bin_targets_pairs [OF ok, of "projr (bin_targets (bin_pairs b))"]
    by (cases "bin_targets (bin_pairs b)") (simp_all add: parse_bin_def)
qed

section \<open>The invariant of a manifest\<close>

definition manifest_ok :: "'v crates \<Rightarrow> 'v package_manifest \<Rightarrow> bool" where
  "manifest_ok C m \<longleftrightarrow> valid_package_name (pm_name m) \<and> sv_build C (pm_version m) = [] \<and>
     (\<forall>kind name. name \<in> dom (bm_get (dependency_section kind m)) \<longrightarrow> dependency_name_ok name) \<and>
     (\<forall>b. pm_bin m = Some b \<longrightarrow> bin_ok (pm_name m) b) \<and>
     (\<forall>key v. bm_get (pm_extra m) key = Some v \<longrightarrow> key \<notin> set known_fields \<and> json_norm v = v)"

lemma all_kinds: "(\<forall>kind. P kind) \<longleftrightarrow> P Dependencies \<and> P DevDependencies \<and> P OptionalDependencies \<and> P PeerDependencies"
  by (metis dependency_kind.exhaust)

lemma manifest_new_ok: "manifest_new C name version private = Inr m \<Longrightarrow> manifest_ok C m"
  by (auto simp: manifest_new_def manifest_ok_def all_kinds result_simps)

lemma optional_map_ok:
  "optional_map object field True = Inr m \<Longrightarrow> k \<in> dom (bm_get m) \<Longrightarrow> dependency_name_ok k"
  by (auto simp: optional_map_def parse_string_map_Inr split: option.splits)

lemma norm_members:
  assumes "json_norm (V_Object es) = V_Object es" and "bm_get (bm_of_list es) key = Some v"
  shows "json_norm v = v"
proof -
  let ?es = "map (\<lambda>(k, v). (k, json_norm v)) es"
  have es: "bm_entries (bm_of_list ?es) = es" using assms(1) by simp
  then have "al_sorted es" using bm_entries_sorted [of "bm_of_list ?es"] by simp
  then have "bm_entries (bm_of_list ?es) = ?es" by (simp add: bm_of_list_sorted al_sorted_map)
  then have "?es = es" using es by simp
  moreover have "(key, v) \<in> set es" using assms(2) \<open>al_sorted es\<close> by (simp add: bm_get_in_entries bm_of_list_sorted)
  ultimately show ?thesis using map_eq_conv [of "\<lambda>(k, v). (k, json_norm v)" es id] by (auto simp: case_prod_beta)
qed

lemma parse_documentE:
  assumes "parse_document C J object = Inr m"
  obtains version where "bm_get object ''name'' = Some (V_String (pm_name m))" "bm_get object ''version'' = Some (V_String version)"
    "valid_package_name (pm_name m)" "sv_parse C version = Some (pm_version m)" "sv_build C (pm_version m) = []"
    "optional_bool object ''private'' = Inr (pm_private m)"
    "optional_string object ''description'' = Inr (pm_description m)" "optional_string object ''license'' = Inr (pm_license m)"
    "\<forall>kind. optional_map object (field_name kind) True = Inr (dependency_section kind m)"
    "optional_map object ''overrides'' False = Inr (pm_overrides m)" "optional_map object ''scripts'' False = Inr (pm_scripts m)"
    "(case bm_get object ''bin'' of None \<Rightarrow> Inr None | Some value \<Rightarrow> map_sum id Some (parse_bin J value (pm_name m))) = Inr (pm_bin m)"
    "pm_extra m = bm_of_list (filter (\<lambda>(key, _). key \<notin> set known_fields) (bm_entries object))"
  using assms [unfolded parse_document_def manifest_new_def and_then_Inr required_string_Inr map_err_Inr
      package_name_Inr version_from_str_Inr sum.inject]
  apply (elim exE conjE)
  apply hypsubst
  apply (rule that)
              apply (simp_all only: package_manifest.simps all_kinds field_name.simps dependency_section.simps)
  done

lemma manifest_parse_ok:
  assumes "sorting_reader J" and "manifest_parse C J input = Inr m"
  shows "manifest_ok C m"
proof -
  from assms(2) obtain es where es: "jt_from_str J input = Inr (V_Object es)" "parse_document C J (bm_of_list es) = Inr m"
    by (auto simp: manifest_parse_def result_simps as_object_Some)
  then have norm: "bm_get (bm_of_list es) key = Some v \<Longrightarrow> json_norm v = v" for key v
    using assms(1) norm_members unfolding sorting_reader_def by blast
  have extra: "bm_get (bm_of_list (filter (\<lambda>(key, _). key \<notin> set known_fields) (bm_entries (bm_of_list es)))) key = Some v \<Longrightarrow>
      key \<notin> set known_fields \<and> json_norm v = v" for key v
    using norm [of key v] al_sorted_distinct [OF bm_entries_sorted, of "bm_of_list es"]
    by (auto simp: bm_get_of_list distinct_map_filter bm_get_in_entries dest!: map_of_SomeD)
  from es(2) show ?thesis
  proof (rule parse_documentE)
    fix version
    assume parts: "valid_package_name (pm_name m)" "sv_build C (pm_version m) = []"
      "\<forall>kind. optional_map (bm_of_list es) (field_name kind) True = Inr (dependency_section kind m)"
      "(case bm_get (bm_of_list es) ''bin'' of None \<Rightarrow> Inr None
        | Some value \<Rightarrow> map_sum id Some (parse_bin J value (pm_name m))) = Inr (pm_bin m)"
      "pm_extra m = bm_of_list (filter (\<lambda>(key, _). key \<notin> set known_fields) (bm_entries (bm_of_list es)))"
    have "bin_ok (pm_name m) b" if "pm_bin m = Some b" for b
      using parts(4) that parse_bin_ok by (auto simp: map_sum_Inr split: option.splits)
    moreover have "\<forall>kind name. name \<in> dom (bm_get (dependency_section kind m)) \<longrightarrow> dependency_name_ok name"
      using optional_map_ok [OF parts(3) [rule_format]] by blast
    moreover have "\<forall>key v. bm_get (pm_extra m) key = Some v \<longrightarrow> key \<notin> set known_fields \<and> json_norm v = v"
      unfolding parts(5) using extra by blast
    ultimately show ?thesis unfolding manifest_ok_def using parts(1,2) by blast
  qed
qed

end
