(* ===== verification/Package_Manifest_Document.thy ===== *)
theory Package_Manifest_Document
  imports Package_Manifest_Facts
begin

text \<open>
  Edits of a manifest keep its invariant and change one section; the printed document is read
  back field by field.
\<close>

section \<open>Edits\<close>

definition other_fields where
  "other_fields m = (pm_name m, pm_version m, pm_private m, pm_description m, pm_license m, pm_overrides m, pm_scripts m, pm_bin m, pm_extra m)"

lemma section_mut [simp]:
  "dependency_section k' (dependency_section_mut k f m) = (if k' = k then f (dependency_section k m) else dependency_section k' m)"
  "other_fields (dependency_section_mut k f m) = other_fields m"
  by (cases k; cases k'; simp) (cases k; simp add: other_fields_def)

lemma section_remove [simp]:
  "dependency_section k (remove_everywhere name m) = bm_remove name (dependency_section k m)"
  "other_fields (remove_everywhere name m) = other_fields m"
  by (cases k; simp add: remove_everywhere_def) (simp add: remove_everywhere_def other_fields_def)

lemma manifest_ok_sections:
  assumes "manifest_ok C m" and "other_fields m' = other_fields m"
    and "\<And>kind name. name \<in> dom (bm_get (dependency_section kind m')) \<Longrightarrow>
      name \<in> dom (bm_get (dependency_section kind m)) \<or> dependency_name_ok name"
  shows "manifest_ok C m'"
proof -
  have "pm_name m' = pm_name m" "pm_version m' = pm_version m" "pm_bin m' = pm_bin m" "pm_extra m' = pm_extra m"
    using assms(2) by (simp_all add: other_fields_def)
  then show ?thesis using assms(1,3) unfolding manifest_ok_def by metis
qed

lemma set_dependency_Inr:
  "set_dependency kind name requirement m = Inr m' \<longleftrightarrow> dependency_name_ok name \<and>
   m' = dependency_section_mut kind (bm_insert name (trim requirement)) (remove_everywhere name m)"
  by (auto simp: set_dependency_def dependency_name_ok_def result_simps)

lemma without_dependency_Inr:
  "without_dependency name m = Inr m' \<longleftrightarrow> dependency_name_ok name \<and> m' = remove_everywhere name m"
  by (auto simp: without_dependency_def dependency_name_ok_def result_simps)

lemma update_dependency_Inr:
  "update_dependency_kind kind name requirement m = Inr m' \<longleftrightarrow> name \<in> dom (bm_get (dependency_section kind m)) \<and>
   m' = dependency_section_mut kind (bm_insert name (trim requirement)) m"
  by (auto simp: update_dependency_kind_def split: option.splits)

text \<open>The manifests that the operations of the crate make.\<close>

inductive manifest_built :: "'v crates \<Rightarrow> json_text \<Rightarrow> 'v package_manifest \<Rightarrow> bool" for C J where
  new: "manifest_new C name version private = Inr m \<Longrightarrow> manifest_built C J m"
| parsed: "manifest_parse C J input = Inr m \<Longrightarrow> manifest_built C J m"
| added: "manifest_built C J m \<Longrightarrow> with_dependency_kind kind name requirement m = Inr m' \<Longrightarrow> manifest_built C J m'"
| updated: "manifest_built C J m \<Longrightarrow> update_dependency_kind kind name requirement m = Inr m' \<Longrightarrow> manifest_built C J m'"
| removed: "manifest_built C J m \<Longrightarrow> without_dependency name m = Inr m' \<Longrightarrow> manifest_built C J m'"

lemma built_manifest_ok:
  assumes "manifest_built C J m" and "sorting_reader J"
  shows "manifest_ok C m"
  using assms(1)
proof induction
  case (added m kind name requirement m')
  from added.hyps(2) have "dependency_name_ok name" "m' = dependency_section_mut kind (bm_insert name (trim requirement)) (remove_everywhere name m)"
    by (auto simp: with_dependency_kind_def set_dependency_Inr)
  then show ?case by (intro manifest_ok_sections [OF added.IH]) (auto split: if_splits)
next
  case (updated m kind name requirement m')
  from updated.hyps(2) show ?case
    by (intro manifest_ok_sections [OF updated.IH]) (auto simp: update_dependency_Inr split: if_splits)
next
  case (removed m name m')
  from removed.hyps(2) show ?case
    by (intro manifest_ok_sections [OF removed.IH]) (auto simp: without_dependency_Inr split: if_splits)
qed (use assms(2) in \<open>auto dest: manifest_new_ok manifest_parse_ok\<close>)

section \<open>Reading a printed manifest\<close>

lemma map_of_string_field: "map_of (rev (string_field f s)) k = (if k = f then map_option V_String s else None)"
  by (auto simp: string_field_def split: option.splits)

lemma map_of_map_field: "map_of (rev (map_field f m)) k = (if k = f \<and> m \<noteq> bm_empty then Some (string_map_value m) else None)"
  by (auto simp: map_field_def bm_is_empty_iff)

lemma map_of_bin_field:
  "map_of (rev (bin_field b)) k = (if k = ''bin'' then map_option (\<lambda>b. string_map_value (bm_of_list (bin_pairs b))) b else None)"
  by (auto simp: bin_field_def bin_pairs_def split: option.splits)

lemma map_of_rev_entries: "map_of (rev (bm_entries m)) = bm_get m"
  using al_sorted_distinct [OF bm_entries_sorted, of m] by (simp add: bm_get_entries map_of_inject_set rev_map [symmetric])

text \<open>The members of the printed document, as the reader yields them.\<close>

definition document_object :: "'v crates \<Rightarrow> 'v package_manifest \<Rightarrow> (string, json_value) btree_map" where
  "document_object C m = the (as_object (json_norm (manifest_document C m)))"

lemma get_norm_members:
  "bm_get (bm_of_list (map (\<lambda>(k, v). (k, json_norm v)) es)) k = map_option json_norm (map_of (rev es) k)"
  unfolding bm_of_list_def bm_extend_facts(1) by (simp add: rev_map map_of_map)

lemmas document_lookups = map_of_string_field map_of_map_field map_of_bin_field map_of_rev_entries map_add_def

lemma document_object_get:
  assumes "manifest_ok C m"
  shows "bm_get (document_object C m) k =
    (if k = ''name'' then Some (V_String (pm_name m))
     else if k = ''version'' then Some (V_String (sv_to_string C (pm_version m)))
     else if k = ''private'' then Some (V_Bool (pm_private m))
     else if k = ''description'' then map_option V_String (pm_description m)
     else if k = ''license'' then map_option V_String (pm_license m)
     else if k = ''overrides'' then (if pm_overrides m = bm_empty then None else Some (json_norm (string_map_value (pm_overrides m))))
     else if k = ''scripts'' then (if pm_scripts m = bm_empty then None else Some (json_norm (string_map_value (pm_scripts m))))
     else if k = ''bin'' then map_option (\<lambda>b. json_norm (string_map_value (bm_of_list (bin_pairs b)))) (pm_bin m)
     else (case find (\<lambda>kind. k = field_name kind) [Dependencies, DevDependencies, OptionalDependencies, PeerDependencies] of
        Some kind \<Rightarrow> if dependency_section kind m = bm_empty then None else Some (json_norm (string_map_value (dependency_section kind m)))
      | None \<Rightarrow> bm_get (pm_extra m) k))"
proof -
  have extra: "bm_get (pm_extra m) k = None" if "k \<in> set known_fields"
    using assms that by (cases "bm_get (pm_extra m) k") (auto simp: manifest_ok_def)
  have norm: "map_option json_norm (bm_get (pm_extra m) k) = bm_get (pm_extra m) k"
    using assms by (cases "bm_get (pm_extra m) k") (auto simp: manifest_ok_def)
  show ?thesis
  proof (cases "k \<in> set known_fields")
    case True
    then show ?thesis using extra
      unfolding document_object_def manifest_document_def as_object_norm option.sel get_norm_members known_fields_def
      by (elim set_ConsD [THEN disjE] disjE) (auto simp: document_lookups option.map_comp comp_def split: option.splits)
  next
    case False
    then show ?thesis using norm
      unfolding document_object_def manifest_document_def as_object_norm option.sel get_norm_members known_fields_def
      by (cases "bm_get (pm_extra m) k") (simp_all add: document_lookups)
  qed
qed

lemma map_of_filter_keys: "map_of (filter (\<lambda>(key, _). P key) es) k = (if P k then map_of es k else None)"
  by (induction es) auto

lemma get_filter_entries:
  "bm_get (bm_of_list (filter (\<lambda>(key, _). P key) (bm_entries m))) k = (if P k then bm_get m k else None)"
proof -
  have "distinct (map fst (filter (\<lambda>(key, _). P key) (bm_entries m)))"
    by (rule distinct_map_filter [OF al_sorted_distinct [OF bm_entries_sorted]])
  then show ?thesis by (simp add: bm_get_of_list map_of_filter_keys bm_get_entries [symmetric])
qed

lemma document_extra:
  assumes "manifest_ok C m"
  shows "bm_of_list (filter (\<lambda>(key, _). key \<notin> set known_fields) (bm_entries (document_object C m))) = pm_extra m"
proof (rule bm_eqI, rule ext)
  fix k
  have "bm_get (pm_extra m) k = None" if "k \<in> set known_fields"
    using assms that by (cases "bm_get (pm_extra m) k") (auto simp: manifest_ok_def)
  moreover have "bm_get (document_object C m) k = bm_get (pm_extra m) k" if "k \<notin> set known_fields"
    using that unfolding document_object_get [OF assms] by (simp add: known_fields_def)
  ultimately show "bm_get (bm_of_list (filter (\<lambda>(key, _). key \<notin> set known_fields) (bm_entries (document_object C m)))) k =
      bm_get (pm_extra m) k"
    unfolding get_filter_entries by simp
qed

lemma document_map:
  assumes "bm_get object field = (if m = bm_empty then None else Some (json_norm (string_map_value m)))"
    and "validate \<longrightarrow> (\<forall>k \<in> dom (bm_get m). dependency_name_ok k)"
  shows "optional_map object field validate = Inr m"
  using assms string_map_read [OF assms(2)] by (simp add: optional_map_def)

lemma document_sections:
  assumes "manifest_ok C m"
  shows "optional_map (document_object C m) (field_name kind) True = Inr (dependency_section kind m)"
proof (rule document_map)
  show "bm_get (document_object C m) (field_name kind) =
      (if dependency_section kind m = bm_empty then None else Some (json_norm (string_map_value (dependency_section kind m))))"
    unfolding document_object_get [OF assms] by (cases kind) simp_all
qed (use assms in \<open>auto simp: manifest_ok_def\<close>)

lemma document_read:
  assumes ok: "manifest_ok C m" and "semver_text C"
  shows "parse_document C J (document_object C m) =
    (case pm_bin m of
       None \<Rightarrow> Inr m
     | Some b \<Rightarrow> map_sum id (\<lambda>_. m) (bin_targets (bin_pairs b)))"
proof -
  note get = document_object_get [OF ok]
  have "valid_package_name (pm_name m)" "sv_build C (pm_version m) = []" using ok by (simp_all add: manifest_ok_def)
  moreover have "sv_parse C (sv_to_string C (pm_version m)) = Some (pm_version m)" using assms(2) unfolding semver_text_def by blast
  ultimately have new: "manifest_new C (pm_name m) (sv_to_string C (pm_version m)) (pm_private m) =
      Inr \<lparr>pm_name = pm_name m, pm_version = pm_version m, pm_private = pm_private m, pm_description = None, pm_license = None,
          pm_dependencies = bm_empty, pm_dev_dependencies = bm_empty, pm_optional_dependencies = bm_empty,
          pm_peer_dependencies = bm_empty, pm_overrides = bm_empty, pm_scripts = bm_empty, pm_bin = None, pm_extra = bm_empty\<rparr>"
    by (simp add: manifest_new_def package_name_from_str_iff package_version_from_str_def)
  have fields: "required_string (document_object C m) ''name'' = Inr (pm_name m)"
    "required_string (document_object C m) ''version'' = Inr (sv_to_string C (pm_version m))"
    "optional_bool (document_object C m) ''private'' = Inr (pm_private m)"
    "optional_string (document_object C m) ''description'' = Inr (pm_description m)"
    "optional_string (document_object C m) ''license'' = Inr (pm_license m)"
    unfolding result_simps get by (simp_all, (cases "pm_description m", simp_all), cases "pm_license m", simp_all)
  have maps: "optional_map (document_object C m) ''overrides'' False = Inr (pm_overrides m)"
    "optional_map (document_object C m) ''scripts'' False = Inr (pm_scripts m)"
    by (rule document_map; simp add: get)+
  have bin: "(case bm_get (document_object C m) ''bin'' of None \<Rightarrow> Inr None
      | Some value \<Rightarrow> map_sum id Some (parse_bin J value (pm_name m))) =
      (case pm_bin m of None \<Rightarrow> Inr None | Some b \<Rightarrow> map_sum id (\<lambda>_. Some b) (bin_targets (bin_pairs b)))"
    using ok by (cases "pm_bin m") (simp_all add: get bin_read manifest_ok_def sum.map_comp comp_def id_def)
  note sections = document_sections [OF ok, of Dependencies] document_sections [OF ok, of DevDependencies]
    document_sections [OF ok, of OptionalDependencies] document_sections [OF ok, of PeerDependencies]
  show ?thesis
    unfolding parse_document_def fields new and_then_simps maps sections [unfolded field_name.simps dependency_section.simps]
      document_extra [OF ok] package_manifest.simps bin
    by (cases "pm_bin m"; simp) (cases "bin_targets (bin_pairs (the (pm_bin m)))"; simp)
qed

end
