(* ===== verification/Workspace_Facts.thy ===== *)
theory Workspace_Facts
  imports Workspace Package_Manifest_Document
begin

text \<open>
  Facts on the discovery of workspaces. An expansion that charges a budget is \<open>budgeted\<close>: it
  exceeds the budget, or a larger budget changes nothing but what remains; the expansion loops are composed
  of budgeted steps. The loop over the members keeps names apart and records its sources.
\<close>

section \<open>Budgets\<close>

definition budgeted :: "(nat \<Rightarrow> (workspace_error, 'a \<times> nat) result) \<Rightarrow> bool" where
  "budgeted f \<longleftrightarrow> (\<forall>r d. f r \<noteq> Inl Candidate_Underflow \<and>
     (f r = Inl DiscoveryLimitExceeded \<or> f (r + d) = map_sum id (\<lambda>(x, r'). (x, r' + d)) (f r)))"

lemma map_err_Inl: "map_err f r = Inl e \<longleftrightarrow> (\<exists>x. r = Inl x \<and> e = f x)"
  by (cases r) auto

lemma map_sum_Inl: "map_sum id g r = Inl e \<longleftrightarrow> r = Inl e"
  by (cases r) auto

lemma budgeted_return: "budgeted (\<lambda>r. Inr (x, r))"
  by (simp add: budgeted_def)

lemma budgeted_error: "e \<noteq> Candidate_Underflow \<Longrightarrow> budgeted (\<lambda>r. Inl e)"
  by (simp add: budgeted_def)

lemma budgeted_pure: "e \<noteq> Inl Candidate_Underflow \<Longrightarrow> (\<And>x. budgeted (g x)) \<Longrightarrow> budgeted (\<lambda>r. and_then e (\<lambda>x. g x r))"
  by (cases e) (simp_all add: budgeted_def)

lemma budgeted_step: "budgeted g \<Longrightarrow> budgeted (\<lambda>r. and_then (expansion_step r) g)"
  unfolding budgeted_def
proof (intro allI)
  fix r d
  assume g: "\<forall>r d. g r \<noteq> Inl Candidate_Underflow \<and> (g r = Inl DiscoveryLimitExceeded \<or> g (r + d) = map_sum id (\<lambda>(x, r'). (x, r' + d)) (g r))"
  show "and_then (expansion_step r) g \<noteq> Inl Candidate_Underflow \<and> (and_then (expansion_step r) g = Inl DiscoveryLimitExceeded \<or>
      and_then (expansion_step (r + d)) g = map_sum id (\<lambda>(x, r'). (x, r' + d)) (and_then (expansion_step r) g))"
    using g [rule_format, of "r - 1" d] by (cases r) (simp_all add: expansion_step_def)
qed

lemma budgeted_bind:
  assumes f: "budgeted f" and g: "\<And>x. budgeted (g x)"
  shows "budgeted (\<lambda>r. and_then (f r) (\<lambda>(x, r'). g x r'))"
  unfolding budgeted_def
proof (intro allI)
  fix r d
  show "and_then (f r) (\<lambda>(x, r'). g x r') \<noteq> Inl Candidate_Underflow \<and>
      (and_then (f r) (\<lambda>(x, r'). g x r') = Inl DiscoveryLimitExceeded \<or>
       and_then (f (r + d)) (\<lambda>(x, r'). g x r') = map_sum id (\<lambda>(x, r'). (x, r' + d)) (and_then (f r) (\<lambda>(x, r'). g x r')))"
  proof (cases "f r")
    case (Inl e)
    then show ?thesis using f [unfolded budgeted_def, rule_format, of r d] by auto
  next
    case (Inr p)
    then obtain x r' where p: "f r = Inr (x, r')" by (cases p) auto
    then have "f (r + d) = Inr (x, r' + d)" using f [unfolded budgeted_def, rule_format, of r d] by simp
    with p g [of x, unfolded budgeted_def, rule_format, of r' d] show ?thesis by simp
  qed
qed

lemma budgeted_if: "(b \<Longrightarrow> budgeted f) \<Longrightarrow> (\<not> b \<Longrightarrow> budgeted g) \<Longrightarrow> budgeted (\<lambda>r. if b then f r else g r)"
  by (cases b) simp_all

lemma glob_entry_errors: "glob_entry os root entry \<noteq> Inl Candidate_Underflow"
  by (auto simp: glob_entry_def and_then_Inl map_err_Inl map_sum_Inl split: if_splits)

lemma check_pattern_errors: "check_pattern pattern \<noteq> Inl Candidate_Underflow"
  by (simp add: check_pattern_def)

lemma map_err_Discovery: "map_err (\<lambda>e. Discovery (f e)) r \<noteq> Inl Candidate_Underflow" "map_err Discovery r' \<noteq> Inl Candidate_Underflow"
  by (auto simp: map_err_Inl)

lemma budgeted_glob_entries: "budgeted (glob_entries os root es ps)"
proof (induction es arbitrary: ps)
  case (Cons e es)
  show ?case unfolding glob_entries.simps by (intro budgeted_step budgeted_pure glob_entry_errors Cons.IH)
qed (simp add: budgeted_def)

lemma budgeted_glob_paths: "budgeted (glob_paths os root ps acc)"
proof (induction ps arbitrary: acc)
  case (Cons p ps)
  show ?case unfolding glob_paths.simps by (intro budgeted_pure map_err_Discovery budgeted_bind budgeted_glob_entries Cons.IH)
qed (simp add: budgeted_def)

lemma budgeted_push_paths: "budgeted (push_paths name ps)"
proof (induction ps)
  case (Cons p ps)
  show ?case unfolding push_paths.simps by (intro budgeted_step budgeted_bind budgeted_return Cons.IH)
qed (simp add: budgeted_def)

lemma budgeted_expand_components: "budgeted (expand_components os root names ps)"
proof (induction names arbitrary: ps)
  case (Cons n names)
  have "budgeted (\<lambda>r. if n = ''*'' then glob_paths os root ps [] r else push_paths n ps r)"
    by (intro budgeted_if budgeted_glob_paths budgeted_push_paths)
  then show ?case unfolding expand_components.simps by (intro budgeted_step budgeted_bind Cons.IH)
qed (simp add: budgeted_def)

lemma budgeted_probe: "budgeted (probe_manifests os limit ps ms)"
proof (induction ps arbitrary: ms)
  case (Cons p ps)
  have "budgeted (\<lambda>r. let manifest = path_push p ''package.json'' in
     case os_symlink_metadata os manifest of
       Inr _ \<Rightarrow> if length ms = limit then Inl DiscoveryLimitExceeded else probe_manifests os limit ps (ms @ [manifest]) r
     | Inl (Not_Found _) \<Rightarrow> probe_manifests os limit ps ms r
     | Inl (Other_Io e) \<Rightarrow> Inl (ManifestRead manifest (''cannot inspect workspace manifest '' @ display manifest @ '': '' @ e)))"
    unfolding Let_def
  proof (cases "os_symlink_metadata os (path_push p ''package.json'')", goal_cases)
    case (1 e)
    then show ?case using Cons.IH [of ms] by (cases e) (simp_all add: budgeted_error)
  next
    case (2 kind)
    then show ?case using Cons.IH by (simp only: sum.case) (intro budgeted_if budgeted_error, simp)
  qed
  then show ?case unfolding probe_manifests.simps by (rule budgeted_step)
qed (simp add: budgeted_def)

lemma budgeted_expand_pattern: "budgeted (expand_pattern_bounded os root pattern limit)"
  unfolding expand_pattern_bounded_def
  by (intro budgeted_step budgeted_pure check_pattern_errors budgeted_bind budgeted_expand_components budgeted_probe budgeted_return)

text \<open>A larger limit of candidates changes nothing but refusals for the limit.\<close>

lemma probe_limit:
  "length ms \<le> limit \<Longrightarrow> limit \<le> limit2 \<Longrightarrow>
   probe_manifests os limit ps ms r = Inl DiscoveryLimitExceeded \<or> probe_manifests os limit2 ps ms r = probe_manifests os limit ps ms r"
proof (induction ps arbitrary: ms r)
  case (Cons p ps)
  show ?case
  proof (cases r)
    case (Suc r')
    have "length ms = limit2 \<Longrightarrow> length ms = limit" using Cons.prems by simp
    with Suc Cons.IH [of ms r'] Cons.IH [of "ms @ [path_push p ''package.json'']" r'] Cons.prems show ?thesis
      by (auto simp: expansion_step_def Let_def split: sum.splits fs_error.splits)
  qed (simp add: expansion_step_def)
qed simp

lemma probe_length:
  "probe_manifests os limit ps ms r = Inr (xs, r') \<Longrightarrow> length ms \<le> limit \<Longrightarrow> length xs \<le> limit"
proof (induction ps arbitrary: ms r)
  case (Cons p ps)
  show ?case
    using Cons.prems Cons.IH [of ms "r - 1"] Cons.IH [of "ms @ [path_push p ''package.json'']" "r - 1"]
    by (cases r; cases "os_symlink_metadata os (path_push p ''package.json'')")
      (auto simp: expansion_step_def Let_def split: fs_error.splits if_splits)
qed simp

lemma expand_pattern_limit:
  assumes "limit \<le> limit2"
  shows "expand_pattern_bounded os root pattern limit r = Inl DiscoveryLimitExceeded \<or>
    expand_pattern_bounded os root pattern limit2 r = expand_pattern_bounded os root pattern limit r"
proof (cases "and_then (expansion_step r) (\<lambda>r. and_then (check_pattern pattern) (\<lambda>_.
    expand_components os root (pattern_components pattern) [root] r))")
  case (Inl e)
  then show ?thesis by (auto simp: expand_pattern_bounded_def and_then_Inl)
next
  case (Inr p)
  then show ?thesis
    using probe_limit [OF _ assms, of "[]" os "fst p" "snd p"]
    by (cases p) (auto simp: expand_pattern_bounded_def and_then_Inr)
qed

lemma expand_pattern_length: "expand_pattern_bounded os root pattern limit r = Inr (xs, r') \<Longrightarrow> length xs \<le> limit"
  by (auto simp: expand_pattern_bounded_def and_then_Inr dest: probe_length)

lemma expand_patterns_limit:
  assumes "limit \<le> limit2" and "length ps \<le> limit"
  shows "expand_patterns os root limit patterns ps r \<noteq> Inl Candidate_Underflow \<and>
    (expand_patterns os root limit patterns ps r = Inl DiscoveryLimitExceeded \<or>
     expand_patterns os root limit2 patterns ps (r + d) = expand_patterns os root limit patterns ps r)"
  using assms(2)
proof (induction patterns arbitrary: ps r)
  case (Cons pattern patterns)
  let ?f = "expand_pattern_bounded os root pattern (limit - length ps)"
  have larger: "?f r \<noteq> Inl Candidate_Underflow \<and> (?f r = Inl DiscoveryLimitExceeded \<or>
      expand_pattern_bounded os root pattern (limit2 - length ps) (r + d) = map_sum id (\<lambda>(x, r'). (x, r' + d)) (?f r))"
    using expand_pattern_limit [of "limit - length ps" "limit2 - length ps" os root pattern "r + d"] assms(1)
      budgeted_expand_pattern [unfolded budgeted_def, rule_format, of os root pattern "limit - length ps" r d]
    by (cases "?f r") auto
  show ?case
  proof (cases "?f r")
    case (Inl e)
    then show ?thesis using larger Cons.prems assms(1) by auto
  next
    case (Inr p)
    then obtain xs r' where p: "?f r = Inr (xs, r')" by (cases p) auto
    have "length (ps @ xs) \<le> limit" using expand_pattern_length [OF p] Cons.prems by simp
    from Cons.IH [OF this, of r'] p larger Cons.prems assms(1) show ?thesis by auto
  qed
qed simp

lemma expand_patterns_length:
  "expand_patterns os root limit patterns ps r = Inr xs \<Longrightarrow> length ps \<le> limit \<Longrightarrow> length xs \<le> limit"
proof (induction patterns arbitrary: ps r)
  case (Cons pattern patterns)
  then show ?case using expand_pattern_length [of os root pattern "limit - length ps" r]
    by (fastforce simp: and_then_Inr)
qed simp

end
