(* ===== verification/Package_Manifest_Properties.thy ===== *)
theory Package_Manifest_Properties
  imports Package_Manifest_Document Reference_Crates
begin

text \<open>
  Properties of manifests: printed manifests are read back, edits are exact, refusals are located
  by their diagnostics, lifecycle commands are planned as npm runs them; and the containment check of a
  command target can be bypassed.
\<close>

section \<open>Where a refusal is located\<close>

definition located :: "json_value \<Rightarrow> manifest_error \<Rightarrow> bool" where
  "located v e \<longleftrightarrow> (case diagnostic_rule (Some v) e of (field, key, expected) \<Rightarrow>
     (expected \<in> {''string'', ''boolean'', ''object''} \<longrightarrow> observed_type (observed_value v field key) \<noteq> expected) \<and>
     (expected = ''dependency_name'' \<longrightarrow> (\<exists>f k. field = Some f \<and> key = Some k \<and> f \<in> set dependency_fields \<and>
        \<not> dependency_name_ok k \<and> observed_value v field key \<noteq> None)))"

lemma observed_type_eq [simp]:
  "observed_type w = ''string'' \<longleftrightarrow> (\<exists>s. w = Some (V_String s))"
  "observed_type w = ''boolean'' \<longleftrightarrow> (\<exists>b. w = Some (V_Bool b))"
  "observed_type w = ''object'' \<longleftrightarrow> (\<exists>es. w = Some (V_Object es))"
  by (cases w rule: observed_type.cases; simp)+

lemma value_get_object: "as_object v = Some object \<Longrightarrow> value_get v key = bm_get object key"
  by (simp add: value_get_def)

lemma required_string_located:
  "as_object v = Some object \<Longrightarrow> required_string object key = Inl e \<Longrightarrow> located v e"
  by (auto simp: required_string_def ok_or_def located_def observed_value_def value_get_object Let_def split: option.splits)

lemma optional_bool_located:
  "as_object v = Some object \<Longrightarrow> optional_bool object key = Inl e \<Longrightarrow> located v e"
  by (auto simp: optional_bool_def ok_or_def located_def observed_value_def value_get_object Let_def split: option.splits)

lemma optional_string_located:
  "as_object v = Some object \<Longrightarrow> optional_string object key = Inl e \<Longrightarrow> located v e"
  by (auto simp: optional_string_def ok_or_def located_def observed_value_def value_get_object Let_def split: option.splits)

lemma manifest_new_located: "manifest_new C name version private = Inl e \<Longrightarrow> located v e"
  by (auto simp: manifest_new_def and_then_Inl map_err_def located_def split: sum.splits)

lemma parse_entries_Inl:
  "parse_entries field validate es = Inl e \<Longrightarrow>
   (\<exists>k w. (k, w) \<in> set es \<and> as_str w = None \<and> e = ExpectedMapValueString field k) \<or>
   validate \<and> (\<exists>k w. (k, w) \<in> set es \<and> \<not> dependency_name_ok k \<and> e = InvalidDependencyName (InvalidPackageName (candidate_name k)))"
proof (induction es)
  case (Cons x es)
  obtain k w where x: "x = (k, w)" by (cases x)
  from Cons.prems Cons.IH show ?case
    by (auto simp: x and_then_Inl ok_or_def map_err_def package_name_from_str_iff dependency_name_ok_def candidate_validation
        split: if_splits option.splits)
qed simp

lemma find_named_Some:
  assumes "f \<in> set fs" and "value_get v f = Some s" and "as_object s = Some object" and "bm_get object k \<noteq> None"
  shows "\<exists>f' k'. find_named (Some v) (candidate_name k) fs = Some (f', k') \<and> f' \<in> set fs \<and> candidate_name k' = candidate_name k \<and>
    observed_value v (Some f') (Some k') \<noteq> None"
  using assms(1)
proof (induction fs)
  case (Cons g fs)
  let ?P = "\<lambda>key. candidate_name key = candidate_name k"
  let ?r = "case value_get v g of None \<Rightarrow> None | Some section \<Rightarrow>
      (case as_object section of None \<Rightarrow> None | Some object \<Rightarrow> find ?P (bm_keys object))"
  show ?case
  proof (cases ?r)
    case None
    have "f \<noteq> g"
    proof
      assume "f = g"
      with None assms(2,3) have "find ?P (bm_keys object) = None" by simp
      then show False using assms(4) by (auto simp: find_None_iff set_bm_keys)
    qed
    with Cons None show ?thesis by auto
  next
    case (Some key)
    then obtain s' o' where "value_get v g = Some s'" "as_object s' = Some o'" "?P key" "key \<in> set (bm_keys o')"
      by (auto split: option.splits dest!: find_SomeD)
    then show ?thesis using Some by (auto simp: observed_value_def value_get_object set_bm_keys)
  qed
qed simp

lemma optional_map_located:
  assumes "as_object v = Some object" and "optional_map object field validate = Inl e"
    and "validate \<longrightarrow> field \<in> set dependency_fields"
  shows "located v e"
proof -
  from assms(2) obtain s where s: "bm_get object field = Some s" "parse_string_map s field validate = Inl e"
    by (auto simp: optional_map_def split: option.splits)
  show ?thesis
  proof (cases "as_object s")
    case None
    then have "e = ExpectedMap field" using s(2) by (simp add: parse_string_map_def)
    then show ?thesis using s(1) None assms(1)
      by (cases s) (auto simp: located_def observed_value_def value_get_object)
  next
    case (Some inner)
    then have "parse_entries field validate (bm_entries inner) = Inl e" using s(2)
      by (auto simp: parse_string_map_def and_then_Inl)
    from parse_entries_Inl [OF this] consider
        (kind) k w where "bm_get inner k = Some w" "as_str w = None" "e = ExpectedMapValueString field k"
      | (name) k w where "validate" "bm_get inner k = Some w" "\<not> dependency_name_ok k"
          "e = InvalidDependencyName (InvalidPackageName (candidate_name k))"
      by (auto simp: bm_get_in_entries)
    then show ?thesis
    proof cases
      case kind
      then show ?thesis using s(1) Some assms(1)
        by (cases w) (auto simp: located_def observed_value_def value_get_object)
    next
      case name
      have get: "value_get v field = Some s" using s(1) assms(1) by (simp add: value_get_object)
      obtain f k' where f: "find_named (Some v) (candidate_name k) dependency_fields = Some (f, k')" "f \<in> set dependency_fields"
        "candidate_name k' = candidate_name k" "observed_value v (Some f) (Some k') \<noteq> None"
        using find_named_Some [OF _ get Some, of dependency_fields k] name(1,2) assms(3) by auto
      then have "\<not> dependency_name_ok k'" using name(3) by (simp add: dependency_name_ok_def candidate_validation)
      with f name(4) show ?thesis by (simp add: located_def)
    qed
  qed
qed

lemma bin_strings_Inl: "bin_strings es = Inl e \<Longrightarrow> \<exists>c w. (c, w) \<in> set es \<and> as_str w = None \<and> e = ExpectedBinString c"
  by (induction es rule: bin_strings.induct) (auto simp: and_then_Inl ok_or_def split: option.splits)

lemma parse_bin_located:
  assumes "as_object v = Some object" and "bm_get object ''bin'' = Some b" and "parse_bin J b name = Inl e"
  shows "located v e"
proof -
  have invalid: "located v (InvalidBin c t)" for c t by (simp add: located_def)
  from assms(3) consider "bin_entries J b name = Inl e" | c t where "e = InvalidBin c t"
    by (auto simp: parse_bin_def and_then_Inl dest: bin_targets_Inl)
  then show ?thesis
  proof cases
    case 1
    show ?thesis
    proof (cases b)
      case (V_Object es)
      have "e = InvalidBin ''<bin>'' (jt_to_string J b) \<or> bin_strings (bm_entries (bm_of_list es)) = Inl e"
        using 1 unfolding bin_entries_def V_Object by (simp split: if_splits)
      then show ?thesis
      proof
        assume "bin_strings (bm_entries (bm_of_list es)) = Inl e"
        from bin_strings_Inl [OF this] obtain c w where "bm_get (bm_of_list es) c = Some w" "as_str w = None" "e = ExpectedBinString c"
          by (auto simp: bm_get_in_entries)
        then show ?thesis using assms(1,2) V_Object by (cases w) (auto simp: located_def observed_value_def value_get_object value_get_def)
      qed (simp add: invalid)
    qed (use 1 invalid in \<open>auto simp: bin_entries_def\<close>)
  qed (simp add: invalid)
qed

lemma parse_document_located:
  assumes v: "as_object v = Some object" and "parse_document C J object = Inl e"
  shows "located v e"
proof -
  have bin: "located v e" if "(case bm_get object ''bin'' of None \<Rightarrow> Inr None | Some value \<Rightarrow> map_sum id Some (parse_bin J value n)) = Inl e" for n
    using that parse_bin_located [OF v] by (cases "bm_get object ''bin''"; simp) (cases "parse_bin J (the (bm_get object ''bin'')) n"; auto)
  have fields: "set dependency_fields = {''dependencies'', ''devDependencies'', ''optionalDependencies'', ''peerDependencies''}"
    by (simp add: dependency_fields_def)
  show ?thesis
    using assms(2) unfolding parse_document_def and_then_Inl sum.distinct
    by (elim disjE exE conjE)
      (rule required_string_located [OF v] optional_bool_located [OF v] manifest_new_located optional_string_located [OF v]
        optional_map_located [OF v] bin, assumption, (simp add: fields)?)+
qed

section \<open>Samples\<close>

text \<open>A reader that knows two texts: a manifest, and what the printer makes of it.\<close>

definition sample_manifest :: json_value where
  "sample_manifest = V_Object
     [(''bin'', V_String ''./cli.js''), (''dependencies'', V_Object [(''jsr:@std/fs'', V_String ''^1''), (''kleur'', V_String ''^4'')]),
      (''name'', V_String ''@demo/tool''), (''scripts'', V_Object [(''install'', V_String ''make''), (''prepare'', V_String '' '')]),
      (''version'', V_String ''1.2.3''), (''workspaces'', V_Array [V_String ''packages/*''])]"

definition sample_printed :: json_value where
  "sample_printed = V_Object
     [(''name'', V_String ''@demo/tool''), (''version'', V_String ''1.2.3''), (''private'', V_Bool False),
      (''dependencies'', V_Object [(''jsr:@std/fs'', V_String ''^1''), (''kleur'', V_String ''^4'')]),
      (''scripts'', V_Object [(''install'', V_String ''make''), (''prepare'', V_String '' '')]),
      (''bin'', V_Object [(''tool'', V_String ''cli.js'')]), (''workspaces'', V_Array [V_String ''packages/*''])]"

definition sample_reader :: json_text where
  "sample_reader =
     \<lparr>jt_from_str = (\<lambda>text. if text = ''{}'' then Inr sample_manifest else if text = ''[]'' then Inr V_Null
        else Inr (json_norm sample_printed)),
      jt_to_string = (\<lambda>_. ''?''), jt_to_string_pretty = (\<lambda>_. ''printed'')\<rparr>"

lemma sample_reader_sorts: "sorting_reader sample_reader"
proof -
  have "json_norm sample_manifest = sample_manifest" "json_norm (json_norm sample_printed) = json_norm sample_printed" by code_simp+
  then show ?thesis by (simp add: sorting_reader_def sample_reader_def)
qed

lemma sample_parsed:
  obtains m b where "manifest_parse reference_crates sample_reader ''{}'' = Inr m" "manifest_document reference_crates m = sample_printed"
    "pm_bin m = Some b" "list_all (valid_target \<circ> bt_target) (pb_targets b)" "bm_get (pm_dependencies m) ''kleur'' = Some ''^4''"
proof -
  have "case manifest_parse reference_crates sample_reader ''{}'' of Inl _ \<Rightarrow> False | Inr m \<Rightarrow>
      manifest_document reference_crates m = sample_printed \<and> bm_get (pm_dependencies m) ''kleur'' = Some ''^4'' \<and>
      (case pm_bin m of None \<Rightarrow> False | Some b \<Rightarrow> list_all (valid_target \<circ> bt_target) (pb_targets b))"
    by code_simp
  then show ?thesis using that by (auto split: sum.splits option.splits)
qed

section \<open>Properties\<close>

text \<open>
  C24. Printing. A manifest made by parsing and editing is read back from its printed form
  exactly when every command target it stores passes the check for targets; otherwise the
  printed form is refused because of a target.
\<close>

theorem printed_manifest_reads_back:
  assumes "semver_contract C" and "sorting_reader J" and built: "manifest_built C J m"
    and "reads_printed J (manifest_document C m)"
  shows "if \<forall>b. pm_bin m = Some b \<longrightarrow> list_all (valid_target \<circ> bt_target) (pb_targets b)
    then manifest_parse C J (manifest_to_json C J m) = Inr m
    else \<exists>command target. manifest_parse C J (manifest_to_json C J m) = Inl (InvalidBin command target)"
proof -
  have ok: "manifest_ok C m" by (rule built_manifest_ok [OF built assms(2)])
  have "semver_text C" using assms(1) by (simp add: semver_contract_def)
  have "as_object (json_norm (manifest_document C m)) = Some (document_object C m)"
    by (simp add: document_object_def manifest_document_def)
  then have "manifest_parse C J (manifest_to_json C J m) = parse_document C J (document_object C m)"
    using assms(4) by (simp add: manifest_parse_def manifest_to_json_def reads_printed_def)
  note read = this document_read [OF ok \<open>semver_text C\<close>, of J]
  show ?thesis
  proof (cases "pm_bin m")
    case None
    with read show ?thesis by simp
  next
    case (Some b)
    then have "bin_ok (pm_name m) b" using ok by (simp add: manifest_ok_def)
    note pairs = bin_targets_pairs [OF this]
    show ?thesis
    proof (cases "bin_targets (bin_pairs b)")
      case (Inl e)
      then show ?thesis using read Some pairs [of "pb_targets b"] bin_targets_Inl [OF Inl] by auto
    next
      case (Inr ts)
      then show ?thesis using read Some pairs [of ts] by auto
    qed
  qed
qed

theorem printed_manifest_reads_back_witness:
  "\<exists>m. manifest_parse reference_crates sample_reader ''{}'' = Inr m \<and> pm_bin m \<noteq> None \<and>
     manifest_parse reference_crates sample_reader (manifest_to_json reference_crates sample_reader m) = Inr m"
proof -
  obtain m b where m: "manifest_parse reference_crates sample_reader ''{}'' = Inr m" "manifest_document reference_crates m = sample_printed"
    "pm_bin m = Some b" "list_all (valid_target \<circ> bt_target) (pb_targets b)" by (rule sample_parsed)
  have "reads_printed sample_reader (manifest_document reference_crates m)"
    by (simp add: reads_printed_def m(2) sample_reader_def)
  from printed_manifest_reads_back [OF reference_semver sample_reader_sorts manifest_built.parsed [OF m(1)] this] m
  show ?thesis by auto
qed

lemma dependency_kind_find:
  "dependency_kind_of m name = find (\<lambda>k. name \<in> dom (bm_get (dependency_section k m)))
     [Dependencies, DevDependencies, OptionalDependencies, PeerDependencies]"
  by (simp add: dependency_kind_of_def dependency_sections_def bm_contains_key_iff)

text \<open>
  C31. Edits. Adding a dependency succeeds exactly for a valid name; afterwards the name stands in
  the chosen section with the trimmed requirement and in no other, every other entry and
  every other field is as before. Removing it leaves every section without the name, and fails
  with the same error when the name is invalid.
\<close>

theorem dependency_edits_exact:
  "case with_dependency_kind kind name requirement m of
     Inl e \<Rightarrow> \<not> dependency_name_ok name \<and> without_dependency name m = Inl e
   | Inr m1 \<Rightarrow> dependency_name_ok name \<and>
      (\<forall>k n. bm_get (dependency_section k m1) n =
        (if n = name then if k = kind then Some (trim requirement) else None else bm_get (dependency_section k m) n)) \<and>
      other_fields m1 = other_fields m \<and> dependency_kind_of m1 name = Some kind \<and>
      (\<exists>m2. without_dependency name m1 = Inr m2 \<and> other_fields m2 = other_fields m \<and> dependency_kind_of m2 name = None \<and>
        (\<forall>k. dependency_section k m2 = bm_remove name (dependency_section k m)))"
proof (cases "with_dependency_kind kind name requirement m")
  case (Inl e)
  then have "\<not> dependency_name_ok name" by (metis set_dependency_Inr sum.distinct(1) with_dependency_kind_def)
  moreover have "without_dependency name m = Inl e"
    using Inl by (auto simp: with_dependency_kind_def set_dependency_def without_dependency_def and_then_Inl)
  ultimately show ?thesis using Inl by simp
next
  case (Inr m1)
  then have ok: "dependency_name_ok name"
    and m1: "m1 = dependency_section_mut kind (bm_insert name (trim requirement)) (remove_everywhere name m)"
    by (auto simp: with_dependency_kind_def set_dependency_Inr)
  have get: "bm_get (dependency_section k m1) n =
      (if n = name then if k = kind then Some (trim requirement) else None else bm_get (dependency_section k m) n)" for k n
    by (simp add: m1)
  have "dependency_kind_of m1 name = Some kind"
    unfolding dependency_kind_find by (cases kind) (simp_all add: get dom_def del: dependency_section.simps)
  moreover have removed: "dependency_section k (remove_everywhere name m1) = bm_remove name (dependency_section k m)" for k
    by (rule bm_eqI) (auto simp: get fun_eq_iff)
  moreover have "dependency_kind_of (remove_everywhere name m1) name = None"
    unfolding dependency_kind_find by (simp add: removed del: dependency_section.simps)
  moreover have "other_fields m1 = other_fields m" by (simp add: m1)
  ultimately show ?thesis using get ok Inr by (auto simp: without_dependency_Inr)
qed

theorem dependency_edits_exact_witness:
  "\<exists>m m1. manifest_new reference_crates ''demo'' ''1.0.0'' False = Inr m \<and>
     with_dependency_kind DevDependencies ''npm:kleur'' '' ^4 '' m = Inr m1 \<and>
     bm_get (dependency_section DevDependencies m1) ''npm:kleur'' = Some ''^4''"
proof -
  have "case manifest_new reference_crates ''demo'' ''1.0.0'' False of Inl _ \<Rightarrow> False
      | Inr m \<Rightarrow> ok_result (with_dependency_kind DevDependencies ''npm:kleur'' '' ^4 '' m)"
    by code_simp
  then obtain m m1 where m: "manifest_new reference_crates ''demo'' ''1.0.0'' False = Inr m"
    "with_dependency_kind DevDependencies ''npm:kleur'' '' ^4 '' m = Inr m1" by (auto simp: ok_result_iff split: sum.splits)
  have "trim '' ^4 '' = ''^4''" by code_simp
  moreover have "bm_get (dependency_section DevDependencies m1) ''npm:kleur'' = Some (trim '' ^4 '')"
    using dependency_edits_exact [where kind = DevDependencies and name = "''npm:kleur''" and requirement = "'' ^4 ''" and m = m] unfolding m(2) sum.case by metis
  ultimately show ?thesis using m by metis
qed

lemma names_of_trim: "names_of (trim_dot_slash s) = names_of s"
proof (induction s rule: trim_dot_slash.induct)
  case (1 a b rest)
  then show ?case by (auto simp: names_of_def)
qed simp_all

lemma has_parent_trim: "has_parent_dir (path_of (trim_dot_slash s)) = has_parent_dir (path_of s)"
  by (simp add: has_parent_dir_def path_of_def names_of_trim)

lemma trim_dot_slash_split: "(\<exists>n. s = concat (replicate n ''./'') @ trim_dot_slash s) \<and> \<not> prefix ''./'' (trim_dot_slash s)"
proof (induction s rule: trim_dot_slash.induct)
  case (1 a b rest)
  show ?case
  proof (cases "a = CHR ''.'' \<and> b = CHR ''/''")
    case True
    with 1 obtain n where "rest = concat (replicate n ''./'') @ trim_dot_slash rest" "\<not> prefix ''./'' (trim_dot_slash rest)" by blast
    with True show ?thesis by (intro conjI exI [of _ "Suc n"]) simp_all
  qed (auto intro: exI [of _ 0])
qed (auto intro: exI [of _ 0])

text \<open>The entry of the manifest value that a command stems from.\<close>

lemma parse_bin_entry:
  assumes "parse_bin J v name = Inr b" and "t \<in> set (pb_targets b)"
  obtains raw where "v = V_String raw \<and> bt_command t = last (split_char (CHR ''/'') name) \<or>
      (\<exists>members. v = V_Object members \<and> bm_get (bm_of_list members) (bt_command t) = Some (V_String raw))"
    "valid_command (bt_command t)" "valid_target raw" "bt_target t = trim_dot_slash raw"
proof -
  from assms obtain es c raw where es: "bin_entries J v name = Inr es" "(c, raw) \<in> set es" "valid_command c" "valid_target raw"
    "t = \<lparr>bt_command = c, bt_target = trim_dot_slash raw\<rparr>"
    by (fastforce simp: parse_bin_def result_simps bin_targets_Inr list_all_iff)
  have "v = V_String raw \<and> c = last (split_char (CHR ''/'') name) \<or>
      (\<exists>members. v = V_Object members \<and> bm_get (bm_of_list members) c = Some (V_String raw))"
    using es(1,2) by (cases v) (auto simp: bin_entries_def bin_strings_Inr bm_get_in_entries split: if_splits)
  with es show ?thesis using that by simp
qed

lemma parent_component: "has_parent_dir (path_of s) \<longleftrightarrow> ''..'' \<in> set (split_char (CHR ''/'') s)"
  by (auto simp: has_parent_dir_def path_of_def names_of_def)

text \<open>
  C32. Command targets. An accepted command is the last component of the package's name, when the
  value is one string, or a key of the object; it is a plain file name. Its text in the manifest
  is not empty, has no leading slash, no parent component, no zero byte or backslash and no drive
  prefix; and what is stored is that text without its leading \<open>./\<close>, all of them. So the stored
  target has no parent component, and it is relative unless the text began with \<open>./\<close>, which
  is removed after the check: the string \<open>.//etc/passwd\<close> is accepted and stored as an absolute path.
\<close>

theorem bin_targets_contained:
  assumes "parse_bin J v name = Inr b" and "t \<in> set (pb_targets b)"
  shows "bt_command t \<notin> {[], ''.'', ''..''} \<and> set (bt_command t) \<inter> {CHR ''/'', CHR 0x5C} = {} \<and> \<not> any_control (bt_command t) \<and>
    ''..'' \<notin> set (split_char (CHR ''/'') (bt_target t)) \<and>
    (\<exists>raw n. (v = V_String raw \<and> bt_command t = last (split_char (CHR ''/'') name) \<or>
         (\<exists>members. v = V_Object members \<and> bm_get (bm_of_list members) (bt_command t) = Some (V_String raw))) \<and>
       raw \<noteq> [] \<and> \<not> prefix ''/'' raw \<and> ''..'' \<notin> set (split_char (CHR ''/'') raw) \<and> set raw \<inter> {CHR 0x00, CHR 0x5C} = {} \<and>
       \<not> (2 \<le> length raw \<and> is_ascii_alphabetic (raw ! 0) \<and> raw ! 1 = CHR '':'') \<and>
       raw = concat (replicate n ''./'') @ bt_target t \<and> \<not> prefix ''./'' (bt_target t) \<and>
       (prefix ''/'' (bt_target t) \<longrightarrow> prefix ''./'' raw))"
proof -
  obtain raw where raw: "v = V_String raw \<and> bt_command t = last (split_char (CHR ''/'') name) \<or>
      (\<exists>members. v = V_Object members \<and> bm_get (bm_of_list members) (bt_command t) = Some (V_String raw))"
    "valid_command (bt_command t)" "valid_target raw" "bt_target t = trim_dot_slash raw"
    by (rule parse_bin_entry [OF assms])
  obtain n where n: "raw = concat (replicate n ''./'') @ bt_target t" "\<not> prefix ''./'' (bt_target t)"
    using trim_dot_slash_split [of raw] raw(4) by auto
  have "raw \<noteq> []" "\<not> prefix ''/'' raw" "''..'' \<notin> set (split_char (CHR ''/'') raw)" "set raw \<inter> {CHR 0x00, CHR 0x5C} = {}"
    "\<not> (2 \<le> length raw \<and> is_ascii_alphabetic (raw ! 0) \<and> raw ! 1 = CHR '':'')"
    using raw(3) parent_component [of raw] by (auto simp: valid_target_def path_of_def)
  note text_ok = this
  have stored: "''..'' \<notin> set (split_char (CHR ''/'') (bt_target t))"
    using text_ok(3) has_parent_trim [of raw] by (simp add: parent_component raw(4))
  have absolute: "prefix ''/'' (bt_target t) \<longrightarrow> prefix ''./'' raw" using n text_ok(2) by (cases n) auto
  have command: "bt_command t \<notin> {[], ''.'', ''..''}" "set (bt_command t) \<inter> {CHR ''/'', CHR 0x5C} = {}" "\<not> any_control (bt_command t)"
    using raw(2) by (auto simp: valid_command_def)
  show ?thesis by (intro conjI exI [of _ raw] exI [of _ n] command stored raw(1) text_ok n absolute)
qed

theorem bin_targets_contained_witness:
  "\<exists>b t. parse_bin sample_reader (V_String ''.//etc/passwd'') ''tool'' = Inr b \<and> t \<in> set (pb_targets b) \<and>
     ''..'' \<notin> set (split_char (CHR ''/'') (bt_target t)) \<and> path_join (path_of ''/project/tool'') (path_of (bt_target t)) = Path True [''etc'', ''passwd'']"
proof -
  have "case parse_bin sample_reader (V_String ''.//etc/passwd'') ''tool'' of Inl _ \<Rightarrow> False
      | Inr b \<Rightarrow> pb_targets b = [\<lparr>bt_command = ''tool'', bt_target = ''/etc/passwd''\<rparr>]" by code_simp
  then obtain b where b: "parse_bin sample_reader (V_String ''.//etc/passwd'') ''tool'' = Inr b"
    "\<lparr>bt_command = ''tool'', bt_target = ''/etc/passwd''\<rparr> \<in> set (pb_targets b)" by (auto split: sum.splits)
  have "path_join (path_of ''/project/tool'') (path_of ''/etc/passwd'') = Path True [''etc'', ''passwd'']" by code_simp
  with bin_targets_contained [OF b] b show ?thesis by auto
qed

text \<open>
  Diagnostics. When a manifest is refused because a value has the wrong type, the diagnostic
  names a field, and an entry of it, whose value in the document is not of the expected
  type; when a dependency name is refused, it names a dependency section and an entry in it
  that has an invalid name.
\<close>

lemma diagnostic_locates_failure:
  assumes "manifest_parse C J input = Inl e"
  shows "(md_expected (diagnostic J e input) \<in> {''string'', ''boolean'', ''object''} \<longrightarrow>
      md_observed (diagnostic J e input) \<noteq> md_expected (diagnostic J e input)) \<and>
    (md_expected (diagnostic J e input) = ''dependency_name'' \<longrightarrow>
      (\<exists>field key. md_field (diagnostic J e input) = Some field \<and> md_key (diagnostic J e input) = Some key \<and>
        field \<in> set dependency_fields \<and> \<not> dependency_name_ok key \<and> md_observed (diagnostic J e input) \<noteq> ''missing''))"
proof (cases "jt_from_str J input")
  case (Inl _)
  with assms have "\<exists>t. e = InvalidJson t" by (auto simp: manifest_parse_def)
  then show ?thesis using Inl by (auto simp: diagnostic_def)
next
  case (Inr v)
  have missing: "observed_type w = ''missing'' \<longleftrightarrow> w = None" for w by (cases w rule: observed_type.cases) simp_all
  have "located v e"
  proof (cases "as_object v")
    case None
    then have "e = RootMustBeObject" using assms Inr by (simp add: manifest_parse_def)
    then show ?thesis using None by (cases v) (simp_all add: located_def observed_value_def)
  next
    case (Some object)
    then show ?thesis using assms Inr by (auto simp: manifest_parse_def intro: parse_document_located)
  qed
  then show ?thesis using Inr missing
    by (cases "diagnostic_rule (Some v) e") (auto simp: located_def diagnostic_def)
qed

lemma diagnostic_locates_failure_witness:
  "\<exists>e. manifest_parse reference_crates sample_reader ''[]'' = Inl e \<and> md_expected (diagnostic sample_reader e ''[]'') = ''object'' \<and>
     md_observed (diagnostic sample_reader e ''[]'') \<noteq> ''object''"
proof -
  have e: "manifest_parse reference_crates sample_reader ''[]'' = Inl RootMustBeObject"
    by (simp add: manifest_parse_def sample_reader_def)
  have "md_expected (diagnostic sample_reader RootMustBeObject ''[]'') = ''object''"
    by (simp add: diagnostic_def sample_reader_def)
  with diagnostic_locates_failure [OF e] e show ?thesis by auto
qed

lemma check_scripts_Inr: "check_scripts es = Inr u \<Longrightarrow> \<exists>rs. es = map (\<lambda>(k, v). (k, V_String v)) rs"
proof (induction es rule: check_scripts.induct)
  case (2 key v rest)
  then obtain s rs where "v = V_String s" "rest = map (\<lambda>(k, v). (k, V_String v)) rs"
    by (cases "as_str v") auto
  then have "(key, v) # rest = map (\<lambda>(k, v). (k, V_String v)) ((key, s) # rs)" by simp
  then show ?case by (rule exI)
qed simp

lemma subseq_concat: "(\<And>x. x \<in> set xs \<Longrightarrow> map fst (f x) = [] \<or> map fst (f x) = [x]) \<Longrightarrow> subseq (map fst (concat (map f xs))) xs"
proof (induction xs)
  case (Cons x xs)
  then have "subseq (map fst (concat (map f xs))) xs" by simp
  with Cons.prems [of x] show ?case by auto
qed simp

text \<open>
  Lifecycle. The planned commands are the scripts of the hooks that have more than white
  space, in the order in which npm runs them; the implicit native build is planned exactly
  when there is a build file and neither \<open>install\<close> nor \<open>preinstall\<close> is declared, and then runs
  first. The scripts are those that the parser of manifests reads.
\<close>

lemma lifecycle_plan_exact:
  assumes "dependency_lifecycle_plan J input gyp = Inr plan"
  shows "\<exists>object scripts. jt_from_str J input = Inr (V_Object object) \<and>
    optional_map (bm_of_list object) ''scripts'' False = Inr scripts \<and>
    (lc_implicit_install plan \<longleftrightarrow> gyp \<and> bm_get scripts ''install'' = None \<and> bm_get scripts ''preinstall'' = None) \<and>
    set (lc_commands plan) = (if lc_implicit_install plan then {(''install'', ''node-gyp rebuild'')} else {}) \<union>
      {(hook, command). hook \<in> set lifecycle_hooks \<and> bm_get scripts hook = Some command \<and> trim command \<noteq> []} \<and>
    subseq (map fst (lc_commands plan)) lifecycle_hooks"
proof -
  from assms obtain es raw where raw: "jt_from_str J input = Inr (V_Object es)"
    "(case bm_get (bm_of_list es) ''scripts'' of Some v \<Rightarrow> ok_or (ExpectedMap ''scripts'') (as_object v) | None \<Rightarrow> Inr bm_empty) = Inr raw"
    "check_scripts (bm_entries raw) = Inr ()"
    and implicit: "lc_implicit_install plan \<longleftrightarrow> gyp \<and> \<not> bm_contains_key raw ''install'' \<and> \<not> bm_contains_key raw ''preinstall''"
    and commands: "lc_commands plan = (if lc_implicit_install plan then [(''install'', ''node-gyp rebuild'')] else []) @
      concat (map (hook_command raw) lifecycle_hooks)"
    by (auto simp: dependency_lifecycle_plan_def result_simps as_object_Some Let_def)
  from check_scripts_Inr [OF raw(3)] obtain rs where rs: "bm_entries raw = map (\<lambda>(k, v). (k, V_String v)) rs" by blast
  then have sorted: "al_sorted rs" using bm_entries_sorted [of raw] by (simp add: al_sorted_map)
  let ?s = "bm_of_list rs"
  have get: "bm_get raw k = map_option V_String (bm_get ?s k)" for k
    using rs sorted by (simp add: bm_get_entries bm_of_list_sorted map_of_map)
  have read: "optional_map (bm_of_list es) ''scripts'' False = Inr ?s"
    using raw(2) rs sorted
    by (auto simp: optional_map_def parse_string_map_Inr bm_of_list_sorted result_simps split: option.splits)
      (metis bm_entries_empty bm_of_list_sorted bm_entries_inject map_is_Nil_conv al_sorted_simps(1))
  have hook: "hook_command raw h = (case bm_get ?s h of None \<Rightarrow> [] | Some c \<Rightarrow> if trim c = [] then [] else [(h, c)])" for h
    by (simp add: hook_command_def get split: option.splits)
  have "set (concat (map (hook_command raw) lifecycle_hooks)) =
      {(h, c). h \<in> set lifecycle_hooks \<and> bm_get ?s h = Some c \<and> trim c \<noteq> []}"
    by (force simp: hook split: option.splits if_splits)
  moreover have "subseq (map fst (lc_commands plan)) lifecycle_hooks"
  proof (cases "lc_implicit_install plan")
    case True
    then have none: "hook_command raw ''preinstall'' = []" "hook_command raw ''install'' = []"
      using implicit by (auto simp: hook get bm_contains_key_iff dom_def)
    have "subseq (map fst (concat (map (hook_command raw) (drop 2 lifecycle_hooks)))) (drop 2 lifecycle_hooks)"
      by (rule subseq_concat) (auto simp: hook split: option.splits)
    then show ?thesis unfolding commands by (simp add: True lifecycle_hooks_def none)
  next
    case False
    have "subseq (map fst (concat (map (hook_command raw) lifecycle_hooks))) lifecycle_hooks"
      by (rule subseq_concat) (auto simp: hook split: option.splits)
    then show ?thesis by (simp add: commands False)
  qed
  ultimately show ?thesis
    using raw(1) read implicit commands by (auto simp: get bm_contains_key_iff dom_def)
qed

lemma lifecycle_plan_exact_witness:
  "\<exists>plan. dependency_lifecycle_plan sample_reader ''{}'' True = Inr plan \<and> \<not> lc_implicit_install plan \<and>
     lc_commands plan = [(''install'', ''make'')] \<and> subseq (map fst (lc_commands plan)) lifecycle_hooks"
proof -
  have "case dependency_lifecycle_plan sample_reader ''{}'' True of Inl _ \<Rightarrow> False
      | Inr plan \<Rightarrow> \<not> lc_implicit_install plan \<and> lc_commands plan = [(''install'', ''make'')]" by code_simp
  then obtain plan where plan: "dependency_lifecycle_plan sample_reader ''{}'' True = Inr plan" "\<not> lc_implicit_install plan"
    "lc_commands plan = [(''install'', ''make'')]" by (auto split: sum.splits)
  with lifecycle_plan_exact [OF plan(1)] show ?thesis by blast
qed

end
