(* ===== verification/Workspace_Properties.thy ===== *)
theory Workspace_Properties
  imports Workspace_Facts Package_Manifest_Properties
begin

text \<open>
  Properties of the discovery of workspaces: members are inside the project, apart in their
  names and read within the limit, and budgets only turn results into refusals.
\<close>

section \<open>Members\<close>

text \<open>What one member's manifest satisfies.\<close>

definition member_ok :: "'v crates \<Rightarrow> json_text \<Rightarrow> path \<Rightarrow> (path \<times> string) list \<Rightarrow> 'v workspace_member \<Rightarrow> bool" where
  "member_ok C J root observed m \<longleftrightarrow> (\<exists>rel text. wm_path m = Path (path_absolute root) (path_names root @ rel) \<and> rel \<noteq> [] \<and>
     ''node_modules'' \<notin> set (butlast rel) \<and> (wm_path m, text) \<in> set observed \<and> length text \<le> MAX_MANIFEST_BYTES \<and>
     manifest_parse C J text = Inr (wm_manifest m) \<and> wm_name m = pm_name (wm_manifest m))"

lemma read_file_bound: "read_file os path = Inr text \<Longrightarrow> length text \<le> MAX_MANIFEST_BYTES \<and> utf8_valid text"
  by (auto simp: read_file_def and_then_Inr split: if_splits)

lemma starts_with_absolute:
  "path_absolute base \<Longrightarrow> path_starts_with p base \<Longrightarrow> \<exists>rel. p = Path (path_absolute base) (path_names base @ rel)"
  by (cases p) (auto simp: path_starts_with_def prefix_def)

lemma member_source_ok:
  assumes "member_source os root path = Inr (canonical, text)" and abs: "path_absolute root"
  shows "\<exists>rel. canonical = Path (path_absolute root) (path_names root @ rel) \<and> rel \<noteq> [] \<and> ''node_modules'' \<notin> set (butlast rel) \<and>
    length text \<le> MAX_MANIFEST_BYTES"
proof -
  let ?parent = "Path (path_absolute canonical) (butlast (path_names canonical))"
  from assms(1) have facts: "path_starts_with canonical root" "path_names canonical \<noteq> []" "path_starts_with ?parent root"
    "''node_modules'' \<notin> set (drop (length (path_names root)) (path_names ?parent))" "read_file os canonical = Inr text"
    by (auto simp: member_source_def and_then_Inr Let_def split: if_splits)
  obtain rel where rel: "canonical = Path (path_absolute root) (path_names root @ rel)"
    using starts_with_absolute [OF abs facts(1)] by blast
  have "rel \<noteq> []"
  proof
    assume "rel = []"
    obtain tail where "?parent = Path (path_absolute root) (path_names root @ tail)"
      using starts_with_absolute [OF abs facts(3)] by blast
    then have "butlast (path_names root) = path_names root @ tail" using rel \<open>rel = []\<close> by simp
    then have "length (butlast (path_names root)) = length (path_names root) + length tail" by simp
    then show False using facts(2) rel \<open>rel = []\<close> by (simp add: Suc_le_eq [symmetric] length_greater_0_conv [symmetric] del: length_greater_0_conv)
  qed
  then have "''node_modules'' \<notin> set (butlast rel)" using facts(4) rel by (simp add: butlast_append)
  with rel \<open>rel \<noteq> []\<close> read_file_bound [OF facts(5)] show ?thesis by blast
qed

lemma member_ok_mono: "member_ok C J root observed m \<Longrightarrow> set observed \<subseteq> set observed' \<Longrightarrow> member_ok C J root observed' m"
  unfolding member_ok_def by blast

lemma discover_members_ok:
  assumes "discover_members C J os root paths names = (observed, Inr members)" and "path_absolute root"
  shows "(\<forall>m \<in> set members. member_ok C J root observed m) \<and> distinct (map wm_name members) \<and>
    set (map wm_name members) \<inter> bs_set names = {} \<and> length members = length paths \<and> map fst observed = map wm_path members"
  using assms(1)
proof (induction paths arbitrary: names observed members)
  case (Cons path rest)
  from Cons.prems obtain canonical source m obs ms where step:
    "member_source os root path = Inr (canonical, source)" "parse_at C J canonical source = Inr m" "pm_name m \<notin> bs_set names"
    "discover_members C J os root rest (bs_insert (pm_name m) names) = (obs, Inr ms)" "observed = (canonical, source) # obs"
    "members = \<lparr>wm_name = pm_name m, wm_path = canonical, wm_manifest = m\<rparr> # ms"
    by (auto simp: Let_def and_then_Inr map_sum_Inr split: sum.splits prod.splits if_splits)
  note IH = Cons.IH [OF step(4)]
  have "manifest_parse C J source = Inr m" using step(2) by (simp add: parse_at_def map_err_Inr)
  then have "member_ok C J root observed \<lparr>wm_name = pm_name m, wm_path = canonical, wm_manifest = m\<rparr>"
    using member_source_ok [OF step(1) assms(2)] step(5) unfolding member_ok_def by auto
  moreover have "member_ok C J root observed x" if "x \<in> set ms" for x
    using IH that step(5) by (auto intro: member_ok_mono)
  ultimately show ?case using IH step(3,5,6) by auto
qed simp

text \<open>\<open>fs::canonicalize\<close> answers with an absolute path.\<close>

definition canonical_absolute :: "os_calls \<Rightarrow> bool" where
  "canonical_absolute os \<longleftrightarrow> (\<forall>p q. os_canonicalize os p = Inr q \<longrightarrow> path_absolute q)"

lemma member_manifest_paths_length: "member_manifest_paths os root ps = Inr qs \<Longrightarrow> length qs = length ps"
  by (induction ps arbitrary: qs) (auto simp: and_then_Inr)

lemma length_dedup: "length (dedup xs) \<le> length xs"
  by (induction xs rule: dedup.induct) auto

lemma candidate_paths_bound:
  assumes "candidate_paths C J os dir limit steps = Inr (root, root_path, m, paths)"
  shows "os_canonicalize os dir = Inr root \<and> length paths \<le> limit"
proof -
  from assms obtain patterns found contained where "workspace_root os dir = Inr root"
    "expand_patterns os root limit patterns [] steps = Inr found" "member_manifest_paths os root found = Inr contained"
    "paths = dedup (sort contained)"
    by (auto simp: candidate_paths_def and_then_Inr)
  moreover from this have "length contained = length found" "length found \<le> limit"
    using member_manifest_paths_length expand_patterns_length by fastforce+
  ultimately show ?thesis using length_dedup [of "sort contained"]
    by (auto simp: workspace_root_def and_then_Inr map_err_Inr split: if_splits)
qed

lemma select_distinct:
  "distinct (map f xs) \<Longrightarrow> x \<in> set xs \<Longrightarrow> find (\<lambda>y. f y = f x) xs = Some x"
  by (induction xs) auto

lemma members_sorted:
  assumes "distinct (map wm_name ms)"
  shows "sorted_wrt (<) (map wm_name (sort_key (\<lambda>w. (wm_name w, wm_path w)) ms))"
proof -
  let ?s = "sort_key (\<lambda>w. (wm_name w, wm_path w)) ms"
  have "sorted (map (\<lambda>w. (wm_name w, wm_path w)) ?s)" by (rule sorted_sort_key)
  then have "sorted (map wm_name ?s)" unfolding sorted_map by (rule sorted_wrt_mono_rel [rotated]) (auto simp: less_eq_prod_def)
  moreover have "distinct (map wm_name ?s)"
    using assms by (simp add: distinct_map distinct_sort)
  ultimately show ?thesis by (simp add: strict_sorted_iff)
qed

text \<open>A project with one member.\<close>

definition member_reader :: json_text where
  "member_reader = sample_reader\<lparr>jt_from_str := (\<lambda>text. if text = ''{}'' then Inr sample_manifest
     else Inr (V_Object [(''name'', V_String ''web''), (''version'', V_String ''1.0.0'')]))\<rparr>"

definition sample_file :: "string \<Rightarrow> opened_file" where
  "sample_file source = \<lparr>of_metadata = Inr (Regular_File, length source), of_read = (\<lambda>n. Inr (take n source))\<rparr>"

definition sample_os :: os_calls where
  "sample_os =
     (let root = path_of ''/p''; kind = (\<lambda>p. if p \<in> {path_of ''/p/package.json'', path_of ''/p/packages/a/package.json''} then Regular_File else Directory) in
      \<lparr>os_canonicalize = (\<lambda>p. if path_absolute p then Inr p else Inl ''relative''),
       os_symlink_metadata = (\<lambda>p. Inr (kind p)), os_metadata = (\<lambda>p. Inr (kind p)),
       os_read_dir = (\<lambda>p. Inr [Inr \<lparr>de_path = path_push p ''a'', de_file_type = Inr Directory\<rparr>]),
       os_open = (\<lambda>p. Inr (sample_file (if p = path_of ''/p/package.json'' then ''{}'' else ''[]'')))\<rparr>)"

lemma sample_discovery:
  "case discover_bounded_with_member_source reference_crates member_reader sample_os (path_of ''/p'') 2 20 of
     (observed, Inr w) \<Rightarrow> map wm_name (wk_members w) = [''web''] | _ \<Rightarrow> False"
  by code_simp
lemma sample_os_absolute: "canonical_absolute sample_os"
  by (simp add: canonical_absolute_def sample_os_def Let_def)

text \<open>
  C25. Workspaces. A discovery that succeeds returns members whose manifests lie below the canonical
  project directory and not inside a \<open>node_modules\<close> of it, were read within the size limit and
  parsed from exactly the text that was observed; no two members, and no member and the root, share a
  name; the members are sorted, at most as many as the limit, and each is selected by its name.
\<close>

theorem workspace_members_contained:
  assumes "canonical_absolute os"
    and "discover_bounded_with_member_source C J os dir limit steps = (observed, Inr w)"
  shows "\<exists>root. os_canonicalize os dir = Inr root \<and>
    list_all (member_ok C J root observed) (wk_members w) \<and> sorted_wrt (<) (map wm_name (wk_members w)) \<and>
    pm_name (wk_root w) \<notin> set (map wm_name (wk_members w)) \<and> length (wk_members w) \<le> limit \<and>
    list_all (\<lambda>m. workspace_select w (Some (wm_name m)) = Inr (wm_manifest m)) (wk_members w)"
proof -
  from assms(2) obtain root root_path m paths ms where cand: "candidate_paths C J os dir limit steps = Inr (root, root_path, m, paths)"
    and disc: "discover_members C J os root paths (bs_of_list [pm_name m]) = (observed, Inr ms)"
    and w: "w = \<lparr>wk_root = m, wk_root_path = root_path, wk_members = sort_key (\<lambda>w. (wm_name w, wm_path w)) ms\<rparr>"
    by (auto simp: discover_bounded_with_member_source_def map_sum_Inr Let_def split: sum.splits prod.splits)
  have root: "os_canonicalize os dir = Inr root" "length paths \<le> limit" using candidate_paths_bound [OF cand] by simp_all
  then have "path_absolute root" using assms(1) by (auto simp: canonical_absolute_def)
  note facts = discover_members_ok [OF disc this]
  have nonempty: "wm_name x \<noteq> []" if "x \<in> set ms" for x
  proof -
    from facts that obtain source where "manifest_parse C J source = Inr (wm_manifest x)" "wm_name x = pm_name (wm_manifest x)"
      unfolding member_ok_def by blast
    then have "valid_package_name (wm_name x)"
      by (auto simp: manifest_parse_def and_then_Inr elim: parse_documentE)
    then show ?thesis using package_name_accepts [of "[]"] by (auto simp: package_name_from_str_def)
  qed
  have sorted: "sorted_wrt (<) (map wm_name (wk_members w))" using members_sorted [of ms] facts w by simp
  then have "distinct (map wm_name (wk_members w))" by (simp add: strict_sorted_iff)
  then have "workspace_select w (Some (wm_name x)) = Inr (wm_manifest x)" if "x \<in> set ms" for x
    using nonempty [OF that] that select_distinct [of wm_name "wk_members w" x] w by (simp add: select_member_def)
  then show ?thesis using root facts sorted w by (auto simp: list_all_iff)
qed

theorem workspace_members_contained_witness:
  "\<exists>observed w root. discover_bounded_with_member_source reference_crates member_reader sample_os (path_of ''/p'') 2 20 = (observed, Inr w) \<and>
     map wm_name (wk_members w) = [''web''] \<and> list_all (member_ok reference_crates member_reader root observed) (wk_members w)"
proof -
  obtain observed w where w: "discover_bounded_with_member_source reference_crates member_reader sample_os (path_of ''/p'') 2 20 = (observed, Inr w)"
    "map wm_name (wk_members w) = [''web'']" using sample_discovery by (auto split: prod.splits sum.splits)
  with workspace_members_contained [OF sample_os_absolute w(1)] show ?thesis by metis
qed

lemma member_manifest_errors: "member_manifest_paths os root ps \<noteq> Inl Candidate_Underflow"
  by (induction ps) (auto simp: member_manifest_path_def and_then_Inl map_err_Inl)

lemma read_file_errors: "read_file os p \<noteq> Inl Candidate_Underflow"
  by (auto simp: read_file_def and_then_Inl map_err_Inl split: if_splits)

lemma root_manifest_errors: "root_manifest C J os root \<noteq> Inl Candidate_Underflow"
proof
  assume "root_manifest C J os root = Inl Candidate_Underflow"
  then show False
    using read_file_errors by (auto simp: root_manifest_def parse_at_def Let_def and_then_Inl map_err_Inl map_sum_Inl split: if_splits)
qed

lemma discover_members_errors: "snd (discover_members C J os root ps names) \<noteq> Inl Candidate_Underflow"
proof (induction ps arbitrary: names)
  case (Cons p ps)
  have "member_source os root p \<noteq> Inl Candidate_Underflow"
    using read_file_errors by (auto simp: member_source_def and_then_Inl map_err_Inl Let_def split: if_splits)
  then have "and_then (member_source os root p) (\<lambda>(canonical, source). map_sum id (\<lambda>m. (canonical, source, m)) (parse_at C J canonical source)) \<noteq>
      Inl Candidate_Underflow"
    by (auto simp: and_then_Inl parse_at_def map_err_Inl map_sum_Inl)
  then show ?case using Cons.IH
    by (auto simp: Let_def map_sum_Inl split: sum.splits prod.splits) (metis snd_conv)+
qed simp

text \<open>
  C26. Budgets. Discovery never subtracts more candidates than there are, and a larger budget gives the
  same answer, error or not, unless the smaller budget was exceeded.
\<close>

theorem discovery_budget_only_refuses:
  assumes "limit \<le> limit2" and "steps \<le> steps2"
  shows "discover_bounded C J os dir limit steps \<noteq> Inl Candidate_Underflow \<and>
    (discover_bounded C J os dir limit steps = Inl DiscoveryLimitExceeded \<or>
     discover_bounded C J os dir limit2 steps2 = discover_bounded C J os dir limit steps)"
proof -
  have expand: "expand_patterns os root limit patterns [] steps \<noteq> Inl Candidate_Underflow \<and>
      (expand_patterns os root limit patterns [] steps = Inl DiscoveryLimitExceeded \<or>
       expand_patterns os root limit2 patterns [] steps2 = expand_patterns os root limit patterns [] steps)" for root patterns
    using expand_patterns_limit [OF assms(1), of "[]" os root patterns steps "steps2 - steps"] assms(2) by simp
  have cand: "candidate_paths C J os dir limit steps \<noteq> Inl Candidate_Underflow \<and>
      (candidate_paths C J os dir limit steps = Inl DiscoveryLimitExceeded \<or>
       candidate_paths C J os dir limit2 steps2 = candidate_paths C J os dir limit steps)"
  proof (cases "and_then (workspace_root os dir) (\<lambda>root. and_then (root_manifest C J os root) (\<lambda>(root_path, m).
      and_then (map_err Discovery (workspace_patterns (bm_get (pm_extra m) ''workspaces''))) (\<lambda>patterns. Inr (root, root_path, m, patterns))))")
    case (Inl e)
    moreover have "workspace_root os dir \<noteq> Inl Candidate_Underflow"
      by (auto simp: workspace_root_def and_then_Inl map_err_Inl split: if_splits)
    ultimately show ?thesis using root_manifest_errors
      by (auto simp: candidate_paths_def and_then_Inl map_err_Inl)
  next
    case (Inr p)
    then obtain root root_path m patterns where p: "workspace_root os dir = Inr root" "root_manifest C J os root = Inr (root_path, m)"
      "map_err Discovery (workspace_patterns (bm_get (pm_extra m) ''workspaces'')) = Inr patterns"
      by (auto simp: and_then_Inr)
    then show ?thesis using expand [of root patterns] member_manifest_errors
      by (auto simp: candidate_paths_def and_then_Inl)
  qed
  show ?thesis
  proof (cases "candidate_paths C J os dir limit steps")
    case (Inl e)
    then show ?thesis using cand by (auto simp: discover_bounded_def discover_bounded_with_member_source_def)
  next
    case (Inr p)
    then have "discover_bounded C J os dir limit2 steps2 = discover_bounded C J os dir limit steps"
      using cand by (simp add: discover_bounded_def discover_bounded_with_member_source_def)
    moreover have "discover_bounded C J os dir limit steps \<noteq> Inl Candidate_Underflow"
      using Inr discover_members_errors [of C J os "fst p" "snd (snd (snd p))" "bs_of_list [pm_name (fst (snd (snd p)))]"]
      by (cases p) (auto simp: discover_bounded_def discover_bounded_with_member_source_def map_sum_Inl Let_def split: prod.splits)
    ultimately show ?thesis by blast
  qed
qed

theorem discovery_budget_only_refuses_witness:
  "\<exists>w. discover_bounded reference_crates member_reader sample_os (path_of ''/p'') 2 20 = Inr w \<and>
     discover_bounded reference_crates member_reader sample_os (path_of ''/p'') u64_max u64_max = Inr w"
proof -
  obtain w where w: "discover_bounded reference_crates member_reader sample_os (path_of ''/p'') 2 20 = Inr w"
    using sample_discovery by (auto simp: discover_bounded_def split: prod.splits sum.splits)
  have "2 \<le> u64_max" "20 \<le> u64_max" by (simp_all add: u64_max_def)
  with discovery_budget_only_refuses [of 2 u64_max 20 u64_max reference_crates member_reader sample_os "path_of ''/p''"] w
  show ?thesis by simp
qed

end
