(* ===== verification/Signatures.thy ===== *)
theory Signatures
  imports Core_Types Json_Value
begin

text \<open>
  The crate \<open>tapid-signatures\<close>: key rings, trust envelopes and signed release manifests. The
  cryptography (\<open>ed25519_dalek\<close>, SHA-256), Base64, the canonical JSON of \<open>serde_jcs\<close> and the reader
  of key material are a parameter. A byte array is a string of that length.
\<close>

record embedded_trusted_key =
  ek_key_id :: string
  ek_algorithm :: string
  ek_public_key :: string
  ek_fingerprint :: string

record embedded_key_ring =
  er_version :: string
  er_keys :: "embedded_trusted_key list"

record crypto =
  cr_sha256 :: "string \<Rightarrow> string"
  cr_sign :: "string \<Rightarrow> string \<Rightarrow> string"
  cr_verifying_key :: "string \<Rightarrow> (string, unit) result"
  cr_signature_from_slice :: "string \<Rightarrow> (string, unit) result"
  cr_verify :: "string \<Rightarrow> string \<Rightarrow> string \<Rightarrow> bool"
  cr_b64_decode :: "string \<Rightarrow> (string, string) result"
  cr_b64_encode :: "string \<Rightarrow> string"
  cr_jcs :: "json_value \<Rightarrow> (string, string) result"
  cr_key_ring_json :: "string \<Rightarrow> (string, embedded_key_ring) result"

definition ENVELOPE_VERSION :: string where
  "ENVELOPE_VERSION = ''tapid-trust-envelope-v1''"

definition SIGNATURE_ALGORITHM :: string where
  "SIGNATURE_ALGORITHM = ''ed25519''"

definition KEY_RING_VERSION :: string where
  "KEY_RING_VERSION = ''tapid-release-keyring-v1''"

section \<open>Key rings\<close>

record trusted_key =
  tk_key_id :: string
  tk_algorithm :: string
  tk_public_key :: string

type_synonym key_ring = "(string, trusted_key) btree_map"

datatype verification_error =
    Unsigned
  | SubjectMismatch
  | ArtifactDigestMismatch
  | UnsupportedAlgorithm string
  | UnknownKeyId string
  | KeyIdMismatch
  | InvalidKeyId string
  | DuplicateKeyId string
  | UnsupportedKeyRingVersion string
  | KeyFingerprintMismatch
  | InvalidKeyMaterial string
  | ManifestDigestMismatch
  | InvalidSignature
  | PublicKeyRequired
  | InvalidEnvelope string

fun verification_error_to_string :: "verification_error \<Rightarrow> string" where
  "verification_error_to_string Unsigned = ''envelope is unsigned; cryptographic verification is unavailable''"
| "verification_error_to_string SubjectMismatch = ''signature subject does not match envelope subject''"
| "verification_error_to_string ArtifactDigestMismatch = ''signature artifact digest does not match envelope''"
| "verification_error_to_string (UnsupportedAlgorithm a) = ''unsupported signature algorithm: '' @ a"
| "verification_error_to_string (UnknownKeyId k) = ''unknown trusted key ID: '' @ k"
| "verification_error_to_string KeyIdMismatch = ''signature key ID does not match trusted key''"
| "verification_error_to_string (InvalidKeyId k) = ''invalid key ID: '' @ k"
| "verification_error_to_string (DuplicateKeyId k) = ''duplicate trusted key ID: '' @ k"
| "verification_error_to_string (UnsupportedKeyRingVersion v) = ''unsupported key ring version: '' @ v"
| "verification_error_to_string KeyFingerprintMismatch = ''trusted key fingerprint does not match public key''"
| "verification_error_to_string (InvalidKeyMaterial e) = ''invalid embedded key material: '' @ e"
| "verification_error_to_string ManifestDigestMismatch = ''release manifest digest does not match signature''"
| "verification_error_to_string InvalidSignature = ''signature verification failed''"
| "verification_error_to_string PublicKeyRequired = ''a trusted public key is required for verification''"
| "verification_error_to_string (InvalidEnvelope e) = ''invalid envelope: '' @ e"

text \<open>A \<open>CanonicalError\<close> is its text.\<close>

definition canonical_json :: "crypto \<Rightarrow> json_value \<Rightarrow> (string, string) result" where
  "canonical_json K v = cr_jcs K v"

definition digest :: "crypto \<Rightarrow> string \<Rightarrow> (string, string) result" where
  "digest K bytes = Inr (''sha256-'' @ cr_sha256 K bytes)"

definition validate_key_id :: "string \<Rightarrow> (verification_error, unit) result" where
  "validate_key_id key_id =
     (if key_id = [] \<or> 128 < length key_id \<or>
         \<not> list_all (\<lambda>b. is_ascii_alphanumeric b \<or> b \<in> {CHR ''.'', CHR ''_'', CHR '':'', CHR ''-''}) key_id
      then Inl (InvalidKeyId key_id) else Inr ())"

definition ring_insert :: "trusted_key \<Rightarrow> key_ring \<Rightarrow> (verification_error, key_ring) result" where
  "ring_insert key ring =
     and_then (validate_key_id (tk_key_id key)) (\<lambda>_.
     if tk_algorithm key \<noteq> SIGNATURE_ALGORITHM then Inl (UnsupportedAlgorithm (tk_algorithm key))
     else if bm_contains_key ring (tk_key_id key) then Inl (DuplicateKeyId (tk_key_id key))
     else Inr (bm_insert (tk_key_id key) key ring))"

fun insert_embedded :: "crypto \<Rightarrow> embedded_trusted_key list \<Rightarrow> key_ring \<Rightarrow> (verification_error, key_ring) result" where
  "insert_embedded K [] ring = Inr ring"
| "insert_embedded K (e # rest) ring =
     and_then (validate_key_id (ek_key_id e)) (\<lambda>_.
     if ek_algorithm e \<noteq> SIGNATURE_ALGORITHM then Inl (UnsupportedAlgorithm (ek_algorithm e))
     else and_then (map_err (\<lambda>t. InvalidKeyMaterial (''invalid public key: '' @ t)) (cr_b64_decode K (ek_public_key e))) (\<lambda>public_key.
       if length public_key \<noteq> 32 \<or> cr_b64_encode K public_key \<noteq> ek_public_key e
       then Inl (InvalidKeyMaterial ''public key must be canonical padded Base64 for 32 bytes'')
       else and_then (map_err InvalidKeyMaterial (digest K public_key)) (\<lambda>fingerprint.
         if fingerprint \<noteq> ek_fingerprint e then Inl KeyFingerprintMismatch
         else and_then (map_err InvalidKeyMaterial (cr_verifying_key K public_key)) (\<lambda>_.
           and_then (ring_insert \<lparr>tk_key_id = ek_key_id e, tk_algorithm = ek_algorithm e, tk_public_key = public_key\<rparr> ring)
             (insert_embedded K rest)))))"

definition from_embedded_json :: "crypto \<Rightarrow> string \<Rightarrow> (verification_error, key_ring) result" where
  "from_embedded_json K bytes =
     and_then (map_err InvalidKeyMaterial (cr_key_ring_json K bytes)) (\<lambda>material.
     if er_version material \<noteq> KEY_RING_VERSION then Inl (UnsupportedKeyRingVersion (er_version material))
     else insert_embedded K (er_keys material) bm_empty)"

definition ring_get :: "key_ring \<Rightarrow> string \<Rightarrow> (verification_error, trusted_key) result" where
  "ring_get ring key_id = ok_or (UnknownKeyId key_id) (bm_get ring key_id)"

section \<open>Trust envelopes\<close>

record detached_signature =
  ds_algorithm :: string
  ds_key_id :: string
  ds_subject :: string
  ds_artifact_digest :: string
  ds_value :: string

record trust_envelope =
  te_version :: string
  te_subject :: string
  te_artifact_digest :: string
  te_claims :: json_value
  te_signature :: "detached_signature option"

definition unsigned_envelope :: "string \<Rightarrow> string \<Rightarrow> json_value \<Rightarrow> trust_envelope" where
  "unsigned_envelope subject artifact claims =
     \<lparr>te_version = ENVELOPE_VERSION, te_subject = subject, te_artifact_digest = artifact, te_claims = claims, te_signature = None\<rparr>"

text \<open>The value that is signed: the fields of the envelope, and the context of the signature when there is one.\<close>

definition signing_value :: "trust_envelope \<Rightarrow> (string \<times> string) option \<Rightarrow> json_value" where
  "signing_value e context = V_Object (bm_entries (bm_of_list
     ([(''artifact_digest'', V_String (te_artifact_digest e)), (''claims'', te_claims e),
       (''subject'', V_String (te_subject e)), (''version'', V_String (te_version e))] @
      (case context of
         None \<Rightarrow> []
       | Some (algorithm, key_id) \<Rightarrow>
           [(''signature_context'', V_Object [(''algorithm'', V_String algorithm), (''key_id'', V_String key_id)])]))))"

definition signing_bytes_with_context :: "crypto \<Rightarrow> trust_envelope \<Rightarrow> (string \<times> string) option \<Rightarrow> (string, string) result" where
  "signing_bytes_with_context K e context = canonical_json K (signing_value e context)"

definition signing_bytes :: "crypto \<Rightarrow> trust_envelope \<Rightarrow> (string, string) result" where
  "signing_bytes K e = signing_bytes_with_context K e None"

definition sign :: "crypto \<Rightarrow> trust_envelope \<Rightarrow> string \<Rightarrow> string \<Rightarrow> (string, trust_envelope) result" where
  "sign K e key_id secret_key =
     and_then (map_err verification_error_to_string (validate_key_id key_id)) (\<lambda>_.
     and_then (signing_bytes_with_context K e (Some (SIGNATURE_ALGORITHM, key_id))) (\<lambda>bytes.
     Inr (e\<lparr>te_signature := Some
       \<lparr>ds_algorithm = SIGNATURE_ALGORITHM, ds_key_id = key_id, ds_subject = te_subject e,
        ds_artifact_digest = te_artifact_digest e, ds_value = cr_b64_encode K (cr_sign K secret_key bytes)\<rparr>\<rparr>)))"

definition verify_with_trusted_key :: "crypto \<Rightarrow> trust_envelope \<Rightarrow> trusted_key \<Rightarrow> (verification_error, unit) result" where
  "verify_with_trusted_key K e key =
     and_then (ok_or Unsigned (te_signature e)) (\<lambda>detached.
     and_then (validate_key_id (ds_key_id detached)) (\<lambda>_.
     if ds_key_id detached \<noteq> tk_key_id key then Inl KeyIdMismatch
     else if ds_algorithm detached \<noteq> tk_algorithm key \<or> ds_algorithm detached \<noteq> SIGNATURE_ALGORITHM
     then Inl (UnsupportedAlgorithm (ds_algorithm detached))
     else if ds_subject detached \<noteq> te_subject e then Inl SubjectMismatch
     else if ds_artifact_digest detached \<noteq> te_artifact_digest e then Inl ArtifactDigestMismatch
     else and_then (map_err InvalidEnvelope (cr_verifying_key K (tk_public_key key))) (\<lambda>_.
       and_then (map_err InvalidEnvelope (cr_b64_decode K (ds_value detached))) (\<lambda>signature_bytes.
       and_then (map_err InvalidEnvelope (cr_signature_from_slice K signature_bytes)) (\<lambda>_.
       and_then (map_err InvalidEnvelope (signing_bytes_with_context K e (Some (ds_algorithm detached, ds_key_id detached)))) (\<lambda>bytes.
       ensure (cr_verify K (tk_public_key key) bytes signature_bytes) InvalidSignature))))))"

definition verify_with_keyring :: "crypto \<Rightarrow> trust_envelope \<Rightarrow> key_ring \<Rightarrow> (verification_error, unit) result" where
  "verify_with_keyring K e ring =
     and_then (ok_or Unsigned (te_signature e)) (\<lambda>signature.
     and_then (validate_key_id (ds_key_id signature)) (\<lambda>_.
     and_then (ring_get ring (ds_key_id signature)) (verify_with_trusted_key K e)))"

definition verify_with_public_key :: "crypto \<Rightarrow> trust_envelope \<Rightarrow> string \<Rightarrow> (verification_error, unit) result" where
  "verify_with_public_key K e public_key =
     and_then (ok_or Unsigned (te_signature e)) (\<lambda>signature.
     verify_with_trusted_key K e
       \<lparr>tk_key_id = ds_key_id signature, tk_algorithm = ds_algorithm signature, tk_public_key = public_key\<rparr>)"

definition envelope_digest :: "crypto \<Rightarrow> trust_envelope \<Rightarrow> (string, string) result" where
  "envelope_digest K e = and_then (signing_bytes K e) (digest K)"

definition verify_bindings :: "trust_envelope \<Rightarrow> (verification_error, unit) result" where
  "verify_bindings e =
     and_then (ok_or Unsigned (te_signature e)) (\<lambda>signature.
     and_then (validate_key_id (ds_key_id signature)) (\<lambda>_.
     if ds_algorithm signature \<noteq> SIGNATURE_ALGORITHM then Inl (UnsupportedAlgorithm (ds_algorithm signature))
     else if ds_subject signature \<noteq> te_subject e then Inl SubjectMismatch
     else if ds_artifact_digest signature \<noteq> te_artifact_digest e then Inl ArtifactDigestMismatch
     else Inl PublicKeyRequired))"

section \<open>Release manifests\<close>

definition unsigned_members :: "json_value \<Rightarrow> (string, (string, json_value) btree_map) result" where
  "unsigned_members manifest =
     map_sum id (bm_remove ''signature'') (ok_or ''release manifest must be a JSON object'' (as_object manifest))"

definition release_signing_bytes :: "crypto \<Rightarrow> json_value \<Rightarrow> (string, string) result" where
  "release_signing_bytes K manifest =
     and_then (unsigned_members manifest) (\<lambda>m. canonical_json K (V_Object (bm_entries m)))"

definition signature_payload :: "crypto \<Rightarrow> json_value \<Rightarrow> string \<Rightarrow> string \<Rightarrow> string \<Rightarrow> (string, string) result" where
  "signature_payload K manifest algorithm key_id signed_digest =
     and_then (unsigned_members manifest) (\<lambda>m.
     canonical_json K (V_Object (bm_entries (bm_insert ''signature_context''
       (V_Object [(''algorithm'', V_String algorithm), (''key_id'', V_String key_id), (''signed_digest'', V_String signed_digest)]) m))))"

definition release_sign :: "crypto \<Rightarrow> json_value \<Rightarrow> string \<Rightarrow> string \<Rightarrow> (string, json_value) result" where
  "release_sign K manifest key_id secret_key =
     and_then (map_err verification_error_to_string (validate_key_id key_id)) (\<lambda>_.
     and_then (release_signing_bytes K manifest) (\<lambda>unsigned_bytes.
     and_then (digest K unsigned_bytes) (\<lambda>signed_digest.
     and_then (signature_payload K manifest SIGNATURE_ALGORITHM key_id signed_digest) (\<lambda>bytes.
     and_then (ok_or ''release manifest must be a JSON object'' (as_object manifest)) (\<lambda>members.
     Inr (V_Object (bm_entries (bm_insert ''signature''
       (V_Object [(''algorithm'', V_String SIGNATURE_ALGORITHM), (''key_id'', V_String key_id), (''signed_digest'', V_String signed_digest),
          (''value'', V_String (cr_b64_encode K (cr_sign K secret_key bytes)))]) members))))))))"

definition signature_string :: "(string, json_value) btree_map \<Rightarrow> string \<Rightarrow> (verification_error, string) result" where
  "signature_string object field =
     ok_or (InvalidEnvelope (''signature.'' @ field @ '' must be a string''))
       (case bm_get object field of None \<Rightarrow> None | Some v \<Rightarrow> as_str v)"

definition sha256_text :: "string \<Rightarrow> bool" where
  "sha256_text d \<longleftrightarrow> length d = 71 \<and> prefix ''sha256-'' d \<and> list_all is_ascii_hexdigit (drop 7 d)"

definition release_verify :: "crypto \<Rightarrow> json_value \<Rightarrow> key_ring \<Rightarrow> (verification_error, unit) result" where
  "release_verify K manifest ring =
     and_then (ok_or (InvalidEnvelope ''release manifest must be an object'') (as_object manifest)) (\<lambda>object.
     and_then (ok_or Unsigned (case bm_get object ''signature'' of None \<Rightarrow> None | Some v \<Rightarrow> as_object v)) (\<lambda>signature.
     if list_ex (\<lambda>field. field \<notin> {''algorithm'', ''key_id'', ''signed_digest'', ''value''}) (bm_keys signature)
     then Inl (InvalidEnvelope ''signature contains unknown fields'')
     else and_then (signature_string signature ''algorithm'') (\<lambda>algorithm.
       and_then (signature_string signature ''key_id'') (\<lambda>key_id.
       and_then (signature_string signature ''signed_digest'') (\<lambda>signed_digest.
       and_then (signature_string signature ''value'') (\<lambda>value.
       if algorithm \<noteq> SIGNATURE_ALGORITHM then Inl (UnsupportedAlgorithm algorithm)
       else and_then (validate_key_id key_id) (\<lambda>_.
         if \<not> sha256_text signed_digest then Inl (InvalidEnvelope ''signature.signed_digest must be a sha256 digest'')
         else and_then (ok_or (UnknownKeyId key_id) (bm_get ring key_id)) (\<lambda>key.
           if tk_algorithm key \<noteq> algorithm then Inl (UnsupportedAlgorithm (tk_algorithm key))
           else and_then (map_err InvalidEnvelope (release_signing_bytes K manifest)) (\<lambda>unsigned_bytes.
             and_then (map_err InvalidEnvelope (digest K unsigned_bytes)) (\<lambda>actual.
             if actual \<noteq> signed_digest then Inl ManifestDigestMismatch
             else and_then (map_err InvalidEnvelope (signature_payload K manifest algorithm key_id signed_digest)) (\<lambda>bytes.
               and_then (map_err InvalidEnvelope (cr_b64_decode K value)) (\<lambda>signature_bytes.
               if length signature_bytes \<noteq> 64 then Inl (InvalidEnvelope ''signature.value must decode to 64 bytes'')
               else and_then (map_err InvalidEnvelope (cr_signature_from_slice K signature_bytes)) (\<lambda>_.
                 and_then (map_err InvalidEnvelope (cr_verifying_key K (tk_public_key key))) (\<lambda>_.
                 ensure (cr_verify K (tk_public_key key) bytes signature_bytes) InvalidSignature))))))))))))))"

end
