(* ===== verification/Security.thy ===== *)
theory Security
  imports Signatures
begin

text \<open>
  Security evidence: the wire identity of a package (\<open>tapid-protocol/src/lib.rs\<close>), the contracts of \<open>tapid-protocol/src/security.rs\<close> with the validation of
  requests and results, and the verification of \<open>tapid-attestations/src/security.rs\<close>. What
  \<open>serde\<close> derives for the two views of an envelope, the strict and the generic one, is a parameter. The numbers are
  \<open>u64\<close>, as naturals; only a saturating subtraction is computed with them.
\<close>

section \<open>Requests and results\<close>

definition SECURITY_CONTRACT_V1 :: string where
  "SECURITY_CONTRACT_V1 = ''tapid-security-v1''"

definition MAX_SECURITY_BYTES :: nat where
  "MAX_SECURITY_BYTES = 262144"

record package_instance_wire =
  pw_registry :: string
  pw_name :: string
  pw_version :: string

definition wire_of_id :: "'v crates \<Rightarrow> 'v package_id \<Rightarrow> package_instance_wire" where
  "wire_of_id C i =
     \<lparr>pw_registry = identity (id_registry i), pw_name = id_name i, pw_version = sv_to_string C (id_version i)\<rparr>"

definition id_of_wire :: "'v crates \<Rightarrow> package_instance_wire \<Rightarrow> (domain_error, 'v package_id) result" where
  "id_of_wire C w =
     and_then (package_source_from_str C (pw_registry w)) (\<lambda>source.
     and_then (package_name_from_str (pw_name w)) (\<lambda>name.
     and_then (package_version_from_str C (pw_version w)) (\<lambda>version.
     Inr (PackageId source name version))))"

record security_platform =
  sp_os :: "string option"
  sp_cpu :: "string option"
  sp_libc :: "string option"

record security_subject =
  ss_package :: package_instance_wire
  ss_requested_name :: string
  ss_placement :: string
  ss_peers :: "(string, package_instance_wire) btree_map"
  ss_platform :: security_platform

datatype security_check = Advisory | Artifact string

datatype evidence_audience = Public_Audience | Tenant string

record security_request =
  sq_version :: string
  sq_subject :: security_subject
  sq_check :: security_check
  sq_coverage :: "string list"
  sq_audience :: evidence_audience

datatype security_status =
  Findings | NoKnownFindings | NotScanned | Unavailable | Stale | Partial | Unsupported | InvalidEvidence

datatype security_scope = PackageVersion | ArtifactBytes

record security_finding =
  sf_id :: string
  sf_summary :: string
  sf_severity :: string

record security_result =
  sr_version :: string
  sr_request :: security_request
  sr_issuer :: string
  sr_sequence :: nat
  sr_status :: security_status
  sr_scanner :: string
  sr_scanner_version :: string
  sr_rule_version :: string
  sr_scope :: security_scope
  sr_coverage :: "string list"
  sr_source_revision :: string
  sr_checked_at :: nat
  sr_issued_at :: nat
  sr_expires_at :: nat
  sr_findings :: "security_finding list"
  sr_limitations :: "string list"

datatype security_reason =
    Reason_InputTooLarge | Reason_Malformed | Reason_UnsupportedVersion | Reason_InvalidRequest
  | Reason_SubjectMismatch | Reason_DigestMismatch | Reason_UnknownIssuer | Reason_UntrustedKey
  | Reason_InvalidSignature | Reason_InvalidEnvelope | Reason_InvalidResult | Reason_Expired
  | Reason_FutureEvidence | Reason_Replay | Reason_IncompleteCoverage

definition plain_text :: "string \<Rightarrow> bool" where
  "plain_text value \<longleftrightarrow> trim value \<noteq> [] \<and> length value \<le> 4096 \<and> \<not> any_control value"

definition valid_coverage :: "string list \<Rightarrow> bool" where
  "valid_coverage values \<longleftrightarrow> values \<noteq> [] \<and> length values \<le> 128 \<and>
     list_all (\<lambda>i. plain_text (values ! i) \<and> values ! i \<notin> set (take i values)) [0..<length values]"

definition valid_placement :: "string \<Rightarrow> bool" where
  "valid_placement value \<longleftrightarrow> plain_text value \<and> \<not> prefix ''/'' value \<and> CHR 0x5C \<notin> set value \<and> CHR '':'' \<notin> set value \<and>
     \<not> list_ex (\<lambda>s. s = [] \<or> s = ''.'' \<or> s = ''..'') (split_char (CHR ''/'') value)"

definition valid_package :: "'v crates \<Rightarrow> package_instance_wire \<Rightarrow> bool" where
  "valid_package C p \<longleftrightarrow> registry_origin_from_str C (pw_registry p) = Inr (pw_registry p) \<and>
     ok_result (package_name_from_str (pw_name p)) \<and>
     map_sum id (sv_to_string C) (package_version_from_str C (pw_version p)) = Inr (pw_version p)"

definition valid_subject :: "'v crates \<Rightarrow> security_subject \<Rightarrow> bool" where
  "valid_subject C s \<longleftrightarrow> valid_package C (ss_package s) \<and> ok_result (package_name_from_str (ss_requested_name s)) \<and>
     valid_placement (ss_placement s) \<and> bm_len (ss_peers s) \<le> 128 \<and>
     list_all (\<lambda>(name, p). ok_result (package_name_from_str name) \<and> valid_package C p) (bm_entries (ss_peers s)) \<and>
     list_all (\<lambda>f. case f of None \<Rightarrow> True | Some v \<Rightarrow> plain_text v) [sp_os (ss_platform s), sp_cpu (ss_platform s), sp_libc (ss_platform s)] \<and>
     ok_result (platform_context_new (sp_os (ss_platform s)) (sp_cpu (ss_platform s)) (sp_libc (ss_platform s)))"

definition request_validate :: "'v crates \<Rightarrow> security_request \<Rightarrow> (security_reason, unit) result" where
  "request_validate C q =
     (if sq_version q \<noteq> SECURITY_CONTRACT_V1 then Inl Reason_UnsupportedVersion
      else if \<not> valid_subject C (sq_subject q) \<or> \<not> valid_coverage (sq_coverage q) \<or>
              (case sq_audience q of Tenant tenant \<Rightarrow> \<not> plain_text tenant | Public_Audience \<Rightarrow> False)
      then Inl Reason_InvalidRequest
      else (case sq_check q of
          Artifact d \<Rightarrow> if artifact_digest_from_str d \<noteq> Inr d then Inl Reason_InvalidRequest else Inr ()
        | Advisory \<Rightarrow> Inr ()))"

definition scope_matches :: "security_check \<Rightarrow> security_scope \<Rightarrow> bool" where
  "scope_matches check scope \<longleftrightarrow>
     (case check of Advisory \<Rightarrow> scope = PackageVersion | Artifact _ \<Rightarrow> scope = ArtifactBytes)"

definition result_malformed :: "security_result \<Rightarrow> bool" where
  "result_malformed r \<longleftrightarrow>
     list_ex (\<lambda>v. \<not> plain_text v) [sr_issuer r, sr_scanner r, sr_scanner_version r, sr_rule_version r, sr_source_revision r] \<or>
     \<not> scope_matches (sq_check (sr_request r)) (sr_scope r) \<or>
     list_ex (\<lambda>v. 9007199254740991 < v) [sr_sequence r, sr_checked_at r, sr_issued_at r, sr_expires_at r] \<or>
     sr_status r \<in> {NotScanned, Unavailable, Unsupported, InvalidEvidence} \<and> (sr_coverage r \<noteq> [] \<or> sr_findings r \<noteq> []) \<or>
     sr_sequence r = 0 \<or> sr_issued_at r < sr_checked_at r \<or> sr_expires_at r \<le> sr_issued_at r \<or>
     128 < length (sr_coverage r) \<or>
     list_ex (\<lambda>i. \<not> plain_text (sr_coverage r ! i) \<or> sr_coverage r ! i \<in> set (take i (sr_coverage r)) \<or>
       sr_coverage r ! i \<notin> set (sq_coverage (sr_request r))) [0..<length (sr_coverage r)] \<or>
     256 < length (sr_findings r) \<or> 128 < length (sr_limitations r) \<or>
     list_ex (\<lambda>v. \<not> plain_text v) (sr_limitations r) \<or>
     list_ex (\<lambda>f. \<not> plain_text (sf_id f) \<or> \<not> plain_text (sf_summary f) \<or> \<not> plain_text (sf_severity f)) (sr_findings r) \<or>
     sr_status r = Findings \<and> sr_findings r = [] \<or>
     sr_status r = NoKnownFindings \<and> sr_findings r \<noteq> []"

definition result_validate :: "'v crates \<Rightarrow> security_result \<Rightarrow> (security_reason, unit) result" where
  "result_validate C r =
     (if sr_version r \<noteq> SECURITY_CONTRACT_V1 then Inl Reason_UnsupportedVersion
      else and_then (request_validate C (sr_request r)) (\<lambda>_.
        if result_malformed r then Inl Reason_InvalidResult
        else if sr_status r \<in> {Findings, NoKnownFindings} \<and>
                list_ex (\<lambda>c. c \<notin> set (sr_coverage r)) (sq_coverage (sr_request r))
        then Inl Reason_IncompleteCoverage
        else if sr_status r \<in> {Partial, NotScanned, Unavailable, Stale, Unsupported, InvalidEvidence} \<and> sr_limitations r = []
        then Inl Reason_InvalidResult
        else Inr ()))"

section \<open>Verification of evidence\<close>

record security_trust =
  st_issuer :: string
  st_keys :: key_ring
  st_valid_until :: nat

record evidence_freshness =
  ef_now :: nat
  ef_max_age :: nat
  ef_minimum_sequence :: nat
  ef_previous_digest :: "string option"

record verified_evidence =
  ve_result :: security_result
  ve_envelope_digest :: string

record security_envelope =
  se_version :: string
  se_subject :: string
  se_artifact_digest :: string
  se_claims :: security_result
  se_signature :: detached_signature

text \<open>The decoders \<open>serde\<close> derives: the strict envelope, and the generic one that keeps its claims as a document.\<close>

record evidence_json =
  ej_security :: "string \<Rightarrow> security_envelope option"
  ej_envelope :: "string \<Rightarrow> trust_envelope option"

definition evidence_binding :: "security_check \<Rightarrow> string" where
  "evidence_binding check = (case check of Advisory \<Rightarrow> ''version-scope'' | Artifact d \<Rightarrow> d)"

definition check_freshness ::
  "security_trust \<Rightarrow> evidence_freshness \<Rightarrow> security_result \<Rightarrow> (security_reason, unit) result" where
  "check_freshness trust freshness result =
     (if st_valid_until trust \<le> ef_now freshness \<or> sr_expires_at result \<le> ef_now freshness \<or>
         ef_max_age freshness < ef_now freshness - sr_checked_at result
      then Inl Reason_Expired
      else if ef_now freshness < sr_issued_at result then Inl Reason_FutureEvidence
      else Inr ())"

definition verify_security_evidence ::
  "'v crates \<Rightarrow> crypto \<Rightarrow> evidence_json \<Rightarrow> string \<Rightarrow> security_request \<Rightarrow> security_trust \<Rightarrow> evidence_freshness \<Rightarrow>
   (security_reason, verified_evidence) result" where
  "verify_security_evidence C K E bytes request trust freshness =
     (if MAX_SECURITY_BYTES < length bytes then Inl Reason_InputTooLarge
      else and_then (request_validate C request) (\<lambda>_.
        and_then (ok_or Reason_Malformed (ej_security E bytes)) (\<lambda>parsed.
        if se_version parsed \<noteq> ENVELOPE_VERSION \<or> se_subject parsed \<noteq> SECURITY_CONTRACT_V1 then Inl Reason_InvalidEnvelope
        else and_then (result_validate C (se_claims parsed)) (\<lambda>_.
          and_then (ok_or Reason_Malformed (ej_envelope E bytes)) (\<lambda>envelope.
          if sr_issuer (se_claims parsed) \<noteq> st_issuer trust then Inl Reason_UnknownIssuer
          else if \<not> bm_contains_key (st_keys trust) (ds_key_id (se_signature parsed)) then Inl Reason_UntrustedKey
          else and_then (map_err (\<lambda>_. Reason_InvalidSignature) (verify_with_keyring K envelope (st_keys trust))) (\<lambda>_.
            if sr_request (se_claims parsed) \<noteq> request then Inl Reason_SubjectMismatch
            else if se_artifact_digest parsed \<noteq> evidence_binding (sq_check request) then Inl Reason_DigestMismatch
            else and_then (check_freshness trust freshness (se_claims parsed)) (\<lambda>_.
              and_then (map_err (\<lambda>_. Reason_InvalidEnvelope) (envelope_digest K envelope)) (\<lambda>d.
              if sr_sequence (se_claims parsed) < ef_minimum_sequence freshness \<or>
                 sr_sequence (se_claims parsed) = ef_minimum_sequence freshness \<and> ef_previous_digest freshness \<noteq> Some d
              then Inl Reason_Replay
              else Inr \<lparr>ve_result = se_claims parsed, ve_envelope_digest = d\<rparr>))))))))"

end
