(* ===== verification/Signature_Properties.thy ===== *)
theory Signature_Properties
  imports Signatures
begin

text \<open>
  Properties of signatures: what is signed verifies, and an accepted signature covers the whole
  envelope or release manifest. The contracts state the documented behaviour of the cryptography
  and of canonical JSON; a concrete instance satisfies them.
\<close>

section \<open>Contracts\<close>

text \<open>
  Ed25519: the public key of a seed is a valid key, signatures have 64 bytes and verify. Base64
  decodes what it encodes. SHA-256 prints 64 hexadecimal digits.
\<close>

definition crypto_contract :: "crypto \<Rightarrow> (string \<Rightarrow> string) \<Rightarrow> bool" where
  "crypto_contract K public \<longleftrightarrow>
     (\<forall>seed m. length seed = 32 \<longrightarrow> cr_verifying_key K (public seed) = Inr () \<and> length (cr_sign K seed m) = 64 \<and>
        cr_verify K (public seed) m (cr_sign K seed m)) \<and>
     (\<forall>s. length s = 64 \<longrightarrow> cr_signature_from_slice K s = Inr ()) \<and>
     (\<forall>b. cr_b64_decode K (cr_b64_encode K b) = Inr b) \<and>
     (\<forall>m. length (cr_sha256 K m) = 64 \<and> list_all is_ascii_hexdigit (cr_sha256 K m))"

text \<open>
  RFC 8785: equal texts of strings are equal strings; objects with equal text have the same keys and,
  under each, members with equal texts.
\<close>

definition jcs_contract :: "crypto \<Rightarrow> bool" where
  "jcs_contract K \<longleftrightarrow>
     (\<forall>s s'. cr_jcs K (V_String s) = cr_jcs K (V_String s') \<longrightarrow> s = s') \<and>
     (\<forall>a b t. cr_jcs K (V_Object a) = Inr t \<and> cr_jcs K (V_Object b) = Inr t \<longrightarrow>
        dom (bm_get (bm_of_list a)) = dom (bm_get (bm_of_list b)) \<and>
        (\<forall>k x y. bm_get (bm_of_list a) k = Some x \<and> bm_get (bm_of_list b) k = Some y \<longrightarrow> cr_jcs K x = cr_jcs K y)) \<and>
     (\<forall>k v a t. cr_jcs K (V_Object a) = Inr t \<and> bm_get (bm_of_list a) k = Some v \<longrightarrow> ok_result (cr_jcs K v))"

lemma jcs_string: "jcs_contract K \<Longrightarrow> cr_jcs K (V_String s) = cr_jcs K (V_String s') \<Longrightarrow> s = s'"
  unfolding jcs_contract_def by blast

lemma jcs_member:
  "jcs_contract K \<Longrightarrow> cr_jcs K (V_Object a) = Inr t \<Longrightarrow> cr_jcs K (V_Object b) = Inr t \<Longrightarrow>
   bm_get (bm_of_list a) k = Some x \<Longrightarrow> bm_get (bm_of_list b) k = Some y \<Longrightarrow> cr_jcs K x = cr_jcs K y"
  unfolding jcs_contract_def by blast

lemma jcs_keys:
  "jcs_contract K \<Longrightarrow> cr_jcs K (V_Object a) = Inr t \<Longrightarrow> cr_jcs K (V_Object b) = Inr t \<Longrightarrow>
   dom (bm_get (bm_of_list a)) = dom (bm_get (bm_of_list b))"
  unfolding jcs_contract_def by blast

lemma jcs_member_ok:
  "jcs_contract K \<Longrightarrow> cr_jcs K (V_Object a) = Inr t \<Longrightarrow> bm_get (bm_of_list a) k = Some v \<Longrightarrow> ok_result (cr_jcs K v)"
  unfolding jcs_contract_def by blast

section \<open>What is signed\<close>

lemma bm_of_list_Nil [simp]: "bm_of_list [] = bm_empty"
  by (simp add: bm_of_list_def)

lemma get_of_list: "bm_get (bm_of_list es) k = map_of (rev es) k"
  unfolding bm_of_list_def bm_extend_facts(1) by simp

text \<open>The members of the signed value.\<close>

definition signing_object :: "trust_envelope \<Rightarrow> (string \<times> string) option \<Rightarrow> (string, json_value) btree_map" where
  "signing_object e context = the (as_object (signing_value e context))"

lemma signing_value_object: "signing_value e c = V_Object (bm_entries (signing_object e c))"
  by (simp add: signing_object_def signing_value_def)

lemma signing_object_get:
  "bm_get (signing_object e c) ''artifact_digest'' = Some (V_String (te_artifact_digest e))"
  "bm_get (signing_object e c) ''claims'' = Some (te_claims e)"
  "bm_get (signing_object e c) ''subject'' = Some (V_String (te_subject e))"
  "bm_get (signing_object e c) ''version'' = Some (V_String (te_version e))"
  "bm_get (signing_object e c) ''signature_context'' =
     (case c of None \<Rightarrow> None | Some (algorithm, key_id) \<Rightarrow> Some (V_Object [(''algorithm'', V_String algorithm), (''key_id'', V_String key_id)]))"
  by (cases c; auto simp: signing_object_def signing_value_def get_of_list split: prod.splits)+

lemma signing_bytes_bind:
  assumes K: "jcs_contract K" and e: "signing_bytes_with_context K e c = Inr t" and f: "signing_bytes_with_context K f d = Inr t"
  shows "te_subject e = te_subject f \<and> te_artifact_digest e = te_artifact_digest f \<and> te_version e = te_version f \<and> c = d \<and>
    cr_jcs K (te_claims e) = cr_jcs K (te_claims f)"
proof -
  let ?E = "signing_object e c" and ?F = "signing_object f d"
  have texts: "cr_jcs K (V_Object (bm_entries ?E)) = Inr t" "cr_jcs K (V_Object (bm_entries ?F)) = Inr t"
    using e f by (simp_all add: signing_bytes_with_context_def canonical_json_def signing_value_object)
  have member: "cr_jcs K x = cr_jcs K y" if "bm_get ?E k = Some x" "bm_get ?F k = Some y" for k x y
    using jcs_member [OF K texts] that by simp
  have string: "s = s'" if "bm_get ?E k = Some (V_String s)" "bm_get ?F k = Some (V_String s')" for k s s'
    using member [OF that] jcs_string [OF K] by blast
  have none: "c = None \<longleftrightarrow> d = None"
  proof -
    have "''signature_context'' \<in> dom (bm_get ?E) \<longleftrightarrow> ''signature_context'' \<in> dom (bm_get ?F)"
      using jcs_keys [OF K texts] by simp
    then show ?thesis by (auto simp: signing_object_get split: option.splits)
  qed
  have pair: "x = y \<and> x' = y'" if c: "c = Some (x, x')" and d: "d = Some (y, y')" for x x' y y'
  proof -
    let ?a = "[(''algorithm'', V_String x), (''key_id'', V_String x')]" and ?b = "[(''algorithm'', V_String y), (''key_id'', V_String y')]"
    have get: "bm_get ?E ''signature_context'' = Some (V_Object ?a)" "bm_get ?F ''signature_context'' = Some (V_Object ?b)"
      using c d by (simp_all add: signing_object_get)
    obtain u where u: "cr_jcs K (V_Object ?a) = Inr u" "cr_jcs K (V_Object ?b) = Inr u"
      using jcs_member_ok [OF K texts(1), of "''signature_context''" "V_Object ?a"] get(1) member [OF get] by (auto simp: ok_result_iff)
    have "cr_jcs K (V_String x) = cr_jcs K (V_String y)" "cr_jcs K (V_String x') = cr_jcs K (V_String y')"
      by (rule jcs_member [OF K u, of "''algorithm''"]; simp add: get_of_list)
        (rule jcs_member [OF K u, of "''key_id''"]; simp add: get_of_list)
    then show ?thesis using jcs_string [OF K] by blast
  qed
  have "c = d"
  proof (cases c)
    case None
    then show ?thesis using none by simp
  next
    case (Some p)
    then obtain q where "d = Some q" using none by auto
    then show ?thesis using Some pair [of "fst p" "snd p" "fst q" "snd q"] by (simp add: prod_eq_iff)
  qed
  moreover have "te_subject e = te_subject f" "te_artifact_digest e = te_artifact_digest f" "te_version e = te_version f"
    using string [OF signing_object_get(3) signing_object_get(3)] string [OF signing_object_get(1) signing_object_get(1)]
      string [OF signing_object_get(4) signing_object_get(4)] by simp_all
  moreover have "cr_jcs K (te_claims e) = cr_jcs K (te_claims f)" by (rule member [OF signing_object_get(2) signing_object_get(2)])
  ultimately show ?thesis by blast
qed

section \<open>A concrete instance\<close>

definition frame_text :: "string \<Rightarrow> string" where
  "frame_text s = concat (map (\<lambda>c. [CHR 0x01, c]) s) @ [CHR 0x00]"

fun sample_jcs :: "json_value \<Rightarrow> string" where
  "sample_jcs V_Null = ''n''"
| "sample_jcs (V_Bool b) = (if b then ''t'' else ''f'')"
| "sample_jcs (V_Number (Json_Int i)) = (if i < 0 then ''-'' else ''+'') @ dec_string (nat (abs i))"
| "sample_jcs (V_Number (Json_Float s)) = ''d'' @ s"
| "sample_jcs (V_String s) = ''s'' @ s"
| "sample_jcs (V_Array vs) = ''a'' @ concat (map (frame_text \<circ> sample_jcs) vs)"
| "sample_jcs (V_Object es) =
     ''o'' @ concat (map (\<lambda>(k, t). frame_text k @ frame_text t) (bm_entries (bm_of_list (map (\<lambda>(k, v). (k, sample_jcs v)) es))))"

definition sample_crypto :: crypto where
  "sample_crypto =
     \<lparr>cr_sha256 = (\<lambda>_. replicate 64 (CHR ''0'')), cr_sign = (\<lambda>seed _. seed @ seed), cr_verifying_key = (\<lambda>_. Inr ()),
      cr_signature_from_slice = (\<lambda>s. if length s = 64 then Inr () else Inl ''length''),
      cr_verify = (\<lambda>key _ s. s = key @ key), cr_b64_decode = Inr, cr_b64_encode = (\<lambda>b. b), cr_jcs = (\<lambda>v. Inr (sample_jcs v)),
      cr_key_ring_json = (\<lambda>_. Inl ''none'')\<rparr>"

lemma sample_crypto_contract: "crypto_contract sample_crypto (\<lambda>seed. seed)"
  by (simp add: crypto_contract_def sample_crypto_def list_all_iff ascii_class_defs byte_def)

lemma frame_text_inject: "frame_text a @ x = frame_text b @ y \<Longrightarrow> a = b \<and> x = y"
proof (induction a arbitrary: b)
  case Nil
  then show ?case by (cases b) (simp_all add: frame_text_def)
next
  case (Cons c a)
  then show ?case by (cases b) (auto simp: frame_text_def)
qed

lemma frame_pairs_inject:
  "concat (map (\<lambda>(k, t). frame_text k @ frame_text t) xs) = concat (map (\<lambda>(k, t). frame_text k @ frame_text t) ys) \<Longrightarrow> xs = ys"
proof (induction xs arbitrary: ys)
  case Nil
  then show ?case by (cases ys) (auto simp: frame_text_def)
next
  case (Cons p xs)
  obtain k t where p: "p = (k, t)" by (cases p)
  from Cons.prems obtain l u ys' where ys: "ys = (l, u) # ys'" by (cases ys) (auto simp: p frame_text_def)
  have "frame_text k @ frame_text t @ concat (map (\<lambda>(k, t). frame_text k @ frame_text t) xs) =
      frame_text l @ frame_text u @ concat (map (\<lambda>(k, t). frame_text k @ frame_text t) ys')"
    using Cons.prems by (simp add: p ys)
  from frame_text_inject [OF this] have "k = l"
    "frame_text t @ concat (map (\<lambda>(k, t). frame_text k @ frame_text t) xs) =
     frame_text u @ concat (map (\<lambda>(k, t). frame_text k @ frame_text t) ys')" by simp_all
  with frame_text_inject [OF this(2)] Cons.IH [of ys'] show ?case by (simp add: p ys)
qed

lemma sample_jcs_contract: "jcs_contract sample_crypto"
proof -
  have get: "bm_get (bm_of_list (map (\<lambda>(k, v). (k, sample_jcs v)) es)) k = map_option sample_jcs (bm_get (bm_of_list es) k)" for es k
    by (simp add: get_of_list rev_map map_of_map)
  have object: "dom (bm_get (bm_of_list a)) = dom (bm_get (bm_of_list b)) \<and>
      (\<forall>k x y. bm_get (bm_of_list a) k = Some x \<and> bm_get (bm_of_list b) k = Some y \<longrightarrow> sample_jcs x = sample_jcs y)"
    if "sample_jcs (V_Object a) = sample_jcs (V_Object b)" for a b
  proof -
    from that have "bm_entries (bm_of_list (map (\<lambda>(k, v). (k, sample_jcs v)) a)) = bm_entries (bm_of_list (map (\<lambda>(k, v). (k, sample_jcs v)) b))"
      unfolding sample_jcs.simps by (intro frame_pairs_inject) simp
    then have eq: "map_option sample_jcs (bm_get (bm_of_list a) k) = map_option sample_jcs (bm_get (bm_of_list b) k)" for k
      by (metis bm_entries_inject get)
    then have "bm_get (bm_of_list a) k = None \<longleftrightarrow> bm_get (bm_of_list b) k = None" for k
      by (metis option.map_disc_iff)
    then have "dom (bm_get (bm_of_list a)) = dom (bm_get (bm_of_list b))" by (auto simp: dom_def)
    moreover have "sample_jcs x = sample_jcs y" if "bm_get (bm_of_list a) k = Some x" "bm_get (bm_of_list b) k = Some y" for k x y
      using eq [of k] that by simp
    ultimately show ?thesis by blast
  qed
  have jcs: "cr_jcs sample_crypto v = Inr (sample_jcs v)" for v by (simp add: sample_crypto_def)
  show ?thesis unfolding jcs_contract_def jcs sum.inject
  proof (intro conjI allI impI)
    fix a b t
    assume "sample_jcs (V_Object a) = t \<and> sample_jcs (V_Object b) = t"
    then have eq: "sample_jcs (V_Object a) = sample_jcs (V_Object b)" by metis
    show "dom (bm_get (bm_of_list a)) = dom (bm_get (bm_of_list b))" using object [OF eq] by blast
    fix k x y
    assume "bm_get (bm_of_list a) k = Some x \<and> bm_get (bm_of_list b) k = Some y"
    then show "sample_jcs x = sample_jcs y" using object [OF eq] by blast
  qed (simp_all add: ok_result_def)
qed

section \<open>Properties\<close>

lemma verified_parts:
  "verify_with_trusted_key K e key = Inr () \<longleftrightarrow> (\<exists>s bytes raw. te_signature e = Some s \<and> validate_key_id (ds_key_id s) = Inr () \<and>
     ds_key_id s = tk_key_id key \<and> ds_algorithm s = tk_algorithm key \<and> ds_algorithm s = SIGNATURE_ALGORITHM \<and>
     ds_subject s = te_subject e \<and> ds_artifact_digest s = te_artifact_digest e \<and> cr_verifying_key K (tk_public_key key) = Inr () \<and>
     cr_b64_decode K (ds_value s) = Inr raw \<and> cr_signature_from_slice K raw = Inr () \<and>
     signing_bytes_with_context K e (Some (ds_algorithm s, ds_key_id s)) = Inr bytes \<and> cr_verify K (tk_public_key key) bytes raw)"
  unfolding verify_with_trusted_key_def and_then_Inr ok_or_Inr map_err_Inr ensure_Inr if_Inl_Inr by auto

lemma keyring_parts:
  "verify_with_keyring K e ring = Inr () \<longleftrightarrow> (\<exists>s key. te_signature e = Some s \<and> bm_get ring (ds_key_id s) = Some key \<and>
     verify_with_trusted_key K e key = Inr ())"
  unfolding verify_with_keyring_def ring_get_def and_then_Inr ok_or_Inr verified_parts by auto

lemma sign_verifies:
  assumes "crypto_contract K public" and "length seed = 32"
    and "bm_get ring key_id = Some \<lparr>tk_key_id = key_id, tk_algorithm = SIGNATURE_ALGORITHM, tk_public_key = public seed\<rparr>"
    and "sign K e key_id seed = Inr sealed"
  shows "verify_with_keyring K sealed ring = Inr () \<and> sealed\<lparr>te_signature := te_signature e\<rparr> = e"
proof -
  let ?key = "\<lparr>tk_key_id = key_id, tk_algorithm = SIGNATURE_ALGORITHM, tk_public_key = public seed\<rparr>"
  from assms(4) obtain bytes where sign: "validate_key_id key_id = Inr ()"
    "signing_bytes_with_context K e (Some (SIGNATURE_ALGORITHM, key_id)) = Inr bytes"
    "sealed = e\<lparr>te_signature := Some \<lparr>ds_algorithm = SIGNATURE_ALGORITHM, ds_key_id = key_id, ds_subject = te_subject e,
        ds_artifact_digest = te_artifact_digest e, ds_value = cr_b64_encode K (cr_sign K seed bytes)\<rparr>\<rparr>"
    by (auto simp: sign_def result_simps)
  have same: "signing_bytes_with_context K sealed c = signing_bytes_with_context K e c" for c
    by (simp add: sign(3) signing_bytes_with_context_def signing_value_def)
  have "cr_verifying_key K (public seed) = Inr ()" "cr_b64_decode K (cr_b64_encode K (cr_sign K seed bytes)) = Inr (cr_sign K seed bytes)"
    "cr_signature_from_slice K (cr_sign K seed bytes) = Inr ()" "cr_verify K (public seed) bytes (cr_sign K seed bytes)"
    using assms(1,2) unfolding crypto_contract_def by blast+
  with sign(1,2) have "verify_with_trusted_key K sealed ?key = Inr ()"
    unfolding verified_parts same by (simp add: sign(3))
  then show ?thesis unfolding keyring_parts using assms(3) by (simp add: sign(3))
qed

text \<open>A signed release manifest verifies and differs from the manifest in its signature only.\<close>

lemma signed_release_verifies:
  assumes K: "crypto_contract K public" and "length seed = 32"
    and ring: "bm_get ring key_id = Some \<lparr>tk_key_id = key_id, tk_algorithm = SIGNATURE_ALGORITHM, tk_public_key = public seed\<rparr>"
    and "release_sign K manifest key_id seed = Inr sealed"
  shows "release_verify K sealed ring = Inr ()"
    and "\<exists>members s. as_object manifest = Some members \<and> sealed = V_Object (bm_entries (bm_insert ''signature'' s members))"
proof -
  from assms(4) obtain u d bytes members where parts: "validate_key_id key_id = Inr ()" "release_signing_bytes K manifest = Inr u"
    "d = ''sha256-'' @ cr_sha256 K u" "signature_payload K manifest SIGNATURE_ALGORITHM key_id d = Inr bytes" "as_object manifest = Some members"
    "sealed = V_Object (bm_entries (bm_insert ''signature'' (V_Object [(''algorithm'', V_String SIGNATURE_ALGORITHM),
        (''key_id'', V_String key_id), (''signed_digest'', V_String d), (''value'', V_String (cr_b64_encode K (cr_sign K seed bytes)))]) members))"
    by (auto simp: release_sign_def digest_def result_simps)
  then show "\<exists>members s. as_object manifest = Some members \<and> sealed = V_Object (bm_entries (bm_insert ''signature'' s members))" by blast
  have object: "as_object sealed = Some (bm_insert ''signature'' (V_Object [(''algorithm'', V_String SIGNATURE_ALGORITHM),
        (''key_id'', V_String key_id), (''signed_digest'', V_String d), (''value'', V_String (cr_b64_encode K (cr_sign K seed bytes)))]) members)"
    unfolding parts(6) as_object.simps bm_of_list_entries ..
  have "unsigned_members sealed = unsigned_members manifest"
    unfolding unsigned_members_def object parts(5) by (simp add: bm_eqI fun_eq_iff)
  then have same: "release_signing_bytes K sealed = release_signing_bytes K manifest"
    "signature_payload K sealed a k x = signature_payload K manifest a k x" for a k x
    by (simp_all add: release_signing_bytes_def signature_payload_def)
  have crypto: "cr_verifying_key K (public seed) = Inr ()" "length (cr_sign K seed bytes) = 64" "cr_verify K (public seed) bytes (cr_sign K seed bytes)"
    "cr_signature_from_slice K (cr_sign K seed bytes) = Inr ()" "cr_b64_decode K (cr_b64_encode K (cr_sign K seed bytes)) = Inr (cr_sign K seed bytes)"
    "length (cr_sha256 K u) = 64" "list_all is_ascii_hexdigit (cr_sha256 K u)"
    using K assms(2) unfolding crypto_contract_def by blast+
  have actual: "digest K u = Inr d" by (simp add: digest_def parts(3))
  from crypto have "sha256_text d" by (simp add: sha256_text_def parts(3))
  moreover have "\<not> list_ex (\<lambda>field. field \<notin> {''algorithm'', ''key_id'', ''signed_digest'', ''value''})
      (bm_keys (bm_of_list [(''algorithm'', V_String SIGNATURE_ALGORITHM), (''key_id'', V_String key_id), (''signed_digest'', V_String d),
        (''value'', V_String (cr_b64_encode K (cr_sign K seed bytes)))]))"
    by (auto simp: list_ex_iff set_bm_keys get_of_list split: if_splits)
  ultimately show "release_verify K sealed ring = Inr ()"
    unfolding release_verify_def object
    using parts(1,2,4) crypto(1-5) ring
    by (simp add: signature_string_def get_of_list same actual)
qed


definition sample_seed :: string where
  "sample_seed = replicate 32 (CHR ''k'')"

definition sample_ring :: key_ring where
  "sample_ring = bm_insert ''k1'' \<lparr>tk_key_id = ''k1'', tk_algorithm = SIGNATURE_ALGORITHM, tk_public_key = sample_seed\<rparr> bm_empty"

lemma sample_signed:
  obtains sealed where "sign sample_crypto (unsigned_envelope ''audit'' ''d'' V_Null) ''k1'' sample_seed = Inr sealed"
proof -
  have "validate_key_id ''k1'' = Inr ()" by code_simp
  then show ?thesis using that by (simp add: sign_def signing_bytes_with_context_def canonical_json_def sample_crypto_def)
qed

lemma sample_release_signed:
  obtains document where "release_sign sample_crypto (V_Object [(''version'', V_Bool True)]) ''k1'' sample_seed = Inr document"
proof -
  have "validate_key_id ''k1'' = Inr ()" by code_simp
  then show ?thesis
    using that by (simp add: release_sign_def release_signing_bytes_def signature_payload_def unsigned_members_def digest_def
        canonical_json_def sample_crypto_def)
qed


text \<open>
  C28. Coverage of a signature. An accepted envelope carries a signature by a trusted key, with that
  key's identifier and algorithm, over a message that no envelope with another subject, artifact
  digest, version, algorithm or key identifier, or with claims of another canonical text, has.
\<close>

theorem verified_envelope_authentic:
  assumes "jcs_contract K" and "verify_with_keyring K e ring = Inr ()"
  shows "\<exists>s key bytes raw. te_signature e = Some s \<and> bm_get ring (ds_key_id s) = Some key \<and> tk_key_id key = ds_key_id s \<and>
    tk_algorithm key = SIGNATURE_ALGORITHM \<and> ds_subject s = te_subject e \<and> ds_artifact_digest s = te_artifact_digest e \<and>
    cr_b64_decode K (ds_value s) = Inr raw \<and> cr_verify K (tk_public_key key) bytes raw \<and>
    signing_bytes_with_context K e (Some (SIGNATURE_ALGORITHM, ds_key_id s)) = Inr bytes \<and>
    (\<forall>f c. signing_bytes_with_context K f c = Inr bytes \<longrightarrow> te_subject f = te_subject e \<and> te_artifact_digest f = te_artifact_digest e \<and>
       te_version f = te_version e \<and> cr_jcs K (te_claims f) = cr_jcs K (te_claims e) \<and> c = Some (SIGNATURE_ALGORITHM, ds_key_id s))"
proof -
  from assms(2) obtain s key bytes raw where parts: "te_signature e = Some s" "bm_get ring (ds_key_id s) = Some key"
    "tk_key_id key = ds_key_id s" "tk_algorithm key = SIGNATURE_ALGORITHM" "ds_subject s = te_subject e"
    "ds_artifact_digest s = te_artifact_digest e" "cr_b64_decode K (ds_value s) = Inr raw" "cr_verify K (tk_public_key key) bytes raw"
    and bytes: "signing_bytes_with_context K e (Some (SIGNATURE_ALGORITHM, ds_key_id s)) = Inr bytes"
    unfolding keyring_parts verified_parts by auto
  have "te_subject f = te_subject e \<and> te_artifact_digest f = te_artifact_digest e \<and> te_version f = te_version e \<and>
      cr_jcs K (te_claims f) = cr_jcs K (te_claims e) \<and> c = Some (SIGNATURE_ALGORITHM, ds_key_id s)"
    if "signing_bytes_with_context K f c = Inr bytes" for f c
    using signing_bytes_bind [OF assms(1) that bytes] by blast
  with parts bytes show ?thesis by blast
qed

theorem verified_envelope_authentic_witness:
  "\<exists>sealed s. sign sample_crypto (unsigned_envelope ''audit'' ''d'' V_Null) ''k1'' sample_seed = Inr sealed \<and>
     te_signature sealed = Some s \<and> bm_get sample_ring (ds_key_id s) \<noteq> None \<and> ds_subject s = te_subject sealed"
proof -
  obtain sealed where sealed: "sign sample_crypto (unsigned_envelope ''audit'' ''d'' V_Null) ''k1'' sample_seed = Inr sealed"
    by (rule sample_signed)
  have "bm_get sample_ring ''k1'' = Some \<lparr>tk_key_id = ''k1'', tk_algorithm = SIGNATURE_ALGORITHM, tk_public_key = sample_seed\<rparr>"
    by (simp add: sample_ring_def)
  with sign_verifies [OF sample_crypto_contract _ _ sealed] have "verify_with_keyring sample_crypto sealed sample_ring = Inr ()"
    by (simp add: sample_seed_def)
  from verified_envelope_authentic [OF sample_jcs_contract this] sealed show ?thesis by auto
qed

end
