(* ===== verification/Security_Properties.thy ===== *)
theory Security_Properties
  imports Security Signature_Properties Reference_Crates Core_Facts
begin

text \<open>
  Properties of security evidence: what the validation of requests and results admits, and what an
  accepted envelope establishes.
\<close>

section \<open>Wire identities\<close>

text \<open>An identity that was read from its wire form is written to a wire form that reads back as it.\<close>

lemma wire_identity_roundtrip:
  assumes "url_contract C" "semver_text C" "id_of_wire C w = Inr i"
  shows "id_of_wire C (wire_of_id C i) = Inr i"
proof -
  obtain source name version where parts: "package_source_from_str C (pw_registry w) = Inr source"
    "package_name_from_str (pw_name w) = Inr name" "package_version_from_str C (pw_version w) = Inr version"
    and i: "i = PackageId source name version"
    using assms(3) unfolding id_of_wire_def and_then_Inr by auto
  have "package_source_from_str C (identity source) = Inr source" by (rule source_roundtrip [OF assms(1) parts(1)])
  moreover have "package_name_from_str name = Inr name" using parts(2) by (auto simp: result_simps)
  moreover have "package_version_from_str C (sv_to_string C version) = Inr version"
  proof -
    have "sv_parse C (sv_to_string C version) = Some version" using assms(2) unfolding semver_text_def by blast
    then show ?thesis using parts(3) by (simp add: package_version_from_str_def split: option.splits if_splits)
  qed
  ultimately show ?thesis by (simp add: i id_of_wire_def wire_of_id_def)
qed

section \<open>Evidence\<close>

lemma take_distinct:
  "(\<forall>i < length xs. xs ! i \<notin> set (take i xs)) \<longleftrightarrow> distinct xs"
proof (induction xs rule: rev_induct)
  case (snoc x xs)
  have "(\<forall>i < length (xs @ [x]). (xs @ [x]) ! i \<notin> set (take i (xs @ [x]))) \<longleftrightarrow>
      (\<forall>i < length xs. xs ! i \<notin> set (take i xs)) \<and> x \<notin> set xs"
    by (auto simp: less_Suc_eq nth_append)
  with snoc.IH show ?case by auto
qed simp

lemma all_nth: "(\<forall>i < length xs. P (xs ! i)) \<longleftrightarrow> list_all P xs"
  by (simp add: list_all_length)

lemma valid_coverage_iff:
  "valid_coverage vs \<longleftrightarrow> vs \<noteq> [] \<and> length vs \<le> 128 \<and> list_all plain_text vs \<and> distinct vs"
proof -
  have "list_all (\<lambda>i. plain_text (vs ! i) \<and> vs ! i \<notin> set (take i vs)) [0..<length vs] \<longleftrightarrow>
      (\<forall>i < length vs. plain_text (vs ! i)) \<and> (\<forall>i < length vs. vs ! i \<notin> set (take i vs))"
    by (auto simp: list_all_iff)
  then show ?thesis by (simp add: valid_coverage_def take_distinct all_nth)
qed

lemma valid_result_coverage:
  assumes "\<not> result_malformed r"
  shows "distinct (sr_coverage r) \<and> set (sr_coverage r) \<subseteq> set (sq_coverage (sr_request r))"
proof -
  have "\<forall>i < length (sr_coverage r). sr_coverage r ! i \<notin> set (take i (sr_coverage r)) \<and>
      sr_coverage r ! i \<in> set (sq_coverage (sr_request r))"
    using assms by (auto simp: result_malformed_def list_ex_iff)
  then show ?thesis using take_distinct [of "sr_coverage r"] by (auto simp: in_set_conv_nth)
qed

text \<open>The two decoders read the same members of the text, and the claims are the typed reading of the document.\<close>

definition same_members :: "evidence_json \<Rightarrow> (json_value \<Rightarrow> security_result option) \<Rightarrow> bool" where
  "same_members E claims \<longleftrightarrow> (\<forall>bytes p e. ej_security E bytes = Some p \<and> ej_envelope E bytes = Some e \<longrightarrow>
     te_version e = se_version p \<and> te_subject e = se_subject p \<and> te_artifact_digest e = se_artifact_digest p \<and>
     te_signature e = Some (se_signature p) \<and> claims (te_claims e) = Some (se_claims p))"

text \<open>
  C27. Evidence. Accepted evidence answers exactly the request: its claims were read from an envelope that a
  key trusted for the issuer signed, for this contract and bound to the artifact of the check; it is current by the
  clock and the trust configuration, not older than the age limit, and not rolled back behind the known
  sequence; a conclusive status covers everything requested, and reports findings exactly when there are any.
\<close>

theorem accepted_evidence_sound:
  assumes "jcs_contract K" and "same_members E claims"
    and "verify_security_evidence C K E bytes request trust freshness = Inr ev"
  shows "\<exists>e s key message raw. ej_envelope E bytes = Some e \<and> claims (te_claims e) = Some (ve_result ev) \<and>
    te_signature e = Some s \<and> bm_get (st_keys trust) (ds_key_id s) = Some key \<and> cr_b64_decode K (ds_value s) = Inr raw \<and>
    signing_bytes_with_context K e (Some (SIGNATURE_ALGORITHM, ds_key_id s)) = Inr message \<and> cr_verify K (tk_public_key key) message raw \<and>
    te_subject e = SECURITY_CONTRACT_V1 \<and> te_artifact_digest e = evidence_binding (sq_check request) \<and>
    envelope_digest K e = Inr (ve_envelope_digest ev) \<and>
    request_validate C request = Inr () \<and> sr_request (ve_result ev) = request \<and> sr_issuer (ve_result ev) = st_issuer trust \<and>
    sr_checked_at (ve_result ev) \<le> sr_issued_at (ve_result ev) \<and> sr_issued_at (ve_result ev) \<le> ef_now freshness \<and>
    ef_now freshness < sr_expires_at (ve_result ev) \<and> ef_now freshness < st_valid_until trust \<and>
    ef_now freshness \<le> sr_checked_at (ve_result ev) + ef_max_age freshness \<and>
    ef_minimum_sequence freshness \<le> sr_sequence (ve_result ev) \<and>
    (sr_sequence (ve_result ev) = ef_minimum_sequence freshness \<longrightarrow> ef_previous_digest freshness = Some (ve_envelope_digest ev)) \<and>
    set (sr_coverage (ve_result ev)) \<subseteq> set (sq_coverage request) \<and>
    (sr_status (ve_result ev) \<in> {Findings, NoKnownFindings} \<longrightarrow> set (sr_coverage (ve_result ev)) = set (sq_coverage request)) \<and>
    (sr_status (ve_result ev) = NoKnownFindings \<longrightarrow> sr_findings (ve_result ev) = []) \<and>
    (sr_status (ve_result ev) = Findings \<longrightarrow> sr_findings (ve_result ev) \<noteq> [])"
proof -
  let ?r = "ve_result ev"
  from assms(3) obtain p e d where parts: "request_validate C request = Inr ()" "ej_security E bytes = Some p"
    "se_subject p = SECURITY_CONTRACT_V1" "result_validate C (se_claims p) = Inr ()" "ej_envelope E bytes = Some e"
    "sr_issuer (se_claims p) = st_issuer trust" "verify_with_keyring K e (st_keys trust) = Inr ()" "sr_request (se_claims p) = request"
    "se_artifact_digest p = evidence_binding (sq_check request)" "check_freshness trust freshness (se_claims p) = Inr ()"
    "envelope_digest K e = Inr d"
    "\<not> (sr_sequence (se_claims p) < ef_minimum_sequence freshness \<or>
        sr_sequence (se_claims p) = ef_minimum_sequence freshness \<and> ef_previous_digest freshness \<noteq> Some d)"
    "ev = \<lparr>ve_result = se_claims p, ve_envelope_digest = d\<rparr>"
    unfolding verify_security_evidence_def if_Inl_Inr and_then_Inr ok_or_Inr map_err_Inr sum.inject by auto
  then have r: "?r = se_claims p" "ve_envelope_digest ev = d" by simp_all
  have members: "te_subject e = se_subject p" "te_artifact_digest e = se_artifact_digest p" "claims (te_claims e) = Some (se_claims p)"
    using assms(2) parts(2,5) unfolding same_members_def by blast+
  obtain s key message raw where sig: "te_signature e = Some s" "bm_get (st_keys trust) (ds_key_id s) = Some key"
    "cr_b64_decode K (ds_value s) = Inr raw" "signing_bytes_with_context K e (Some (SIGNATURE_ALGORITHM, ds_key_id s)) = Inr message"
    "cr_verify K (tk_public_key key) message raw"
    using parts(7) unfolding keyring_parts verified_parts by auto
  have wf: "\<not> result_malformed (se_claims p)"
    and cover: "sr_status (se_claims p) \<in> {Findings, NoKnownFindings} \<longrightarrow> set (sq_coverage request) \<subseteq> set (sr_coverage (se_claims p))"
    using parts(4,8) unfolding result_validate_def if_Inl_Inr and_then_Inr by (auto simp: list_ex_iff)
  have times: "sr_checked_at (se_claims p) \<le> sr_issued_at (se_claims p)" "sr_issued_at (se_claims p) \<le> ef_now freshness"
    "ef_now freshness < sr_expires_at (se_claims p)" "ef_now freshness < st_valid_until trust"
    "ef_now freshness \<le> sr_checked_at (se_claims p) + ef_max_age freshness"
    using wf parts(10) unfolding check_freshness_def if_Inl_Inr by (auto simp: result_malformed_def)
  have findings: "sr_status (se_claims p) = NoKnownFindings \<longrightarrow> sr_findings (se_claims p) = []"
    "sr_status (se_claims p) = Findings \<longrightarrow> sr_findings (se_claims p) \<noteq> []"
    using wf by (auto simp: result_malformed_def)
  have subset: "set (sr_coverage (se_claims p)) \<subseteq> set (sq_coverage request)"
    using valid_result_coverage [OF wf] parts(8) by simp
  show ?thesis unfolding r
    using parts(1,3,5,6,8,9,11,12) members sig cover times findings subset by (intro exI conjI) auto
qed

definition sample_request :: security_request where
  "sample_request =
     \<lparr>sq_version = SECURITY_CONTRACT_V1,
      sq_subject = \<lparr>ss_package = \<lparr>pw_registry = ''https://a.b'', pw_name = ''kleur'', pw_version = ''4.1.5''\<rparr>,
        ss_requested_name = ''kleur'', ss_placement = ''node_modules/kleur'', ss_peers = bm_empty,
        ss_platform = \<lparr>sp_os = Some ''linux'', sp_cpu = None, sp_libc = None\<rparr>\<rparr>,
      sq_check = Advisory, sq_coverage = [''advisories''], sq_audience = Public_Audience\<rparr>"

definition sample_result :: security_result where
  "sample_result =
     \<lparr>sr_version = SECURITY_CONTRACT_V1, sr_request = sample_request, sr_issuer = ''lab'', sr_sequence = 3, sr_status = NoKnownFindings,
      sr_scanner = ''s'', sr_scanner_version = ''1'', sr_rule_version = ''1'', sr_scope = PackageVersion, sr_coverage = [''advisories''],
      sr_source_revision = ''r'', sr_checked_at = 5, sr_issued_at = 6, sr_expires_at = 20, sr_findings = [], sr_limitations = []\<rparr>"

definition sample_signature :: detached_signature where
  "sample_signature =
     \<lparr>ds_algorithm = SIGNATURE_ALGORITHM, ds_key_id = ''k1'', ds_subject = SECURITY_CONTRACT_V1, ds_artifact_digest = ''version-scope'',
      ds_value = sample_seed @ sample_seed\<rparr>"

definition sample_evidence :: evidence_json where
  "sample_evidence =
     \<lparr>ej_security = (\<lambda>_. Some \<lparr>se_version = ENVELOPE_VERSION, se_subject = SECURITY_CONTRACT_V1, se_artifact_digest = ''version-scope'',
        se_claims = sample_result, se_signature = sample_signature\<rparr>),
      ej_envelope = (\<lambda>_. Some ((unsigned_envelope SECURITY_CONTRACT_V1 ''version-scope'' V_Null)\<lparr>te_signature := Some sample_signature\<rparr>))\<rparr>"

definition sample_trust :: security_trust where
  "sample_trust = \<lparr>st_issuer = ''lab'', st_keys = sample_ring, st_valid_until = 100\<rparr>"

definition sample_freshness :: evidence_freshness where
  "sample_freshness = \<lparr>ef_now = 10, ef_max_age = 8, ef_minimum_sequence = 2, ef_previous_digest = None\<rparr>"

lemma sample_same_members: "same_members sample_evidence (\<lambda>_. Some sample_result)"
  by (simp add: same_members_def sample_evidence_def unsigned_envelope_def)

lemma sample_accepted:
  "ok_result (verify_security_evidence reference_crates sample_crypto sample_evidence ''{}'' sample_request sample_trust sample_freshness)"
  by code_simp

theorem accepted_evidence_sound_witness:
  "\<exists>ev. verify_security_evidence reference_crates sample_crypto sample_evidence ''{}'' sample_request sample_trust sample_freshness = Inr ev \<and>
     sr_request (ve_result ev) = sample_request \<and> 2 \<le> sr_sequence (ve_result ev) \<and> 10 < sr_expires_at (ve_result ev)"
proof -
  obtain ev where ev: "verify_security_evidence reference_crates sample_crypto sample_evidence ''{}'' sample_request sample_trust sample_freshness = Inr ev"
    using sample_accepted by (auto simp: ok_result_iff)
  from accepted_evidence_sound [OF sample_jcs_contract sample_same_members ev] ev show ?thesis
    by (auto simp: sample_freshness_def)
qed

end
