(* ===== verification/Attestation_Claims.thy ===== *)
theory Attestation_Claims
  imports Complex_Main Signatures
begin

text \<open>
  Claims that are put into envelopes (\<open>tapid-attestations/src/lib.rs\<close>) and records of inclusion in
  a transparency log (\<open>tapid-transparency\<close>). Time stamps are the crate \<open>time\<close>'s, and the JSON form of the
  structs is \<open>serde\<close>'s; both are parameters. An \<open>f64\<close> is a rational or one of the other values.
\<close>

section \<open>Claims\<close>

datatype f64 = Finite rat | Infinite bool | Not_A_Number

record finding =
  fd_id :: string
  fd_conclusion :: string
  fd_severity :: "string option"

record attestation_claims =
  ac_issuer :: string
  ac_methodology :: string
  ac_scope :: string
  ac_issued_at :: string
  ac_expires_at :: "string option"
  ac_findings :: "finding list"
  ac_confidence :: f64
  ac_limitations :: "string list"
  ac_payment_disclosure :: string

text \<open>\<open>OffsetDateTime\<close> as an instant in nanoseconds, read and written in RFC 3339.\<close>

record time_crate =
  tm_parse :: "string \<Rightarrow> (int \<times> int) option"
  tm_format :: "int \<times> int \<Rightarrow> string option"

definition timestamp_error :: "string \<Rightarrow> string" where
  "timestamp_error field =
     (if field = ''issued_at'' then ''issued_at must be a canonical RFC 3339 timestamp''
      else if field = ''expires_at'' then ''expires_at must be a canonical RFC 3339 timestamp''
      else ''timestamp must be a canonical RFC 3339 timestamp'')"

text \<open>The instant is the first component; the second is the offset in which it is written.\<close>

definition parse_canonical_timestamp :: "time_crate \<Rightarrow> string \<Rightarrow> string \<Rightarrow> (string, int \<times> int) result" where
  "parse_canonical_timestamp T value field =
     and_then (ok_or (timestamp_error field) (tm_parse T value)) (\<lambda>timestamp.
     and_then (ok_or (timestamp_error field) (tm_format T timestamp)) (\<lambda>canonical.
     if canonical \<noteq> value then Inl (timestamp_error field) else Inr timestamp))"

fun unit_interval :: "f64 \<Rightarrow> bool" where
  "unit_interval (Finite q) \<longleftrightarrow> 0 \<le> q \<and> q \<le> 1"
| "unit_interval _ \<longleftrightarrow> False"

definition claims_validate :: "time_crate \<Rightarrow> attestation_claims \<Rightarrow> (string, unit) result" where
  "claims_validate T c =
     (if ac_issuer c = [] \<or> ac_methodology c = [] \<or> ac_scope c = [] \<or> ac_issued_at c = []
      then Inl ''issuer, methodology, scope, and issued_at are required''
      else and_then (parse_canonical_timestamp T (ac_issued_at c) ''issued_at'') (\<lambda>issued_at.
        if \<not> unit_interval (ac_confidence c) then Inl ''confidence must be between 0 and 1''
        else and_then (case ac_expires_at c of
            None \<Rightarrow> Inr ()
          | Some expiry \<Rightarrow> and_then (parse_canonical_timestamp T expiry ''expires_at'') (\<lambda>expires_at.
              if fst expires_at \<le> fst issued_at then Inl ''expires_at must be after issued_at'' else Inr ())) (\<lambda>_.
          if ac_payment_disclosure c = [] then Inl ''payment_disclosure is required'' else Inr ())))"

definition into_envelope ::
  "time_crate \<Rightarrow> (attestation_claims \<Rightarrow> json_value) \<Rightarrow> attestation_claims \<Rightarrow> string \<Rightarrow> string \<Rightarrow> (string, trust_envelope) result" where
  "into_envelope T to_value c subject artifact =
     and_then (claims_validate T c) (\<lambda>_. Inr (unsigned_envelope subject artifact (to_value c)))"

section \<open>Inclusion records\<close>

record inclusion_record =
  ir_envelope_digest :: string
  ir_log_id :: string
  ir_tree_size :: nat
  ir_leaf_index :: nat
  ir_inclusion_path :: "string list"
  ir_witnessed_at :: string

definition record_validate :: "inclusion_record \<Rightarrow> (string, unit) result" where
  "record_validate r =
     (if ir_envelope_digest r = [] \<or> ir_log_id r = [] \<or> ir_witnessed_at r = []
      then Inl ''digest, log_id, and witnessed_at are required''
      else if ir_tree_size r \<le> ir_leaf_index r then Inl ''leaf_index must be less than tree_size''
      else if list_ex (\<lambda>h. h = []) (ir_inclusion_path r) then Inl ''inclusion path entries must be non-empty''
      else Inr ())"

definition record_value :: "inclusion_record \<Rightarrow> json_value" where
  "record_value r = V_Object
     [(''envelope_digest'', V_String (ir_envelope_digest r)), (''log_id'', V_String (ir_log_id r)),
      (''tree_size'', V_Number (Json_Int (int (ir_tree_size r)))), (''leaf_index'', V_Number (Json_Int (int (ir_leaf_index r)))),
      (''inclusion_path'', V_Array (map V_String (ir_inclusion_path r))), (''witnessed_at'', V_String (ir_witnessed_at r))]"

definition record_canonical_bytes :: "crypto \<Rightarrow> inclusion_record \<Rightarrow> (string, string) result" where
  "record_canonical_bytes K r = canonical_json K (record_value r)"

definition binds_to :: "crypto \<Rightarrow> inclusion_record \<Rightarrow> trust_envelope \<Rightarrow> (string, bool) result" where
  "binds_to K r e = and_then (envelope_digest K e) (\<lambda>d. Inr (ir_envelope_digest r = d))"

section \<open>Facts\<close>

text \<open>Accepted claims have a positive validity period, and their envelope holds exactly them.\<close>

lemma into_envelope_Inr:
  assumes "into_envelope T to_value c subject artifact = Inr e"
  shows "te_subject e = subject \<and> te_artifact_digest e = artifact \<and> te_claims e = to_value c \<and> te_signature e = None \<and>
    (\<exists>issued. tm_parse T (ac_issued_at c) = Some issued \<and>
      (\<forall>expiry. ac_expires_at c = Some expiry \<longrightarrow> (\<exists>expires. tm_parse T expiry = Some expires \<and> fst issued < fst expires)))"
  using assms
  by (auto simp: into_envelope_def claims_validate_def parse_canonical_timestamp_def unsigned_envelope_def result_simps
      split: if_splits option.splits)

text \<open>A record that binds to an envelope binds to every envelope with the same signed fields, whatever its signature.\<close>

lemma binds_to_ignores_signature: "binds_to K r (e\<lparr>te_signature := s\<rparr>) = binds_to K r e"
  by (simp add: binds_to_def envelope_digest_def signing_bytes_def signing_bytes_with_context_def signing_value_def)

end
