(* ===== verification/Policy.thy ===== *)
theory Policy
  imports Rust_Str
begin

text \<open>
  The crate \<open>tapid-policy\<close>: evidence on the capabilities of a package and the decision made from
  it. The JSON form of a decision is \<open>serde\<close>'s and is not modelled.
\<close>

datatype policy_capability =
    Network | FilesystemRead | FilesystemWrite | ProcessSpawn | EnvironmentRead | CredentialAccess | NativeCode
  | Unknown_Capability string

datatype evidence_kind = Declared_Kind | Inferred_Kind | Observed_Kind | Enforced_Kind

text \<open>The four evidence structs have the same fields.\<close>

datatype evidence =
    Declared (evidence_capability: policy_capability) (evidence_statement: string)
  | Inferred (evidence_capability: policy_capability) (evidence_statement: string)
  | Observed (evidence_capability: policy_capability) (evidence_statement: string)
  | Enforced (evidence_capability: policy_capability) (evidence_statement: string)
  | Ambiguous (evidence_capability: policy_capability) (evidence_statement: string)

fun kind_of_evidence :: "evidence \<Rightarrow> evidence_kind" where
  "kind_of_evidence (Declared _ _) = Declared_Kind"
| "kind_of_evidence (Inferred _ _) = Inferred_Kind"
| "kind_of_evidence (Observed _ _) = Observed_Kind"
| "kind_of_evidence (Enforced _ _) = Enforced_Kind"
| "kind_of_evidence (Ambiguous _ _) = Inferred_Kind"

fun is_ambiguous :: "evidence \<Rightarrow> bool" where
  "is_ambiguous (Ambiguous _ _) = True"
| "is_ambiguous _ = False"

datatype decision = Allow | Warn | Prompt | Deny

datatype reason_code =
    DeclaredNetworkCapability | InferredCapability | ObservedCapability | EnforcedCapability
  | AmbiguousEvidence | UnattendedRequiresPrompt | UnsupportedOs

fun reason_as_str :: "reason_code \<Rightarrow> string" where
  "reason_as_str DeclaredNetworkCapability = ''POLICY_DECLARED_NETWORK''"
| "reason_as_str InferredCapability = ''POLICY_INFERRED_CAPABILITY''"
| "reason_as_str ObservedCapability = ''POLICY_OBSERVED_CAPABILITY''"
| "reason_as_str EnforcedCapability = ''POLICY_ENFORCED_CAPABILITY''"
| "reason_as_str AmbiguousEvidence = ''POLICY_AMBIGUOUS_EVIDENCE''"
| "reason_as_str UnattendedRequiresPrompt = ''POLICY_UNATTENDED_FAIL_CLOSED''"
| "reason_as_str UnsupportedOs = ''POLICY_OS_LIMITATION''"

record policy_decision =
  pd_decision :: decision
  pd_reasons :: "reason_code list"
  pd_evidence :: "evidence list"

definition from_evidence :: "evidence list \<Rightarrow> bool \<Rightarrow> policy_decision" where
  "from_evidence es unattended =
     (let (d, reasons) =
        (if list_ex is_ambiguous es then (Deny, [AmbiguousEvidence])
         else if unattended \<and> list_ex (\<lambda>e. kind_of_evidence e \<in> {Inferred_Kind, Observed_Kind}) es
         then (Deny, [UnattendedRequiresPrompt])
         else if list_ex (\<lambda>e. kind_of_evidence e = Declared_Kind \<and> evidence_capability e = Network) es
         then (Warn, [DeclaredNetworkCapability])
         else (Allow, [])) in
      \<lparr>pd_decision = d, pd_reasons = reasons, pd_evidence = es\<rparr>)"

fun decision_label :: "decision \<Rightarrow> string" where
  "decision_label Allow = ''allow''"
| "decision_label Warn = ''warn''"
| "decision_label Prompt = ''prompt''"
| "decision_label Deny = ''deny''"

definition human :: "policy_decision \<Rightarrow> string" where
  "human p = decision_label (pd_decision p) @ '': '' @ join '', '' (map reason_as_str (pd_reasons p))"

section \<open>The decision\<close>

text \<open>How severe a decision is, in the order in which the source declares them.\<close>

fun severity :: "decision \<Rightarrow> nat" where
  "severity Allow = 0"
| "severity Warn = 1"
| "severity Prompt = 2"
| "severity Deny = 3"

text \<open>More evidence, or leaving the installation unattended, never makes a decision milder.\<close>

lemma from_evidence_monotone:
  assumes "set es \<subseteq> set es'" and "unattended \<longrightarrow> unattended'"
  shows "severity (pd_decision (from_evidence es unattended)) \<le> severity (pd_decision (from_evidence es' unattended'))"
  using assms by (auto simp: from_evidence_def list_ex_iff subset_iff)

text \<open>
  The decision is a denial exactly for ambiguous evidence, or unattended with inferred or observed
  evidence; otherwise a warning exactly for a declared network capability; a decision other than
  permission gives one reason, and the evidence is kept.
\<close>

lemma from_evidence_decision:
  "pd_decision (from_evidence es unattended) = Deny \<longleftrightarrow>
     (\<exists>e \<in> set es. is_ambiguous e \<or> unattended \<and> kind_of_evidence e \<in> {Inferred_Kind, Observed_Kind})"
  "pd_decision (from_evidence es unattended) = Warn \<longleftrightarrow>
     pd_decision (from_evidence es unattended) \<noteq> Deny \<and> (\<exists>s. Declared Network s \<in> set es)"
  "pd_decision (from_evidence es unattended) \<noteq> Prompt"
  "length (pd_reasons (from_evidence es unattended)) = (if pd_decision (from_evidence es unattended) = Allow then 0 else 1)"
  "pd_evidence (from_evidence es unattended) = es"
proof -
  have declared: "kind_of_evidence e = Declared_Kind \<and> evidence_capability e = Network \<longleftrightarrow> (\<exists>s. e = Declared Network s)" for e
    by (cases e) auto
  show "pd_decision (from_evidence es unattended) = Deny \<longleftrightarrow>
     (\<exists>e \<in> set es. is_ambiguous e \<or> unattended \<and> kind_of_evidence e \<in> {Inferred_Kind, Observed_Kind})"
    by (auto simp: from_evidence_def list_ex_iff)
  show "pd_decision (from_evidence es unattended) = Warn \<longleftrightarrow>
     pd_decision (from_evidence es unattended) \<noteq> Deny \<and> (\<exists>s. Declared Network s \<in> set es)"
    unfolding from_evidence_def declared by (auto simp: list_ex_iff)
qed (simp_all add: from_evidence_def)

end
