(* ===== verification/Runner_Plan.thy ===== *)
theory Runner_Plan
  imports Policy
begin

text \<open>
  The crate \<open>tapid-runner\<close>, \<open>lib.rs\<close>: the plan made for a lifecycle script from the policy, and the
  check of an approval against it. SHA-256, giving its digest in lower-case hexadecimal, is a
  parameter. Executing a script is not modelled.
\<close>

fun replace_crlf :: "string \<Rightarrow> string" where
  "replace_crlf (a # b # rest) =
     (if a = CHR 0x0D \<and> b = CHR 0x0A then CHR 0x0A # replace_crlf rest else a # replace_crlf (b # rest))"
| "replace_crlf s = s"

definition normalize_script :: "string \<Rightarrow> string" where
  "normalize_script script = trim (map (\<lambda>c. if c = CHR 0x0D then CHR 0x0A else c) (replace_crlf script))"

definition normalized_script_hash :: "(string \<Rightarrow> string) \<Rightarrow> string \<Rightarrow> string" where
  "normalized_script_hash sha256 script = ''sha256-'' @ sha256 (normalize_script script)"

record runner_request =
  rr_artifact_digest :: string
  rr_script :: string
  rr_unattended :: bool
  rr_os :: string

definition script_hash :: "(string \<Rightarrow> string) \<Rightarrow> runner_request \<Rightarrow> string" where
  "script_hash sha256 request = normalized_script_hash sha256 (rr_script request)"

record approval =
  ap_artifact_digest :: string
  ap_script_hash :: string

definition approval_for_request :: "(string \<Rightarrow> string) \<Rightarrow> runner_request \<Rightarrow> approval" where
  "approval_for_request sha256 request =
     \<lparr>ap_artifact_digest = rr_artifact_digest request, ap_script_hash = script_hash sha256 request\<rparr>"

datatype approval_error =
  Approval_ArtifactDigestMismatch | ScriptHashMismatch | MissingApproval | Approval_UnsupportedOs | PolicyDenied | RequestMismatch

record runner_plan =
  rp_policy :: policy_decision
  rp_approval_required :: bool
  rp_containment_available :: bool
  rp_request :: runner_request

definition plan_script :: "runner_request \<Rightarrow> evidence list \<Rightarrow> runner_plan" where
  "plan_script request es =
     (let policy0 = from_evidence es (rr_unattended request);
          policy = (if rr_os request \<notin> {''linux'', ''macos'', ''windows''}
            then \<lparr>pd_decision = Deny, pd_reasons = [UnsupportedOs], pd_evidence = pd_evidence policy0\<rparr> else policy0) in
      \<lparr>rp_policy = policy, rp_approval_required = (pd_decision policy \<noteq> Allow), rp_containment_available = False, rp_request = request\<rparr>)"

definition validate_approval ::
  "(string \<Rightarrow> string) \<Rightarrow> runner_plan \<Rightarrow> runner_request \<Rightarrow> approval option \<Rightarrow> (approval_error, unit) result" where
  "validate_approval sha256 plan request approval =
     (if rr_artifact_digest request \<noteq> rr_artifact_digest (rp_request plan) then Inl Approval_ArtifactDigestMismatch
      else if script_hash sha256 request \<noteq> script_hash sha256 (rp_request plan) then Inl ScriptHashMismatch
      else if rr_unattended request \<noteq> rr_unattended (rp_request plan) \<or> rr_os request \<noteq> rr_os (rp_request plan) then Inl RequestMismatch
      else if pd_decision (rp_policy plan) = Deny then Inl PolicyDenied
      else (case approval of
          None \<Rightarrow> if rp_approval_required plan then Inl MissingApproval else Inr ()
        | Some a \<Rightarrow>
            if ap_artifact_digest a \<noteq> rr_artifact_digest request then Inl Approval_ArtifactDigestMismatch
            else if ap_script_hash a \<noteq> script_hash sha256 request then Inl ScriptHashMismatch
            else Inr ()))"

section \<open>Facts\<close>

lemma replace_crlf_plain: "CHR 0x0D \<notin> set s \<Longrightarrow> replace_crlf s = s"
  by (induction s rule: replace_crlf.induct) auto

lemma trim_sublist: "\<exists>l r. s = l @ trim s @ r"
proof -
  have t: "trim s = concat (trim_list whitespace_group (char_groups s))" by (simp add: trim_def trim_list_def)
  obtain l r where "char_groups s = l @ trim_list whitespace_group (char_groups s) @ r" using trim_list_split by blast
  then have "concat (char_groups s) = concat l @ trim s @ concat r" unfolding t by (metis concat_append)
  then show ?thesis by (metis concat_char_groups)
qed

lemma option_Inr_iff:
  "(case x of None \<Rightarrow> a | Some y \<Rightarrow> f y) = Inr () \<longleftrightarrow> (x = None \<and> a = Inr () \<or> (\<exists>y. x = Some y \<and> f y = Inr ()))"
  by (cases x) auto

lemma carriage_free: "CHR 0x0D \<notin> set (normalize_script s)"
proof -
  let ?m = "map (\<lambda>c. if c = CHR 0x0D then CHR 0x0A else c) (replace_crlf s)"
  obtain l r where "?m = l @ normalize_script s @ r"
    using trim_sublist unfolding normalize_script_def by blast
  then have "set ?m = set l \<union> set (normalize_script s) \<union> set r" by (metis set_append sup_assoc)
  then have "set (normalize_script s) \<subseteq> set ?m" by blast
  then show ?thesis by (auto split: if_splits)
qed

text \<open>Normalizing a script twice changes nothing more, so a hash stands for one normalized script.\<close>

lemma normalize_script_idem: "normalize_script (normalize_script s) = normalize_script s"
proof -
  have "map (\<lambda>c. if c = CHR 0x0D then CHR 0x0A else c) (normalize_script s) = normalize_script s"
    using carriage_free [of s] by (auto intro: map_idI)
  then show ?thesis
    using replace_crlf_plain [OF carriage_free, of s] by (simp add: normalize_script_def)
qed

text \<open>
  C30. Approvals. A script that is let through has the artifact, the normalized script, the mode and
  the system of the plan, unless SHA-256 collides on the two scripts; its evidence is not ambiguous and its system
  supported; unattended, nothing was only inferred or observed; and when a network capability is declared, there
  is an approval of exactly this artifact and script.
\<close>

theorem approved_script_matches_plan:
  assumes "validate_approval sha256 (plan_script planned es) request approval = Inr ()"
    and "inj_on sha256 {normalize_script (rr_script planned), normalize_script (rr_script request)}"
  shows "rr_artifact_digest request = rr_artifact_digest planned \<and>
    normalize_script (rr_script request) = normalize_script (rr_script planned) \<and>
    rr_unattended request = rr_unattended planned \<and> rr_os request = rr_os planned \<and> rr_os planned \<in> {''linux'', ''macos'', ''windows''} \<and>
    list_all (\<lambda>e. \<not> is_ambiguous e \<and> (rr_unattended planned \<longrightarrow> kind_of_evidence e \<notin> {Inferred_Kind, Observed_Kind})) es \<and>
    ((\<exists>s. Declared Network s \<in> set es) \<longrightarrow> approval = Some (approval_for_request sha256 planned))"
proof -
  let ?p = "plan_script planned es"
  have req: "rp_request ?p = planned" by (simp add: plan_script_def Let_def)
  have facts: "rr_artifact_digest request = rr_artifact_digest planned" "script_hash sha256 request = script_hash sha256 planned"
    "rr_unattended request = rr_unattended planned" "rr_os request = rr_os planned" "pd_decision (rp_policy ?p) \<noteq> Deny"
    and gate: "rp_approval_required ?p \<longrightarrow> (\<exists>a. approval = Some a \<and> ap_artifact_digest a = rr_artifact_digest request \<and>
      ap_script_hash a = script_hash sha256 request)"
    using assms(1) unfolding validate_approval_def req if_Inl_Inr option_Inr_iff by blast+
  have "normalize_script (rr_script request) = normalize_script (rr_script planned)"
    by (rule inj_onD [OF assms(2)])
      (use facts(2) in \<open>simp_all only: script_hash_def normalized_script_hash_def append_same_eq same_append_eq insert_iff simp_thms\<close>)
  moreover have os: "rr_os planned \<in> {''linux'', ''macos'', ''windows''}"
    using facts(5) by (auto simp: plan_script_def Let_def split: if_splits)
  then have policy: "rp_policy ?p = from_evidence es (rr_unattended planned)" "rp_approval_required ?p \<longleftrightarrow> pd_decision (rp_policy ?p) \<noteq> Allow"
    by (auto simp: plan_script_def Let_def)
  then have "\<not> (\<exists>e \<in> set es. is_ambiguous e \<or> rr_unattended planned \<and> kind_of_evidence e \<in> {Inferred_Kind, Observed_Kind})"
    using facts(5) from_evidence_decision(1) [of es "rr_unattended planned"] by simp
  then have "list_all (\<lambda>e. \<not> is_ambiguous e \<and> (rr_unattended planned \<longrightarrow> kind_of_evidence e \<notin> {Inferred_Kind, Observed_Kind})) es"
    by (auto simp: list_all_iff)
  moreover have "approval = Some (approval_for_request sha256 planned)" if "Declared Network s \<in> set es" for s
  proof -
    have "pd_decision (rp_policy ?p) = Warn" using that facts(5) policy(1) from_evidence_decision(2) [of es "rr_unattended planned"] by auto
    then show ?thesis using gate facts(1,2) policy(2) by (auto simp: approval_for_request_def)
  qed
  ultimately show ?thesis using facts os by blast
qed

definition sample_script :: runner_request where
  "sample_script = \<lparr>rr_artifact_digest = ''sha256-a'', rr_script = '' make'' @ [CHR 0x0D, CHR 0x0A], rr_unattended = False, rr_os = ''linux''\<rparr>"

theorem approved_script_matches_plan_witness:
  "validate_approval (\<lambda>m. m) (plan_script sample_script [Declared Network ''n'']) (sample_script\<lparr>rr_script := ''make''\<rparr>)
     (Some (approval_for_request (\<lambda>m. m) sample_script)) = Inr () \<and>
   normalize_script ''make'' = normalize_script (rr_script sample_script)"
proof -
  have ok: "validate_approval (\<lambda>m. m) (plan_script sample_script [Declared Network ''n'']) (sample_script\<lparr>rr_script := ''make''\<rparr>)
     (Some (approval_for_request (\<lambda>m. m) sample_script)) = Inr ()" by code_simp
  from approved_script_matches_plan [OF ok] show ?thesis using ok by simp
qed

end
