(* ===== verification/Runner_Config.thy ===== *)
theory Runner_Config
  imports Rust_Path
begin

text \<open>
  The crate \<open>tapid-runner\<close>, \<open>config.rs\<close>: sandbox policies and the run configuration that is checked in
  with a project. The TOML reader with the decoders \<open>serde\<close> derives is a parameter, and so are the texts the
  standard library writes for a malformed byte and for the debug form of a string. The limits are
  \<open>u64\<close> and \<open>u32\<close>, as naturals: nothing is computed with them but a narrowing conversion.
\<close>

section \<open>Data\<close>

definition MAX_CONFIG_BYTES :: nat where "MAX_CONFIG_BYTES = 1024 * 1024"

definition MAX_PROFILE_COUNT :: nat where "MAX_PROFILE_COUNT = 256"

definition MAX_GRANT_COUNT :: nat where "MAX_GRANT_COUNT = 256"

definition MAX_ENVIRONMENT_COUNT :: nat where "MAX_ENVIRONMENT_COUNT = 256"

definition MAX_STRING_BYTES :: nat where "MAX_STRING_BYTES = 255"

datatype sandbox_mode = Sandbox_Required | Sandbox_Disabled

datatype assurance_level = Restricted | ManagedTree

record filesystem_policy =
  fp_read :: "string list"
  fp_write :: "string list"

record execution_limits =
  el_timeout_seconds :: "nat option"
  el_max_output_bytes :: "nat option"
  el_max_processes :: "nat option"
  el_max_memory_bytes :: "nat option"

record sandbox_policy =
  sb_mode :: sandbox_mode
  sb_assurance :: assurance_level
  sb_filesystem :: filesystem_policy
  sb_network :: bool
  sb_environment :: "string list"
  sb_subprocess :: bool
  sb_limits :: execution_limits

datatype config_error_category =
  Config_Malformed | UnknownKey | InvalidPath | InvalidEnvironment | InvalidLimit | CapacityExceeded

record config_error =
  ce_category :: config_error_category
  ce_message :: string

record run_config =
  rc_defaults :: sandbox_policy
  rc_explicit_defaults :: bool
  rc_scripts :: "(string, sandbox_policy) btree_map"

record raw_profile =
  rw_assurance :: "assurance_level option"
  rw_read :: "string list option"
  rw_write :: "string list option"
  rw_network :: "bool option"
  rw_environment :: "string list option"
  rw_subprocess :: "bool option"
  rw_timeout_seconds :: "nat option"
  rw_max_output_bytes :: "nat option"
  rw_max_processes :: "nat option"
  rw_max_memory_bytes :: "nat option"

text \<open>The \<open>run\<close> section of a document; the registries are not read here.\<close>

record run_section =
  rs_defaults :: "raw_profile option"
  rs_scripts :: "(string, raw_profile) btree_map"

record toml_text =
  tt_from_str :: "string \<Rightarrow> (string, run_section) result"
  tt_utf8_error :: "string \<Rightarrow> string"
  tt_debug :: "string \<Rightarrow> string"

section \<open>Checks\<close>

definition config_error_new :: "config_error_category \<Rightarrow> string \<Rightarrow> config_error" where
  "config_error_new category message = \<lparr>ce_category = category, ce_message = message\<rparr>"

definition invalid_limit :: "string \<Rightarrow> string \<Rightarrow> config_error" where
  "invalid_limit name reason = config_error_new InvalidLimit (name @ '' '' @ reason)"

definition nonzero :: "string \<Rightarrow> nat option \<Rightarrow> (config_error, nat option) result" where
  "nonzero name value =
     (if value = Some 0 then Inl (invalid_limit name ''must be greater than zero'') else Inr value)"

definition validate_string_length :: "string \<Rightarrow> string \<Rightarrow> (config_error, unit) result" where
  "validate_string_length kind value =
     (if MAX_STRING_BYTES < length value
      then Inl (config_error_new CapacityExceeded (kind @ '' exceeds '' @ dec_string MAX_STRING_BYTES @ '' UTF-8 bytes''))
      else Inr ())"

definition ascii_upper :: "char \<Rightarrow> char" where
  "ascii_upper c = (if is_ascii_lowercase c then char_of (byte c - 32) else c)"

text \<open>The digits one to nine and the three superscript digits of Latin-1, in UTF-8.\<close>

definition is_windows_reserved_port :: "string \<Rightarrow> bool" where
  "is_windows_reserved_port port \<longleftrightarrow>
     port \<in> {''1'', ''2'', ''3'', ''4'', ''5'', ''6'', ''7'', ''8'', ''9'',
       [CHR 0xC2, CHR 0xB9], [CHR 0xC2, CHR 0xB2], [CHR 0xC2, CHR 0xB3]}"

definition is_windows_reserved_component :: "string \<Rightarrow> bool" where
  "is_windows_reserved_component component \<longleftrightarrow>
     (let upper = map ascii_upper (hd (split_char (CHR ''.'') component)) in
      upper \<in> {''CON'', ''PRN'', ''AUX'', ''NUL'', ''CONIN$'', ''CONOUT$''} \<or>
      (case strip_prefix ''COM'' upper of Some port \<Rightarrow> is_windows_reserved_port port | None \<Rightarrow> False) \<or>
      (case strip_prefix ''LPT'' upper of Some port \<Rightarrow> is_windows_reserved_port port | None \<Rightarrow> False))"

definition forbidden_chars :: "char set" where
  "forbidden_chars = {CHR ''<'', CHR ''>'', CHR '':'', CHR 0x22, CHR ''|'', CHR ''?'', CHR ''*'', CHR 0x5C}"

definition invalid_component :: "string \<Rightarrow> string \<Rightarrow> bool" where
  "invalid_component value component \<longleftrightarrow>
     component = [] \<or> component = ''.'' \<and> value \<noteq> ''.'' \<or> component = ''..'' \<or>
     component \<noteq> ''.'' \<and> (ends_with ''.'' component \<or> ends_with '' '' component) \<or>
     any_control component \<or> list_ex (\<lambda>c. c \<in> forbidden_chars) component \<or>
     is_windows_reserved_component component"

definition windows_absolute :: "string \<Rightarrow> bool" where
  "windows_absolute value \<longleftrightarrow> prefix [CHR 0x5C] value \<or> prefix ''/'' value \<or>
     2 \<le> length value \<and> value ! 1 = CHR '':'' \<and> is_ascii_alphabetic (value ! 0)"

definition validate_project_path :: "toml_text \<Rightarrow> string \<Rightarrow> (config_error, unit) result" where
  "validate_project_path T value =
     (if value = [] \<or> path_absolute (path_of value) \<or> windows_absolute value \<or>
         list_ex (invalid_component value) (split_char (CHR ''/'') value) \<or> has_parent_dir (path_of value)
      then Inl (config_error_new InvalidPath
        (''filesystem grant is not a portable project-relative path: '' @ tt_debug T value))
      else Inr ())"

fun environment_name_ok :: "string \<Rightarrow> bool" where
  "environment_name_ok [] = False"
| "environment_name_ok (c # cs) =
     ((c = CHR ''_'' \<or> is_ascii_alphabetic c) \<and> list_all (\<lambda>d. d = CHR ''_'' \<or> is_ascii_alphanumeric d) cs)"

definition validate_environment_name :: "toml_text \<Rightarrow> string \<Rightarrow> (config_error, unit) result" where
  "validate_environment_name T name =
     (if \<not> environment_name_ok name
      then Inl (config_error_new InvalidEnvironment (''invalid environment variable name: '' @ tt_debug T name))
      else Inr ())"

section \<open>Policies\<close>

definition filesystem_policy_new ::
  "toml_text \<Rightarrow> string list \<Rightarrow> string list \<Rightarrow> (config_error, filesystem_policy) result" where
  "filesystem_policy_new T read write =
     (if MAX_GRANT_COUNT < length read + length write
      then Inl (config_error_new CapacityExceeded (''filesystem policy exceeds '' @ dec_string MAX_GRANT_COUNT @ '' grants''))
      else and_then (for_each (\<lambda>path.
          and_then (validate_string_length ''filesystem grant'' path) (\<lambda>_. validate_project_path T path)) (read @ write)) (\<lambda>_.
        Inr \<lparr>fp_read = read, fp_write = write\<rparr>))"

definition execution_limits_new ::
  "nat option \<Rightarrow> nat option \<Rightarrow> nat option \<Rightarrow> nat option \<Rightarrow> (config_error, execution_limits) result" where
  "execution_limits_new timeout_seconds max_output_bytes max_processes max_memory_bytes =
     and_then (nonzero ''timeout_seconds'' timeout_seconds) (\<lambda>t.
     and_then (nonzero ''max_output_bytes'' max_output_bytes) (\<lambda>b.
     and_then (nonzero ''max_processes'' max_processes) (\<lambda>p.
     and_then (nonzero ''max_memory_bytes'' max_memory_bytes) (\<lambda>m.
     Inr \<lparr>el_timeout_seconds = t, el_max_output_bytes = b, el_max_processes = p, el_max_memory_bytes = m\<rparr>))))"

text \<open>The check of environment names that the constructor of a policy and the profiles share.\<close>

definition validate_environment :: "toml_text \<Rightarrow> string list \<Rightarrow> (config_error, unit) result" where
  "validate_environment T environment =
     (if MAX_ENVIRONMENT_COUNT < length environment
      then Inl (config_error_new CapacityExceeded
        (''sandbox policy exceeds '' @ dec_string MAX_ENVIRONMENT_COUNT @ '' environment names''))
      else for_each (\<lambda>name.
        and_then (validate_string_length ''environment variable name'' name) (\<lambda>_. validate_environment_name T name)) environment)"

definition new_with_assurance ::
  "toml_text \<Rightarrow> sandbox_mode \<Rightarrow> assurance_level \<Rightarrow> filesystem_policy \<Rightarrow> bool \<Rightarrow> string list \<Rightarrow> bool \<Rightarrow>
   execution_limits \<Rightarrow> (config_error, sandbox_policy) result" where
  "new_with_assurance T mode assurance filesystem network environment subprocess limits =
     and_then (validate_environment T environment) (\<lambda>_.
     Inr \<lparr>sb_mode = mode, sb_assurance = assurance, sb_filesystem = filesystem, sb_network = network,
       sb_environment = environment, sb_subprocess = subprocess, sb_limits = limits\<rparr>)"

definition sandbox_policy_new ::
  "toml_text \<Rightarrow> sandbox_mode \<Rightarrow> filesystem_policy \<Rightarrow> bool \<Rightarrow> string list \<Rightarrow> bool \<Rightarrow>
   execution_limits \<Rightarrow> (config_error, sandbox_policy) result" where
  "sandbox_policy_new T mode filesystem network environment subprocess limits =
     new_with_assurance T mode ManagedTree filesystem network environment subprocess limits"

definition sandbox_policy_default :: sandbox_policy where
  "sandbox_policy_default =
     \<lparr>sb_mode = Sandbox_Required, sb_assurance = ManagedTree,
      sb_filesystem = \<lparr>fp_read = [''.''], fp_write = []\<rparr>, sb_network = False, sb_environment = [], sb_subprocess = True,
      sb_limits = \<lparr>el_timeout_seconds = None, el_max_output_bytes = None, el_max_processes = None, el_max_memory_bytes = None\<rparr>\<rparr>"

definition unwrap_or :: "'a \<Rightarrow> 'a option \<Rightarrow> 'a" where
  "unwrap_or d x = (case x of None \<Rightarrow> d | Some y \<Rightarrow> y)"

definition option_or :: "'a option \<Rightarrow> 'a option \<Rightarrow> 'a option" where
  "option_or x y = (case x of None \<Rightarrow> y | Some _ \<Rightarrow> x)"

definition apply_profile :: "toml_text \<Rightarrow> sandbox_policy \<Rightarrow> raw_profile \<Rightarrow> (config_error, sandbox_policy) result" where
  "apply_profile T policy raw =
     and_then (filesystem_policy_new T (unwrap_or (fp_read (sb_filesystem policy)) (rw_read raw))
         (unwrap_or (fp_write (sb_filesystem policy)) (rw_write raw))) (\<lambda>filesystem.
     and_then (case rw_environment raw of
         None \<Rightarrow> Inr (sb_environment policy)
       | Some environment \<Rightarrow> and_then (validate_environment T environment) (\<lambda>_. Inr environment)) (\<lambda>environment.
     and_then (case rw_max_processes raw of
         None \<Rightarrow> Inr (el_max_processes (sb_limits policy))
       | Some value \<Rightarrow> if 2 ^ 32 \<le> value then Inl (invalid_limit ''max_processes'' ''must fit in an unsigned 32-bit integer'')
           else Inr (Some value)) (\<lambda>max_processes.
     and_then (execution_limits_new (option_or (rw_timeout_seconds raw) (el_timeout_seconds (sb_limits policy)))
         (option_or (rw_max_output_bytes raw) (el_max_output_bytes (sb_limits policy))) max_processes
         (option_or (rw_max_memory_bytes raw) (el_max_memory_bytes (sb_limits policy)))) (\<lambda>limits.
     Inr (policy\<lparr>sb_assurance := unwrap_or (sb_assurance policy) (rw_assurance raw), sb_filesystem := filesystem,
        sb_network := unwrap_or (sb_network policy) (rw_network raw), sb_environment := environment,
        sb_subprocess := unwrap_or (sb_subprocess policy) (rw_subprocess raw), sb_limits := limits\<rparr>)))))"

section \<open>The run configuration\<close>

definition raw_profile_default :: raw_profile where
  "raw_profile_default =
     \<lparr>rw_assurance = None, rw_read = None, rw_write = None, rw_network = None, rw_environment = None, rw_subprocess = None,
      rw_timeout_seconds = None, rw_max_output_bytes = None, rw_max_processes = None, rw_max_memory_bytes = None\<rparr>"

definition str_contains :: "string \<Rightarrow> string \<Rightarrow> bool" where
  "str_contains s pattern \<longleftrightarrow> list_ex (\<lambda>i. prefix pattern (drop i s)) [0..<Suc (length s)]"

definition deserialize_error :: "string \<Rightarrow> config_error" where
  "deserialize_error message =
     config_error_new
       (if str_contains message ''unknown field'' then UnknownKey
        else if list_ex (str_contains message) [''timeout_seconds'', ''max_output_bytes'', ''max_processes'', ''max_memory_bytes''] \<and>
          (str_contains message ''too large'' \<or> str_contains message ''out of range'' \<or> str_contains message ''expected u64'')
        then InvalidLimit
        else Config_Malformed) message"

fun apply_profiles ::
  "toml_text \<Rightarrow> sandbox_policy \<Rightarrow> (string \<times> raw_profile) list \<Rightarrow> (config_error, (string \<times> sandbox_policy) list) result" where
  "apply_profiles T defaults [] = Inr []"
| "apply_profiles T defaults ((name, profile) # rest) =
     and_then (apply_profile T defaults profile) (\<lambda>policy.
     and_then (apply_profiles T defaults rest) (\<lambda>ps. Inr ((name, policy) # ps)))"

definition parse_toml_bytes :: "toml_text \<Rightarrow> string \<Rightarrow> (config_error, run_config) result" where
  "parse_toml_bytes T input =
     (if MAX_CONFIG_BYTES < length input
      then Inl (config_error_new CapacityExceeded (''run configuration exceeds '' @ dec_string MAX_CONFIG_BYTES @ '' bytes''))
      else if \<not> utf8_valid input
      then Inl (config_error_new Config_Malformed (''run configuration is not valid UTF-8: '' @ tt_utf8_error T input))
      else and_then (map_err deserialize_error (tt_from_str T input)) (\<lambda>run.
        if MAX_PROFILE_COUNT < bm_len (rs_scripts run)
        then Inl (config_error_new CapacityExceeded (''run configuration exceeds '' @ dec_string MAX_PROFILE_COUNT @ '' script profiles''))
        else and_then (for_each (validate_string_length ''script profile name'') (bm_keys (rs_scripts run))) (\<lambda>_.
          and_then (apply_profile T sandbox_policy_default (unwrap_or raw_profile_default (rs_defaults run))) (\<lambda>defaults.
          and_then (apply_profiles T defaults (bm_entries (rs_scripts run))) (\<lambda>scripts.
          Inr \<lparr>rc_defaults = defaults, rc_explicit_defaults = (rs_defaults run \<noteq> None), rc_scripts = bm_of_list scripts\<rparr>)))))"

definition configured_defaults :: "run_config \<Rightarrow> sandbox_policy option" where
  "configured_defaults config = (if rc_explicit_defaults config then Some (rc_defaults config) else None)"

definition exact_profile :: "run_config \<Rightarrow> string \<Rightarrow> sandbox_policy option" where
  "exact_profile config script = bm_get (rc_scripts config) script"

definition profile_for :: "run_config \<Rightarrow> string \<Rightarrow> sandbox_policy" where
  "profile_for config script = unwrap_or (rc_defaults config) (bm_get (rc_scripts config) script)"

section \<open>What a policy promises\<close>

text \<open>
  A grant names the project itself or a path below it, component by component: no component is empty,
  a dot or a parent component, ends with a dot or a space, or means something else on Windows.
\<close>

definition portable_name :: "string \<Rightarrow> bool" where
  "portable_name c \<longleftrightarrow> c \<noteq> [] \<and> last c \<notin> {CHR ''.'', CHR '' ''} \<and> \<not> any_control c \<and>
     set c \<inter> forbidden_chars = {} \<and> \<not> is_windows_reserved_component c"

definition portable_grant :: "string \<Rightarrow> bool" where
  "portable_grant g \<longleftrightarrow> length g \<le> MAX_STRING_BYTES \<and> (g = ''.'' \<or> list_all portable_name (split_char (CHR ''/'') g))"

definition limits_ok :: "execution_limits \<Rightarrow> bool" where
  "limits_ok l \<longleftrightarrow> Some 0 \<notin> {el_timeout_seconds l, el_max_output_bytes l, el_max_processes l, el_max_memory_bytes l} \<and>
     (case el_max_processes l of None \<Rightarrow> True | Some p \<Rightarrow> p < 2 ^ 32)"

definition policy_ok :: "sandbox_policy \<Rightarrow> bool" where
  "policy_ok p \<longleftrightarrow> sb_mode p = Sandbox_Required \<and>
     length (fp_read (sb_filesystem p) @ fp_write (sb_filesystem p)) \<le> MAX_GRANT_COUNT \<and>
     list_all portable_grant (fp_read (sb_filesystem p) @ fp_write (sb_filesystem p)) \<and>
     length (sb_environment p) \<le> MAX_ENVIRONMENT_COUNT \<and>
     list_all (\<lambda>n. environment_name_ok n \<and> length n \<le> MAX_STRING_BYTES) (sb_environment p) \<and> limits_ok (sb_limits p)"

text \<open>The settings of a profile in place of those of a policy, field by field.\<close>

definition overlay :: "raw_profile \<Rightarrow> sandbox_policy \<Rightarrow> sandbox_policy" where
  "overlay raw p =
     \<lparr>sb_mode = sb_mode p, sb_assurance = unwrap_or (sb_assurance p) (rw_assurance raw),
      sb_filesystem = \<lparr>fp_read = unwrap_or (fp_read (sb_filesystem p)) (rw_read raw),
        fp_write = unwrap_or (fp_write (sb_filesystem p)) (rw_write raw)\<rparr>,
      sb_network = unwrap_or (sb_network p) (rw_network raw),
      sb_environment = unwrap_or (sb_environment p) (rw_environment raw),
      sb_subprocess = unwrap_or (sb_subprocess p) (rw_subprocess raw),
      sb_limits = \<lparr>el_timeout_seconds = option_or (rw_timeout_seconds raw) (el_timeout_seconds (sb_limits p)),
        el_max_output_bytes = option_or (rw_max_output_bytes raw) (el_max_output_bytes (sb_limits p)),
        el_max_processes = option_or (rw_max_processes raw) (el_max_processes (sb_limits p)),
        el_max_memory_bytes = option_or (rw_max_memory_bytes raw) (el_max_memory_bytes (sb_limits p))\<rparr>\<rparr>"

definition resolved_config :: "run_section \<Rightarrow> run_config" where
  "resolved_config run =
     (let defaults = overlay (unwrap_or raw_profile_default (rs_defaults run)) sandbox_policy_default in
      \<lparr>rc_defaults = defaults, rc_explicit_defaults = (rs_defaults run \<noteq> None),
       rc_scripts = bm_map_values (\<lambda>raw. overlay raw defaults) (rs_scripts run)\<rparr>)"

section \<open>Facts\<close>

lemma ends_with_last: "ends_with [x] c \<longleftrightarrow> c \<noteq> [] \<and> last c = x"
  by (cases c rule: rev_cases) (auto simp: ends_with_def suffix_def)

lemma split_char_chars: "x \<in> set g \<Longrightarrow> x = d \<or> (\<exists>p \<in> set (split_char d g). x \<in> set p)"
  by (induction g) (auto split: list.splits)

lemma portable_name_valid: "portable_name c \<Longrightarrow> \<not> invalid_component value c"
  by (auto simp: portable_name_def invalid_component_def ends_with_last list_ex_iff)

lemma valid_portable_name: "\<not> invalid_component value c \<Longrightarrow> value \<noteq> ''.'' \<Longrightarrow> portable_name c"
  by (auto simp: portable_name_def invalid_component_def ends_with_last list_ex_iff)

lemma portable_names_relative:
  assumes "list_all portable_name (split_char (CHR ''/'') g)"
  shows "g \<noteq> [] \<and> \<not> path_absolute (path_of g) \<and> \<not> windows_absolute g \<and> \<not> has_parent_dir (path_of g) \<and>
    path_names (path_of g) = split_char (CHR ''/'') g"
proof -
  let ?s = "split_char (CHR ''/'') g"
  have names: "c \<noteq> []" "c \<noteq> ''.''" "c \<noteq> ''..''" if "c \<in> set ?s" for c
    using assms that by (auto simp: list_all_iff portable_name_def)
  have allowed: "x \<notin> forbidden_chars" if "x \<in> set g" for x
    using split_char_chars [OF that, of "CHR ''/''"] assms by (auto simp: list_all_iff portable_name_def forbidden_chars_def)
  have g: "g \<noteq> []" using names(1) [of "[]"] by auto
  have "\<not> prefix ''/'' g" using names(1) [of "[]"] by (auto simp: prefix_def)
  moreover have "hd g \<noteq> CHR 0x5C" using allowed [of "hd g"] g by (auto simp: forbidden_chars_def)
  moreover have "g ! 1 \<noteq> CHR '':''" if "2 \<le> length g" using allowed [of "g ! 1"] that by (auto simp: forbidden_chars_def)
  ultimately have "\<not> windows_absolute g" "\<not> path_absolute (path_of g)" using g
    by (auto simp: windows_absolute_def path_of_def prefix_def)
  moreover have "names_of g = ?s" unfolding names_of_def by (rule filter_True) (use names in blast)
  ultimately show ?thesis using g names(3) by (auto simp: has_parent_dir_def path_of_def)
qed

lemma validate_project_path_Inr:
  "validate_project_path T g = Inr () \<longleftrightarrow> g = ''.'' \<or> list_all portable_name (split_char (CHR ''/'') g)"
proof (cases "g = ''.''")
  case True
  have "\<not> invalid_component ''.'' ''.''" by code_simp
  then show ?thesis using True by (simp add: validate_project_path_def windows_absolute_def has_parent_dir_def path_of_def names_of_def)
next
  case False
  show ?thesis
  proof
    assume "validate_project_path T g = Inr ()"
    then have "\<forall>c \<in> set (split_char (CHR ''/'') g). \<not> invalid_component g c"
      unfolding validate_project_path_def if_Inl_Inr list_ex_iff by blast
    then show "g = ''.'' \<or> list_all portable_name (split_char (CHR ''/'') g)"
      using valid_portable_name False unfolding list_all_iff by blast
  next
    assume "g = ''.'' \<or> list_all portable_name (split_char (CHR ''/'') g)"
    then have ok: "list_all portable_name (split_char (CHR ''/'') g)" using False by simp
    then have "\<not> list_ex (invalid_component g) (split_char (CHR ''/'') g)"
      using portable_name_valid by (auto simp: list_ex_iff list_all_iff)
    with portable_names_relative [OF ok] show "validate_project_path T g = Inr ()" by (simp add: validate_project_path_def)
  qed
qed

lemma filesystem_policy_new_Inr:
  "filesystem_policy_new T r w = Inr f \<longleftrightarrow> f = \<lparr>fp_read = r, fp_write = w\<rparr> \<and> length (r @ w) \<le> MAX_GRANT_COUNT \<and>
     list_all portable_grant (r @ w)"
  unfolding filesystem_policy_new_def if_Inl_Inr and_then_Inr for_each_Inr validate_string_length_def validate_project_path_Inr
    portable_grant_def list_all_iff not_less [symmetric]
  by auto

lemma validate_environment_Inr:
  "validate_environment T env = Inr () \<longleftrightarrow> length env \<le> MAX_ENVIRONMENT_COUNT \<and>
     list_all (\<lambda>n. environment_name_ok n \<and> length n \<le> MAX_STRING_BYTES) env"
  unfolding validate_environment_def if_Inl_Inr and_then_Inr for_each_Inr validate_string_length_def
    validate_environment_name_def list_all_iff not_less [symmetric]
  by auto

lemma execution_limits_new_Inr:
  "execution_limits_new t b p m = Inr l \<longleftrightarrow> Some 0 \<notin> {t, b, p, m} \<and>
     l = \<lparr>el_timeout_seconds = t, el_max_output_bytes = b, el_max_processes = p, el_max_memory_bytes = m\<rparr>"
  unfolding execution_limits_new_def nonzero_def if_Inl_Inr and_then_Inr by auto

text \<open>Applying a profile succeeds exactly when the overlaid policy keeps its promises.\<close>

lemma apply_profile_Inr:
  assumes "policy_ok p"
  shows "apply_profile T p raw = Inr q \<longleftrightarrow> q = overlay raw p \<and> policy_ok q"
proof -
  have env: "(case rw_environment raw of None \<Rightarrow> Inr (sb_environment p)
      | Some e \<Rightarrow> and_then (validate_environment T e) (\<lambda>_. Inr e)) = Inr e \<longleftrightarrow>
      e = unwrap_or (sb_environment p) (rw_environment raw) \<and> length e \<le> MAX_ENVIRONMENT_COUNT \<and>
      list_all (\<lambda>n. environment_name_ok n \<and> length n \<le> MAX_STRING_BYTES) e" for e
    using assms by (auto simp: policy_ok_def unwrap_or_def and_then_Inr validate_environment_Inr split: option.splits)
  have procs: "(case rw_max_processes raw of None \<Rightarrow> Inr (el_max_processes (sb_limits p))
      | Some v \<Rightarrow> if 2 ^ 32 \<le> v then Inl (invalid_limit ''max_processes'' ''must fit in an unsigned 32-bit integer'') else Inr (Some v)) = Inr n \<longleftrightarrow>
      n = option_or (rw_max_processes raw) (el_max_processes (sb_limits p)) \<and> (case n of None \<Rightarrow> True | Some v \<Rightarrow> v < 2 ^ 32)" for n
    using assms by (auto simp: policy_ok_def limits_ok_def option_or_def split: option.splits)
  show ?thesis
    unfolding apply_profile_def and_then_Inr filesystem_policy_new_Inr env procs execution_limits_new_Inr
    using assms by (auto simp: overlay_def policy_ok_def limits_ok_def)
qed

lemma apply_profiles_Inr:
  assumes "policy_ok d"
  shows "apply_profiles T d es = Inr ps \<longleftrightarrow> ps = map (\<lambda>e. (fst e, overlay (snd e) d)) es \<and> list_all (\<lambda>e. policy_ok (overlay (snd e) d)) es"
proof (induction es arbitrary: ps)
  case (Cons e es)
  obtain n raw where e: "e = (n, raw)" by (cases e)
  have "apply_profiles T d (e # es) = Inr ps \<longleftrightarrow> policy_ok (overlay raw d) \<and>
      (\<exists>qs. apply_profiles T d es = Inr qs \<and> ps = (n, overlay raw d) # qs)"
    unfolding e apply_profiles.simps and_then_Inr apply_profile_Inr [OF assms] by auto
  then show ?case unfolding Cons.IH e list.map list.pred_inject fst_conv snd_conv by blast
qed auto

lemma default_policy_ok: "policy_ok sandbox_policy_default"
  by code_simp

lemma portable_grant_contained:
  assumes "portable_grant g"
  shows "path_starts_with (path_push root g) root \<and> \<not> has_parent_dir (path_of g)"
proof (cases "g = ''.''")
  case True
  then show ?thesis by (simp add: path_push_def path_of_def names_of_def path_starts_with_def has_parent_dir_def)
next
  case False
  with assms portable_names_relative [of g] show ?thesis
    by (simp add: portable_grant_def path_push_def path_starts_with_def)
qed

lemma resolved_values:
  "bm_values (rc_scripts (resolved_config run)) = map (\<lambda>e. overlay (snd e) (rc_defaults (resolved_config run))) (bm_entries (rs_scripts run))"
  by (simp add: resolved_config_def Let_def bm_values_def bm_entries_map_values comp_def)

text \<open>The defaults and the profiles of a document, applied in turn.\<close>

lemma apply_policies_Inr:
  "(\<exists>d. apply_profile T sandbox_policy_default (unwrap_or raw_profile_default (rs_defaults run)) = Inr d \<and>
     (\<exists>ps. apply_profiles T d (bm_entries (rs_scripts run)) = Inr ps \<and>
       Inr \<lparr>rc_defaults = d, rc_explicit_defaults = (rs_defaults run \<noteq> None), rc_scripts = bm_of_list ps\<rparr> = (Inr config :: (config_error, run_config) result))) \<longleftrightarrow>
   config = resolved_config run \<and> list_all policy_ok (rc_defaults config # bm_values (rc_scripts config))"
  (is "?l \<longleftrightarrow> ?r")
proof -
  let ?d = "rc_defaults (resolved_config run)" and ?es = "bm_entries (rs_scripts run)"
  let ?ps = "map (\<lambda>e. (fst e, overlay (snd e) ?d)) ?es"
  have d: "overlay (unwrap_or raw_profile_default (rs_defaults run)) sandbox_policy_default = ?d"
    by (simp add: resolved_config_def Let_def)
  have "bm_of_list ?ps = bm_map_values (\<lambda>raw. overlay raw ?d) (rs_scripts run)"
    using bm_of_list_entries [of "bm_map_values (\<lambda>raw. overlay raw ?d) (rs_scripts run)"] by (simp only: bm_entries_map_values)
  then have config: "\<lparr>rc_defaults = ?d, rc_explicit_defaults = (rs_defaults run \<noteq> None), rc_scripts = bm_of_list ?ps\<rparr> = resolved_config run"
    by (simp add: resolved_config_def Let_def)
  have "?l \<longleftrightarrow> policy_ok ?d \<and> (\<exists>ps. apply_profiles T ?d ?es = Inr ps \<and>
      config = \<lparr>rc_defaults = ?d, rc_explicit_defaults = (rs_defaults run \<noteq> None), rc_scripts = bm_of_list ps\<rparr>)"
    unfolding apply_profile_Inr [OF default_policy_ok] d by auto
  also have "\<dots> \<longleftrightarrow> policy_ok ?d \<and> list_all (\<lambda>e. policy_ok (overlay (snd e) ?d)) ?es \<and> config = resolved_config run"
  proof (cases "policy_ok ?d")
    case True
    have "(\<exists>ps. apply_profiles T ?d ?es = Inr ps \<and>
          config = \<lparr>rc_defaults = ?d, rc_explicit_defaults = (rs_defaults run \<noteq> None), rc_scripts = bm_of_list ps\<rparr>) \<longleftrightarrow>
        list_all (\<lambda>e. policy_ok (overlay (snd e) ?d)) ?es \<and>
        config = \<lparr>rc_defaults = ?d, rc_explicit_defaults = (rs_defaults run \<noteq> None), rc_scripts = bm_of_list ?ps\<rparr>"
      unfolding apply_profiles_Inr [OF True] by blast
    then show ?thesis unfolding config using True by blast
  qed blast
  also have "\<dots> \<longleftrightarrow> ?r" by (cases "config = resolved_config run") (simp_all add: resolved_values list.pred_map comp_def)
  finally show ?thesis .
qed

section \<open>Property\<close>

text \<open>
  C38. Run configurations. A configuration is accepted exactly when it is within the limits and every
  policy that results keeps its promises; the defaults are the built-in policy with the settings of
  the document in place, and a script's policy is the defaults with the settings of its profile.
  The policy of every script requires the sandbox, and grants only paths inside the project.
\<close>

theorem run_config_exact:
  "(parse_toml_bytes T input = Inr config \<longleftrightarrow>
     length input \<le> MAX_CONFIG_BYTES \<and> utf8_valid input \<and>
     (\<exists>run. tt_from_str T input = Inr run \<and> bm_len (rs_scripts run) \<le> MAX_PROFILE_COUNT \<and>
       list_all (\<lambda>n. length n \<le> MAX_STRING_BYTES) (bm_keys (rs_scripts run)) \<and>
       config = resolved_config run \<and> list_all policy_ok (rc_defaults config # bm_values (rc_scripts config)))) \<and>
   (parse_toml_bytes T input = Inr config \<longrightarrow>
     sb_mode (profile_for config script) = Sandbox_Required \<and>
     list_all (\<lambda>g. path_starts_with (path_push root g) root \<and> \<not> has_parent_dir (path_of g))
       (fp_read (sb_filesystem (profile_for config script)) @ fp_write (sb_filesystem (profile_for config script))))"
proof (intro conjI impI)
  show iff: "parse_toml_bytes T input = Inr config \<longleftrightarrow>
     length input \<le> MAX_CONFIG_BYTES \<and> utf8_valid input \<and>
     (\<exists>run. tt_from_str T input = Inr run \<and> bm_len (rs_scripts run) \<le> MAX_PROFILE_COUNT \<and>
       list_all (\<lambda>n. length n \<le> MAX_STRING_BYTES) (bm_keys (rs_scripts run)) \<and>
       config = resolved_config run \<and> list_all policy_ok (rc_defaults config # bm_values (rc_scripts config)))"
    unfolding parse_toml_bytes_def if_Inl_Inr and_then_Inr map_err_Inr for_each_Inr validate_string_length_def list_all_iff [of _ "bm_keys _"]
      apply_policies_Inr not_less
    by auto
  assume "parse_toml_bytes T input = Inr config"
  with iff have "list_all policy_ok (rc_defaults config # bm_values (rc_scripts config))" by blast
  then have "policy_ok (profile_for config script)"
    by (auto simp: profile_for_def unwrap_or_def list_all_iff set_bm_values ran_def split: option.splits)
  then show "sb_mode (profile_for config script) = Sandbox_Required"
    "list_all (\<lambda>g. path_starts_with (path_push root g) root \<and> \<not> has_parent_dir (path_of g))
       (fp_read (sb_filesystem (profile_for config script)) @ fp_write (sb_filesystem (profile_for config script)))"
    using portable_grant_contained by (simp_all add: policy_ok_def list_all_iff ball_Un)
qed

definition sample_toml :: toml_text where
  "sample_toml = \<lparr>tt_from_str = (\<lambda>_. Inr \<lparr>rs_defaults = Some (raw_profile_default\<lparr>rw_network := Some True\<rparr>),
     rs_scripts = bm_of_list [(''test'', raw_profile_default\<lparr>rw_write := Some [''build/out''], rw_max_processes := Some 8\<rparr>)]\<rparr>),
     tt_utf8_error = id, tt_debug = id\<rparr>"

theorem run_config_exact_witness:
  "\<exists>config. parse_toml_bytes sample_toml ''run'' = Inr config \<and> sb_mode (profile_for config ''test'') = Sandbox_Required \<and>
     fp_write (sb_filesystem (profile_for config ''test'')) = [''build/out''] \<and> sb_network (profile_for config ''test'')"
proof -
  have "case parse_toml_bytes sample_toml ''run'' of Inl _ \<Rightarrow> False
     | Inr config \<Rightarrow> fp_write (sb_filesystem (profile_for config ''test'')) = [''build/out''] \<and> sb_network (profile_for config ''test'')"
    by code_simp
  then obtain config where "parse_toml_bytes sample_toml ''run'' = Inr config"
    "fp_write (sb_filesystem (profile_for config ''test'')) = [''build/out'']" "sb_network (profile_for config ''test'')"
    by (auto split: sum.splits)
  with run_config_exact [of sample_toml "''run''" config "''test''"] show ?thesis by blast
qed

end
