(* ===== verification/Spec2Isabelle.thy ===== *)
theory Spec2Isabelle
  imports Core_Properties Requirement_Facts Resolver_Properties Lockfile_Properties Linker_Order Why_Properties Tree_Properties
    Inspection_Properties Workspace_Properties Security_Properties Attestation_Claims Runner_Plan Runner_Config
begin

text \<open>
  Tapid is a package manager for JavaScript projects, written in Rust as a workspace of
  crates (\<open>src/crates/\<close>). An install reads the manifest of a project, asks registries for
  the metadata of packages, resolves the requirements to a graph of exact versions, records
  the graph in a lockfile, and lays the packages out in \<open>node_modules\<close>. The decisions are
  made by crates without side effects; the command line, the network, the content store
  and the sandboxed runner carry them out. This development models the deciding crates, and
  the archive crate that unpacks and digests packages, function by function and proves what
  makes them correct.

  \<^bold>\<open>How Rust is read.\<close> A \<open>Result\<close> is a sum with the error on the left and \<open>and_then\<close> is
  the question-mark operator. A \<open>str\<close> is its UTF-8 bytes. Structs are records, or datatypes
  where they derive \<open>Ord\<close>, with the derived lexicographic order as a \<open>linorder\<close> instance.
  \<open>u64\<close> is a 64-bit word with checked operations; \<open>usize\<close> counters are naturals with
  the limits of the source written out. Loops are recursive functions over the same mutable
  variables, collected in a record; an \<open>expect\<close> or an index that may fail is an error
  constructor of its own, so that its absence is a theorem. Third-party code (\<open>semver\<close>,
  \<open>url\<close>, \<open>base64\<close>, \<open>serde_json\<close>, SHA-256) is an argument of the definitions that
  call it, with its documented behaviour as named contracts; \<open>Reference_Crates\<close> gives concrete
  functions that satisfy the contracts, and every witness runs on them.

  \<^bold>\<open>Prelude.\<close>
  \<^item> \<open>Rust_Str\<close>: results, bytes and UTF-8, the string methods the program calls, decimal and
    hexadecimal text, checked arithmetic; collections of simplification rules.
  \<^item> \<open>Rust_Collections\<close>: \<open>BTreeMap\<close> and \<open>BTreeSet\<close> as a type of sorted
    duplicate-free entry lists, \<open>sort\<close> and \<open>dedup\<close>; the contract \<open>ordered_map\<close>.
  \<^item> \<open>Rust_Path\<close>: \<open>std::path\<close> on Unix, by components.
  \<^item> \<open>File_Tree\<close>: a directory tree with the calls of \<open>std::fs\<close> made below one directory.
  \<^item> \<open>Crates\<close>, \<open>Reference_Crates\<close>: third-party functions, their contracts, an instance.

  \<^bold>\<open>Value objects\<close> (\<open>tapid-core\<close>: \<open>lib.rs\<close>, \<open>source.rs\<close>, \<open>platform.rs\<close>,
  \<open>artifact_url.rs\<close>; \<open>tapid-registry-client/src/models.rs\<close>). \<open>Core_Types\<close> has the parsers
  and printers of names, versions, digests, integrities, registry origins, package sources
  and contexts, and the platform constraints; \<open>Registry_Models\<close> the normalization of a
  registry snapshot. \<open>Core_Facts\<close> and \<open>Core_Properties\<close> show that accepted values are
  exactly those of a declarative grammar, that they are canonical, that a package name and a
  file source cannot leave their directory, and when a package is installed on a host.

  \<^bold>\<open>Requirements and resolver\<close> (\<open>tapid-resolver/src/lib.rs\<close>). \<open>Requirement\<close> parses npm
  ranges and decides which versions match; \<open>Requirement_Facts\<close> proves caret and wildcard
  ranges against the rules npm documents, exact versions, pre-releases and the canonical text.
  \<open>Resolver\<close> validates and normalizes metadata within the resource limits, selects
  candidates, and builds the graph with a worklist; the registry that serves a name is a
  function argument (\<open>route\<close>), as the callback in the source is. \<open>Resolver_Facts\<close> has the
  interface \<open>worklist_invariant\<close> of a predicate that the worklist keeps, interpreted for the
  shape of the graph, for reachability and for missing packages. \<open>Resolver_Properties\<close>: the
  result is closed under dependencies, satisfies the manifest, binds peers, is reachable from
  the roots and sorted, does not depend on the order of the manifest, never panics, and
  reports exactly the missing metadata; selection is optimal and complete.

  \<^bold>\<open>Lockfile\<close> (\<open>tapid-lockfile/src/model.rs\<close>, \<open>validation.rs\<close>). \<open>Lockfile_Keys\<close> has
  the textual contexts, workspace sources and package keys; \<open>Lockfile\<close> the locked packages
  and the operations on a lockfile, reading and writing. \<open>Lockfile_Key_Facts\<close> proves the
  round trips of the texts; \<open>Lockfile_Facts\<close> the invariant that every operation keeps and
  reading checks, with the interface \<open>keyed_batch\<close> for the two insertion loops;
  \<open>Lockfile_Properties\<close> that built lockfiles are valid and closed, that accepted ones are,
  that writing and reading is the identity, what insertion adds and when replay is accepted.

  \<^bold>\<open>Inspection\<close> (\<open>tapid-lockfile/src/inspection.rs\<close>, \<open>inspection/preflight.rs\<close>,
  \<open>inspection/comparison.rs\<close>). \<open>Inspection\<close> reads a snapshot from bytes within its limits,
  takes its inventory and selects a scope; \<open>Comparison\<close> compares two native snapshots. A map
  index or an \<open>expect\<close> that could fail is \<open>None\<close>. \<open>Inspection_Facts\<close>,
  \<open>Comparison_Facts\<close> and \<open>Inspection_Properties\<close>: the inventory of an accepted snapshot
  exists and lists exactly its packages and relationships, and a comparison reports exactly
  the instances, selections and evidence in which two snapshots differ.

  \<^bold>\<open>Layout\<close> (\<open>tapid-linker\<close>: \<open>layout.rs\<close>, \<open>workspace.rs\<close>, \<open>platform.rs\<close>).
  \<open>Linker\<close> has the data, the storage paths and the flat plan; \<open>Linker_Layout\<close> the
  nested plan that hoists packages breadth first, and the workspace links. \<open>Linker_Facts\<close>
  has the interfaces \<open>placement_loop\<close> and \<open>layout_invariant\<close> of what the two loops keep,
  interpreted for containment, readiness, resolution and growth; \<open>Linker_Storage\<close> the storage
  paths. \<open>Linker_Properties\<close> and \<open>Linker_Order\<close>: plans stay inside the project, every
  dependency of a conflict-free layout resolves to the selected instance, the planner does
  not panic, its result does not depend on the order of its input, workspace links are
  accepted, and storage paths separate packages. A concrete graph shows that with two versions
  of a package the planner may shadow a dependency it had already found resolved.

  \<^bold>\<open>Explanations\<close> (\<open>tapid-cli/src/application/why.rs\<close>). \<open>Why\<close> builds the graph of a
  lockfile with its dependency and peer edges and searches the paths to a package, depth first
  within the limits of the source. \<open>Why_Facts\<close> and \<open>Why_Properties\<close>: the graph of every
  valid lockfile is built and is closed, and the answer has exactly the simple paths from the
  direct dependencies unless it says that it was cut off.

  \<^bold>\<open>Archives and trees\<close> (\<open>tapid-archive\<close>: \<open>lib.rs\<close>, \<open>tree_validation.rs\<close>).
  \<open>Archive\<close> has the validator of entries by metadata, \<open>Archive_Extract\<close> the bounded
  validation passes and extraction, \<open>Tree_Digest\<close> the digest of a directory tree and the
  validation of generated trees. The tar reader is a parameter: a step function of its own
  state that gets the budget of bytes for one advance, and the list an unbounded pass yields.
  The order of directory listings and the pieces of reads are parameters too. \<open>Archive_Facts\<close>
  has the invariant of the validator and what an accepting pass has seen; \<open>Extract_Facts\<close> the
  tree after each entry; \<open>Tree_Facts\<close> the interface \<open>tree_walk\<close> of a preorder
  traversal, interpreted for the digest and (\<open>Generated_Facts\<close>) for the validation of trees;
  \<open>Digest_Facts\<close> the framing; \<open>Manifest_Facts\<close> the manifest of executable paths.
  \<open>Archive_Properties\<close> and \<open>Tree_Properties\<close>: accepted archives are portable and bounded,
  extraction writes exactly the entries inside the destination and within the limits, the
  digest is a function of the tree that identifies it, and extracted or validated trees have one.

  \<^bold>\<open>Manifests and workspaces\<close> (\<open>tapid-manifest\<close>: \<open>model.rs\<close>, \<open>parse.rs\<close>, \<open>error.rs\<close>,
  \<open>lifecycle.rs\<close>, \<open>workspace.rs\<close>). \<open>Json_Value\<close> has the documents of \<open>serde_json\<close> with its
  reader and printer as a parameter; \<open>Package_Manifest\<close> parses, edits and prints a manifest, explains
  a failed parse and plans the lifecycle scripts; \<open>Workspace\<close> finds the members of a workspace
  within the budgets of candidates and steps, with the answers of the operating system as a record of
  functions. \<open>Package_Manifest_Facts\<close>, \<open>Package_Manifest_Document\<close> and
  \<open>Package_Manifest_Properties\<close>: what parsing accepts, when a printed manifest reads back, what an
  edit changes, where command targets lie, that a diagnostic names the value at fault, and which
  scripts run in which order. \<open>Workspace_Facts\<close> and \<open>Workspace_Properties\<close>: members lie inside
  the project under distinct names, and budgets change nothing but a refusal.

  \<^bold>\<open>Signatures and evidence\<close> (\<open>tapid-signatures\<close>: \<open>lib.rs\<close>, \<open>release.rs\<close>;
  \<open>tapid-protocol\<close>: \<open>lib.rs\<close>, \<open>security.rs\<close>; \<open>tapid-attestations\<close>: \<open>lib.rs\<close>,
  \<open>security.rs\<close>; \<open>tapid-transparency\<close>). \<open>Signatures\<close> has key rings, envelopes and release
  manifests over a record of the cryptographic functions; \<open>Security\<close> the requests and results of
  security evidence and its verification; \<open>Attestation_Claims\<close> claims and inclusion records.
  \<open>Signature_Properties\<close> and \<open>Security_Properties\<close>: what was signed verifies, an accepted
  signature fixes every field of the envelope, and accepted evidence answers the request, is
  current and was signed by a key trusted for the issuer.

  \<^bold>\<open>Policy and approvals\<close> (\<open>tapid-policy\<close>, \<open>tapid-runner\<close>: \<open>lib.rs\<close>, \<open>config.rs\<close>).
  \<open>Policy\<close> decides from evidence on capabilities, monotonically; \<open>Runner_Plan\<close> plans a script and
  checks approvals: a script that is let through is the planned one. \<open>Runner_Config\<close> reads the run
  configuration: every script gets the defaults overlaid with its profile, in a required sandbox
  with portable grants inside the project.

  \<^bold>\<open>Termination.\<close> No definition uses fuel. The worklist of the resolver ends because a pass
  selects a package of the finite index or shortens the queue. The placement loop of the layout
  ends because what a pass queues carries a lineage with one more lookup state, of which
  there are finitely many for the instances at hand; the weight of a queued item is a power
  of the number of children to the number of states left. The path search nests at most as
  deep as the limit of the source, which is its measure. The validation pass over an archive
  ends for every reader, because each advance counts an entry against the limit or is the one
  comment; the walks of a tree end at its depth, and the hashing of a file with its length.

  \<^bold>\<open>Not modelled.\<close> \<open>Display\<close> of most errors. Windows paths. Other writers of the file system, and its
  failures except in the discovery of workspaces. The JSON that \<open>serde\<close> derives for policy
  decisions and for the account and publication messages of \<open>tapid-protocol\<close>. Import of
  \<open>package-lock.json\<close> and the inspection of imported snapshots. Shims
  (\<open>tapid-linker/src/shims.rs\<close>), which read file types and script headers. The store, the registry
  transport, the release client and publishing, whose work is input and output. The execution of
  scripts by the runner, whose work is operating-system calls. The rest of the command line, which
  orchestrates these; for \<open>why\<close>, how the direct dependencies are read from manifests.
\<close>

end
